(* ===== verification/Cosmos_Prelude.thy ===== *)
theory Cosmos_Prelude
  imports Main "HOL-Library.Word" "HOL-Library.Monad_Syntax" "HOL-Library.State_Monad"
begin

text \<open>
  Shared vocabulary of the development: the machine integer types of the sources
  (\<open>schneider_lang.h\<close> spells them \<open>_184\<close>, \<open>_182\<close>, \<open>_89\<close> and \<open>_94\<close>), byte-addressed
  memory with little-endian access, C strings, the lookup of the first free slot of a
  table, and the generic lemmas on words and lists that the components share.
\<close>

unbundle bit_operations_syntax

named_theorems mem_simps \<open>reads and writes of byte-addressed memory\<close>
named_theorems status_simps \<open>effect of an operation on the status line\<close>

subsection \<open>Machine integers\<close>

type_synonym u8 = "8 word"
type_synonym u16 = "16 word"
type_synonym u32 = "32 word"
type_synonym u64 = "64 word"

text \<open>Memory seen through a C pointer: the byte at every offset.\<close>

type_synonym mem = "nat \<Rightarrow> u8"

definition rd16 :: "mem \<Rightarrow> nat \<Rightarrow> u16" where
  "rd16 m a = ucast (m a) OR push_bit 8 (ucast (m (a + 1)))"

definition rd32 :: "mem \<Rightarrow> nat \<Rightarrow> u32" where
  "rd32 m a = ucast (m a) OR push_bit 8 (ucast (m (a + 1)))
     OR push_bit 16 (ucast (m (a + 2))) OR push_bit 24 (ucast (m (a + 3)))"

definition rd64 :: "mem \<Rightarrow> nat \<Rightarrow> u64" where
  "rd64 m a = ucast (rd32 m a) OR push_bit 32 (ucast (rd32 m (a + 4)))"

definition wr8 :: "nat \<Rightarrow> u8 \<Rightarrow> mem \<Rightarrow> mem" where
  "wr8 a v m = m(a := v)"

definition wr16 :: "nat \<Rightarrow> u16 \<Rightarrow> mem \<Rightarrow> mem" where
  "wr16 a v m = m(a := ucast v, a + 1 := ucast (drop_bit 8 v))"

definition wr32 :: "nat \<Rightarrow> u32 \<Rightarrow> mem \<Rightarrow> mem" where
  "wr32 a v m = m(a := ucast v, a + 1 := ucast (drop_bit 8 v),
     a + 2 := ucast (drop_bit 16 v), a + 3 := ucast (drop_bit 24 v))"

definition wr64 :: "nat \<Rightarrow> u64 \<Rightarrow> mem \<Rightarrow> mem" where
  "wr64 a v m = wr32 (a + 4) (ucast (drop_bit 32 v)) (wr32 a (ucast v) m)"

text \<open>A run of \<open>n\<close> bytes set to zero, the loop the sources clear every buffer with.\<close>

definition zero_fill :: "nat \<Rightarrow> nat \<Rightarrow> mem \<Rightarrow> mem" where
  "zero_fill a n m = (\<lambda>i. if a \<le> i \<and> i < a + n then 0 else m i)"

text \<open>A byte list stored at an address, and the bytes stored there read back.\<close>

definition wr_bytes :: "nat \<Rightarrow> u8 list \<Rightarrow> mem \<Rightarrow> mem" where
  "wr_bytes a bs m = (\<lambda>i. if a \<le> i \<and> i < a + length bs then bs ! (i - a) else m i)"

definition rd_bytes :: "mem \<Rightarrow> nat \<Rightarrow> nat \<Rightarrow> u8 list" where
  "rd_bytes m a n = map (\<lambda>i. m (a + i)) [0..<n]"

text \<open>The loop \<open>for (i = 0; i < n; i++) dst[i] = src[i]\<close>, in order.\<close>

fun mem_copy :: "nat \<Rightarrow> nat \<Rightarrow> nat \<Rightarrow> mem \<Rightarrow> mem" where
  "mem_copy 0 dst src m = m"
| "mem_copy (Suc n) dst src m = mem_copy n (dst + 1) (src + 1) (m(dst := m src))"

lemma mem_copy_result:
  "dst \<le> src \<or> src + n \<le> dst \<Longrightarrow>
   mem_copy n dst src m = (\<lambda>i. if dst \<le> i \<and> i < dst + n then m (src + (i - dst)) else m i)"
proof (induction n arbitrary: dst src m)
  case (Suc n)
  let ?m = "m(dst := m src)"
  have "mem_copy n (dst + 1) (src + 1) ?m =
      (\<lambda>i. if dst + 1 \<le> i \<and> i < dst + 1 + n then ?m (src + 1 + (i - (dst + 1))) else ?m i)"
    using Suc.prems by (intro Suc.IH) auto
  moreover have "?m (src + 1 + (i - (dst + 1))) = m (src + (i - dst))" if "dst + 1 \<le> i" "i < dst + 1 + n" for i
  proof -
    have "src + 1 + (i - (dst + 1)) = src + (i - dst)" "src + (i - dst) \<noteq> dst"
      using that Suc.prems by auto
    then show ?thesis by (metis fun_upd_other)
  qed
  ultimately show ?case by (auto simp: fun_eq_iff)
qed (auto simp: fun_eq_iff)

lemma mem_copy_other: "i < dst \<or> dst + n \<le> i \<Longrightarrow> mem_copy n dst src m i = m i"
  by (induction n arbitrary: dst src m) auto

lemma unat_word_of_nat: "n < 2 ^ LENGTH('a) \<Longrightarrow> unat (word_of_nat n :: 'a::len word) = n"
  by (simp add: unsigned_of_nat take_bit_nat_eq_self)

lemma xor_eq_self_iff: "(a :: 'a::len word) XOR b = a \<longleftrightarrow> b = 0"
proof
  assume "a XOR b = a"
  then have "a XOR (a XOR b) = a XOR a" by (rule arg_cong)
  then show "b = 0" by (simp only: xor.assoc [symmetric] xor_self_eq xor.left_neutral)
qed simp

lemma xor_eq_zero_iff: "(a :: 'a::len word) XOR b = 0 \<longleftrightarrow> a = b"
proof
  assume "a XOR b = 0"
  then have "(a XOR b) XOR b = 0 XOR b" by (rule arg_cong)
  then show "a = b" by (simp only: xor.assoc xor_self_eq xor.left_neutral xor.right_neutral)
qed simp

lemma rd16_wr16 [mem_simps, simp]: "rd16 (wr16 a v m) a = v"
  by (rule bit_word_eqI) (auto simp: rd16_def wr16_def bit_simps)

lemma rd32_wr32 [mem_simps, simp]: "rd32 (wr32 a v m) a = v"
proof (rule bit_word_eqI)
  fix n
  assume n: "n < LENGTH(32)"
  consider "n < 8" | "8 \<le> n" "n < 16" | "16 \<le> n" "n < 24" | "24 \<le> n" "n < 32"
    using n by fastforce
  then show "bit (rd32 (wr32 a v m) a) n = bit v n"
    by cases (auto simp: rd32_def wr32_def bit_simps)
qed

lemma rd32_wr32_other [mem_simps]: "a + 4 \<le> b \<or> b + 4 \<le> a \<Longrightarrow> rd32 (wr32 b v m) a = rd32 m a"
  by (auto simp: rd32_def wr32_def)

lemma wr32_other [mem_simps]: "i < a \<or> a + 4 \<le> i \<Longrightarrow> wr32 a v m i = m i"
  by (auto simp: wr32_def)

lemma wr16_other [mem_simps]: "i < a \<or> a + 2 \<le> i \<Longrightarrow> wr16 a v m i = m i"
  by (auto simp: wr16_def)

lemma rd32_cong:
  assumes "\<And>i. i < 4 \<Longrightarrow> m (a + i) = m' (b + i)"
  shows "rd32 m a = rd32 m' b"
  using assms [of 0] assms [of 1] assms [of 2] assms [of 3] by (simp add: rd32_def)

lemma wr64_other [mem_simps]: "i < a \<or> a + 8 \<le> i \<Longrightarrow> wr64 a v m i = m i"
  by (auto simp: wr64_def wr32_other)

lemma rd64_wr64 [mem_simps, simp]: "rd64 (wr64 a v m) a = v"
  by (rule bit_word_eqI) (auto simp: rd64_def wr64_def rd32_wr32_other bit_simps)

lemma rd64_cong: "(\<And>i. i < 8 \<Longrightarrow> m (a + i) = m' (b + i)) \<Longrightarrow> rd64 m a = rd64 m' b"
  using rd32_cong [of m a m' b] rd32_cong [of m "a + 4" m' "b + 4"] by (simp add: rd64_def add.assoc)

lemma rd64_zero: "(\<And>i. i < 8 \<Longrightarrow> m (a + i) = 0) \<Longrightarrow> rd64 m a = 0"
  using rd64_cong [of m a "\<lambda>_. 0" 0] by (simp add: rd64_def rd32_def)

lemma rd_bytes_length [simp]: "length (rd_bytes m a n) = n"
  by (simp add: rd_bytes_def)

lemma rd_wr_bytes [mem_simps, simp]: "rd_bytes (wr_bytes a bs m) a (length bs) = bs"
  by (rule nth_equalityI) (auto simp: rd_bytes_def wr_bytes_def)

lemma wr_bytes_other [mem_simps]: "i < a \<or> a + length bs \<le> i \<Longrightarrow> wr_bytes a bs m i = m i"
  by (auto simp: wr_bytes_def)

lemma wr_bytes_at [mem_simps]: "i < length bs \<Longrightarrow> wr_bytes a bs m (a + i) = bs ! i"
  by (simp add: wr_bytes_def)

lemma zero_fill_in [mem_simps]: "a \<le> i \<Longrightarrow> i < a + n \<Longrightarrow> zero_fill a n m i = 0"
  by (simp add: zero_fill_def)

lemma zero_fill_other [mem_simps]: "i < a \<or> a + n \<le> i \<Longrightarrow> zero_fill a n m i = m i"
  by (auto simp: zero_fill_def)

subsection \<open>C strings\<close>

text \<open>
  A C string is modelled by its characters up to, and without, the terminating NUL;
  \<open>bytes_of\<close> gives the bytes a string literal occupies, and \<open>cstr\<close> reads the string
  that starts at an address, looking at no more than \<open>n\<close> bytes.
\<close>

definition chr_of :: "u8 \<Rightarrow> char" where
  "chr_of b = char_of (unat b)"

definition byte_of :: "char \<Rightarrow> u8" where
  "byte_of c = word_of_nat (of_char c)"

definition bytes_of :: "string \<Rightarrow> u8 list" where
  "bytes_of s = map byte_of s"

fun cstr :: "nat \<Rightarrow> mem \<Rightarrow> nat \<Rightarrow> string" where
  "cstr 0 m a = []"
| "cstr (Suc n) m a = (if m a = 0 then [] else chr_of (m a) # cstr n m (a + 1))"

text \<open>The C string in a character array: the characters before its first NUL.\<close>

definition c_str :: "string \<Rightarrow> string" where
  "c_str s = takeWhile (\<lambda>c. c \<noteq> CHR 0x00) s"

text \<open>The bytes from an address on, compared with the characters of a literal.\<close>

definition bytes_are :: "mem \<Rightarrow> nat \<Rightarrow> string \<Rightarrow> bool" where
  "bytes_are m a s \<longleftrightarrow> rd_bytes m a (length s) = bytes_of s"

lemma c_str_length: "length (c_str s) \<le> length s"
  by (simp add: c_str_def length_takeWhile_le)

lemma chr_of_byte_of [simp]: "chr_of (byte_of c) = c"
  by (simp add: chr_of_def byte_of_def unat_of_nat)

lemma byte_of_chr_of [simp]: "byte_of (chr_of b) = b"
proof -
  have "unat b < 2 ^ LENGTH(8)" by (rule unsigned_less)
  then have "unat b mod 256 = unat b" by simp
  then show ?thesis by (simp add: chr_of_def byte_of_def)
qed

lemma byte_of_inject [simp]: "byte_of c = byte_of d \<longleftrightarrow> c = d"
  by (metis chr_of_byte_of)

lemma length_bytes_of [simp]: "length (bytes_of s) = length s"
  by (simp add: bytes_of_def)

lemma length_cstr: "length (cstr n m a) \<le> n"
  by (induction n arbitrary: a) (auto simp: le_SucI)

subsection \<open>First free slot of a table\<close>

text \<open>
  The loop \<open>for (i = 0; i < n; i++) if (free(t[i])) { slot = i; break; }\<close> that every
  table of the sources (directory, file table, command slots) is searched with.
\<close>

fun first_slot :: "('a \<Rightarrow> bool) \<Rightarrow> 'a list \<Rightarrow> nat option" where
  "first_slot P [] = None"
| "first_slot P (x # xs) = (if P x then Some 0 else map_option Suc (first_slot P xs))"

lemma first_slot_Some:
  "first_slot P xs = Some i \<Longrightarrow> i < length xs \<and> P (xs ! i) \<and> (\<forall>j < i. \<not> P (xs ! j))"
proof (induction xs arbitrary: i)
  case (Cons x xs)
  then show ?case by (cases i) (auto split: if_splits simp: less_Suc_eq_0_disj)
qed simp

lemma first_slot_None: "first_slot P xs = None \<longleftrightarrow> (\<forall>x \<in> set xs. \<not> P x)"
  by (induction xs) auto

lemma first_slot_less [simp]: "first_slot P xs = Some i \<Longrightarrow> i < length xs"
  by (drule first_slot_Some) simp

lemma first_slot_eqI:
  "i < length xs \<Longrightarrow> P (xs ! i) \<Longrightarrow> (\<And>j. j < i \<Longrightarrow> \<not> P (xs ! j)) \<Longrightarrow> first_slot P xs = Some i"
proof (induction xs arbitrary: i)
  case (Cons x xs)
  show ?case
  proof (cases i)
    case 0
    then show ?thesis using Cons.prems by simp
  next
    case (Suc k)
    then have "first_slot P xs = Some k" "\<not> P x"
      using Cons.prems Cons.IH [of k] Cons.prems(3) [of 0] by force+
    then show ?thesis using Suc by simp
  qed
qed simp

end
