(* ===== verification/Machine.thy ===== *)
theory Machine
  imports Cosmos_Prelude
begin

text \<open>
  The machine the drivers run on: RAM, and the devices behind it. The devices are not code
  of the repository, so they are a parameter: a state of arbitrary type and a record of the
  functions the CPU reaches them with (memory-mapped registers, I/O ports, and the progress
  a DMA master makes between two reads of a shared structure). A driver is a computation of
  the library's state monad over the machine; every C statement is one line of it.
\<close>

record 'd machine =
  ram :: mem
  dev :: 'd

text \<open>
  What a device does to an access: it sees RAM as well, because it may fetch descriptors
  from it and write data to it. Addresses are physical byte addresses.
\<close>

record 'd hw =
  hw_read32 :: "nat \<Rightarrow> mem \<times> 'd \<Rightarrow> u32 \<times> (mem \<times> 'd)"
  hw_write32 :: "nat \<Rightarrow> u32 \<Rightarrow> mem \<times> 'd \<Rightarrow> mem \<times> 'd"
  hw_dma :: "mem \<times> 'd \<Rightarrow> mem \<times> 'd"
  hw_inb :: "u16 \<Rightarrow> mem \<times> 'd \<Rightarrow> u8 \<times> (mem \<times> 'd)"
  hw_outb :: "u16 \<Rightarrow> u8 \<Rightarrow> mem \<times> 'd \<Rightarrow> mem \<times> 'd"
  hw_inw :: "u16 \<Rightarrow> mem \<times> 'd \<Rightarrow> u16 \<times> (mem \<times> 'd)"
  hw_outw :: "u16 \<Rightarrow> u16 \<Rightarrow> mem \<times> 'd \<Rightarrow> mem \<times> 'd"
  hw_inl :: "u16 \<Rightarrow> mem \<times> 'd \<Rightarrow> u32 \<times> (mem \<times> 'd)"
  hw_outl :: "u16 \<Rightarrow> u32 \<Rightarrow> mem \<times> 'd \<Rightarrow> mem \<times> 'd"

type_synonym ('d, 'z, 'a) op = "(('d, 'z) machine_scheme, 'a) state"

subsection \<open>Elementary operations\<close>

definition modify :: "('s \<Rightarrow> 's) \<Rightarrow> ('s, unit) state" where
  "modify f = State (\<lambda>s. ((), f s))"

definition gets :: "('s \<Rightarrow> 'a) \<Rightarrow> ('s, 'a) state" where
  "gets f = State (\<lambda>s. (f s, s))"

definition skip :: "('s, unit) state" where
  "skip = State_Monad.return ()"

definition when_m :: "bool \<Rightarrow> ('s, unit) state \<Rightarrow> ('s, unit) state" where
  "when_m b c = (if b then c else skip)"

definition dev_read :: "(mem \<times> 'd \<Rightarrow> 'a \<times> (mem \<times> 'd)) \<Rightarrow> ('d, 'z, 'a) op" where
  "dev_read f = State (\<lambda>s. case f (ram s, dev s) of (v, (m, d)) \<Rightarrow> (v, s\<lparr>ram := m, dev := d\<rparr>))"

definition dev_write :: "(mem \<times> 'd \<Rightarrow> mem \<times> 'd) \<Rightarrow> ('d, 'z, unit) op" where
  "dev_write f = State (\<lambda>s. case f (ram s, dev s) of (m, d) \<Rightarrow> ((), s\<lparr>ram := m, dev := d\<rparr>))"

definition mmio_read32 :: "'d hw \<Rightarrow> nat \<Rightarrow> ('d, 'z, u32) op" where
  "mmio_read32 hw a = dev_read (hw_read32 hw a)"

definition mmio_write32 :: "'d hw \<Rightarrow> nat \<Rightarrow> u32 \<Rightarrow> ('d, 'z, unit) op" where
  "mmio_write32 hw a v = dev_write (hw_write32 hw a v)"

definition inb :: "'d hw \<Rightarrow> u16 \<Rightarrow> ('d, 'z, u8) op" where
  "inb hw p = dev_read (hw_inb hw p)"

definition outb :: "'d hw \<Rightarrow> u16 \<Rightarrow> u8 \<Rightarrow> ('d, 'z, unit) op" where
  "outb hw p v = dev_write (hw_outb hw p v)"

definition inw :: "'d hw \<Rightarrow> u16 \<Rightarrow> ('d, 'z, u16) op" where
  "inw hw p = dev_read (hw_inw hw p)"

definition outw :: "'d hw \<Rightarrow> u16 \<Rightarrow> u16 \<Rightarrow> ('d, 'z, unit) op" where
  "outw hw p v = dev_write (hw_outw hw p v)"

definition inl :: "'d hw \<Rightarrow> u16 \<Rightarrow> ('d, 'z, u32) op" where
  "inl hw p = dev_read (hw_inl hw p)"

definition outl :: "'d hw \<Rightarrow> u16 \<Rightarrow> u32 \<Rightarrow> ('d, 'z, unit) op" where
  "outl hw p v = dev_write (hw_outl hw p v)"

text \<open>Plain RAM: reads and writes of memory no device answers for.\<close>

definition peek :: "(mem \<Rightarrow> 'a) \<Rightarrow> ('d, 'z, 'a) op" where
  "peek f = gets (\<lambda>s. f (ram s))"

definition poke :: "(mem \<Rightarrow> mem) \<Rightarrow> ('d, 'z, unit) op" where
  "poke f = modify (\<lambda>s. s\<lparr>ram := f (ram s)\<rparr>)"

text \<open>
  A volatile read of RAM that a bus master writes: the device moves first. The sources mark
  these places with \<open>volatile\<close> or with a \<open>wbinvd\<close> before the read.
\<close>

definition peek_dma :: "'d hw \<Rightarrow> (mem \<Rightarrow> 'a) \<Rightarrow> ('d, 'z, 'a) op" where
  "peek_dma hw f = do { dev_write (hw_dma hw); peek f }"

text \<open>\<open>insw\<close>: \<open>n\<close> 16-bit words from a port to consecutive memory; \<open>outsw\<close> the other way.\<close>

fun insw :: "'d hw \<Rightarrow> u16 \<Rightarrow> nat \<Rightarrow> nat \<Rightarrow> ('d, 'z, unit) op" where
  "insw hw p a 0 = skip"
| "insw hw p a (Suc n) = do { v \<leftarrow> inw hw p; poke (wr16 a v); insw hw p (a + 2) n }"

fun outsw :: "'d hw \<Rightarrow> u16 \<Rightarrow> nat \<Rightarrow> nat \<Rightarrow> ('d, 'z, unit) op" where
  "outsw hw p a 0 = skip"
| "outsw hw p a (Suc n) = do { v \<leftarrow> peek (\<lambda>m. rd16 m a); outw hw p v; outsw hw p (a + 2) n }"

subsection \<open>Bounded waiting\<close>

text \<open>
  \<open>t = n; while (c && t > 0) t--;\<close> and its upward form \<open>t = 0; while (c && t < n) t++;\<close>:
  the condition is evaluated at most \<open>n + 1\<close> times, and the value is what is left of \<open>n\<close>
  (0 exactly when the sources' \<open>timeout == 0\<close> or \<open>spin >= n\<close> holds).
\<close>

fun spin_while :: "('s, bool) state \<Rightarrow> nat \<Rightarrow> ('s, nat) state" where
  "spin_while c 0 = do { _ \<leftarrow> c; State_Monad.return 0 }"
| "spin_while c (Suc n) = do { b \<leftarrow> c; if b then spin_while c n else State_Monad.return (Suc n) }"

text \<open>\<open>for (w = 0; w < n; w++) if (c) break;\<close>: was the condition met within \<open>n\<close> tries?\<close>

fun poll_for :: "('s, bool) state \<Rightarrow> nat \<Rightarrow> ('s, bool) state" where
  "poll_for c 0 = State_Monad.return False"
| "poll_for c (Suc n) = do { b \<leftarrow> c; if b then State_Monad.return True else poll_for c n }"

text \<open>\<open>for (i = lo; i < hi; i++) body(i)\<close> and the same loop with an early \<open>return\<close>.\<close>

fun for_m :: "'i list \<Rightarrow> ('i \<Rightarrow> ('s, unit) state) \<Rightarrow> ('s, unit) state" where
  "for_m [] f = skip"
| "for_m (i # is) f = do { f i; for_m is f }"

fun find_m :: "'i list \<Rightarrow> ('i \<Rightarrow> ('s, 'r option) state) \<Rightarrow> ('s, 'r option) state" where
  "find_m [] f = State_Monad.return None"
| "find_m (i # is) f = do { r \<leftarrow> f i; case r of None \<Rightarrow> find_m is f | Some v \<Rightarrow> State_Monad.return (Some v) }"

lemma ram_dev_swap [simp]: "s\<lparr>dev := d, ram := m\<rparr> = s\<lparr>ram := m, dev := d\<rparr>"
  by simp

lemma run_modify [simp]: "run_state (modify f) s = ((), f s)"
  by (simp add: modify_def)

lemma run_gets [simp]: "run_state (gets f) s = (f s, s)"
  by (simp add: gets_def)

lemma run_skip [simp]: "run_state skip s = ((), s)"
  by (simp add: skip_def)

lemma run_when [simp]: "run_state (when_m b c) s = (if b then run_state c s else ((), s))"
  by (simp add: when_m_def)

lemma run_peek [simp]: "run_state (peek f) s = (f (ram s), s)"
  by (simp add: peek_def)

lemma run_poke [simp]: "run_state (poke f) s = ((), s\<lparr>ram := f (ram s)\<rparr>)"
  by (simp add: poke_def)

lemma run_dev_read:
  "run_state (dev_read f) s = (fst (f (ram s, dev s)),
     s\<lparr>ram := fst (snd (f (ram s, dev s))), dev := snd (snd (f (ram s, dev s)))\<rparr>)"
  by (simp add: dev_read_def split: prod.splits)

lemma run_dev_write:
  "run_state (dev_write f) s = ((), s\<lparr>ram := fst (f (ram s, dev s)), dev := snd (f (ram s, dev s))\<rparr>)"
  by (simp add: dev_write_def split: prod.splits)

lemma run_if [simp]: "run_state (if b then c else d) s = (if b then run_state c s else run_state d s)"
  by simp

text \<open>A wait whose condition is already false costs one evaluation and leaves \<open>n\<close>.\<close>

lemma spin_while_now:
  "fst (run_state c s) = False \<Longrightarrow> run_state (spin_while c n) s = (n, snd (run_state c s))"
  by (cases n) (auto split: prod.splits)

lemma spin_while_le: "fst (run_state (spin_while c n) s) \<le> n"
proof (induction n arbitrary: s)
  case (Suc n)
  show ?case by (auto split: prod.splits intro: le_SucI) (metis Suc fst_conv le_SucI)
qed (auto split: prod.splits)

text \<open>A state property the condition keeps is kept by the whole wait.\<close>

lemma spin_while_keeps:
  assumes "\<And>s. Q s \<Longrightarrow> Q (snd (run_state c s))" and "Q s"
  shows "Q (snd (run_state (spin_while c n) s))"
  using assms(2)
proof (induction n arbitrary: s)
  case 0
  then show ?case using assms(1) [of s] by (cases "run_state c s") simp
next
  case (Suc n)
  then show ?case using assms(1) [of s] by (cases "run_state c s") simp
qed

lemma poll_for_now:
  "fst (run_state c s) \<Longrightarrow> 0 < n \<Longrightarrow> run_state (poll_for c n) s = (True, snd (run_state c s))"
  by (cases n) (auto split: prod.splits)

subsection \<open>Operations that only touch RAM and devices\<close>

text \<open>
  Every driver routine that is not a state machine of its own leaves the variables of the
  kernel alone. The collection \<open>hw_only\<close> proves it by the structure of the routine.
\<close>

named_theorems hw_only \<open>operations that change nothing but RAM and devices\<close>

definition touches_hw :: "('d, 'z, 'a) op \<Rightarrow> bool" where
  "touches_hw c \<longleftrightarrow> (\<forall>s. \<exists>m d. snd (run_state c s) = s\<lparr>ram := m, dev := d\<rparr>)"

lemma touches_hwE:
  assumes "touches_hw c"
  obtains m d where "snd (run_state c s) = s\<lparr>ram := m, dev := d\<rparr>"
  using assms unfolding touches_hw_def by blast

lemma same_machine: "s = s\<lparr>ram := ram s, dev := dev s\<rparr>"
  by simp

lemma touches_return [hw_only]: "touches_hw (State_Monad.return x)"
  unfolding touches_hw_def using same_machine by (metis run_state_return snd_conv)

lemma touches_gets [hw_only]: "touches_hw (gets f)"
  unfolding touches_hw_def using same_machine by (metis run_gets snd_conv)

lemma touches_skip [hw_only]: "touches_hw skip"
  by (simp add: skip_def touches_return)

lemma touches_peek [hw_only]: "touches_hw (peek f)"
  by (simp add: peek_def touches_gets)

lemma touches_poke [hw_only]: "touches_hw (poke f)"
  unfolding touches_hw_def
proof
  fix s
  have "snd (run_state (poke f) s) = s\<lparr>ram := f (ram s), dev := dev s\<rparr>" by simp
  then show "\<exists>m d. snd (run_state (poke f) s) = s\<lparr>ram := m, dev := d\<rparr>" by blast
qed

lemma touches_dev_read [hw_only]: "touches_hw (dev_read f)"
  by (auto simp: touches_hw_def run_dev_read)

lemma touches_dev_write [hw_only]: "touches_hw (dev_write f)"
  by (auto simp: touches_hw_def run_dev_write)

lemma touches_ports [hw_only]:
  "touches_hw (mmio_read32 hw a)" "touches_hw (mmio_write32 hw a v)"
  "touches_hw (inb hw p)" "touches_hw (outb hw p b)" "touches_hw (inw hw p)" "touches_hw (outw hw p w)"
  "touches_hw (inl hw p)" "touches_hw (outl hw p l)"
  by (simp_all add: mmio_read32_def mmio_write32_def inb_def outb_def inw_def outw_def inl_def outl_def
      touches_dev_read touches_dev_write)

lemma touches_bind [hw_only]:
  assumes "touches_hw c" and "\<And>x. touches_hw (f x)"
  shows "touches_hw (do { x \<leftarrow> c; f x })"
  unfolding touches_hw_def
proof
  fix s
  obtain m d where 1: "snd (run_state c s) = s\<lparr>ram := m, dev := d\<rparr>" using assms(1) by (rule touches_hwE)
  obtain m' d' where 2: "snd (run_state (f (fst (run_state c s))) (s\<lparr>ram := m, dev := d\<rparr>))
      = s\<lparr>ram := m, dev := d\<rparr>\<lparr>ram := m', dev := d'\<rparr>" using assms(2) by (rule touches_hwE)
  have "snd (run_state (do { x \<leftarrow> c; f x }) s) = s\<lparr>ram := m', dev := d'\<rparr>"
    using 1 2 by (cases "run_state c s") simp
  then show "\<exists>m d. snd (run_state (do { x \<leftarrow> c; f x }) s) = s\<lparr>ram := m, dev := d\<rparr>" by blast
qed

lemma touches_if [hw_only]:
  "(b \<Longrightarrow> touches_hw c) \<Longrightarrow> (\<not> b \<Longrightarrow> touches_hw d) \<Longrightarrow> touches_hw (if b then c else d)"
  by simp

lemma touches_when [hw_only]: "(b \<Longrightarrow> touches_hw c) \<Longrightarrow> touches_hw (when_m b c)"
  by (simp add: when_m_def touches_skip)

lemma touches_let [hw_only]: "(\<And>x. touches_hw (f x)) \<Longrightarrow> touches_hw (let x = v in f x)"
  by simp

lemma touches_option [hw_only]:
  "touches_hw c \<Longrightarrow> (\<And>x. touches_hw (f x)) \<Longrightarrow> touches_hw (case v of None \<Rightarrow> c | Some x \<Rightarrow> f x)"
  by (cases v) simp_all

lemma touches_prod [hw_only]: "(\<And>x y. touches_hw (f x y)) \<Longrightarrow> touches_hw (case v of (x, y) \<Rightarrow> f x y)"
  by (cases v) simp

lemma touches_peek_dma [hw_only]: "touches_hw (peek_dma hw f)"
  unfolding peek_dma_def by (intro hw_only)

lemma touches_spin [hw_only]: "touches_hw c \<Longrightarrow> touches_hw (spin_while c n)"
  by (induction n) (auto intro!: hw_only)

lemma touches_poll [hw_only]: "touches_hw c \<Longrightarrow> touches_hw (poll_for c n)"
  by (induction n) (auto intro!: hw_only)

lemma touches_for [hw_only]: "(\<And>i. i \<in> set is \<Longrightarrow> touches_hw (f i)) \<Longrightarrow> touches_hw (for_m is f)"
  by (induction "is") (auto intro!: hw_only)

lemma touches_find [hw_only]: "(\<And>i. touches_hw (f i)) \<Longrightarrow> touches_hw (find_m is f)"
  by (induction "is") (auto intro!: hw_only)

lemma touches_insw [hw_only]: "touches_hw (insw hw p a n)"
  by (induction n arbitrary: a) (auto intro!: hw_only)

lemma touches_outsw [hw_only]: "touches_hw (outsw hw p a n)"
  by (induction n arbitrary: a) (auto intro!: hw_only)

lemma touches_run:
  assumes "touches_hw c"
  shows "\<exists>v m d. run_state c s = (v, s\<lparr>ram := m, dev := d\<rparr>)"
proof -
  obtain m d where "snd (run_state c s) = s\<lparr>ram := m, dev := d\<rparr>" using assms by (rule touches_hwE)
  then have "run_state c s = (fst (run_state c s), s\<lparr>ram := m, dev := d\<rparr>)" by (metis prod.collapse)
  then show ?thesis by blast
qed

subsection \<open>Invariants of operations\<close>

text \<open>
  \<open>preserves P c\<close>: running \<open>c\<close> in a state with \<open>P\<close> ends in a state with \<open>P\<close>. The collection
  \<open>preserving\<close> goes through the structure of an operation down to its \<open>modify\<close> steps and to
  the hardware accesses, where \<open>P\<close> must not depend on RAM and devices.
\<close>

named_theorems preserving \<open>invariants through the structure of an operation\<close>

definition preserves :: "('s \<Rightarrow> bool) \<Rightarrow> ('s, 'a) state \<Rightarrow> bool" where
  "preserves P c \<longleftrightarrow> (\<forall>s. P s \<longrightarrow> P (snd (run_state c s)))"

lemma preservesD: "preserves P c \<Longrightarrow> P s \<Longrightarrow> P (snd (run_state c s))"
  by (simp add: preserves_def)

lemma preserves_hw:
  assumes "touches_hw c" and "\<And>s m d. P s \<Longrightarrow> P (s\<lparr>ram := m, dev := d\<rparr>)"
  shows "preserves P c"
  unfolding preserves_def
proof (intro allI impI)
  fix s
  assume "P s"
  obtain m d where "snd (run_state c s) = s\<lparr>ram := m, dev := d\<rparr>" using assms(1) by (rule touches_hwE)
  then show "P (snd (run_state c s))" using assms(2) [OF \<open>P s\<close>] by simp
qed

lemma preserves_modify [preserving]: "(\<And>s. P s \<Longrightarrow> P (f s)) \<Longrightarrow> preserves P (modify f)"
  by (simp add: preserves_def)

lemma preserves_return [preserving]: "preserves P (State_Monad.return x)" "preserves P skip" "preserves P (gets g)"
  by (simp_all add: preserves_def)

lemma preserves_bind [preserving]:
  "preserves P c \<Longrightarrow> (\<And>x. preserves P (f x)) \<Longrightarrow> preserves P (do { x \<leftarrow> c; f x })"
  by (auto simp: preserves_def split: prod.splits)

lemma preserves_if [preserving]:
  "(b \<Longrightarrow> preserves P c) \<Longrightarrow> (\<not> b \<Longrightarrow> preserves P d) \<Longrightarrow> preserves P (if b then c else d)"
  by simp

lemma preserves_when [preserving]: "(b \<Longrightarrow> preserves P c) \<Longrightarrow> preserves P (when_m b c)"
  by (auto simp: preserves_def)

lemma preserves_let [preserving]: "(\<And>x. preserves P (f x)) \<Longrightarrow> preserves P (let x = v in f x)"
  by simp

lemma preserves_option [preserving]:
  "preserves P c \<Longrightarrow> (\<And>x. preserves P (f x)) \<Longrightarrow> preserves P (case v of None \<Rightarrow> c | Some x \<Rightarrow> f x)"
  by (cases v) simp_all

lemma preserves_prod [preserving]:
  "(\<And>x y. preserves P (f x y)) \<Longrightarrow> preserves P (case v of (x, y) \<Rightarrow> f x y)"
  by (cases v) simp

lemma preserves_for [preserving]: "(\<And>i. i \<in> set is \<Longrightarrow> preserves P (f i)) \<Longrightarrow> preserves P (for_m is f)"
  by (induction "is") (auto intro!: preserving)

lemma preserves_find [preserving]: "(\<And>i. preserves P (f i)) \<Longrightarrow> preserves P (find_m is f)"
  by (induction "is") (auto intro!: preserving)

lemma preserves_spin [preserving]: "preserves P c \<Longrightarrow> preserves P (spin_while c n)"
  by (induction n) (auto intro!: preserving)

lemma preserves_poll [preserving]: "preserves P c \<Longrightarrow> preserves P (poll_for c n)"
  by (induction n) (auto intro!: preserving)

subsection \<open>The status lines\<close>

text \<open>
  The global text buffers the drivers report to: \<open>cmd_status\<close>, \<open>hw_usb\<close> and \<open>hw_disk\<close> hold
  the C string last copied to them. Their sizes differ between the two kernels
  (\<open>kernel.cpp:175\<close>: \<open>cmd_status[32]\<close>; \<open>kernel_main.cpp:676\<close>: \<open>cmd_status[256]\<close>).
\<close>

record 'd console = "'d machine" +
  cmd_status :: string
  hw_usb :: string
  hw_disk :: string

definition os1_status_size :: nat where "os1_status_size = 32"
definition os2_status_size :: nat where "os2_status_size = 256"

definition set_status :: "string \<Rightarrow> (('d, 'z) console_scheme, unit) state" where
  "set_status t = modify (\<lambda>s. s\<lparr>cmd_status := t\<rparr>)"

definition set_hw_usb :: "string \<Rightarrow> (('d, 'z) console_scheme, unit) state" where
  "set_hw_usb t = modify (\<lambda>s. s\<lparr>hw_usb := t\<rparr>)"

definition set_hw_disk :: "string \<Rightarrow> (('d, 'z) console_scheme, unit) state" where
  "set_hw_disk t = modify (\<lambda>s. s\<lparr>hw_disk := t\<rparr>)"

lemma run_set_status [simp]: "run_state (set_status t) s = ((), s\<lparr>cmd_status := t\<rparr>)"
  by (simp add: set_status_def)

lemma run_set_hw_usb [simp]: "run_state (set_hw_usb t) s = ((), s\<lparr>hw_usb := t\<rparr>)"
  by (simp add: set_hw_usb_def)

lemma run_set_hw_disk [simp]: "run_state (set_hw_disk t) s = ((), s\<lparr>hw_disk := t\<rparr>)"
  by (simp add: set_hw_disk_def)

text \<open>Does a message, with its NUL, fit the buffer it is copied to?\<close>

definition fits :: "nat \<Rightarrow> string \<Rightarrow> bool" where
  "fits n t \<longleftrightarrow> length t < n"

end
