(* ===== verification/Frames.thy ===== *)
theory Frames
  imports Machine
begin

text \<open>
  \<open>cosmos_bytes.cpp\<close>: the 256-byte data frame of the stream recorder and of the network
  protocol. A frame has an anchor byte, the sensor value, a colour, the mark \<open>MTX\<close>, and an
  XOR checksum and a footer in its last two bytes. The locale \<open>frame_format\<close> is what the
  recorder, the block store and the packet receiver rely on; \<open>cb_build\<close> and \<open>cb_validate\<close>
  implement it.
\<close>

definition ANCHOR_BYTE :: u8 where "ANCHOR_BYTE = 0x2A"
definition FOOTER_BYTE :: u8 where "FOOTER_BYTE = 0xFF"

subsection \<open>The operations\<close>

text \<open>\<open>cb_checksum\<close>, cosmos_bytes.cpp:6\<close>

definition cb_checksum :: "mem \<Rightarrow> nat \<Rightarrow> u8" where
  "cb_checksum m block = fold (\<lambda>i cs. cs XOR m (block + i)) [0..<254] 0"

text \<open>\<open>cb_validate\<close>, cosmos_bytes.cpp:17\<close>

definition cb_validate :: "mem \<Rightarrow> nat \<Rightarrow> bool" where
  "cb_validate m block =
     (if m block \<noteq> ANCHOR_BYTE then False
      else if m (block + 255) \<noteq> FOOTER_BYTE then False
      else if m (block + 254) \<noteq> cb_checksum m block then False
      else True)"

text \<open>\<open>cb_build\<close>, cosmos_bytes.cpp:28\<close>

definition cb_fields :: "nat \<Rightarrow> u16 \<Rightarrow> u8 \<Rightarrow> u8 \<Rightarrow> u8 \<Rightarrow> u8 \<Rightarrow> mem \<Rightarrow> mem" where
  "cb_fields out sensor_val r g b a m =
     (zero_fill out 256 m)
       (out := ANCHOR_BYTE, out + 1 := 0xC0,
        out + 2 := ucast (drop_bit 8 sensor_val), out + 3 := ucast (sensor_val AND 0xFF),
        out + 7 := 0,
        out + 10 := r, out + 11 := g, out + 12 := b, out + 13 := a,
        out + 15 := byte_of CHR ''M'', out + 16 := byte_of CHR ''T'', out + 17 := byte_of CHR ''X'')"

definition cb_build :: "nat \<Rightarrow> u16 \<Rightarrow> u8 \<Rightarrow> u8 \<Rightarrow> u8 \<Rightarrow> u8 \<Rightarrow> mem \<Rightarrow> mem" where
  "cb_build out sensor_val r g b a m =
     (let m1 = cb_fields out sensor_val r g b a m
      in m1(out + 254 := cb_checksum m1 out, out + 255 := FOOTER_BYTE))"

text \<open>The block copy of \<open>tba_master_stream\<close> and of the block store: 256 bytes, in order.\<close>

definition copy_frame :: "nat \<Rightarrow> nat \<Rightarrow> mem \<Rightarrow> mem" where
  "copy_frame dst src m = mem_copy 256 dst src m"

subsection \<open>The interface\<close>

locale frame_format =
  fixes build :: "nat \<Rightarrow> 'v \<Rightarrow> mem \<Rightarrow> mem"
    and valid :: "mem \<Rightarrow> nat \<Rightarrow> bool"
    and size :: nat
  assumes size_pos: "0 < size"
    and build_valid: "valid (build p v m) p"
    and build_frame: "i < p \<or> p + size \<le> i \<Longrightarrow> build p v m i = m i"
    and valid_local: "(\<And>i. i < size \<Longrightarrow> m (p + i) = m' (q + i)) \<Longrightarrow> valid m p = valid m' q"
begin

text \<open>Frames built one after the other from \<open>p\<close> on.\<close>

fun build_all :: "nat \<Rightarrow> 'v list \<Rightarrow> mem \<Rightarrow> mem" where
  "build_all p [] m = m"
| "build_all p (v # vs) m = build_all (p + size) vs (build p v m)"

lemma build_all_frame: "i < p \<or> p + size * length vs \<le> i \<Longrightarrow> build_all p vs m i = m i"
proof (induction vs arbitrary: p m)
  case (Cons v vs)
  then have "build_all (p + size) vs (build p v m) i = build p v m i" by (intro Cons.IH) auto
  also have "\<dots> = m i" using Cons.prems by (intro build_frame) auto
  finally show ?case by simp
qed simp

lemma valid_after:
  "valid m p \<Longrightarrow> (\<And>i. p \<le> i \<Longrightarrow> i < p + size \<Longrightarrow> m' i = m i) \<Longrightarrow> valid m' p"
  using valid_local [of m' p m p] by simp

lemma build_all_valid: "k < length vs \<Longrightarrow> valid (build_all p vs m) (p + size * k)"
proof (induction vs arbitrary: p m k)
  case (Cons v vs)
  show ?case
  proof (cases k)
    case 0
    have "valid (build_all (p + size) vs (build p v m)) p"
      by (rule valid_after [OF build_valid]) (rule build_all_frame, simp)
    then show ?thesis using 0 by simp
  next
    case (Suc j)
    then have "valid (build_all (p + size) vs (build p v m)) (p + size + size * j)"
      using Cons by simp
    then show ?thesis using Suc by (simp add: algebra_simps)
  qed
qed simp

lemma build_other_valid: "valid m q \<Longrightarrow> q + size \<le> p \<or> p + size \<le> q \<Longrightarrow> valid (build p v m) q"
  by (erule valid_after) (rule build_frame, auto)

lemma copy_valid:
  assumes "valid m src" and "dst \<le> src \<or> src + size \<le> dst"
  shows "valid (mem_copy size dst src m) dst"
proof -
  have "mem_copy size dst src m (dst + i) = m (src + i)" if "i < size" for i
    using that assms(2) by (simp add: mem_copy_result)
  then show ?thesis using assms(1) by (subst valid_local [of _ dst m src]) auto
qed

end

subsection \<open>The checksum\<close>

lemma xor_fold: "fold (\<lambda>i cs. cs XOR f i) xs c = c XOR fold (\<lambda>i cs. cs XOR f i) xs (0 :: u8)"
proof (induction xs arbitrary: c)
  case (Cons x xs)
  show ?case using Cons [of "c XOR f x"] Cons [of "f x"] by (simp add: xor.assoc)
qed simp

lemma xor_fold_cong: "(\<And>i. i \<in> set xs \<Longrightarrow> f i = g i) \<Longrightarrow>
    fold (\<lambda>i cs. cs XOR f i) xs c = fold (\<lambda>i cs. cs XOR g i) xs (c :: u8)"
  by (rule fold_cong) auto

lemma xor_fold_update:
  assumes "distinct xs" and "i \<in> set xs" and "\<And>j. j \<noteq> i \<Longrightarrow> g j = f j"
  shows "fold (\<lambda>j cs. cs XOR g j) xs 0 = fold (\<lambda>j cs. cs XOR f j) xs 0 XOR f i XOR (g i :: u8)"
  using assms(1,2)
proof (induction xs)
  case (Cons x xs)
  show ?case
  proof (cases "x = i")
    case True
    then have "fold (\<lambda>j cs. cs XOR g j) xs 0 = fold (\<lambda>j cs. cs XOR f j) xs 0"
      using Cons.prems assms(3) True by (intro xor_fold_cong) (metis distinct.simps(2))
    then show ?thesis using True xor_fold [of g xs "g i"] xor_fold [of f xs "f i"]
      by (simp add: ac_simps)
  next
    case False
    then have "fold (\<lambda>j cs. cs XOR g j) xs 0 = fold (\<lambda>j cs. cs XOR f j) xs 0 XOR f i XOR g i"
      using Cons by auto
    then show ?thesis using False assms(3) [of x] xor_fold [of g xs "f x"] xor_fold [of f xs "f x"]
      by (simp add: ac_simps)
  qed
qed simp

lemma checksum_local: "(\<And>i. i < 254 \<Longrightarrow> m (p + i) = m' (q + i)) \<Longrightarrow> cb_checksum m p = cb_checksum m' q"
  unfolding cb_checksum_def by (rule xor_fold_cong) auto

subsection \<open>The implementation meets the interface\<close>

lemma cb_build_other: "i < p \<or> p + 256 \<le> i \<Longrightarrow> cb_build p sv r g b a m i = m i"
  by (auto simp: cb_build_def cb_fields_def Let_def zero_fill_def)

lemma cb_build_valid: "cb_validate (cb_build p sv r g b a m) p"
proof -
  let ?m1 = "cb_fields p sv r g b a m"
  have "cb_checksum (cb_build p sv r g b a m) p = cb_checksum ?m1 p"
    by (rule checksum_local) (auto simp: cb_build_def Let_def)
  moreover have "cb_build p sv r g b a m (p + 254) = cb_checksum ?m1 p"
    "cb_build p sv r g b a m (p + 255) = FOOTER_BYTE" "cb_build p sv r g b a m p = ANCHOR_BYTE"
    by (simp_all add: cb_build_def cb_fields_def Let_def)
  ultimately show ?thesis by (simp add: cb_validate_def)
qed

lemma cb_validate_local:
  assumes "\<And>i. i < 256 \<Longrightarrow> m (p + i) = m' (q + i)"
  shows "cb_validate m p = cb_validate m' q"
proof -
  have "cb_checksum m p = cb_checksum m' q" by (rule checksum_local) (simp add: assms)
  then show ?thesis using assms [of 0] assms [of 254] assms [of 255] by (simp add: cb_validate_def)
qed

interpretation cosmos: frame_format
  "\<lambda>p (sv, r, g, b, a). cb_build p sv r g b a" cb_validate 256
proof unfold_locales
  fix p i :: nat and v :: "u16 \<times> u8 \<times> u8 \<times> u8 \<times> u8" and m m' :: mem and q :: nat
  show "(0::nat) < 256" by simp
  show "cb_validate ((case v of (sv, r, g, b, a) \<Rightarrow> cb_build p sv r g b a) m) p"
    by (cases v) (simp add: cb_build_valid)
  show "i < p \<or> p + 256 \<le> i \<Longrightarrow> (case v of (sv, r, g, b, a) \<Rightarrow> cb_build p sv r g b a) m i = m i"
    by (cases v) (simp add: cb_build_other)
  show "(\<And>i. i < 256 \<Longrightarrow> m (p + i) = m' (q + i)) \<Longrightarrow> cb_validate m p = cb_validate m' q"
    by (rule cb_validate_local)
qed

subsection \<open>Properties\<close>

text \<open>
  A frame \<open>cb_build\<close> writes is accepted by \<open>cb_validate\<close>, carries the sensor
  value big-endian in its bytes 2 and 3 and the colour in 10 to 13, and no byte outside its
  256 bytes is touched.
\<close>

theorem cb_build_frame:
  "let m' = cb_build p sv r g b a m in
     cb_validate m' p \<and> push_bit 8 (ucast (m' (p + 2))) OR ucast (m' (p + 3)) = sv
     \<and> (m' (p + 10), m' (p + 11), m' (p + 12), m' (p + 13)) = (r, g, b, a)
     \<and> map (\<lambda>i. chr_of (m' (p + i))) [15, 16, 17] = ''MTX''
     \<and> {i. m' i \<noteq> m i} \<subseteq> {p..<p + 256}"
proof -
  have "push_bit 8 (ucast (ucast (drop_bit 8 sv) :: u8)) OR ucast (ucast (sv AND mask 8) :: u8) = sv"
    by (rule bit_word_eqI) (auto simp: bit_simps)
  moreover have "(255 :: u16) = mask 8" by (simp add: mask_eq_exp_minus_1)
  ultimately have sv: "push_bit 8 (ucast (ucast (drop_bit 8 sv) :: u8)) OR ucast (ucast (sv AND 255) :: u8) = sv"
    by simp
  have "{i. cb_build p sv r g b a m i \<noteq> m i} \<subseteq> {p..<p + 256}"
  proof
    fix i
    assume "i \<in> {i. cb_build p sv r g b a m i \<noteq> m i}"
    then show "i \<in> {p..<p + 256}" using cb_build_other [of i p sv r g b a m] by force
  qed
  then show ?thesis using sv cb_build_valid [of p sv r g b a m]
    by (simp add: Let_def) (simp add: cb_build_def cb_fields_def Let_def)
qed

text \<open>
  Property C34. Changing any single byte of a valid frame makes \<open>cb_validate\<close> reject it.
\<close>

theorem cb_validate_detects:
  assumes "cb_validate m p" and "i < 256" and "v \<noteq> m (p + i)"
  shows "\<not> cb_validate (m(p + i := v)) p"
proof (cases "i < 254")
  case True
  let ?m = "m(p + i := v)"
  have "cb_checksum ?m p = cb_checksum m p XOR m (p + i) XOR ?m (p + i)"
    unfolding cb_checksum_def by (rule xor_fold_update) (use True in auto)
  moreover have "cb_checksum m p XOR (m (p + i) XOR v) \<noteq> cb_checksum m p"
    using assms(3) by (simp add: xor_eq_self_iff xor_eq_zero_iff)
  ultimately have "cb_checksum ?m p \<noteq> m (p + 254)"
    using assms(1) by (simp add: cb_validate_def xor.assoc split: if_splits)
  then show ?thesis using True by (simp add: cb_validate_def)
next
  case False
  then have "i = 254 \<or> i = 255" using assms(2) by auto
  moreover have "cb_checksum (m(p + i := v)) p = cb_checksum m p"
    by (rule checksum_local) (use False in auto)
  ultimately show ?thesis using assms
    by (auto simp: cb_validate_def simp del: fun_upd_apply split: if_splits) (auto)
qed

theorem cb_validate_detects_witness:
  "\<not> cb_validate ((cb_build 0 7 1 2 3 4 (\<lambda>_. 0))(0 + 3 := 8)) 0"
  by (rule cb_validate_detects)
    (simp_all add: cb_build_valid, simp add: cb_build_def cb_fields_def Let_def)

text \<open>
  A block copy of a valid frame validates at its new place, provided the copy
  does not start inside the frame it reads.
\<close>

theorem frame_copy_valid:
  assumes "cb_validate m src" and "dst \<le> src \<or> src + 256 \<le> dst"
  shows "cb_validate (copy_frame dst src m) dst"
  unfolding copy_frame_def by (rule cosmos.copy_valid [OF assms])

theorem frame_copy_valid_witness:
  "cb_validate (copy_frame 1000 0 (cb_build 0 7 1 2 3 4 (\<lambda>_. 0))) 1000"
  by (rule frame_copy_valid) (simp_all add: cb_build_valid)

end
