(* ===== verification/CStrings.thy ===== *)
theory CStrings
  imports Machine
begin

text \<open>
  The string, number and byte-order helpers of \<open>kernel.cpp\<close> (and their copies in
  \<open>kernel_main.cpp\<close>, \<open>arcade.cpp\<close>). String functions work on memory through addresses, as
  the C code does; a loop that runs until it meets a NUL may not stop, so those functions
  return an option and their theorems say when they return.
\<close>

subsection \<open>NUL-terminated strings in memory\<close>

text \<open>\<open>str_cpy\<close>, kernel.cpp:550\<close>

partial_function (option) str_cpy :: "nat \<Rightarrow> nat \<Rightarrow> mem \<Rightarrow> mem option" where
  "str_cpy d s m = (if m s \<noteq> 0 then str_cpy (d + 1) (s + 1) (m(d := m s)) else Some (m(d := 0)))"

text \<open>\<open>str_len\<close>, kernel.cpp:559\<close>

partial_function (option) str_len_from :: "nat \<Rightarrow> nat \<Rightarrow> mem \<Rightarrow> nat option" where
  "str_len_from l s m = (if m s \<noteq> 0 then str_len_from (l + 1) (s + 1) m else Some l)"

definition str_len :: "nat \<Rightarrow> mem \<Rightarrow> nat option" where
  "str_len s m = str_len_from 0 s m"

text \<open>\<open>str_cat\<close>, kernel.cpp:95\<close>

definition str_cat :: "nat \<Rightarrow> nat \<Rightarrow> mem \<Rightarrow> mem option" where
  "str_cat dest src m = (case str_len dest m of None \<Rightarrow> None | Some i \<Rightarrow> str_cpy (dest + i) src m)"

text \<open>\<open>str_cmp\<close> (kernel.cpp:552) and \<open>str_equal\<close> (kernel.cpp:560): the same loop.\<close>

partial_function (option) str_cmp :: "nat \<Rightarrow> nat \<Rightarrow> mem \<Rightarrow> bool option" where
  "str_cmp a b m = (if m a \<noteq> 0 \<and> m a = m b then str_cmp (a + 1) (b + 1) m else Some (m a = m b))"

text \<open>\<open>str_starts\<close>, kernel.cpp:561\<close>

partial_function (option) str_starts :: "nat \<Rightarrow> nat \<Rightarrow> mem \<Rightarrow> bool option" where
  "str_starts full pre m =
     (if m pre \<noteq> 0 then (if m pre \<noteq> m full then Some False else str_starts (full + 1) (pre + 1) m)
      else Some True)"

text \<open>\<open>nul_at m s n\<close>: the string at \<open>s\<close> has exactly \<open>n\<close> characters.\<close>

definition nul_at :: "mem \<Rightarrow> nat \<Rightarrow> nat \<Rightarrow> bool" where
  "nul_at m s n \<longleftrightarrow> m (s + n) = 0 \<and> (\<forall>i < n. m (s + i) \<noteq> 0)"

lemma nul_at_0 [simp]: "nul_at m s 0 \<longleftrightarrow> m s = 0"
  by (simp add: nul_at_def)

lemma nul_at_Suc: "nul_at m s (Suc n) \<longleftrightarrow> m s \<noteq> 0 \<and> nul_at m (Suc s) n"
  by (auto simp: nul_at_def less_Suc_eq_0_disj)

lemma str_cpy_result:
  assumes "nul_at m s n" and "d \<le> s \<or> s + n < d"
  shows "str_cpy d s m = Some (\<lambda>i. if d \<le> i \<and> i \<le> d + n then m (s + (i - d)) else m i)"
  using assms
proof (induction n arbitrary: d s m)
  case 0
  then show ?case by (subst str_cpy.simps) (auto simp: fun_eq_iff)
next
  case (Suc n)
  let ?m = "m(d := m s)"
  have nz: "m s \<noteq> 0" and rest: "nul_at m (Suc s) n" using Suc.prems(1) by (simp_all add: nul_at_Suc)
  have pres: "?m (Suc s + i) = m (Suc s + i)" if "i \<le> n" for i
    using Suc.prems(2) that by auto
  have "nul_at ?m (Suc s) n"
    using rest pres by (simp add: nul_at_def)
  from this have "str_cpy (Suc d) (Suc s) ?m =
      Some (\<lambda>i. if Suc d \<le> i \<and> i \<le> Suc d + n then ?m (Suc s + (i - Suc d)) else ?m i)"
  proof (rule Suc.IH)
    show "Suc d \<le> Suc s \<or> Suc s + n < Suc d" using Suc.prems(2) by auto
  qed
  moreover have "(if Suc d \<le> i \<and> i \<le> Suc d + n then ?m (Suc s + (i - Suc d)) else ?m i)
      = (if d \<le> i \<and> i \<le> d + Suc n then m (s + (i - d)) else m i)" for i
  proof (cases "Suc d \<le> i \<and> i \<le> Suc d + n")
    case True
    then have "?m (Suc s + (i - Suc d)) = m (Suc s + (i - Suc d))" by (intro pres) auto
    moreover have "Suc s + (i - Suc d) = s + (i - d)" using True by auto
    ultimately show ?thesis using True by (simp del: fun_upd_apply)
  next
    case False
    then show ?thesis by auto
  qed
  ultimately show ?case using nz by (subst str_cpy.simps) simp
qed

lemma str_len_from_result: "nul_at m s n \<Longrightarrow> str_len_from l s m = Some (l + n)"
proof (induction n arbitrary: l s)
  case 0
  then show ?case by (subst str_len_from.simps) simp
next
  case (Suc n)
  then have "m s \<noteq> 0" "str_len_from (Suc l) (Suc s) m = Some (Suc l + n)"
    by (simp_all add: nul_at_Suc)
  then show ?case by (subst str_len_from.simps) simp
qed

lemma str_len_result: "nul_at m s n \<Longrightarrow> str_len s m = Some n"
  by (simp add: str_len_def str_len_from_result)

lemma str_cmp_result:
  "nul_at m a n \<Longrightarrow> str_cmp a b m = Some (\<forall>i \<le> n. m (a + i) = m (b + i))"
proof (induction n arbitrary: a b)
  case 0
  then show ?case by (subst str_cmp.simps) auto
next
  case (Suc n)
  then have "m a \<noteq> 0" and IH: "str_cmp (Suc a) (Suc b) m = Some (\<forall>i \<le> n. m (Suc a + i) = m (Suc b + i))"
    by (simp_all add: nul_at_Suc)
  moreover have "(\<forall>i \<le> Suc n. m (a + i) = m (b + i)) \<longleftrightarrow>
      m a = m b \<and> (\<forall>i \<le> n. m (Suc a + i) = m (Suc b + i))"
    by (metis (no_types, lifting) Suc_le_mono add_Suc_right add_Suc_shift le_0_eq le_SucE
        add.right_neutral nat.exhaust zero_le)
  ultimately show ?case by (subst str_cmp.simps) auto
qed

lemma str_starts_result:
  "nul_at m p n \<Longrightarrow> str_starts f p m = Some (\<forall>i < n. m (f + i) = m (p + i))"
proof (induction n arbitrary: f p)
  case 0
  then show ?case by (subst str_starts.simps) auto
next
  case (Suc n)
  then have "m p \<noteq> 0" and "str_starts (Suc f) (Suc p) m = Some (\<forall>i < n. m (Suc f + i) = m (Suc p + i))"
    by (simp_all add: nul_at_Suc)
  moreover have "(\<forall>i < Suc n. m (f + i) = m (p + i)) \<longleftrightarrow>
      m f = m p \<and> (\<forall>i < n. m (Suc f + i) = m (Suc p + i))"
    by (auto simp: less_Suc_eq_0_disj)
  ultimately show ?case by (subst str_starts.simps) auto
qed

text \<open>
  Where the source of a copy or one side of a comparison is a literal or another string known
  as a list of characters, the two functions are used in these forms; for a terminated
  source outside the destination they agree with the loops above.
\<close>

definition str_put :: "nat \<Rightarrow> string \<Rightarrow> mem \<Rightarrow> mem" where
  "str_put d t m = wr_bytes d (bytes_of t @ [0]) m"

definition str_eq_at :: "mem \<Rightarrow> nat \<Rightarrow> string \<Rightarrow> bool" where
  "str_eq_at m a t \<longleftrightarrow> rd_bytes m a (length t + 1) = bytes_of t @ [0]"

lemma str_eq_at_put: "str_eq_at (str_put a t m) a t"
  using rd_wr_bytes [of a "bytes_of t @ [0]" m] by (simp add: str_eq_at_def str_put_def)

lemma str_put_other: "i < d \<or> d + length t < i \<Longrightarrow> str_put d t m i = m i"
  unfolding str_put_def by (rule wr_bytes_other) auto

lemma str_eq_at_cong:
  "(\<And>i. i \<le> length t \<Longrightarrow> m (a + i) = m' (b + i)) \<Longrightarrow> str_eq_at m a t = str_eq_at m' b t"
proof -
  assume "\<And>i. i \<le> length t \<Longrightarrow> m (a + i) = m' (b + i)"
  then have "rd_bytes m a (length t + 1) = rd_bytes m' b (length t + 1)" by (simp add: rd_bytes_def)
  then show ?thesis by (simp only: str_eq_at_def)
qed

lemma str_cmp_put:
  assumes "nul_at m a n" "nul_at m b (length t)" "str_eq_at m b t"
  shows "str_cmp a b m = Some (str_eq_at m a t)"
proof -
  have b: "map (\<lambda>i. m (b + i)) [0..<length t + 1] = bytes_of t @ [0]"
    using assms(3) by (simp only: str_eq_at_def rd_bytes_def)
  have "str_eq_at m a t \<longleftrightarrow> (\<forall>i \<le> length t. m (a + i) = m (b + i))"
    unfolding str_eq_at_def rd_bytes_def b [symmetric] by (auto simp: less_Suc_eq_le)
  also have "\<dots> \<longleftrightarrow> (\<forall>i \<le> n. m (a + i) = m (b + i))"
  proof
    assume e: "\<forall>i \<le> length t. m (a + i) = m (b + i)"
    have "n \<le> length t"
    proof (rule ccontr)
      assume "\<not> n \<le> length t"
      then have "m (a + length t) \<noteq> 0" using assms(1) by (simp add: nul_at_def)
      then show False using e assms(2) by (simp add: nul_at_def)
    qed
    then show "\<forall>i \<le> n. m (a + i) = m (b + i)" using e by auto
  next
    assume e: "\<forall>i \<le> n. m (a + i) = m (b + i)"
    have "length t \<le> n"
    proof (rule ccontr)
      assume "\<not> length t \<le> n"
      then have "m (b + n) \<noteq> 0" using assms(2) by (simp add: nul_at_def)
      then show False using e assms(1) by (simp add: nul_at_def)
    qed
    then show "\<forall>i \<le> length t. m (a + i) = m (b + i)" using e by auto
  qed
  finally show ?thesis using str_cmp_result [OF assms(1)] by simp
qed

subsection \<open>Integer square root\<close>

text \<open>
  \<open>int_sqrt\<close>, kernel.cpp:527: Newton's iteration from \<open>x = n\<close>, \<open>y = 1\<close>. For \<open>n \<le> 1\<close>
  the loop is never entered. All values stay between 0 and \<open>n + 1\<close>, so \<open>nat\<close> is faithful
  for every positive \<open>int\<close> but \<open>INT_MAX\<close>, where the first \<open>x + y\<close> overflows.
\<close>

function isqrt_loop :: "nat \<Rightarrow> nat \<Rightarrow> nat \<Rightarrow> nat" where
  "isqrt_loop n x y = (if y < x then isqrt_loop n ((x + y) div 2) (n div ((x + y) div 2)) else x)"
  by pat_completeness auto
termination
  by (relation "measure (\<lambda>(n, x, y). x)") auto

declare isqrt_loop.simps [simp del]

definition int_sqrt :: "int \<Rightarrow> int" where
  "int_sqrt n = (if 1 < n then int (isqrt_loop (nat n) (nat n) 1) else n)"

lemma isqrt_step_upper:
  fixes n x :: nat
  assumes "0 < x"
  shows "n < ((x + n div x) div 2 + 1) * ((x + n div x) div 2 + 1)"
proof -
  let ?q = "n div x" and ?z = "(x + n div x) div 2"
  have "n < x * (?q + 1)" using assms by (simp add: dividend_less_times_div)
  moreover have "4 * (x * (?q + 1)) \<le> (x + (?q + 1)) * (x + (?q + 1))"
  proof -
    have "0 \<le> (int x - (int ?q + 1)) * (int x - (int ?q + 1))" by simp
    then have "4 * (int x * (int ?q + 1)) \<le> (int x + (int ?q + 1)) * (int x + (int ?q + 1))"
      by (simp add: algebra_simps)
    then show ?thesis by (metis (mono_tags, lifting) of_nat_1 of_nat_add of_nat_le_iff of_nat_mult of_nat_numeral)
  qed
  moreover have "a + (b + 1) \<le> 2 * ((a + b) div 2 + 1)" for a b :: nat by arith
  then have "x + (?q + 1) \<le> 2 * (?z + 1)" .
  then have "(x + (?q + 1)) * (x + (?q + 1)) \<le> (2 * (?z + 1)) * (2 * (?z + 1))"
    by (rule mult_le_mono) (use \<open>x + (?q + 1) \<le> 2 * (?z + 1)\<close> in simp)
  ultimately have "4 * n < 4 * ((?z + 1) * (?z + 1))" by (simp add: algebra_simps)
  then show ?thesis by simp
qed

lemma isqrt_loop_correct:
  assumes "0 < n" "0 < x" "y = n div x" "n < (x + 1) * (x + 1)"
  shows "isqrt_loop n x y * isqrt_loop n x y \<le> n \<and>
         n < (isqrt_loop n x y + 1) * (isqrt_loop n x y + 1)"
  using assms
proof (induction n x y rule: isqrt_loop.induct)
  case (1 n x y)
  show ?case
  proof (cases "y < x")
    case True
    let ?z = "(x + y) div 2"
    have up: "n < (?z + 1) * (?z + 1)" using isqrt_step_upper [of x n] "1.prems" by simp
    have "0 < ?z"
    proof (rule ccontr)
      assume "\<not> 0 < ?z"
      then have "x + y \<le> 1" by arith
      with True have "x = 1" "y = 0" by auto
      with "1.prems" show False by simp
    qed
    then have "isqrt_loop n ?z (n div ?z) * isqrt_loop n ?z (n div ?z) \<le> n \<and>
        n < (isqrt_loop n ?z (n div ?z) + 1) * (isqrt_loop n ?z (n div ?z) + 1)"
      using "1.IH" True up "1.prems" by simp
    with True show ?thesis by (simp add: isqrt_loop.simps [of n x y])
  next
    case False
    then have "x \<le> n div x" using "1.prems" by simp
    then have "x * x \<le> n"
      by (meson div_times_less_eq_dividend le_trans mult_le_mono1)
    moreover have "isqrt_loop n x y = x" using False by (simp add: isqrt_loop.simps [of n x y])
    ultimately show ?thesis using "1.prems" by simp
  qed
qed


subsection \<open>Byte order, checksums, number formats\<close>

text \<open>\<open>hs\<close> and \<open>hl\<close>, kernel.cpp:575: host to network order and back\<close>

definition hs :: "u16 \<Rightarrow> u16" where
  "hs v = push_bit 8 v OR drop_bit 8 v"

definition hl :: "u32 \<Rightarrow> u32" where
  "hl v = push_bit 24 (v AND 0xFF) OR push_bit 8 (v AND 0xFF00)
     OR drop_bit 8 (v AND 0xFF0000) OR (drop_bit 24 v AND 0xFF)"

lemma hs_hs [simp]: "hs (hs v) = v"
  by (rule bit_word_eqI) (auto simp: hs_def bit_simps)

lemma byte_masks:
  "(0xFF :: u32) = mask 8" "(0xFF00 :: u32) = push_bit 8 (mask 8)"
  "(0xFF0000 :: u32) = push_bit 16 (mask 8)"
  by (simp_all add: mask_eq_exp_minus_1 push_bit_eq_mult)

lemma hl_hl [simp]: "hl (hl v) = v"
proof (rule bit_word_eqI)
  fix n
  assume "n < LENGTH(32)"
  then consider "n < 8" | "8 \<le> n" "n < 16" | "16 \<le> n" "n < 24" | "24 \<le> n" "n < 32"
    by fastforce
  then show "bit (hl (hl v)) n = bit v n"
    by cases (auto simp: hl_def byte_masks bit_simps)
qed

text \<open>
  \<open>chk\<close>, kernel.cpp:577: the sum of the little-endian words, an odd last byte added, the
  carries folded in, complemented. \<open>net_ip\<close> repeats the carry loop for the IPv4 header.
\<close>

fun chk_sum :: "nat \<Rightarrow> mem \<Rightarrow> nat \<Rightarrow> u32 \<Rightarrow> u32" where
  "chk_sum l m p s =
     (if 1 < l then chk_sum (l - 2) m (p + 2) (s + ucast (rd16 m p))
      else if l = 1 then s + ucast (m p) else s)"

declare chk_sum.simps [simp del]

lemma unat_high_half: "unat (drop_bit 16 (s :: u32)) = unat s div 65536"
proof -
  have "unat (drop_bit 16 s) = drop_bit 16 (unat s)" by (rule unat_drop_bit_eq)
  also have "\<dots> = unat s div 65536" by (simp add: drop_bit_eq_div)
  finally show ?thesis .
qed

lemma high_half_zero: "drop_bit 16 (s :: u32) = 0 \<longleftrightarrow> unat s div 65536 = 0"
  using unat_high_half [of s] unat_eq_zero [of "drop_bit 16 s"] by metis

lemma drop_bit_16_nz: "drop_bit 16 (s :: u32) \<noteq> 0 \<Longrightarrow>
  unat ((s AND 0xFFFF) + drop_bit 16 s) = unat s mod 65536 + unat s div 65536
  \<and> unat s mod 65536 + unat s div 65536 < unat s"
proof -
  assume nz: "drop_bit 16 s \<noteq> 0"
  note hi = unat_high_half [of s]
  have "s AND 0xFFFF = take_bit 16 s" by (simp add: take_bit_eq_mask mask_eq_exp_minus_1)
  then have "unat (s AND 0xFFFF) = take_bit 16 (unat s)" by (simp add: unsigned_take_bit_eq)
  then have lo: "unat (s AND 0xFFFF) = unat s mod 65536" by (simp add: take_bit_eq_mod)
  have "unat s < 2 ^ LENGTH(32)" by (rule unsigned_less)
  then have lt: "unat s < 4294967296" by simp
  have "unat s div 65536 \<noteq> 0" using nz by (simp only: high_half_zero not_False_eq_True)
  then have "unat s mod 65536 + unat s div 65536 < unat s"
    using div_mult_mod_eq [of "unat s" 65536] by arith
  moreover have "unat ((s AND 0xFFFF) + drop_bit 16 s) = unat s mod 65536 + unat s div 65536"
    using calculation lt by (simp add: unat_word_ariths hi lo)
  ultimately show ?thesis by simp
qed

function fold16 :: "u32 \<Rightarrow> u32" where
  "fold16 s = (if drop_bit 16 s \<noteq> 0 then fold16 ((s AND 0xFFFF) + drop_bit 16 s) else s)"
  by pat_completeness auto
termination
  by (relation "measure unat") (use drop_bit_16_nz in auto)

declare fold16.simps [simp del]

definition chk :: "mem \<Rightarrow> nat \<Rightarrow> nat \<Rightarrow> u16" where
  "chk m p l = ucast (NOT (fold16 (chk_sum l m p 0)))"

text \<open>The folded sum is the ones' complement sum: below \<open>2 ^ 16\<close>, equal modulo \<open>2 ^ 16 - 1\<close>.\<close>

lemma fold16_spec:
  "unat (fold16 s) < 65536 \<and> unat (fold16 s) mod 65535 = unat s mod 65535 \<and> (fold16 s = 0 \<longleftrightarrow> s = 0)"
proof (induction s rule: fold16.induct)
  case (1 s)
  show ?case
  proof (cases "drop_bit 16 s = 0")
    case True
    then have "unat s div 65536 = 0" by (simp only: high_half_zero)
    then show ?thesis using True by (simp add: fold16.simps [of s])
  next
    case False
    let ?t = "(s AND 0xFFFF) + drop_bit 16 s"
    have t: "unat ?t = unat s mod 65536 + unat s div 65536" using drop_bit_16_nz [OF False] by simp
    have "unat s = (unat s div 65536) * 65535 + unat ?t"
      using t div_mult_mod_eq [of "unat s" 65536] by arith
    then have "unat s mod 65535 = unat ?t mod 65535" by (metis mod_mult_self3)
    moreover have "?t \<noteq> 0"
    proof
      assume "?t = 0"
      then have "unat ?t = 0" by simp
      then have "unat s div 65536 = 0" using t by simp
      then show False using False by (simp only: high_half_zero)
    qed
    moreover have "s \<noteq> 0" using False by auto
    ultimately show ?thesis using "1.IH" [OF False] False by (simp add: fold16.simps [of s])
  qed
qed

text \<open>\<open>bcd2bin\<close>, kernel.cpp:565\<close>

definition bcd2bin :: "u8 \<Rightarrow> u8" where
  "bcd2bin b = drop_bit 4 b * 10 + (b AND 0xF)"

text \<open>\<open>byte_to_hex\<close> and the two \<open>hex_to_str\<close>: kernel.cpp:562, kernel_main.cpp:430 and 449\<close>

definition hexdig :: "nat \<Rightarrow> char" where
  "hexdig n = ''0123456789ABCDEF'' ! n"

definition byte_to_hex :: "u8 \<Rightarrow> string" where
  "byte_to_hex b = [hexdig (unat (drop_bit 4 b AND 0xF)), hexdig (unat (b AND 0xF))]"

definition hex_to_str :: "u16 \<Rightarrow> string" where
  "hex_to_str num = map (\<lambda>k. hexdig (unat (drop_bit k num AND 0xF))) [12, 8, 4, 0]"

fun hex_loop :: "nat \<Rightarrow> u32 \<Rightarrow> string \<Rightarrow> string" where
  "hex_loop 0 val acc = acc"
| "hex_loop (Suc i) val acc = hex_loop i (drop_bit 4 val) (hexdig (unat (val AND 0xF)) # acc)"

definition hex_to_str32 :: "u32 \<Rightarrow> string" where
  "hex_to_str32 val = ''0x'' @ hex_loop 8 val []"

text \<open>\<open>hex_str_to_int\<close>, kernel.cpp:1439: stops at the first character that is no hex digit\<close>

fun hex_str_loop :: "u32 \<Rightarrow> string \<Rightarrow> u32" where
  "hex_str_loop val [] = val"
| "hex_str_loop val (c # cs) =
     (let n = of_char c :: nat in
      if 48 \<le> n \<and> n \<le> 57 then hex_str_loop (push_bit 4 val OR word_of_nat (n - 48)) cs
      else if 65 \<le> n \<and> n \<le> 70 then hex_str_loop (push_bit 4 val OR word_of_nat (n - 65 + 10)) cs
      else if 97 \<le> n \<and> n \<le> 102 then hex_str_loop (push_bit 4 val OR word_of_nat (n - 97 + 10)) cs
      else val)"

definition hex_str_to_int :: "string \<Rightarrow> u32" where
  "hex_str_to_int s = hex_str_loop 0 s"

lemma hexdig_cases:
  assumes "n < 16"
  shows "(of_char (hexdig n) :: nat) = (if n < 10 then 48 + n else 55 + n)"
proof -
  have "\<forall>k \<in> set [0..<16]. of_char (hexdig k) = (if k < 10 then 48 + k else 55 + k :: nat)"
    by (simp add: hexdig_def upt_rec)
  with assms show ?thesis by simp
qed

lemma hex_str_loop_digit:
  assumes "n < 16"
  shows "hex_str_loop val (hexdig n # cs) = hex_str_loop (push_bit 4 val OR word_of_nat n) cs"
  using hexdig_cases [OF assms] assms by (simp add: Let_def)

text \<open>Reading back the hexadecimal digits of a word gives the word.\<close>

lemma nibble_less: "unat ((w :: u32) AND 0xF) < 16"
proof -
  have "w AND 0xF = take_bit 4 w" by (simp add: take_bit_eq_mask mask_eq_exp_minus_1)
  then show ?thesis using take_bit_nat_less_exp [of 4 "unat w"] by (simp add: unsigned_take_bit_eq)
qed

lemma hex_loop_read:
  "hex_str_loop v (hex_loop i val acc)
    = hex_str_loop (push_bit (4 * i) v OR take_bit (4 * i) val) acc"
proof (induction i arbitrary: v val acc)
  case 0
  then show ?case by simp
next
  case (Suc i)
  have "push_bit 4 (push_bit (4 * i) v OR take_bit (4 * i) (drop_bit 4 val)) OR (val AND 0xF)
      = push_bit (4 * Suc i) v OR take_bit (4 * Suc i) val"
  proof (rule bit_word_eqI)
    have m: "(0xF :: u32) = mask 4" by (simp add: mask_eq_exp_minus_1)
    fix n
    assume "n < LENGTH(32)"
    then show "bit (push_bit 4 (push_bit (4 * i) v OR take_bit (4 * i) (drop_bit 4 val)) OR (val AND 0xF)) n
      = bit (push_bit (4 * Suc i) v OR take_bit (4 * Suc i) val) n"
      by (cases "n < 4") (auto simp: m bit_simps not_less)
  qed
  then show ?case by (simp add: Suc hex_str_loop_digit nibble_less del: hex_str_loop.simps)
qed

subsection \<open>Decimal conversion\<close>

text \<open>
  \<open>int_to_str\<close>, kernel.cpp:564 (signed) and kernel_main.cpp:484 (unsigned): the digits are
  counted, then written from the last to the first. \<open>n = -n\<close> leaves \<open>INT_MIN\<close> as it is.
\<close>

fun ndigits :: "nat \<Rightarrow> nat" where
  "ndigits t = (if t = 0 then 0 else Suc (ndigits (t div 10)))"

fun put_digits :: "nat \<Rightarrow> nat \<Rightarrow> nat \<Rightarrow> mem \<Rightarrow> mem" where
  "put_digits n i s m =
     (if n = 0 then m
      else put_digits (n div 10) (i - 1) s (m(s + (i - 1) := word_of_nat (n mod 10) + 48)))"

declare ndigits.simps [simp del] put_digits.simps [simp del]

definition int_to_str :: "int \<Rightarrow> nat \<Rightarrow> mem \<Rightarrow> mem" where
  "int_to_str n s m =
     (if n = 0 then m(s := 48, s + 1 := 0)
      else let i = (if n < 0 then 1 else 0);
               m1 = (if n < 0 then m(s := 45) else m);
               n1 = (if n < 0 \<and> n \<noteq> - (2 ^ 31) then - n else n);
               k = i + ndigits (nat n1)
           in put_digits (nat n1) k s (m1(s + k := 0)))"

definition int_to_str_u :: "u32 \<Rightarrow> nat \<Rightarrow> mem \<Rightarrow> mem" where
  "int_to_str_u n s m =
     (if n = 0 then m(s := 48, s + 1 := 0)
      else let k = ndigits (unat n) in put_digits (unat n) k s (m(s + k := 0)))"

text \<open>The decimal notation itself, as the reference the digit loops are compared with.\<close>

fun digits10 :: "nat \<Rightarrow> string" where
  "digits10 n = (if n = 0 then [] else digits10 (n div 10) @ [char_of (48 + n mod 10)])"

declare digits10.simps [simp del]

definition int_str :: "int \<Rightarrow> string" where
  "int_str n = (if n = 0 then ''0'' else (if n < 0 then ''-'' else []) @ digits10 (nat \<bar>n\<bar>))"

lemma digits10_length: "length (digits10 n) = ndigits n"
  by (induction n rule: digits10.induct) (simp add: digits10.simps ndigits.simps)

lemma put_digits_other: "ndigits n \<le> i \<Longrightarrow> a < s \<or> s + i \<le> a \<Longrightarrow> put_digits n i s m a = m a"
proof (induction n i s m rule: put_digits.induct)
  case (1 n i s m)
  show ?case
  proof (cases "n = 0")
    case True
    then show ?thesis by (simp add: put_digits.simps)
  next
    case False
    let ?m = "m(s + (i - 1) := word_of_nat (n mod 10) + 48)"
    have pre: "ndigits (n div 10) \<le> i - 1" "0 < i"
      using False "1.prems"(1) by (simp_all add: ndigits.simps [of n])
    have "put_digits n i s m a = put_digits (n div 10) (i - 1) s ?m a"
      using False by (subst put_digits.simps) simp
    also have "\<dots> = ?m a"
      by (rule "1.IH") (use False pre "1.prems"(2) in auto)
    also have "\<dots> = m a" using pre "1.prems"(2) by auto
    finally show ?thesis .
  qed
qed

lemma put_digits_below:
  "a < s + (i - ndigits n) \<Longrightarrow> put_digits n i s m a = m a"
proof (induction n i s m rule: put_digits.induct)
  case (1 n i s m)
  show ?case
  proof (cases "n = 0")
    case True
    then show ?thesis by (simp add: put_digits.simps)
  next
    case False
    let ?m = "m(s + (i - 1) := word_of_nat (n mod 10) + 48)"
    have pre: "i - 1 - ndigits (n div 10) = i - ndigits n" "i - ndigits n \<le> i - 1"
      using False by (simp_all add: ndigits.simps [of n])
    have "put_digits n i s m a = put_digits (n div 10) (i - 1) s ?m a"
      using False by (subst put_digits.simps) simp
    also have "\<dots> = ?m a"
      by (rule "1.IH") (use False pre "1.prems" in auto)
    also have "\<dots> = m a" using pre "1.prems" by auto
    finally show ?thesis .
  qed
qed

lemma digit_byte: "(word_of_nat (n mod 10) + 48 :: u8) = byte_of (char_of (48 + n mod 10))"
proof -
  have "(48 + n mod 10) mod 256 = 48 + n mod 10" by simp
  then show ?thesis by (simp add: byte_of_def add.commute)
qed

text \<open>The digit loop writes exactly the decimal notation, right-aligned at offset \<open>i\<close>.\<close>

lemma put_digits_bytes:
  "rd_bytes (put_digits n (k + ndigits n) s m) (s + k) (ndigits n) = bytes_of (digits10 n)"
proof (induction n arbitrary: m rule: digits10.induct)
  case (1 n)
  show ?case
  proof (cases "n = 0")
    case True
    then show ?thesis by (simp add: ndigits.simps digits10.simps rd_bytes_def bytes_of_def)
  next
    case False
    let ?d = "ndigits (n div 10)" and ?m = "m(s + (k + ndigits (n div 10)) := word_of_nat (n mod 10) + 48)"
    have nd: "ndigits n = Suc ?d" using False by (simp add: ndigits.simps [of n])
    have step: "put_digits n (k + ndigits n) s m = put_digits (n div 10) (k + ?d) s ?m"
      using False by (subst put_digits.simps) (simp add: nd)
    have last: "put_digits (n div 10) (k + ?d) s ?m (s + k + ?d) = word_of_nat (n mod 10) + 48"
      by (subst put_digits_other) (simp_all add: add.assoc)
    have "rd_bytes (put_digits n (k + ndigits n) s m) (s + k) (ndigits n)
        = rd_bytes (put_digits (n div 10) (k + ?d) s ?m) (s + k) ?d @ [word_of_nat (n mod 10) + 48]"
      by (simp only: step) (use last in \<open>simp add: nd rd_bytes_def\<close>)
    also have "\<dots> = bytes_of (digits10 n)"
      using "1.IH" [OF False, of ?m] False
      by (simp add: digits10.simps [of n] bytes_of_def digit_byte del: fun_upd_apply)
    finally show ?thesis .
  qed
qed

lemma rd_bytes_eqI: "(\<And>i. i < n \<Longrightarrow> m (a + i) = m' (b + i)) \<Longrightarrow> rd_bytes m a n = rd_bytes m' b n"
  by (simp add: rd_bytes_def)

lemma digits10_pos: "n \<noteq> 0 \<Longrightarrow> 0 < ndigits n"
  by (simp add: ndigits.simps [of n])

subsection \<open>Keyboard and pointer helpers\<close>

text \<open>
  \<open>get_ascii\<close>, kernel.cpp:641 (OS1). The two tables have 58 characters; the guard lets the
  scan code 58 through, which reads the byte behind the table: \<open>None\<close> is that read.
\<close>

definition k_low :: string where
  "k_low = [CHR 0x00, CHR 27] @ ''1234567890-='' @ [CHR 8, CHR 9]
    @ ''qwertzuiop[]'' @ [CHR 10, CHR 0x00]
    @ ''asdfghjkl;'' @ [CHR 39, CHR 96, CHR 0x00, CHR 92]
    @ ''yxcvbnm,.-'' @ [CHR 0x00, CHR 42, CHR 0x00, CHR 32]"

definition k_up :: string where
  "k_up = [CHR 0x00, CHR 27, CHR 33, CHR 34, CHR 35] @ ''$%&/()=?'' @ [CHR 96, CHR 8, CHR 9]
    @ ''QWERTZUIOP{}'' @ [CHR 10, CHR 0x00]
    @ ''ASDFGHJKL:'' @ [CHR 39, CHR 126, CHR 0x00, CHR 124]
    @ ''YXCVBNM;:_'' @ [CHR 0x00, CHR 42, CHR 0x00, CHR 32]"

definition table_read :: "string \<Rightarrow> nat \<Rightarrow> char option" where
  "table_read t i = (if i < length t then Some (t ! i) else None)"

definition get_ascii :: "bool \<Rightarrow> u8 \<Rightarrow> char option" where
  "get_ascii key_shift sc =
     (if 58 < sc then Some (CHR 0x00)
      else if key_shift then table_read k_up (unat sc) else table_read k_low (unat sc))"

text \<open>\<open>get_ascii_qwertz\<close>, kernel_main.cpp:536 (OS2): guarded by \<open>sizeof\<close>.\<close>

definition k_low_qwertz :: string where
  "k_low_qwertz = [CHR 0x00, CHR 27] @ ''1234567890'' @ [CHR 0x00, CHR 0x00, CHR 8, CHR 9]
    @ ''qwertzuiop'' @ [CHR 0x00, CHR 0x00, CHR 10, CHR 0x00]
    @ ''asdfghjkl'' @ [CHR 0x00, CHR 0x00, CHR 0x00, CHR 0x00, CHR 0x00]
    @ ''yxcvbnm,.-'' @ [CHR 0x00, CHR 0x00, CHR 0x00, CHR 32]"

definition get_ascii_qwertz :: "u8 \<Rightarrow> char option" where
  "get_ascii_qwertz sc =
     (if unat sc < length k_low_qwertz then table_read k_low_qwertz (unat sc) else Some (CHR 0x00))"

text \<open>\<open>get_id\<close>, kernel.cpp:569: letters count 1 to 26, five sums are doubled.\<close>

fun get_id_sum :: "u32 \<Rightarrow> string \<Rightarrow> u32" where
  "get_id_sum s [] = s"
| "get_id_sum s (c # cs) =
     (let n = of_char c :: nat in
      get_id_sum (if 97 \<le> n \<and> n \<le> 122 then s + word_of_nat (n - 97 + 1)
                  else if 65 \<le> n \<and> n \<le> 90 then s + word_of_nat (n - 65 + 1) else s) cs)"

definition get_id :: "string \<Rightarrow> u32" where
  "get_id c =
     (let s = get_id_sum 0 c in
      if s = 57 \<or> s = 54 \<or> s = 56 \<or> s = 63 \<or> s = 101 then s * 2
      else if s = 57 \<and> c \<noteq> [] \<and> last c = CHR ''o'' then 171
      else s)"

text \<open>\<open>is_over_rect\<close> and \<open>is_over\<close>, kernel.cpp:658\<close>

definition is_over_rect :: "bool \<Rightarrow> int \<Rightarrow> int \<Rightarrow> int \<Rightarrow> int \<Rightarrow> int \<Rightarrow> int \<Rightarrow> bool" where
  "is_over_rect touch_mode mx my x y w h =
     (let m = (if touch_mode then 30 else 0)
      in x - m \<le> mx \<and> mx \<le> x + w + m \<and> y - m \<le> my \<and> my \<le> y + h + m)"

definition is_over :: "bool \<Rightarrow> int \<Rightarrow> int \<Rightarrow> int \<Rightarrow> int \<Rightarrow> int \<Rightarrow> bool" where
  "is_over touch_mode mx my ox oy r =
     (let m = (if touch_mode then 20 else 0)
      in (mx - ox) * (mx - ox) + (my - oy) * (my - oy) < (r + m) * (r + m))"

text \<open>\<open>random\<close>, kernel.cpp:549\<close>

definition random_step :: "u32 \<Rightarrow> u32" where
  "random_step seed = (seed * 1103515245 + 12345) AND 0x7FFFFFFF"

text \<open>\<open>Cos\<close> and \<open>Sin\<close> (kernel.cpp:546) index a table of 256 entries with C's remainder.\<close>

definition c_rem :: "int \<Rightarrow> int \<Rightarrow> int" where
  "c_rem a b = sgn a * (\<bar>a\<bar> mod \<bar>b\<bar>)"

definition c_div :: "int \<Rightarrow> int \<Rightarrow> int" where
  "c_div a b = sgn a * sgn b * (\<bar>a\<bar> div \<bar>b\<bar>)"

lemma length_k_low [simp]: "length k_low = 58"
  by (simp add: k_low_def)

lemma length_k_up [simp]: "length k_up = 58"
  by (simp add: k_up_def)

lemma length_k_low_qwertz [simp]: "length k_low_qwertz = 58"
  by (simp add: k_low_qwertz_def)

subsection \<open>Properties\<close>

text \<open>
  \<open>str_cpy\<close> returns whenever the source string is terminated and the destination
  does not start inside it; it copies the string with its NUL and changes no other byte.
\<close>

theorem str_cpy_copies:
  assumes "nul_at m s n" and "d \<le> s \<or> s + n < d"
  shows "\<exists>m'. str_cpy d s m = Some m' \<and> rd_bytes m' d (n + 1) = rd_bytes m s (n + 1)
    \<and> (\<forall>i. i < d \<or> d + n < i \<longrightarrow> m' i = m i)"
  by (rule exI [of _ "\<lambda>i. if d \<le> i \<and> i \<le> d + n then m (s + (i - d)) else m i"])
    (use str_cpy_result [OF assms] in \<open>auto simp: rd_bytes_def\<close>)

theorem str_cpy_copies_witness:
  "nul_at (wr_bytes 100 (bytes_of ''AB'') (\<lambda>_. 0)) 100 2 \<and>
   (\<exists>m'. str_cpy 99 100 (wr_bytes 100 (bytes_of ''AB'') (\<lambda>_. 0)) = Some m' \<and> m' 99 = byte_of CHR ''A'')"
proof -
  let ?m = "wr_bytes 100 (bytes_of ''AB'') (\<lambda>_. 0)"
  have z: "nul_at ?m 100 2"
    by (auto simp: nul_at_def wr_bytes_def bytes_of_def byte_of_def less_2_cases_iff)
  obtain m' where m': "str_cpy 99 100 ?m = Some m'" "rd_bytes m' 99 (2 + 1) = rd_bytes ?m 100 (2 + 1)"
    using str_cpy_copies [OF z, of 99] by auto
  have "rd_bytes m' 99 (2 + 1) ! 0 = m' 99" "rd_bytes ?m 100 (2 + 1) ! 0 = ?m 100"
    by (simp_all add: rd_bytes_def)
  then have "m' 99 = ?m 100" using m'(2) by metis
  also have "?m 100 = byte_of CHR ''A''" by (simp add: wr_bytes_def bytes_of_def)
  finally have "m' 99 = byte_of CHR ''A''" .
  with z m'(1) show ?thesis by blast
qed

text \<open>
  \<open>int_sqrt\<close> computes the floor of the square root of every non-negative argument.
\<close>

theorem int_sqrt_floor:
  assumes "0 \<le> n"
  shows "int_sqrt n * int_sqrt n \<le> n \<and> n < (int_sqrt n + 1) * (int_sqrt n + 1)"
proof (cases "1 < n")
  case True
  let ?r = "isqrt_loop (nat n) (nat n) 1"
  have "nat n div nat n = 1" using True by simp
  then have "?r * ?r \<le> nat n \<and> nat n < (?r + 1) * (?r + 1)"
    using True by (intro isqrt_loop_correct) auto
  then have "int (?r * ?r) \<le> int (nat n) \<and> int (nat n) < int ((?r + 1) * (?r + 1))"
    by (simp only: of_nat_le_iff of_nat_less_iff)
  with True show ?thesis by (simp add: int_sqrt_def algebra_simps)
next
  case False
  with assms have "n = 0 \<or> n = 1" by auto
  then show ?thesis by (auto simp: int_sqrt_def)
qed

theorem int_sqrt_floor_witness: "int_sqrt 10 * int_sqrt 10 \<le> 10 \<and> 10 < (int_sqrt 10 + 1) * (int_sqrt 10 + 1)"
  using int_sqrt_floor [of 10] by simp

text \<open>
  The hexadecimal text of a 32-bit word (after its \<open>0x\<close>) reads back as the word:
  \<open>hex_str_to_int\<close> undoes \<open>hex_to_str\<close>.
\<close>

theorem hex_roundtrip: "hex_str_to_int (drop 2 (hex_to_str32 v)) = v"
  using hex_loop_read [of 0 8 v "[]"] by (simp add: hex_str_to_int_def hex_to_str32_def take_bit_word_eq_self)

text \<open>
  \<open>int_to_str\<close> writes the decimal notation of every \<open>int\<close> but \<open>INT_MIN\<close>, with its
  sign and its NUL, at the address it is given, and nothing behind the NUL or before it.
\<close>

theorem int_to_str_decimal:
  assumes "n \<noteq> - (2 ^ 31)"
  shows "rd_bytes (int_to_str n s m) s (length (int_str n) + 1) = bytes_of (int_str n) @ [0]
    \<and> (\<forall>a. a < s \<or> s + length (int_str n) < a \<longrightarrow> int_to_str n s m a = m a)"
proof (cases "n = 0")
  case True
  then show ?thesis
    by (auto simp: int_to_str_def int_str_def rd_bytes_def bytes_of_def byte_of_def)
next
  case False
  let ?k = "if n < 0 then 1 else 0 :: nat" and ?N = "nat \<bar>n\<bar>"
  let ?d = "ndigits ?N" and ?m1 = "if n < 0 then m(s := 45) else m"
  let ?m2 = "?m1(s + (?k + ?d) := 0)"
  let ?r = "put_digits ?N (?k + ?d) s ?m2"
  have r: "int_to_str n s m = ?r"
    using False assms by (simp add: int_to_str_def Let_def)
  have len: "length (int_str n) = ?k + ?d" using False by (simp add: int_str_def digits10_length)
  have dig: "rd_bytes ?r (s + ?k) ?d = bytes_of (digits10 ?N)" by (rule put_digits_bytes)
  have nul: "?r (s + (?k + ?d)) = 0" by (subst put_digits_other) simp_all
  have "rd_bytes ?r s ?k = bytes_of (if n < 0 then ''-'' else [])"
    by (auto simp: rd_bytes_def bytes_of_def byte_of_def put_digits_below digits10_pos)
  moreover have "rd_bytes ?r s (?k + ?d + 1) = rd_bytes ?r s ?k @ rd_bytes ?r (s + ?k) ?d @ [?r (s + (?k + ?d))]"
    by (rule nth_equalityI) (auto simp: rd_bytes_def nth_append less_Suc_eq)
  ultimately have "rd_bytes ?r s (?k + ?d + 1) = bytes_of (int_str n) @ [0]"
    using False by (simp add: dig nul int_str_def bytes_of_def)
  moreover have "?r a = m a" if "a < s \<or> s + (?k + ?d) < a" for a
    using that by (subst put_digits_other) auto
  ultimately show ?thesis by (simp add: r len)
qed

theorem int_to_str_decimal_witness:
  "rd_bytes (int_to_str (-42) 7 (\<lambda>_. 1)) 7 4 = bytes_of ''-42'' @ [0]"
proof -
  have s: "int_str (-42) = ''-42''" by code_simp
  have l: "length ''-42'' + 1 = 4" by simp
  have "(-42 :: int) \<noteq> - (2 ^ 31)" by simp
  from int_to_str_decimal [OF this, of 7 "\<lambda>_. 1"] show ?thesis
    unfolding s l by (rule conjunct1)
qed

text \<open>
  The scan-code tables: OS1's \<open>get_ascii\<close> reads behind its table for exactly one
  scan code, 58 (Caps Lock), with or without Shift; OS2's \<open>get_ascii_qwertz\<close> never does.
\<close>

theorem get_ascii_out_of_bounds:
  "(get_ascii key_shift sc = None \<longleftrightarrow> sc = 58) \<and> get_ascii_qwertz sc \<noteq> None"
proof -
  have "unat sc < 58 \<longleftrightarrow> sc < 58" by (simp add: word_less_nat_alt)
  then show ?thesis by (auto simp: get_ascii_def table_read_def get_ascii_qwertz_def)
qed

end
