(* ===== verification/Ahci.thy ===== *)
theory Ahci
  imports Machine
begin

text \<open>
  \<open>cosmos_ahci.cpp\<close>, the driver proper: port set-up, the polled sector and packet commands,
  and the staged link scan. Register \<open>r\<close> of a port is the 32-bit word at \<open>port + 4 * r\<close>;
  the command list, command tables and buffers live in RAM. \<open>wbinvd\<close> has no effect in
  coherent memory and is not modelled. Addresses are numbers; the code keeps them in 32 bits.
\<close>

subsection \<open>State and registers\<close>

text \<open>\<open>DriveInfo\<close>, cosmos_ahci.cpp:57\<close>

record drive =
  drv_type :: int
  size_mb :: int
  base_port :: nat
  model :: string

text \<open>The globals of the driver (cosmos_ahci.cpp:9 to 34) and of the disk manager.\<close>

record 'd disks = "'d console" +
  global_active_port :: nat
  global_ahci_abar :: u32
  ahci_scan_state :: nat
  ahci_scan_timer :: nat
  drives :: "drive list"
  drive_count :: nat
  ahci_found_ports_bitmask :: u32
  is_ahci_found :: bool
  ahci_bar5 :: u32

definition ahci_memory_base :: nat where "ahci_memory_base = 0x800000"
definition SATA_SIG_ATAPI :: u32 where "SATA_SIG_ATAPI = 0xEB140101"

text \<open>\<open>HBA_PORT\<close> and \<open>HBA_MEM\<close>, cosmos_ahci.h:11 and 19: byte offsets of the fields.\<close>

definition P_CLB :: nat where "P_CLB = 0"
definition P_CLBU :: nat where "P_CLBU = 4"
definition P_FB :: nat where "P_FB = 8"
definition P_FBU :: nat where "P_FBU = 12"
definition P_IS :: nat where "P_IS = 16"
definition P_CMD :: nat where "P_CMD = 24"
definition P_TFD :: nat where "P_TFD = 32"
definition P_SIG :: nat where "P_SIG = 36"
definition P_SSTS :: nat where "P_SSTS = 40"
definition P_SCTL :: nat where "P_SCTL = 44"
definition P_SERR :: nat where "P_SERR = 48"
definition P_SACT :: nat where "P_SACT = 52"
definition P_CI :: nat where "P_CI = 56"

lemmas port_regs = P_CLB_def P_CLBU_def P_FB_def P_FBU_def P_IS_def P_CMD_def P_TFD_def
  P_SIG_def P_SSTS_def P_SCTL_def P_SERR_def P_SACT_def P_CI_def

text \<open>
  The register block of port \<open>i\<close>: most functions compute \<open>abar + 64 + i * 32\<close> on 32-bit
  words; the scan goes through the struct \<open>HBA_MEM\<close>, whose eleven registers, 29 reserved and
  15 vendor words put \<open>ports[0]\<close> at byte 220.
\<close>

definition port_regs_at :: "nat \<Rightarrow> nat \<Rightarrow> nat" where
  "port_regs_at abar port_no = abar + 4 * (64 + port_no * 32)"

definition hba_mem_port :: "nat \<Rightarrow> nat \<Rightarrow> nat" where
  "hba_mem_port abar i = abar + 4 * (11 + 29 + 15) + i * 128"

definition mmio_upd :: "'d hw \<Rightarrow> nat \<Rightarrow> (u32 \<Rightarrow> u32) \<Rightarrow> ('d, 'z, unit) op" where
  "mmio_upd hw a f = do { v \<leftarrow> mmio_read32 hw a; mmio_write32 hw a (f v) }"

text \<open>\<open>mmio_test hw a m\<close>: is a bit of the mask set in the register?\<close>

definition mmio_test :: "'d hw \<Rightarrow> nat \<Rightarrow> u32 \<Rightarrow> ('d, 'z, bool) op" where
  "mmio_test hw a m = do { v \<leftarrow> mmio_read32 hw a; State_Monad.return (v AND m \<noteq> 0) }"

subsection \<open>Port set-up\<close>

text \<open>\<open>ahci_port_rebase\<close>, cosmos_ahci.cpp:126\<close>

definition rebase_headers :: "nat \<Rightarrow> nat \<Rightarrow> mem \<Rightarrow> mem" where
  "rebase_headers clb port_base m =
     fold (\<lambda>i m. wr32 (clb + 32 * i + 12) 0
                   (wr32 (clb + 32 * i + 8) (word_of_nat (port_base + 2048 + i * 256))
                     (wr16 (clb + 32 * i + 2) 1 m))) [0..<32] m"

definition ahci_port_rebase :: "'d hw \<Rightarrow> nat \<Rightarrow> nat \<Rightarrow> ('d, 'z, unit) op" where
  "ahci_port_rebase hw port port_no = do {
     mmio_upd hw (port + P_CMD) (\<lambda>v. v AND NOT 0x0001);
     mmio_upd hw (port + P_CMD) (\<lambda>v. v AND NOT 0x0010);
     spin_while (mmio_test hw (port + P_CMD) 0xC000) 100000;
     let port_base = ahci_memory_base + port_no * 32768;
     mmio_write32 hw (port + P_CLB) (word_of_nat port_base);
     mmio_write32 hw (port + P_CLBU) 0;
     mmio_write32 hw (port + P_FB) (word_of_nat (port_base + 1024));
     mmio_write32 hw (port + P_FBU) 0;
     clb \<leftarrow> mmio_read32 hw (port + P_CLB);
     poke (rebase_headers (unat clb) port_base);
     mmio_write32 hw (port + P_SERR) 0xFFFFFFFF;
     mmio_upd hw (port + P_CMD) (\<lambda>v. v OR 0x0010);
     mmio_upd hw (port + P_CMD) (\<lambda>v. v OR 0x0001)
   }"

text \<open>\<open>ahci_init\<close>, cosmos_ahci.cpp:155\<close>

definition port_digits :: "nat \<Rightarrow> string" where
  "port_digits i = (if i < 10 then [char_of (48 + i)] else [char_of (48 + i div 10), char_of (48 + i mod 10)])"

definition ahci_init :: "'d hw \<Rightarrow> (('d, 'z) disks_scheme, unit) state" where
  "ahci_init hw = do {
     found \<leftarrow> gets is_ahci_found;
     bar \<leftarrow> gets ahci_bar5;
     if \<not> found \<or> bar = 0 then set_status ''AHCI: NO CONTROLLER FOUND!''
     else do {
       let abar = unat bar;
       mmio_upd hw (abar + 4) (\<lambda>v. v OR 0x80000000);
       pi \<leftarrow> mmio_read32 hw (abar + 12);
       if pi = 0 then set_status ''AHCI: NO PORTS IMPLEMENTED!''
       else do {
         r \<leftarrow> find_m [0..<32] (\<lambda>i.
           if bit pi i then do {
             ssts \<leftarrow> mmio_read32 hw (abar + 0x100 + i * 0x80 + P_SSTS);
             if ssts AND 0x0F = 3 \<and> drop_bit 8 ssts AND 0x0F = 1 then State_Monad.return (Some i)
             else State_Monad.return None
           } else State_Monad.return None);
         case r of Some i \<Rightarrow> set_status (''AHCI: DRIVE READY ON PORT '' @ port_digits i)
         | None \<Rightarrow> set_status ''AHCI: NO DRIVES CONNECTED!''
       }
     }
   }"

subsection \<open>Polled commands in slot 0\<close>

text \<open>The mailbox addresses of a port, in the 4 MB area: \<open>p_off = port_no * 0x10000\<close>.\<close>

definition cmd_list_addr :: "nat \<Rightarrow> nat" where "cmd_list_addr port_no = 0x400000 + port_no * 0x10000"
definition fis_base_addr :: "nat \<Rightarrow> nat" where "fis_base_addr port_no = 0x401000 + port_no * 0x10000"
definition cmd_table_addr :: "nat \<Rightarrow> nat" where "cmd_table_addr port_no = 0x402000 + port_no * 0x10000"
definition data_buffer_addr :: "nat \<Rightarrow> nat" where "data_buffer_addr port_no = 0x403000 + port_no * 0x10000"

lemmas mailbox_defs = cmd_list_addr_def fis_base_addr_def cmd_table_addr_def data_buffer_addr_def

text \<open>Consecutive 32-bit words written from an address on: \<open>p[0] = ..; p[1] = ..\<close>\<close>

fun wr_words :: "nat \<Rightarrow> u32 list \<Rightarrow> mem \<Rightarrow> mem" where
  "wr_words a [] m = m"
| "wr_words a (w # ws) m = wr_words (a + 4) ws (wr32 a w m)"

text \<open>\<open>CI = 1\<close>, wait for CI bit 0, then look at the task-file error bit of IS.\<close>

definition ahci_issue :: "'d hw \<Rightarrow> nat \<Rightarrow> ('d, 'z, bool) op" where
  "ahci_issue hw regs = do {
     mmio_write32 hw (regs + P_CI) 1;
     timeout \<leftarrow> spin_while (mmio_test hw (regs + P_CI) 1) 1000000;
     if 0 < timeout then do { e \<leftarrow> mmio_test hw (regs + P_IS) 0x40000000; State_Monad.return (\<not> e) }
     else State_Monad.return False
   }"

definition ahci_fire :: "'d hw \<Rightarrow> nat \<Rightarrow> ('d, 'z, bool) op" where
  "ahci_fire hw regs = do { mmio_write32 hw (regs + P_SERR) 0xFFFFFFFF; ahci_issue hw regs }"

text \<open>Cleared command table, FIS words and the PRDT entry; with the header, a whole command.\<close>

definition ahci_table :: "nat \<Rightarrow> u32 list \<Rightarrow> u32 \<Rightarrow> u32 \<Rightarrow> mem \<Rightarrow> mem" where
  "ahci_table port_no fis buffer dbc m =
     wr_words (cmd_table_addr port_no + 128) [buffer, 0, 0, dbc]
       (wr_words (cmd_table_addr port_no) fis (zero_fill (cmd_table_addr port_no) 128 m))"

definition ahci_mailbox :: "nat \<Rightarrow> u32 \<Rightarrow> u32 list \<Rightarrow> u32 \<Rightarrow> u32 \<Rightarrow> mem \<Rightarrow> mem" where
  "ahci_mailbox port_no hdr0 fis buffer dbc m =
     ahci_table port_no fis buffer dbc
       (wr_words (cmd_list_addr port_no) [hdr0, 0, word_of_nat (cmd_table_addr port_no), 0] m)"

text \<open>The FIS of READ/WRITE DMA EXT, as the code packs it: sectors are addressed with 32 bits.\<close>

definition dma_fis :: "u32 \<Rightarrow> u32 \<Rightarrow> u32 \<Rightarrow> u32 list" where
  "dma_fis cmd lba count =
     [cmd, (lba AND 0xFFFFFF) OR 0x40000000, drop_bit 24 lba AND 0xFF, count]"

text \<open>\<open>ahci_read_sectors\<close> and \<open>ahci_write_sectors\<close>, cosmos_ahci.cpp:313 and 345\<close>

definition ahci_read_sectors ::
  "'d hw \<Rightarrow> nat \<Rightarrow> u32 \<Rightarrow> u32 \<Rightarrow> u32 \<Rightarrow> (('d, 'z) disks_scheme, bool) state" where
  "ahci_read_sectors hw port_no lba count buffer_addr = do {
     abar \<leftarrow> gets (\<lambda>s. unat (global_ahci_abar s));
     poke (ahci_mailbox port_no (5 OR 0x10000 OR 0x400) (dma_fis 0x00258027 lba count)
             buffer_addr ((count * 512 - 1) OR 0x80000000));
     ahci_fire hw (port_regs_at abar port_no)
   }"

definition ahci_write_sectors ::
  "'d hw \<Rightarrow> nat \<Rightarrow> u32 \<Rightarrow> u32 \<Rightarrow> u32 \<Rightarrow> (('d, 'z) disks_scheme, bool) state" where
  "ahci_write_sectors hw port_no lba count buffer_addr = do {
     abar \<leftarrow> gets (\<lambda>s. unat (global_ahci_abar s));
     poke (ahci_mailbox port_no (5 OR 0x40 OR 0x10000) (dma_fis 0x00358027 lba count)
             buffer_addr ((count * 512 - 1) OR 0x80000000));
     ahci_fire hw (port_regs_at abar port_no)
   }"

text \<open>\<open>ahci_read_cdrom\<close>, cosmos_ahci.cpp:218: a READ(12) packet in the ACMD area\<close>

definition cdrom_packet :: "u32 \<Rightarrow> u32 \<Rightarrow> nat \<Rightarrow> mem \<Rightarrow> mem" where
  "cdrom_packet lba count acmd m = m
     (acmd := 0xA8,
      acmd + 2 := ucast (drop_bit 24 lba), acmd + 3 := ucast (drop_bit 16 lba),
      acmd + 4 := ucast (drop_bit 8 lba), acmd + 5 := ucast lba,
      acmd + 6 := ucast (drop_bit 24 count), acmd + 7 := ucast (drop_bit 16 count),
      acmd + 8 := ucast (drop_bit 8 count), acmd + 9 := ucast count)"

definition ahci_read_cdrom ::
  "'d hw \<Rightarrow> nat \<Rightarrow> u32 \<Rightarrow> u32 \<Rightarrow> u32 \<Rightarrow> (('d, 'z) disks_scheme, bool) state" where
  "ahci_read_cdrom hw port_no lba count buffer_addr = do {
     abar \<leftarrow> gets (\<lambda>s. unat (global_ahci_abar s));
     let tbl = cmd_table_addr port_no;
     poke (wr_words (cmd_list_addr port_no) [5 OR 0x20 OR 0x10000, 0, word_of_nat tbl, 0]);
     poke (zero_fill tbl 128);
     poke (wr32 tbl 0x00A08027);
     poke (cdrom_packet lba count (tbl + 0x40));
     poke (wr_words (tbl + 128) [buffer_addr, 0, 0, (count * 2048 - 1) OR 0x80000000]);
     ahci_fire hw (port_regs_at abar port_no)
   }"

text \<open>\<open>ahci_get_raw_identify\<close>, cosmos_ahci.cpp:1022: the command header is the one left there\<close>

definition ahci_get_raw_identify :: "'d hw \<Rightarrow> nat \<Rightarrow> nat \<Rightarrow> (('d, 'z) disks_scheme, unit) state" where
  "ahci_get_raw_identify hw port_no out_buffer = do {
     abar \<leftarrow> gets (\<lambda>s. unat (global_ahci_abar s));
     let regs = port_regs_at abar port_no;
     let tbl = cmd_table_addr port_no;
     poke (zero_fill tbl 128);
     sig \<leftarrow> mmio_read32 hw (regs + P_SIG);
     let identify_cmd = (if sig = SATA_SIG_ATAPI then 0xA1 else 0xEC);
     poke (wr32 tbl (push_bit 16 identify_cmd OR 0x00008027));
     poke (wr_words (tbl + 128) [word_of_nat (data_buffer_addr port_no), 0, 0, 511 OR 0x80000000]);
     mmio_write32 hw (regs + P_SERR) 0xFFFFFFFF;
     mmio_write32 hw (regs + P_CI) 1;
     spin_while (mmio_test hw (regs + P_CI) 1) 1000000;
     poke (mem_copy 512 out_buffer (data_buffer_addr port_no))
   }"

subsection \<open>Commands in a free slot\<close>

text \<open>
  The common part of \<open>ahci_read\<close>, \<open>ahci_write\<close> and \<open>ahci_read_multi\<close> (cosmos_ahci.cpp:894,
  958, 1049). The search leaves \<open>slot\<close> at its initial 0 when all 32 slots are busy, so the
  check \<open>slot == 32\<close> that follows it never fires; it is kept in \<open>ahci_command\<close>.
\<close>

definition find_slot :: "u32 \<Rightarrow> nat" where
  "find_slot slots = (case first_slot (\<lambda>i. \<not> bit slots i) [0..<32] of Some i \<Rightarrow> i | None \<Rightarrow> 0)"

text \<open>\<open>cfl = 5; w = ..; prdtl = 1\<close> on the bit fields of \<open>HBA_CMD_HEADER\<close>.\<close>

definition set_header :: "nat \<Rightarrow> bool \<Rightarrow> mem \<Rightarrow> mem" where
  "set_header hdr w m =
     wr16 (hdr + 2) 1 (m(hdr := ((m hdr AND NOT 0x1F) OR 5) AND NOT 0x40 OR (if w then 0x40 else 0)))"

definition h2d_fis :: "nat \<Rightarrow> u8 \<Rightarrow> u32 \<Rightarrow> u32 \<Rightarrow> mem \<Rightarrow> mem" where
  "h2d_fis fis command lba count m = m
     (fis := 0x27, fis + 1 := m (fis + 1) OR 0x80, fis + 2 := command,
      fis + 4 := ucast lba, fis + 5 := ucast (drop_bit 8 lba), fis + 6 := ucast (drop_bit 16 lba),
      fis + 7 := 0x40, fis + 8 := ucast (drop_bit 24 lba), fis + 9 := 0, fis + 10 := 0,
      fis + 12 := ucast count, fis + 13 := ucast (drop_bit 8 count))"

definition command_table :: "nat \<Rightarrow> u64 \<Rightarrow> u32 \<Rightarrow> u8 \<Rightarrow> u32 \<Rightarrow> u32 \<Rightarrow> mem \<Rightarrow> mem" where
  "command_table tbl buf dbc command lba count m =
     h2d_fis tbl command lba count
       (wr32 (tbl + 140) dbc
         (wr32 (tbl + 132) (ucast (drop_bit 32 buf))
           (wr32 (tbl + 128) (ucast buf) (zero_fill tbl 144 m))))"

text \<open>The wait for completion: done, task-file error, or \<open>n\<close> rounds without either.\<close>

fun wait_command :: "'d hw \<Rightarrow> nat \<Rightarrow> nat \<Rightarrow> nat \<Rightarrow> ('d, 'z, bool) op" where
  "wait_command hw port slot 0 = State_Monad.return False"
| "wait_command hw port slot (Suc n) = do {
     ci \<leftarrow> mmio_read32 hw (port + P_CI);
     if \<not> bit ci slot then State_Monad.return True
     else do {
       is \<leftarrow> mmio_read32 hw (port + P_IS);
       if bit is 30 then State_Monad.return False else wait_command hw port slot n
     }
   }"

definition ahci_command ::
  "'d hw \<Rightarrow> nat \<Rightarrow> bool \<Rightarrow> u8 \<Rightarrow> u32 \<Rightarrow> u32 \<Rightarrow> u32 \<Rightarrow> u64 \<Rightarrow> nat \<Rightarrow> ('d, 'z, bool) op" where
  "ahci_command hw port w command lba count dbc buf ready_tries = do {
     mmio_write32 hw (port + P_IS) 0xFFFFFFFF;
     mmio_write32 hw (port + P_SERR) 0xFFFFFFFF;
     sact \<leftarrow> mmio_read32 hw (port + P_SACT);
     ci \<leftarrow> mmio_read32 hw (port + P_CI);
     let slot = find_slot (sact OR ci);
     if slot = 32 then State_Monad.return False
     else do {
       clb \<leftarrow> mmio_read32 hw (port + P_CLB);
       let hdr = unat clb + 32 * slot;
       poke (set_header hdr w);
       ctba \<leftarrow> peek (\<lambda>m. rd32 m (hdr + 8));
       poke (command_table (unat ctba) buf dbc command lba count);
       spin \<leftarrow> spin_while (mmio_test hw (port + P_TFD) 0x88) ready_tries;
       if spin = 0 then State_Monad.return False
       else do {
         mmio_write32 hw (port + P_CI) (push_bit slot 1);
         wait_command hw port slot 10000000
       }
     }
   }"

definition ahci_read :: "'d hw \<Rightarrow> nat \<Rightarrow> u32 \<Rightarrow> u64 \<Rightarrow> ('d, 'z, bool) op" where
  "ahci_read hw port startlba target =
     ahci_command hw port False 0x25 startlba 1 (511 OR 0x80000000) target 1000000"

definition ahci_write :: "'d hw \<Rightarrow> nat \<Rightarrow> u32 \<Rightarrow> u64 \<Rightarrow> ('d, 'z, bool) op" where
  "ahci_write hw port startlba source =
     ahci_command hw port True 0x35 startlba 1 (511 OR 0x80000000) source 1000000"

definition ahci_read_multi :: "'d hw \<Rightarrow> nat \<Rightarrow> u32 \<Rightarrow> u32 \<Rightarrow> u64 \<Rightarrow> ('d, 'z, bool) op" where
  "ahci_read_multi hw port startlba count target =
     ahci_command hw port False 0x25 startlba count ((count * 512 - 1) OR 0x80000000) target 10000000"

subsection \<open>The staged link scan\<close>

text \<open>
  \<open>ahci_panzer_scan_tick\<close>, cosmos_ahci.cpp:845: one call per frame; state 1 resets the links,
  state 2 releases the reset after 60 calls, state 3 takes over the drives after 300 more.
\<close>

definition panzer_reset :: "'d hw \<Rightarrow> nat \<Rightarrow> ('d, 'z, unit) op" where
  "panzer_reset hw port = do {
     mmio_upd hw (port + P_CMD) (\<lambda>v. v AND NOT 1);
     mmio_upd hw (port + P_CMD) (\<lambda>v. v AND NOT 0x10);
     mmio_upd hw (port + P_CMD) (\<lambda>v. v OR 6);
     mmio_upd hw (port + P_CMD) (\<lambda>v. (v AND 0x0FFFFFFF) OR 0x10000000);
     mmio_upd hw (port + P_SCTL) (\<lambda>v. (v AND 0xFFFFF0F0) OR 0x301)
   }"

definition panzer_release :: "'d hw \<Rightarrow> nat \<Rightarrow> ('d, 'z, unit) op" where
  "panzer_release hw port = do {
     mmio_upd hw (port + P_SCTL) (\<lambda>v. v AND 0xFFFFFFF0);
     mmio_write32 hw (port + P_SERR) 0xFFFFFFFF
   }"

definition panzer_adopt :: "'d hw \<Rightarrow> nat \<Rightarrow> nat \<Rightarrow> (('d, 'z) disks_scheme, unit) state" where
  "panzer_adopt hw port i = do {
     ssts \<leftarrow> mmio_read32 hw (port + P_SSTS);
     when_m (ssts AND 0x0F = 3) (do {
       spin_while (mmio_test hw (port + P_TFD) 0x88) 1000000;
       sig \<leftarrow> mmio_read32 hw (port + P_SIG);
       when_m (sig \<noteq> SATA_SIG_ATAPI) (do {
         ahci_port_rebase hw port i;
         modify (\<lambda>s. if global_active_port s = 0 then s\<lparr>global_active_port := port\<rparr> else s);
         modify (\<lambda>s. s\<lparr>ahci_found_ports_bitmask := ahci_found_ports_bitmask s OR push_bit i 1\<rparr>)
       })
     })
   }"

definition ahci_panzer_scan_tick :: "'d hw \<Rightarrow> (('d, 'z) disks_scheme, unit) state" where
  "ahci_panzer_scan_tick hw = do {
     st \<leftarrow> gets ahci_scan_state;
     bar \<leftarrow> gets global_ahci_abar;
     if st = 0 \<or> bar = 0 then skip
     else do {
       let abar = unat bar;
       mmio_upd hw (abar + 4) (\<lambda>v. v OR 0x80000000);
       pi \<leftarrow> mmio_read32 hw (abar + 12);
       if st = 1 then do {
         for_m [0..<32] (\<lambda>i. when_m (bit pi i) (panzer_reset hw (hba_mem_port abar i)));
         modify (\<lambda>s. s\<lparr>ahci_scan_state := 2, ahci_scan_timer := 60\<rparr>)
       }
       else if st = 2 then do {
         t \<leftarrow> gets ahci_scan_timer;
         if 0 < t then modify (\<lambda>s. s\<lparr>ahci_scan_timer := t - 1\<rparr>)
         else do {
           for_m [0..<32] (\<lambda>i. when_m (bit pi i) (panzer_release hw (hba_mem_port abar i)));
           modify (\<lambda>s. s\<lparr>ahci_scan_state := 3, ahci_scan_timer := 300\<rparr>)
         }
       }
       else if st = 3 then do {
         t \<leftarrow> gets ahci_scan_timer;
         if 0 < t then modify (\<lambda>s. s\<lparr>ahci_scan_timer := t - 1\<rparr>)
         else do {
           for_m [0..<32] (\<lambda>i. when_m (bit pi i) (panzer_adopt hw (hba_mem_port abar i) i));
           modify (\<lambda>s. s\<lparr>ahci_scan_state := 0\<rparr>)
         }
       }
       else skip
     }
   }"

text \<open>\<open>get_active_ahci_port\<close>, cosmos_ahci.cpp:891\<close>

definition get_active_ahci_port :: "(('d, 'z) disks_scheme, nat) state" where
  "get_active_ahci_port = gets global_active_port"

subsection \<open>The driver routines touch only RAM and the controller\<close>

lemma touches_mmio_upd [hw_only]: "touches_hw (mmio_upd hw a f)"
  unfolding mmio_upd_def by (intro hw_only)

lemma touches_mmio_test [hw_only]: "touches_hw (mmio_test hw a m)"
  unfolding mmio_test_def by (intro hw_only)

lemma touches_rebase [hw_only]: "touches_hw (ahci_port_rebase hw port i)"
  unfolding ahci_port_rebase_def by (intro hw_only)

lemma touches_issue [hw_only]: "touches_hw (ahci_issue hw regs)"
  unfolding ahci_issue_def by (intro hw_only)

lemma touches_fire [hw_only]: "touches_hw (ahci_fire hw regs)"
  unfolding ahci_fire_def by (intro hw_only)

lemma touches_sectors [hw_only]:
  "touches_hw (ahci_read_sectors hw p l n a)" "touches_hw (ahci_write_sectors hw p l n a)"
  "touches_hw (ahci_read_cdrom hw p l n a)" "touches_hw (ahci_get_raw_identify hw p b)"
  unfolding ahci_read_sectors_def ahci_write_sectors_def ahci_read_cdrom_def ahci_get_raw_identify_def
  by (intro hw_only)+

lemma touches_wait_command [hw_only]: "touches_hw (wait_command hw port slot n)"
  by (induction n) (auto intro!: hw_only)

lemma touches_command [hw_only]: "touches_hw (ahci_command hw port w c l n dbc buf k)"
  unfolding ahci_command_def by (intro hw_only)

lemma touches_read_write [hw_only]:
  "touches_hw (ahci_read hw port l a)" "touches_hw (ahci_write hw port l a)"
  "touches_hw (ahci_read_multi hw port l n a)"
  by (simp_all add: ahci_read_def ahci_write_def ahci_read_multi_def hw_only)

subsection \<open>Properties\<close>

text \<open>
  The struct view of the controller used by the link scan puts the registers of
  port \<open>i\<close> 36 bytes below where every other routine of the driver (and the AHCI
  specification, at 0x100) has them: \<open>HBA_MEM\<close> reserves 15 vendor words instead of 24.
\<close>

theorem hba_mem_port_misplaced:
  "port_regs_at abar i = abar + 0x100 + 0x80 * i \<and> hba_mem_port abar i + 36 = port_regs_at abar i"
  by (simp add: port_regs_at_def hba_mem_port_def)

text \<open>The scan as a state machine: what one call does to state and timer.\<close>

inductive scan_step :: "nat \<times> nat \<Rightarrow> nat \<times> nat \<Rightarrow> bool" where
  idle: "scan_step (0, t) (0, t)"
| reset: "scan_step (1, t) (2, 60)"
| count: "0 < t \<Longrightarrow> st = 2 \<or> st = 3 \<Longrightarrow> scan_step (st, t) (st, t - 1)"
| release: "scan_step (2, 0) (3, 300)"
| adopt: "scan_step (3, 0) (0, 0)"

lemma scan_step_Suc [intro]: "st = 2 \<or> st = 3 \<Longrightarrow> scan_step (st, Suc t) (st, t)"
  using scan_step.count [of "Suc t" st] by simp

inductive_cases scan_step_countE: "scan_step (st, Suc t) x"

lemma panzer_adopt_keeps:
  "preserves (\<lambda>s. (ahci_scan_state s, ahci_scan_timer s) = x) (panzer_adopt hw port i)"
  unfolding panzer_adopt_def
  by (intro preserving; (rule preserves_hw, intro hw_only)?; auto)

lemma touches_panzer [hw_only]: "touches_hw (panzer_reset hw port)" "touches_hw (panzer_release hw port)"
  unfolding panzer_reset_def panzer_release_def by (intro hw_only)+

lemma scan_tick_step:
  fixes s :: "('d, 'z) disks_scheme" and hw :: "'d hw"
  assumes "global_ahci_abar s \<noteq> 0" and "ahci_scan_state s \<le> 3"
  shows "scan_step (ahci_scan_state s, ahci_scan_timer s)
    (ahci_scan_state (snd (run_state (ahci_panzer_scan_tick hw) s)),
     ahci_scan_timer (snd (run_state (ahci_panzer_scan_tick hw) s)))
   \<and> global_ahci_abar (snd (run_state (ahci_panzer_scan_tick hw) s)) = global_ahci_abar s"
proof -
  let ?a = "unat (global_ahci_abar s)"
  obtain m d where r1: "run_state (mmio_upd hw (?a + 4) (\<lambda>v. v OR 0x80000000)) s = ((), s\<lparr>ram := m, dev := d\<rparr>)"
    using touches_run [OF touches_mmio_upd [of hw "?a + 4" "\<lambda>v. v OR 0x80000000"], of s] by auto
  from touches_run [OF touches_ports(1), of hw "?a + 12" "s\<lparr>ram := m, dev := d\<rparr>"]
  obtain pi m' d' where r2: "run_state (mmio_read32 hw (?a + 12)) (s\<lparr>ram := m, dev := d\<rparr>) = (pi, s\<lparr>ram := m', dev := d'\<rparr>)"
    by auto
  let ?s = "s\<lparr>ram := m', dev := d'\<rparr>"
  let ?P = "\<lambda>s'. (ahci_scan_state s', ahci_scan_timer s') = (ahci_scan_state s, ahci_scan_timer s)
    \<and> global_ahci_abar s' = global_ahci_abar s"
  define f1 :: "(('d, 'z) disks_scheme, unit) state" where "f1 = for_m [0..<32] (\<lambda>i. when_m (bit pi i) (panzer_reset hw (hba_mem_port ?a i)))"
  define f2 :: "(('d, 'z) disks_scheme, unit) state" where "f2 = for_m [0..<32] (\<lambda>i. when_m (bit pi i) (panzer_release hw (hba_mem_port ?a i)))"
  define f3 :: "(('d, 'z) disks_scheme, unit) state" where "f3 = for_m [0..<32] (\<lambda>i. when_m (bit pi i) (panzer_adopt hw (hba_mem_port ?a i) i))"
  have t: "touches_hw f1" "touches_hw f2" unfolding f1_def f2_def by (intro hw_only)+
  have "preserves ?P f1" by (rule preserves_hw [OF t(1)]) simp
  moreover have "preserves ?P f2" by (rule preserves_hw [OF t(2)]) simp
  moreover have "preserves ?P f3"
    unfolding f3_def panzer_adopt_def
    by (intro preserving; (rule preserves_hw, intro hw_only)?; auto)
  moreover have "?P ?s" by simp
  ultimately have p: "?P (snd (run_state f1 ?s))" "?P (snd (run_state f2 ?s))" "?P (snd (run_state f3 ?s))"
    by (simp_all add: preserves_def)
  obtain s1 s2 s3 where f: "run_state f1 ?s = ((), s1)" "run_state f2 ?s = ((), s2)" "run_state f3 ?s = ((), s3)"
    by (metis (full_types) old.unit.exhaust surj_pair)
  note q = p [unfolded f]
  consider "ahci_scan_state s = 0" | "ahci_scan_state s = 1" | "ahci_scan_state s = 2" | "ahci_scan_state s = 3"
    using assms(2) by fastforce
  then show ?thesis
  proof cases
    case 1
    then show ?thesis by (simp add: ahci_panzer_scan_tick_def scan_step.idle)
  next
    case 2
    then show ?thesis using assms(1) r1 r2 f(1) q(1) scan_step.reset unfolding f1_def
      by (simp add: ahci_panzer_scan_tick_def Let_def)
  next
    case 3
    then show ?thesis using assms(1) r1 r2 f(2) q(2) unfolding f2_def
      by (cases "ahci_scan_timer s") (auto simp: ahci_panzer_scan_tick_def Let_def intro: scan_step.intros)
  next
    case 4
    then show ?thesis using assms(1) r1 r2 f(3) q(3) unfolding f3_def
      by (cases "ahci_scan_timer s") (auto simp: ahci_panzer_scan_tick_def Let_def intro: scan_step.intros)
  qed
qed

inductive_cases scan_stepE: "scan_step (st, t) x"

lemma scan_step_fun: "scan_step x y \<Longrightarrow> scan_step x z \<Longrightarrow> y = z"
  by (cases x) (auto elim!: scan_stepE)

definition scan_tick :: "'d hw \<Rightarrow> ('d, 'z) disks_scheme \<Rightarrow> ('d, 'z) disks_scheme" where
  "scan_tick hw s = snd (run_state (ahci_panzer_scan_tick hw) s)"

definition scan_obs :: "('d, 'z) disks_scheme \<Rightarrow> nat \<times> nat" where
  "scan_obs s = (ahci_scan_state s, ahci_scan_timer s)"

lemma scan_tick_to:
  assumes "global_ahci_abar s \<noteq> 0" "fst (scan_obs s) \<le> 3" "scan_step (scan_obs s) x"
  shows "scan_obs (scan_tick hw s) = x \<and> global_ahci_abar (scan_tick hw s) \<noteq> 0"
proof -
  have "scan_step (scan_obs s) (scan_obs (scan_tick hw s))" "global_ahci_abar (scan_tick hw s) \<noteq> 0"
    using scan_tick_step [of s hw] assms(1,2) by (simp_all add: scan_obs_def scan_tick_def)
  then show ?thesis using scan_step_fun [OF _ assms(3)] by simp
qed

text \<open>Waiting out the timer of state 2 or 3.\<close>

lemma scan_wait:
  assumes "global_ahci_abar s \<noteq> 0" "scan_obs s = (st, t)" "st = 2 \<or> st = 3" "k \<le> t"
  shows "scan_obs ((scan_tick hw ^^ k) s) = (st, t - k) \<and> global_ahci_abar ((scan_tick hw ^^ k) s) \<noteq> 0"
  using assms(4)
proof (induction k)
  case (Suc k)
  let ?s = "(scan_tick hw ^^ k) s"
  have "scan_obs ?s = (st, Suc (t - Suc k))" "global_ahci_abar ?s \<noteq> 0"
    using Suc by (simp_all add: Suc_diff_Suc)
  moreover from this have "scan_step (scan_obs ?s) (st, t - Suc k)" using assms(3) by auto
  ultimately show ?case using scan_tick_to [of ?s "(st, t - Suc k)" hw] assms(3) by auto
qed (use assms in simp)

text \<open>
  Property C35. Once started, the staged scan ends after exactly 363 calls whatever the controller
  does: one to reset the links, 60 to wait, one to release, 300 to wait, one to take over the
  drives; it is not back in its rest state any earlier.
\<close>

theorem panzer_scan_completes:
  assumes "global_ahci_abar s \<noteq> 0" and "ahci_scan_state s = 1"
  shows "ahci_scan_state ((scan_tick hw ^^ 363) s) = 0
    \<and> (\<forall>k < 363. ahci_scan_state ((scan_tick hw ^^ k) s) \<noteq> 0)"
proof -
  let ?it = "\<lambda>k. (scan_tick hw ^^ k) s"
  have a: "scan_obs (?it 1) = (2, 60)" "global_ahci_abar (?it 1) \<noteq> 0"
    using scan_tick_to [of s "(2, 60)" hw] assms scan_step.reset by (auto simp: scan_obs_def)
  have b: "scan_obs (?it (k + 1)) = (2, 60 - k)" "global_ahci_abar (?it (k + 1)) \<noteq> 0" if "k \<le> 60" for k
    using scan_wait [OF a(2,1) _ that, of hw] by (simp_all only: funpow_add comp_apply) simp_all
  have c: "scan_obs (?it 62) = (3, 300)" "global_ahci_abar (?it 62) \<noteq> 0"
    using scan_tick_to [of "?it 61" "(3, 300)" hw] b [of 60] scan_step.release
    by (simp_all add: eval_nat_numeral)
  have d: "scan_obs (?it (k + 62)) = (3, 300 - k)" "global_ahci_abar (?it (k + 62)) \<noteq> 0" if "k \<le> 300" for k
    using scan_wait [OF c(2,1) _ that, of hw] by (simp_all only: funpow_add comp_apply) simp_all
  have "363 = Suc 362" by simp
  then have "?it 363 = scan_tick hw (?it 362)" by (simp only: funpow.simps comp_apply)
  then have e: "scan_obs (?it 363) = (0, 0)"
    using scan_tick_to [of "?it 362" "(0, 0)" hw] d [of 300] scan_step.adopt by simp
  have "ahci_scan_state (?it k) \<noteq> 0" if less: "k < 363" for k
  proof -
    consider "k = 0" | "1 \<le> k" "k \<le> 61" | "62 \<le> k" "k \<le> 362" using less by linarith
    then show ?thesis
    proof cases
      case 1
      then show ?thesis using assms by simp
    next
      case 2
      then show ?thesis using b(1) [of "k - 1"] by (simp add: scan_obs_def)
    next
      case 3
      then show ?thesis using d(1) [of "k - 62"] by (simp add: scan_obs_def)
    qed
  qed
  then show ?thesis using e by (simp only: scan_obs_def prod.inject) blast
qed

text \<open>An idle machine: every register reads as zero, nothing is ever written.\<close>

definition null_hw :: "'d hw" where
  "null_hw = \<lparr>hw_read32 = (\<lambda>_ x. (0, x)), hw_write32 = (\<lambda>_ _. id), hw_dma = id,
     hw_inb = (\<lambda>_ x. (0, x)), hw_outb = (\<lambda>_ _. id), hw_inw = (\<lambda>_ x. (0, x)), hw_outw = (\<lambda>_ _. id),
     hw_inl = (\<lambda>_ x. (0, x)), hw_outl = (\<lambda>_ _. id)\<rparr>"

definition start_disks :: "unit disks" where
  "start_disks = \<lparr>ram = \<lambda>_. 0, dev = (), cmd_status = [], hw_usb = [], hw_disk = [],
     global_active_port = 0, global_ahci_abar = 0xFEBF1000, ahci_scan_state = 1, ahci_scan_timer = 0,
     drives = replicate 8 \<lparr>drv_type = 0, size_mb = 0, base_port = 0, model = []\<rparr>, drive_count = 0,
     ahci_found_ports_bitmask = 0, is_ahci_found = True, ahci_bar5 = 0xFEBF1000\<rparr>"

theorem panzer_scan_completes_witness:
  "ahci_scan_state ((scan_tick null_hw ^^ 363) start_disks) = 0"
  using panzer_scan_completes [of start_disks null_hw] by (simp add: start_disks_def)

end
