(* ===== verification/Sector_Store.thy ===== *)
theory Sector_Store
  imports Machine
begin

text \<open>
  What the file systems and the recorder rely on when they call the disk driver: sectors of
  512 bytes, a read that fills a buffer, a write that stores one, both outside the memory the
  driver keeps for itself (\<open>priv\<close>). A driver with short sector numbers keeps the contract for the
  numbers in a range only (\<open>range_store\<close>); \<open>sector_store\<close> is the contract for all of them. The locales
  are interpreted on the AHCI driver in theory \<open>Sata\<close> and on the driver of the second kernel in
  theory \<open>Os2_Disk\<close>; the facts about runs of consecutive sectors are proved here, once.
\<close>

text \<open>\<open>clear_of P a n\<close>: the \<open>n\<close> bytes from \<open>a\<close> on avoid the set \<open>P\<close>.\<close>

definition clear_of :: "nat set \<Rightarrow> nat \<Rightarrow> nat \<Rightarrow> bool" where
  "clear_of P a n \<longleftrightarrow> (\<forall>i. a \<le> i \<and> i < a + n \<longrightarrow> i \<notin> P)"

lemma clear_of_sub: "clear_of P a n \<Longrightarrow> a \<le> b \<Longrightarrow> b + k \<le> a + n \<Longrightarrow> clear_of P b k"
  by (auto simp: clear_of_def)

lemma rd_bytes_clear:
  "clear_of P a n \<Longrightarrow> \<forall>i. i \<notin> P \<longrightarrow> m i = m' i \<Longrightarrow> rd_bytes m a n = rd_bytes m' a n"
  by (simp add: rd_bytes_def clear_of_def)

lemma word_of_nat_diff_Suc:
  assumes "Suc k < 2 ^ 32"
  shows "(l :: u32) + 1 + word_of_nat k \<noteq> l"
proof
  assume "l + 1 + word_of_nat k = l"
  then have "word_of_nat (Suc k) = (0 :: u32)" by (simp add: add.assoc)
  then have "2 ^ LENGTH(32) dvd Suc k" by (simp only: word_of_nat_eq_0_iff)
  then have "2 ^ 32 \<le> Suc k" by (auto dest: dvd_imp_le)
  then show False using assms by simp
qed

locale range_store =
  fixes rd :: "u32 \<Rightarrow> nat \<Rightarrow> ('d, 'z, bool) op"
    and wr :: "u32 \<Rightarrow> nat \<Rightarrow> ('d, 'z, bool) op"
    and ready :: "('d, 'z) machine_scheme \<Rightarrow> bool"
    and sect :: "'d \<Rightarrow> u32 \<Rightarrow> u8 list"
    and priv :: "nat set"
    and rng :: "u32 set"
  assumes sect_length: "ready s \<Longrightarrow> length (sect (dev s) l) = 512"
    and rd_in: "ready s \<Longrightarrow> clear_of priv a 512 \<Longrightarrow> a + 512 \<le> 2 ^ 32 \<Longrightarrow> l \<in> rng \<Longrightarrow>
      \<exists>m d. run_state (rd l a) s = (True, s\<lparr>ram := m, dev := d\<rparr>) \<and> ready (s\<lparr>ram := m, dev := d\<rparr>)
        \<and> sect d = sect (dev s) \<and> rd_bytes m a 512 = sect (dev s) l
        \<and> (\<forall>i. i \<notin> priv \<longrightarrow> i < a \<or> a + 512 \<le> i \<longrightarrow> m i = ram s i)"
    and wr_in: "ready s \<Longrightarrow> clear_of priv a 512 \<Longrightarrow> a + 512 \<le> 2 ^ 32 \<Longrightarrow> l \<in> rng \<Longrightarrow>
      \<exists>m d. run_state (wr l a) s = (True, s\<lparr>ram := m, dev := d\<rparr>) \<and> ready (s\<lparr>ram := m, dev := d\<rparr>)
        \<and> sect d = (sect (dev s))(l := rd_bytes (ram s) a 512)
        \<and> (\<forall>i. i \<notin> priv \<longrightarrow> m i = ram s i)"
begin

text \<open>\<open>n\<close> sectors written from consecutive memory, as the drivers' clients do it.\<close>

fun wr_run :: "u32 \<Rightarrow> nat \<Rightarrow> nat \<Rightarrow> ('d, 'z, unit) op" where
  "wr_run l a 0 = skip"
| "wr_run l a (Suc n) = do { wr l a; wr_run (l + 1) (a + 512) n }"

fun rd_run :: "u32 \<Rightarrow> nat \<Rightarrow> nat \<Rightarrow> ('d, 'z, unit) op" where
  "rd_run l a 0 = skip"
| "rd_run l a (Suc n) = do { rd l a; rd_run (l + 1) (a + 512) n }"

text \<open>
  A run of writes stores the consecutive 512-byte pieces of the buffer in the consecutive
  sectors, and no other sector changes.
\<close>

lemma wr_run_in:
  assumes "ready s" "clear_of priv a (512 * n)" "a + 512 * n \<le> 2 ^ 32" "\<forall>k < n. l + word_of_nat k \<in> rng"
  shows "\<exists>m d. run_state (wr_run l a n) s = ((), s\<lparr>ram := m, dev := d\<rparr>) \<and> ready (s\<lparr>ram := m, dev := d\<rparr>)
    \<and> (\<forall>k < n. sect d (l + word_of_nat k) = rd_bytes (ram s) (a + 512 * k) 512)
    \<and> (\<forall>x. (\<forall>k < n. x \<noteq> l + word_of_nat k) \<longrightarrow> sect d x = sect (dev s) x)
    \<and> (\<forall>i. i \<notin> priv \<longrightarrow> m i = ram s i)"
  using assms
proof (induction n arbitrary: l a s)
  case 0
  have "s\<lparr>ram := ram s, dev := dev s\<rparr> = s" by simp
  then show ?case using 0 by (intro exI [of _ "ram s"] exI [of _ "dev s"]) simp
next
  case (Suc n)
  from Suc.prems have pre: "clear_of priv a 512" "a + 512 \<le> 2 ^ 32"
    by (auto intro: clear_of_sub)
  have here: "l \<in> rng" using Suc.prems(4) [rule_format, of 0] by simp
  have rest: "\<forall>k < n. l + 1 + word_of_nat k \<in> rng"
  proof (intro allI impI)
    fix k
    assume "k < n"
    then have "l + word_of_nat (Suc k) \<in> rng" using Suc.prems(4) by blast
    then show "l + 1 + word_of_nat k \<in> rng" by (simp add: add.assoc)
  qed
  from wr_in [OF Suc.prems(1) pre here] obtain m d where
    one: "run_state (wr l a) s = (True, s\<lparr>ram := m, dev := d\<rparr>)"
    and rdy: "ready (s\<lparr>ram := m, dev := d\<rparr>)"
    and sec: "sect d = (sect (dev s))(l := rd_bytes (ram s) a 512)"
    and mem: "\<forall>i. i \<notin> priv \<longrightarrow> m i = ram s i" by blast
  let ?s = "s\<lparr>ram := m, dev := d\<rparr>"
  have "clear_of priv (a + 512) (512 * n)" "a + 512 + 512 * n \<le> 2 ^ 32"
    using Suc.prems by (auto intro: clear_of_sub)
  from Suc.IH [OF rdy this rest] obtain m' d' where
    two: "run_state (wr_run (l + 1) (a + 512) n) ?s = ((), ?s\<lparr>ram := m', dev := d'\<rparr>)"
    and rdy': "ready (?s\<lparr>ram := m', dev := d'\<rparr>)"
    and sec': "\<forall>k < n. sect d' (l + 1 + word_of_nat k) = rd_bytes m (a + 512 + 512 * k) 512"
    and oth': "\<forall>x. (\<forall>k < n. x \<noteq> l + 1 + word_of_nat k) \<longrightarrow> sect d' x = sect d x"
    and mem': "\<forall>i. i \<notin> priv \<longrightarrow> m' i = m i" by auto
  have n: "n < 2 ^ 32" using Suc.prems(3) by simp
  have first: "sect d' l = rd_bytes (ram s) a 512"
  proof -
    have "l \<noteq> l + 1 + word_of_nat k" if "k < n" for k
      using word_of_nat_diff_Suc [of k l] that n by force
    then show ?thesis using oth' sec by simp
  qed
  have data: "sect d' (l + word_of_nat k) = rd_bytes (ram s) (a + 512 * k) 512" if "k < Suc n" for k
  proof (cases k)
    case 0
    then show ?thesis using first by simp
  next
    case (Suc j)
    then have "sect d' (l + word_of_nat k) = rd_bytes m (a + 512 + 512 * j) 512"
      using sec' that by (simp add: add.assoc)
    also have "\<dots> = rd_bytes (ram s) (a + 512 + 512 * j) 512"
    proof (rule rd_bytes_clear [OF _ mem])
      show "clear_of priv (a + 512 + 512 * j) 512"
        by (rule clear_of_sub [OF Suc.prems(2)]) (use Suc that in auto)
    qed
    finally show ?thesis using Suc by (simp add: algebra_simps)
  qed
  have other: "sect d' x = sect (dev s) x" if "\<forall>k < Suc n. x \<noteq> l + word_of_nat k" for x
  proof -
    have "x \<noteq> l" using that [rule_format, of 0] by simp
    moreover have "x \<noteq> l + 1 + word_of_nat k" if "k < n" for k
    proof -
      have "x \<noteq> l + word_of_nat (Suc k)" using \<open>\<forall>k < Suc n. x \<noteq> l + word_of_nat k\<close> that by blast
      then show ?thesis by (simp only: of_nat_Suc add.assoc not_False_eq_True)
    qed
    ultimately show ?thesis using oth' sec by simp
  qed
  have run: "run_state (wr_run l a (Suc n)) s = ((), s\<lparr>ram := m', dev := d'\<rparr>)"
    using one two by simp
  have rd: "ready (s\<lparr>ram := m', dev := d'\<rparr>)" using rdy' by simp
  have kept: "\<forall>i. i \<notin> priv \<longrightarrow> m' i = ram s i" using mem mem' by simp
  show ?case
    by (intro exI [of _ m'] exI [of _ d'] conjI run rd kept; intro allI impI; rule data other; assumption)
qed

text \<open>A run of reads brings the consecutive sectors into consecutive memory.\<close>

lemma rd_run_in:
  assumes "ready s" "clear_of priv a (512 * n)" "a + 512 * n \<le> 2 ^ 32" "\<forall>k < n. l + word_of_nat k \<in> rng"
  shows "\<exists>m d. run_state (rd_run l a n) s = ((), s\<lparr>ram := m, dev := d\<rparr>) \<and> ready (s\<lparr>ram := m, dev := d\<rparr>)
    \<and> sect d = sect (dev s)
    \<and> (\<forall>k < n. rd_bytes m (a + 512 * k) 512 = sect (dev s) (l + word_of_nat k))
    \<and> (\<forall>i. i \<notin> priv \<longrightarrow> i < a \<or> a + 512 * n \<le> i \<longrightarrow> m i = ram s i)"
  using assms
proof (induction n arbitrary: l a s)
  case 0
  have "s\<lparr>ram := ram s, dev := dev s\<rparr> = s" by simp
  then show ?case using 0 by (intro exI [of _ "ram s"] exI [of _ "dev s"]) simp
next
  case (Suc n)
  from Suc.prems have pre: "clear_of priv a 512" "a + 512 \<le> 2 ^ 32"
    by (auto intro: clear_of_sub)
  have here: "l \<in> rng" using Suc.prems(4) [rule_format, of 0] by simp
  have rest: "\<forall>k < n. l + 1 + word_of_nat k \<in> rng"
  proof (intro allI impI)
    fix k
    assume "k < n"
    then have "l + word_of_nat (Suc k) \<in> rng" using Suc.prems(4) by blast
    then show "l + 1 + word_of_nat k \<in> rng" by (simp add: add.assoc)
  qed
  from rd_in [OF Suc.prems(1) pre here] obtain m d where
    one: "run_state (rd l a) s = (True, s\<lparr>ram := m, dev := d\<rparr>)"
    and rdy: "ready (s\<lparr>ram := m, dev := d\<rparr>)"
    and sec: "sect d = sect (dev s)" "rd_bytes m a 512 = sect (dev s) l"
    and mem: "\<forall>i. i \<notin> priv \<longrightarrow> i < a \<or> a + 512 \<le> i \<longrightarrow> m i = ram s i" by blast
  let ?s = "s\<lparr>ram := m, dev := d\<rparr>"
  have "clear_of priv (a + 512) (512 * n)" "a + 512 + 512 * n \<le> 2 ^ 32"
    using Suc.prems by (auto intro: clear_of_sub)
  from Suc.IH [OF rdy this rest] obtain m' d' where
    two: "run_state (rd_run (l + 1) (a + 512) n) ?s = ((), ?s\<lparr>ram := m', dev := d'\<rparr>)"
    and rdy': "ready (?s\<lparr>ram := m', dev := d'\<rparr>)" and sec': "sect d' = sect d"
    and dat': "\<forall>k < n. rd_bytes m' (a + 512 + 512 * k) 512 = sect d (l + 1 + word_of_nat k)"
    and mem': "\<forall>i. i \<notin> priv \<longrightarrow> i < a + 512 \<or> a + 512 + 512 * n \<le> i \<longrightarrow> m' i = m i" by auto
  have "rd_bytes m' (a + 512 * k) 512 = sect (dev s) (l + word_of_nat k)" if "k < Suc n" for k
  proof (cases k)
    case 0
    have "m' (a + i) = m (a + i)" if "i < 512" for i
    proof -
      have "a + i \<notin> priv" using pre(1) that by (simp add: clear_of_def)
      then show ?thesis using mem' that by simp
    qed
    then have "rd_bytes m' a 512 = rd_bytes m a 512" by (simp add: rd_bytes_def)
    then show ?thesis using 0 sec by simp
  next
    case (Suc j)
    then have "rd_bytes m' (a + 512 + 512 * j) 512 = sect d (l + 1 + word_of_nat j)"
      using dat' that by simp
    then show ?thesis using Suc sec(1) by (simp add: algebra_simps)
  qed
  moreover have "run_state (rd_run l a (Suc n)) s = ((), s\<lparr>ram := m', dev := d'\<rparr>)"
    using one two by simp
  moreover have "ready (s\<lparr>ram := m', dev := d'\<rparr>)" using rdy' by simp
  moreover have "\<forall>i. i \<notin> priv \<longrightarrow> i < a \<or> a + 512 * Suc n \<le> i \<longrightarrow> m' i = ram s i"
    using mem mem' by auto
  moreover have "sect d' = sect (dev s)" using sec sec' by simp
  ultimately show ?case by (intro exI [of _ m'] exI [of _ d'] conjI) simp_all
qed

text \<open>The counting loops of the clients are such runs.\<close>

lemma for_wr:
  "for_m [j..<j + n] (\<lambda>k. do { wr (l + word_of_nat k) (a + 512 * k); skip })
     = wr_run (l + word_of_nat j) (a + 512 * j) n"
proof (induction n arbitrary: j)
  case (Suc n)
  have "[j..<j + Suc n] = j # [Suc j..<Suc j + n]" by (simp add: upt_conv_Cons)
  then show ?case using Suc [of "Suc j"] by (simp add: skip_def algebra_simps)
qed simp

lemma for_rd:
  "for_m [j..<j + n] (\<lambda>k. do { rd (l + word_of_nat k) (a + 512 * k); skip })
     = rd_run (l + word_of_nat j) (a + 512 * j) n"
proof (induction n arbitrary: j)
  case (Suc n)
  have "[j..<j + Suc n] = j # [Suc j..<Suc j + n]" by (simp add: upt_conv_Cons)
  then show ?case using Suc [of "Suc j"] by (simp add: skip_def algebra_simps)
qed simp

lemma for_wr0: "for_m [0..<n] (\<lambda>k. do { wr (l + word_of_nat k) (a + 512 * k); skip }) = wr_run l a n"
  using for_wr [of 0 n] by simp

lemma for_rd0: "for_m [0..<n] (\<lambda>k. do { rd (l + word_of_nat k) (a + 512 * k); skip }) = rd_run l a n"
  using for_rd [of 0 n] by simp

text \<open>What was written is what a later read of the sector returns.\<close>

lemma read_back_in:
  assumes "ready s" "clear_of priv a 512" "a + 512 \<le> 2 ^ 32"
    and "clear_of priv b 512" "b + 512 \<le> 2 ^ 32" "l \<in> rng"
  shows "\<exists>m d. run_state (do { wr l a; rd l b }) s = (True, s\<lparr>ram := m, dev := d\<rparr>)
    \<and> rd_bytes m b 512 = rd_bytes (ram s) a 512"
proof -
  from wr_in [OF assms(1-3,6)] obtain m d where
    one: "run_state (wr l a) s = (True, s\<lparr>ram := m, dev := d\<rparr>)" "ready (s\<lparr>ram := m, dev := d\<rparr>)"
    and sec: "sect d = (sect (dev s))(l := rd_bytes (ram s) a 512)" by blast
  from rd_in [OF one(2) assms(4-6)] obtain m' d' where
    "run_state (rd l b) (s\<lparr>ram := m, dev := d\<rparr>) = (True, s\<lparr>ram := m', dev := d'\<rparr>)"
    "rd_bytes m' b 512 = sect d l" by auto
  then show ?thesis using one(1) sec by auto
qed

end

text \<open>The contract for every sector number.\<close>

locale sector_store = range_store rd wr ready sect priv UNIV
  for rd :: "u32 \<Rightarrow> nat \<Rightarrow> ('d, 'z, bool) op" and wr :: "u32 \<Rightarrow> nat \<Rightarrow> ('d, 'z, bool) op"
    and ready :: "('d, 'z) machine_scheme \<Rightarrow> bool" and sect :: "'d \<Rightarrow> u32 \<Rightarrow> u8 list" and priv :: "nat set"
begin

lemmas rd_ok = rd_in [OF _ _ _ UNIV_I]

lemmas wr_ok = wr_in [OF _ _ _ UNIV_I]

lemmas read_back = read_back_in [OF _ _ _ _ _ UNIV_I]

lemma wr_run_ok:
  assumes "ready s" "clear_of priv a (512 * n)" "a + 512 * n \<le> 2 ^ 32"
  shows "\<exists>m d. run_state (wr_run l a n) s = ((), s\<lparr>ram := m, dev := d\<rparr>) \<and> ready (s\<lparr>ram := m, dev := d\<rparr>)
    \<and> (\<forall>k < n. sect d (l + word_of_nat k) = rd_bytes (ram s) (a + 512 * k) 512)
    \<and> (\<forall>x. (\<forall>k < n. x \<noteq> l + word_of_nat k) \<longrightarrow> sect d x = sect (dev s) x)
    \<and> (\<forall>i. i \<notin> priv \<longrightarrow> m i = ram s i)"
  by (rule wr_run_in [OF assms]) simp

lemma rd_run_ok:
  assumes "ready s" "clear_of priv a (512 * n)" "a + 512 * n \<le> 2 ^ 32"
  shows "\<exists>m d. run_state (rd_run l a n) s = ((), s\<lparr>ram := m, dev := d\<rparr>) \<and> ready (s\<lparr>ram := m, dev := d\<rparr>)
    \<and> sect d = sect (dev s)
    \<and> (\<forall>k < n. rd_bytes m (a + 512 * k) 512 = sect (dev s) (l + word_of_nat k))
    \<and> (\<forall>i. i \<notin> priv \<longrightarrow> i < a \<or> a + 512 * n \<le> i \<longrightarrow> m i = ram s i)"
  by (rule rd_run_in [OF assms]) simp

end

end
