(* ===== verification/Sata.thy ===== *)
theory Sata
  imports Ahci Sector_Store
begin

text \<open>
  The contract between the AHCI driver and the controller, and what the driver achieves under
  it. The controller is not code of the repository: \<open>sata_spec\<close> states its documented
  behaviour over a few observers of its state (command list base, sectors, how many polls a
  command stays pending), and a reference controller shows that it can be met. Under the
  contract \<open>ahci_read\<close> and \<open>ahci_write\<close> implement the interface \<open>sector_store\<close>.
\<close>

subsection \<open>The controller\<close>

record 'd sata =
  s_clb :: "'d \<Rightarrow> u32"
  s_sect :: "'d \<Rightarrow> u32 \<Rightarrow> u8 list"
  s_busy :: "'d \<Rightarrow> nat"
  s_slot :: "'d \<Rightarrow> nat"

text \<open>The fields of a command the controller fetches from RAM: header at \<open>hdr\<close>, table at \<open>tbl\<close>.\<close>

definition fis_lba :: "mem \<Rightarrow> nat \<Rightarrow> u32" where
  "fis_lba m tbl = ucast (m (tbl + 4)) OR push_bit 8 (ucast (m (tbl + 5)))
     OR push_bit 16 (ucast (m (tbl + 6))) OR push_bit 24 (ucast (m (tbl + 8)))"

definition fis_count :: "mem \<Rightarrow> nat \<Rightarrow> nat" where
  "fis_count m tbl = unat (m (tbl + 12)) + 256 * unat (m (tbl + 13))"

definition fis_ok :: "mem \<Rightarrow> nat \<Rightarrow> nat \<Rightarrow> bool \<Rightarrow> bool" where
  "fis_ok m hdr tbl w \<longleftrightarrow>
     m hdr AND 0x5F = 5 OR (if w then 0x40 else 0) \<and> rd16 m (hdr + 2) = 1
     \<and> m tbl = 0x27 \<and> m (tbl + 1) = 0x80 \<and> m (tbl + 2) = (if w then 0x35 else 0x25)
     \<and> m (tbl + 7) = 0x40 \<and> m (tbl + 9) = 0 \<and> m (tbl + 10) = 0
     \<and> 0 < fis_count m tbl
     \<and> unat (rd32 m (tbl + 140) AND 0x3FFFFF) + 1 = 512 * fis_count m tbl"

text \<open>The transfer: sectors to RAM (READ DMA EXT) or RAM to sectors (WRITE DMA EXT).\<close>

definition sata_read_effect :: "(u32 \<Rightarrow> u8 list) \<Rightarrow> nat \<Rightarrow> mem \<Rightarrow> mem" where
  "sata_read_effect f tbl m =
     wr_bytes (unat (rd64 m (tbl + 128)))
       (concat (map (\<lambda>k. f (fis_lba m tbl + word_of_nat k)) [0..<fis_count m tbl])) m"

definition sata_write_effect :: "nat \<Rightarrow> mem \<Rightarrow> (u32 \<Rightarrow> u8 list) \<Rightarrow> u32 \<Rightarrow> u8 list" where
  "sata_write_effect tbl m f =
     fold (\<lambda>k g. g(fis_lba m tbl + word_of_nat k := rd_bytes m (unat (rd64 m (tbl + 128)) + 512 * k) 512))
       [0..<fis_count m tbl] f"

text \<open>
  The contract for the port at \<open>p\<close>: the command list base can be read back; writes to the
  status registers only clear them; an idle controller has no command pending and is neither
  busy nor requesting data; a command written to CI is executed as its table says and is
  reported pending for at most \<open>L\<close> polls, without a task-file error.
\<close>

definition sata_keeps :: "'d sata \<Rightarrow> 'd \<Rightarrow> 'd \<Rightarrow> bool" where
  "sata_keeps V d d' \<longleftrightarrow> s_clb V d' = s_clb V d \<and> s_sect V d' = s_sect V d"

definition sata_idle_regs :: "'d hw \<Rightarrow> nat \<Rightarrow> 'd sata \<Rightarrow> bool" where
  "sata_idle_regs hw p V \<longleftrightarrow>
     (\<forall>m d. hw_read32 hw (p + P_CLB) (m, d) = (s_clb V d, (m, d)))
     \<and> (\<forall>m d v. \<forall>r \<in> {P_IS, P_SERR}. \<exists>d'. hw_write32 hw (p + r) v (m, d) = (m, d')
          \<and> sata_keeps V d d' \<and> s_busy V d' = s_busy V d)
     \<and> (\<forall>m d. s_busy V d = 0 \<longrightarrow> hw_read32 hw (p + P_SACT) (m, d) = (0, (m, d))
          \<and> hw_read32 hw (p + P_CI) (m, d) = (0, (m, d))
          \<and> (\<exists>v. hw_read32 hw (p + P_TFD) (m, d) = (v, (m, d)) \<and> v AND 0x88 = 0))"

definition sata_busy_regs :: "'d hw \<Rightarrow> nat \<Rightarrow> 'd sata \<Rightarrow> bool" where
  "sata_busy_regs hw p V \<longleftrightarrow>
     (\<forall>m d k. s_busy V d = Suc k \<longrightarrow>
        (\<exists>v d'. hw_read32 hw (p + P_CI) (m, d) = (v, (m, d')) \<and> bit v (s_slot V d)
           \<and> sata_keeps V d d' \<and> s_busy V d' = k \<and> s_slot V d' = s_slot V d))
     \<and> (\<forall>m d. \<exists>v d'. hw_read32 hw (p + P_IS) (m, d) = (v, (m, d')) \<and> \<not> bit v 30
           \<and> sata_keeps V d d' \<and> s_busy V d' = s_busy V d \<and> s_slot V d' = s_slot V d)"

definition sata_issue :: "'d hw \<Rightarrow> nat \<Rightarrow> 'd sata \<Rightarrow> nat \<Rightarrow> bool" where
  "sata_issue hw p V L \<longleftrightarrow>
     (\<forall>m d w. \<forall>slot < 32. s_busy V d = 0 \<longrightarrow>
        (let hdr = unat (s_clb V d) + 32 * slot; tbl = unat (rd32 m (hdr + 8)) in
          fis_ok m hdr tbl w \<longrightarrow>
            (\<exists>d'. hw_write32 hw (p + P_CI) (push_bit slot 1) (m, d)
                 = (if w then m else sata_read_effect (s_sect V d) tbl m, d')
               \<and> s_clb V d' = s_clb V d \<and> s_busy V d' \<le> L \<and> s_slot V d' = slot
               \<and> s_sect V d' = (if w then sata_write_effect tbl m (s_sect V d) else s_sect V d))))"

definition sata_spec :: "'d hw \<Rightarrow> nat \<Rightarrow> 'd sata \<Rightarrow> nat \<Rightarrow> bool" where
  "sata_spec hw p V L \<longleftrightarrow> sata_idle_regs hw p V \<and> sata_busy_regs hw p V \<and> sata_issue hw p V L
     \<and> (\<forall>d l. length (s_sect V d l) = 512)"

subsection \<open>The command in RAM\<close>

lemma command_table_other:
  "i < tbl \<or> tbl + 144 \<le> i \<Longrightarrow> command_table tbl buf dbc c lba n m i = m i"
  by (auto simp: command_table_def h2d_fis_def wr32_def zero_fill_def)

lemma set_header_other: "i < hdr \<or> hdr + 4 \<le> i \<Longrightarrow> set_header hdr w m i = m i"
  by (auto simp: set_header_def wr16_def)

lemma rd64_split: "rd32 m a = ucast b \<Longrightarrow> rd32 m (a + 4) = ucast (drop_bit 32 b) \<Longrightarrow> rd64 m a = (b :: u64)"
  by (rule bit_word_eqI) (auto simp: rd64_def bit_simps)

lemma h2d_fis_other: "i < fis \<or> fis + 20 \<le> i \<Longrightarrow> h2d_fis fis c lba n m i = m i"
  by (auto simp: h2d_fis_def)

lemma rd32_h2d_other: "fis + 20 \<le> a \<Longrightarrow> rd32 (h2d_fis fis c lba n m) a = rd32 m a"
  by (rule rd32_cong) (simp add: h2d_fis_other)

lemma command_table_prdt:
  "rd64 (command_table tbl buf dbc c lba n m) (tbl + 128) = buf"
  "rd32 (command_table tbl buf dbc c lba n m) (tbl + 140) = dbc"
  by (rule rd64_split)
    (simp_all add: command_table_def rd32_h2d_other rd32_wr32_other add.assoc)

lemma fis_lba_h2d: "fis_lba (command_table tbl buf dbc c lba n m) tbl = lba"
proof (rule bit_word_eqI)
  fix k
  assume "k < LENGTH(32)"
  then consider "k < 8" | "8 \<le> k" "k < 16" | "16 \<le> k" "k < 24" | "24 \<le> k" "k < 32" by fastforce
  then show "bit (fis_lba (command_table tbl buf dbc c lba n m) tbl) k = bit lba k"
    by cases (auto simp: fis_lba_def command_table_def h2d_fis_def bit_simps)
qed

lemma header_byte:
  "((((b :: u8) AND NOT 0x1F) OR 5) AND NOT 0x40 OR (if w then 0x40 else 0)) AND 0x5F
     = 5 OR (if w then 0x40 else 0)"
  by (simp add: bit.conj_disj_distrib2 and.assoc)

lemma dbc_bytes:
  assumes "0 < n" "n \<le> 8192"
  shows "unat ((((n :: u32) * 512 - 1) OR 0x80000000) AND 0x3FFFFF) + 1 = 512 * unat n"
proof -
  have n: "0 < unat n" "unat n \<le> 8192"
    using assms by (simp_all add: word_less_nat_alt word_le_nat_alt)
  then have "unat (n * 512) = unat n * 512" by (simp add: unat_word_ariths)
  then have x: "unat (n * 512 - 1) = unat n * 512 - 1"
    using n by (subst unat_sub) (simp_all add: word_le_nat_alt)
  have "(0x80000000 :: u32) AND 0x3FFFFF = 0" by simp
  then have "((n * 512 - 1) OR 0x80000000) AND 0x3FFFFF = (n * 512 - 1) AND 0x3FFFFF"
    by (simp add: bit.conj_disj_distrib2)
  also have "\<dots> = take_bit 22 (n * 512 - 1)" by (simp add: take_bit_eq_mask mask_eq_exp_minus_1)
  also have "unat \<dots> = take_bit 22 (unat n * 512 - 1)" by (simp only: unsigned_take_bit_eq x)
  also have "\<dots> = (unat n * 512 - 1) mod 2 ^ 22" by (rule take_bit_eq_mod)
  also have "\<dots> = unat n * 512 - 1" using n by simp
  finally show ?thesis using n by simp
qed

lemma fis_count_built:
  assumes "n \<le> 8192"
  shows "fis_count (command_table tbl buf dbc c lba n m) tbl = unat n"
proof -
  have n: "unat n \<le> 8192" using assms by (simp add: word_le_nat_alt)
  have "unat (drop_bit 8 n) = drop_bit 8 (unat n)" by (rule unat_drop_bit_eq)
  then have "unat (ucast (drop_bit 8 n) :: u8) = unat n div 256"
    using n by (simp add: unsigned_ucast_eq take_bit_eq_mod drop_bit_eq_div)
  moreover have "unat (ucast n :: u8) = unat n mod 256"
    by (simp add: unsigned_ucast_eq take_bit_eq_mod)
  ultimately show ?thesis by (simp add: fis_count_def command_table_def h2d_fis_def)
qed

lemma fis_ok_built:
  assumes "hdr + 32 \<le> tbl \<or> tbl + 144 \<le> hdr" "0 < n" "n \<le> 8192"
  shows "fis_ok (command_table tbl buf ((n * 512 - 1) OR 0x80000000) (if w then 0x35 else 0x25) lba n
           (set_header hdr w m)) hdr tbl w"
proof -
  let ?m = "command_table tbl buf ((n * 512 - 1) OR 0x80000000) (if w then 0x35 else 0x25) lba n
           (set_header hdr w m)"
  have h: "?m i = set_header hdr w m i" if "hdr \<le> i" "i < hdr + 32" for i
    using that assms(1) by (intro command_table_other) auto
  have "?m hdr AND 0x5F = 5 OR (if w then 0x40 else 0)"
    using h [of hdr] header_byte [of "m hdr" w] by (simp add: set_header_def wr16_def)
  moreover have "rd16 ?m (hdr + 2) = rd16 (set_header hdr w m) (hdr + 2)"
    using h [of "hdr + 2"] h [of "hdr + 2 + 1"] by (simp add: rd16_def)
  then have "rd16 ?m (hdr + 2) = 1" by (simp add: set_header_def)
  moreover have "?m tbl = 0x27" "?m (tbl + 1) = 0x80" "?m (tbl + 2) = (if w then 0x35 else 0x25)"
    "?m (tbl + 7) = 0x40" "?m (tbl + 9) = 0" "?m (tbl + 10) = 0"
    by (simp_all add: command_table_def h2d_fis_def wr32_def zero_fill_def)
  moreover have "0 < unat n" using assms(2) by (simp add: word_less_nat_alt)
  ultimately show ?thesis
    using assms(2,3) dbc_bytes [of n]
    by (simp only: fis_ok_def fis_count_built command_table_prdt)
qed

subsection \<open>Running the driver\<close>

lemma run_read32:
  "hw_read32 hw a (ram s, dev s) = (v, (m, d)) \<Longrightarrow>
   run_state (mmio_read32 hw a) s = (v, s\<lparr>ram := m, dev := d\<rparr>)"
  by (simp add: mmio_read32_def run_dev_read)

lemma run_write32:
  "hw_write32 hw a v (ram s, dev s) = (m, d) \<Longrightarrow>
   run_state (mmio_write32 hw a v) s = ((), s\<lparr>ram := m, dev := d\<rparr>)"
  by (simp add: mmio_write32_def run_dev_write)

lemma wait_command_ok:
  assumes "sata_idle_regs hw p V" "sata_busy_regs hw p V" "s_busy V (dev s) < n" "slot = s_slot V (dev s)"
  shows "\<exists>d. run_state (wait_command hw p slot n) s = (True, s\<lparr>dev := d\<rparr>)
    \<and> sata_keeps V (dev s) d \<and> s_busy V d = 0"
  using assms(3,4)
proof (induction n arbitrary: s)
  case (Suc n)
  show ?case
  proof (cases "s_busy V (dev s)")
    case 0
    then have "hw_read32 hw (p + P_CI) (ram s, dev s) = (0, (ram s, dev s))"
      using assms(1) by (simp add: sata_idle_regs_def)
    from run_read32 [OF this] show ?thesis
      using 0 by (intro exI [of _ "dev s"]) (simp add: sata_keeps_def)
  next
    case (Suc k)
    then have "\<exists>v d'. hw_read32 hw (p + P_CI) (ram s, dev s) = (v, (ram s, d')) \<and> bit v (s_slot V (dev s))
        \<and> sata_keeps V (dev s) d' \<and> s_busy V d' = k \<and> s_slot V d' = s_slot V (dev s)"
      using assms(2) by (simp add: sata_busy_regs_def)
    then obtain v d where ci: "hw_read32 hw (p + P_CI) (ram s, dev s) = (v, (ram s, d))" "bit v slot"
      and d: "sata_keeps V (dev s) d" "s_busy V d = k" "s_slot V d = slot"
      using Suc.prems(2) by metis
    from assms(2) have "\<exists>v d'. hw_read32 hw (p + P_IS) (ram s, d) = (v, (ram s, d')) \<and> \<not> bit v 30
        \<and> sata_keeps V d d' \<and> s_busy V d' = s_busy V d \<and> s_slot V d' = s_slot V d"
      by (simp add: sata_busy_regs_def)
    then obtain v' d' where isr: "hw_read32 hw (p + P_IS) (ram s, d) = (v', (ram s, d'))" "\<not> bit v' 30"
      and d': "sata_keeps V d d'" "s_busy V d' = k" "s_slot V d' = slot"
      using d by auto
    have "s_busy V (dev (s\<lparr>dev := d'\<rparr>)) < n" using d' Suc Suc.prems by simp
    then obtain d'' where rest: "run_state (wait_command hw p slot n) (s\<lparr>dev := d'\<rparr>) = (True, s\<lparr>dev := d'\<rparr>\<lparr>dev := d''\<rparr>)"
      "sata_keeps V d' d''" "s_busy V d'' = 0"
      using Suc.IH [of "s\<lparr>dev := d'\<rparr>"] d' by auto
    have "run_state (wait_command hw p slot (Suc n)) s = (True, s\<lparr>dev := d''\<rparr>)"
      using run_read32 [OF ci(1)] run_read32 [of hw "p + P_IS" "s\<lparr>ram := ram s, dev := d\<rparr>" v' "ram s" d'] isr ci(2) rest(1)
      by simp
    then show ?thesis using rest d d' by (auto simp: sata_keeps_def)
  qed
qed simp

lemma find_slot_0: "find_slot 0 = 0"
  by (simp add: find_slot_def upt_rec)

text \<open>
  The RAM after the driver has laid out a command in slot 0, and the outcome of the whole
  operation under the contract.
\<close>

definition staged :: "nat \<Rightarrow> nat \<Rightarrow> bool \<Rightarrow> u64 \<Rightarrow> u32 \<Rightarrow> u32 \<Rightarrow> mem \<Rightarrow> mem" where
  "staged hdr tbl w buf lba n m =
     command_table tbl buf ((n * 512 - 1) OR 0x80000000) (if w then 0x35 else 0x25) lba n (set_header hdr w m)"

lemma staged_other:
  "i < hdr \<or> hdr + 32 \<le> i \<Longrightarrow> i < tbl \<or> tbl + 144 \<le> i \<Longrightarrow> staged hdr tbl w buf lba n m i = m i"
  by (auto simp: staged_def command_table_other set_header_other)

lemma staged_ctba:
  assumes "hdr + 32 \<le> tbl \<or> tbl + 144 \<le> hdr"
  shows "rd32 (staged hdr tbl w buf lba n m) (hdr + 8) = rd32 m (hdr + 8)"
proof (rule rd32_cong)
  fix i :: nat
  assume "i < 4"
  then have "hdr + 8 + i < tbl \<or> tbl + 144 \<le> hdr + 8 + i" using assms by auto
  then show "staged hdr tbl w buf lba n m (hdr + 8 + i) = m (hdr + 8 + i)"
    by (simp add: staged_def command_table_other set_header_other)
qed

lemma ahci_command_ok:
  assumes spec: "sata_spec hw p V L" and L: "L < 10000000" and idle: "s_busy V (dev s) = 0"
    and hdr: "unat (s_clb V (dev s)) = hdr" and tbl: "unat (rd32 (ram s) (hdr + 8)) = tbl"
    and apart: "hdr + 32 \<le> tbl \<or> tbl + 144 \<le> hdr" and n: "0 < n" "n \<le> 8192" and tries: "0 < tries"
    and cmd: "c = (if w then 0x35 else 0x25)" and dbc: "dbc = (n * 512 - 1) OR 0x80000000"
    and st: "m1 = staged hdr tbl w buf lba n (ram s)"
  shows "\<exists>d. run_state (ahci_command hw p w c lba n dbc buf tries) s
      = (True, s\<lparr>ram := (if w then m1 else sata_read_effect (s_sect V (dev s)) tbl m1), dev := d\<rparr>)
    \<and> s_clb V d = s_clb V (dev s) \<and> s_busy V d = 0
    \<and> s_sect V d = (if w then sata_write_effect tbl m1 (s_sect V (dev s)) else s_sect V (dev s))"
proof -
  note idl = spec [unfolded sata_spec_def sata_idle_regs_def, THEN conjunct1]
  obtain d1 where w1: "hw_write32 hw (p + P_IS) 0xFFFFFFFF (ram s, dev s) = (ram s, d1)"
    and k1: "sata_keeps V (dev s) d1" "s_busy V d1 = 0" using idl idle by (metis insertCI)
  obtain d2 where w2: "hw_write32 hw (p + P_SERR) 0xFFFFFFFF (ram s, d1) = (ram s, d2)"
    and k2: "sata_keeps V d1 d2" "s_busy V d2 = 0" using idl k1 by (metis insertCI)
  have r3: "hw_read32 hw (p + P_SACT) (ram s, d2) = (0, (ram s, d2))"
    and r4: "hw_read32 hw (p + P_CI) (ram s, d2) = (0, (ram s, d2))"
    and r5: "hw_read32 hw (p + P_CLB) (ram s, d2) = (s_clb V d2, (ram s, d2))"
    using idl k2(2) by simp_all
  have clb: "unat (s_clb V d2) = hdr" using k1 k2 hdr by (simp add: sata_keeps_def)
  have sect: "s_sect V d2 = s_sect V (dev s)" using k1 k2 by (simp add: sata_keeps_def)
  have m1: "m1 = command_table tbl buf dbc c lba n (set_header hdr w (ram s))"
    by (simp add: st staged_def cmd dbc)
  have ctba: "rd32 (set_header hdr w (ram s)) (hdr + 8) = rd32 (ram s) (hdr + 8)"
    by (rule rd32_cong) (simp add: set_header_other)
  obtain v where r6: "hw_read32 hw (p + P_TFD) (m1, d2) = (v, (m1, d2))" "v AND 0x88 = 0"
    using idl k2(2) by metis
  have tbl1: "unat (rd32 m1 (hdr + 8)) = tbl" using tbl staged_ctba [OF apart] st by simp
  have "fis_ok m1 hdr tbl w" using fis_ok_built [OF apart n] st by (simp add: staged_def)
  then obtain d3 where w7: "hw_write32 hw (p + P_CI) (push_bit 0 1) (m1, d2)
        = (if w then m1 else sata_read_effect (s_sect V d2) tbl m1, d3)"
    and k3: "s_clb V d3 = s_clb V d2" "s_busy V d3 \<le> L" "s_slot V d3 = 0"
      "s_sect V d3 = (if w then sata_write_effect tbl m1 (s_sect V d2) else s_sect V d2)"
    using spec k2(2) clb tbl1
    unfolding sata_spec_def sata_issue_def Let_def by (metis add.right_neutral mult_zero_right zero_less_numeral)
  let ?m2 = "if w then m1 else sata_read_effect (s_sect V d2) tbl m1"
  obtain d4 where w8: "run_state (wait_command hw p 0 10000000) (s\<lparr>ram := ?m2, dev := d3\<rparr>)
      = (True, s\<lparr>ram := ?m2, dev := d4\<rparr>)" and k4: "sata_keeps V d3 d4" "s_busy V d4 = 0"
    using wait_command_ok [OF spec [unfolded sata_spec_def, THEN conjunct1] spec [unfolded sata_spec_def, THEN conjunct2, THEN conjunct1], of "s\<lparr>ram := ?m2, dev := d3\<rparr>" 10000000 0] k3 L by auto
  have spin: "run_state (spin_while (mmio_test hw (p + P_TFD) 0x88) tries) (s\<lparr>ram := m1, dev := d2\<rparr>)
      = (tries, s\<lparr>ram := m1, dev := d2\<rparr>)"
  proof -
    have "run_state (mmio_test hw (p + P_TFD) 0x88) (s\<lparr>ram := m1, dev := d2\<rparr>)
        = (False, s\<lparr>ram := m1, dev := d2\<rparr>)"
      using run_read32 [of hw "p + P_TFD" "s\<lparr>ram := m1, dev := d2\<rparr>" v m1 d2] r6 by (simp add: mmio_test_def)
    then show ?thesis using spin_while_now [of "mmio_test hw (p + P_TFD) 0x88" "s\<lparr>ram := m1, dev := d2\<rparr>" tries] by simp
  qed
  have "run_state (ahci_command hw p w c lba n dbc buf tries) s = (True, s\<lparr>ram := ?m2, dev := d4\<rparr>)"
    using run_write32 [of hw "p + P_IS" _ s, OF w1]
      run_write32 [of hw "p + P_SERR" _ "s\<lparr>ram := ram s, dev := d1\<rparr>" "ram s" d2]
      run_read32 [of hw "p + P_SACT" "s\<lparr>ram := ram s, dev := d2\<rparr>" 0 "ram s" d2]
      run_read32 [of hw "p + P_CI" "s\<lparr>ram := ram s, dev := d2\<rparr>" 0 "ram s" d2]
      run_read32 [of hw "p + P_CLB" "s\<lparr>ram := ram s, dev := d2\<rparr>" "s_clb V d2" "ram s" d2]
      run_write32 [of hw "p + P_CI" "push_bit 0 1" "s\<lparr>ram := m1, dev := d2\<rparr>" ?m2 d3]
      w2 r3 r4 r5 w7 w8 spin tries tbl ctba m1 [symmetric]
    by (simp add: ahci_command_def find_slot_0 clb Let_def ram_dev_swap split del: if_split)
  then show ?thesis using k1 k2 k3 k4 sect by (intro exI [of _ d4]) (auto simp: sata_keeps_def)
qed

lemma staged_effects:
  assumes "n \<le> 8192"
  shows "sata_read_effect f tbl (staged hdr tbl False buf lba n m)
      = wr_bytes (unat buf) (concat (map (\<lambda>k. f (lba + word_of_nat k)) [0..<unat n]))
          (staged hdr tbl False buf lba n m)"
    and "sata_write_effect tbl (staged hdr tbl True buf lba n m) f
      = fold (\<lambda>k g. g(lba + word_of_nat k := rd_bytes (staged hdr tbl True buf lba n m) (unat buf + 512 * k) 512))
          [0..<unat n] f"
  using assms
  by (simp_all add: sata_read_effect_def sata_write_effect_def staged_def command_table_prdt
      fis_lba_h2d fis_count_built)

subsection \<open>The driver implements the sector store\<close>

text \<open>
  \<open>sata_ready\<close>: the controller is idle, the command list is at \<open>hdr\<close>, its first header
  points to a command table at \<open>tbl\<close> (what \<open>ahci_port_rebase\<close> sets up), and the two do not
  overlap. \<open>sata_priv\<close> is the memory the driver writes for itself.
\<close>

definition sata_ready :: "'d hw \<Rightarrow> nat \<Rightarrow> 'd sata \<Rightarrow> nat \<Rightarrow> nat \<Rightarrow> nat \<Rightarrow> ('d, 'z) machine_scheme \<Rightarrow> bool" where
  "sata_ready hw p V L hdr tbl s \<longleftrightarrow> sata_spec hw p V L \<and> L < 10000000
     \<and> s_busy V (dev s) = 0 \<and> unat (s_clb V (dev s)) = hdr \<and> unat (rd32 (ram s) (hdr + 8)) = tbl
     \<and> (hdr + 32 \<le> tbl \<or> tbl + 144 \<le> hdr)"

definition sata_priv :: "nat \<Rightarrow> nat \<Rightarrow> nat set" where
  "sata_priv hdr tbl = {hdr..<hdr + 32} \<union> {tbl..<tbl + 144}"

lemma clear_of_priv:
  "clear_of (sata_priv hdr tbl) a n \<Longrightarrow> 0 < n \<Longrightarrow> a + n \<le> hdr \<or> hdr + 32 \<le> a"
proof (rule ccontr)
  assume c: "clear_of (sata_priv hdr tbl) a n" "0 < n" "\<not> (a + n \<le> hdr \<or> hdr + 32 \<le> a)"
  then have "max a hdr \<in> sata_priv hdr tbl" "a \<le> max a hdr" "max a hdr < a + n"
    by (auto simp: sata_priv_def)
  then show False using c(1) by (auto simp: clear_of_def)
qed

lemma staged_off_priv: "i \<notin> sata_priv hdr tbl \<Longrightarrow> staged hdr tbl w buf lba n m i = m i"
  by (rule staged_other) (auto simp: sata_priv_def)

lemma sata_read_run:
  assumes rdy: "sata_ready hw p V L hdr tbl s" and n: "0 < n" "n \<le> 8192"
    and buf: "clear_of (sata_priv hdr tbl) a (512 * unat n)" "a + 512 * unat n \<le> 2 ^ 32" and tries: "0 < tries"
  shows "\<exists>m d. run_state (ahci_command hw p False 0x25 l n ((n * 512 - 1) OR 0x80000000) (word_of_nat a) tries) s
      = (True, s\<lparr>ram := m, dev := d\<rparr>)
    \<and> sata_ready hw p V L hdr tbl (s\<lparr>ram := m, dev := d\<rparr>) \<and> s_sect V d = s_sect V (dev s)
    \<and> rd_bytes m a (512 * unat n) = concat (map (\<lambda>k. s_sect V (dev s) (l + word_of_nat k)) [0..<unat n])
    \<and> (\<forall>i. i \<notin> sata_priv hdr tbl \<longrightarrow> i < a \<or> a + 512 * unat n \<le> i \<longrightarrow> m i = ram s i)"
proof -
  note r = rdy [unfolded sata_ready_def]
  let ?m1 = "staged hdr tbl False (word_of_nat a) l n (ram s)"
  let ?data = "concat (map (\<lambda>k. s_sect V (dev s) (l + word_of_nat k)) [0..<unat n])"
  have ua: "unat (word_of_nat a :: u64) = a"
    using buf(2) by (intro unat_word_of_nat) simp
  have len: "length ?data = 512 * unat n"
    using r by (simp add: sata_spec_def length_concat comp_def sum_list_triv)
  have eff: "sata_read_effect (s_sect V (dev s)) tbl ?m1 = wr_bytes a ?data ?m1"
    using staged_effects(1) [OF n(2)] ua by simp
  obtain d where run: "run_state (ahci_command hw p False 0x25 l n ((n * 512 - 1) OR 0x80000000) (word_of_nat a) tries) s
      = (True, s\<lparr>ram := wr_bytes a ?data ?m1, dev := d\<rparr>)"
    and d: "s_clb V d = s_clb V (dev s)" "s_busy V d = 0" "s_sect V d = s_sect V (dev s)"
    using ahci_command_ok [where hw = hw and p = p and V = V and L = L and s = s and hdr = hdr and tbl = tbl
        and n = n and tries = tries and w = False and buf = "word_of_nat a" and lba = l,
        OF _ _ _ _ _ _ n tries refl refl refl] r eff
    by auto
  have un: "0 < unat n" using n by (simp add: word_less_nat_alt)
  then have off: "a + 512 * unat n \<le> hdr \<or> hdr + 32 \<le> a"
    using clear_of_priv [OF buf(1)] by simp
  have "rd32 (wr_bytes a ?data ?m1) (hdr + 8) = rd32 ?m1 (hdr + 8)"
    by (rule rd32_cong) (use off len in \<open>auto intro!: wr_bytes_other\<close>)
  also have "\<dots> = rd32 (ram s) (hdr + 8)" using staged_ctba r by blast
  finally have "sata_ready hw p V L hdr tbl (s\<lparr>ram := wr_bytes a ?data ?m1, dev := d\<rparr>)"
    using r d by (simp add: sata_ready_def)
  moreover have "rd_bytes (wr_bytes a ?data ?m1) a (512 * unat n) = ?data"
    using rd_wr_bytes [of a ?data ?m1] len by simp
  moreover have "wr_bytes a ?data ?m1 i = ram s i"
    if "i \<notin> sata_priv hdr tbl" "i < a \<or> a + 512 * unat n \<le> i" for i
    using that len by (simp add: wr_bytes_other staged_off_priv)
  ultimately show ?thesis using run d(3) by blast
qed

lemma sata_write_run:
  assumes rdy: "sata_ready hw p V L hdr tbl s"
    and buf: "clear_of (sata_priv hdr tbl) a 512" "a + 512 \<le> 2 ^ 32"
  shows "\<exists>m d. run_state (ahci_write hw p l (word_of_nat a)) s = (True, s\<lparr>ram := m, dev := d\<rparr>)
    \<and> sata_ready hw p V L hdr tbl (s\<lparr>ram := m, dev := d\<rparr>)
    \<and> s_sect V d = (s_sect V (dev s))(l := rd_bytes (ram s) a 512)
    \<and> (\<forall>i. i \<notin> sata_priv hdr tbl \<longrightarrow> m i = ram s i)"
proof -
  note r = rdy [unfolded sata_ready_def]
  let ?m1 = "staged hdr tbl True (word_of_nat a) l 1 (ram s)"
  have ua: "unat (word_of_nat a :: u64) = a" using buf(2) by (intro unat_word_of_nat) simp
  have same: "rd_bytes ?m1 a 512 = rd_bytes (ram s) a 512"
    by (rule rd_bytes_clear [OF buf(1)]) (simp add: staged_off_priv)
  have eff: "sata_write_effect tbl ?m1 (s_sect V (dev s)) = (s_sect V (dev s))(l := rd_bytes (ram s) a 512)"
    using staged_effects(2) [of 1 tbl hdr "word_of_nat a" l "ram s" "s_sect V (dev s)"] ua same by simp
  obtain d where run: "run_state (ahci_write hw p l (word_of_nat a)) s = (True, s\<lparr>ram := ?m1, dev := d\<rparr>)"
    and d: "s_clb V d = s_clb V (dev s)" "s_busy V d = 0"
      "s_sect V d = (s_sect V (dev s))(l := rd_bytes (ram s) a 512)"
    using ahci_command_ok [where hw = hw and p = p and V = V and L = L and s = s and hdr = hdr and tbl = tbl
        and n = 1 and tries = 1000000 and w = True and buf = "word_of_nat a" and lba = l,
        OF _ _ _ _ _ _ _ _ _ refl refl refl] r eff
    by (auto simp: ahci_write_def)
  have "rd32 ?m1 (hdr + 8) = rd32 (ram s) (hdr + 8)" using staged_ctba r by blast
  then have "sata_ready hw p V L hdr tbl (s\<lparr>ram := ?m1, dev := d\<rparr>)"
    using r d by (simp add: sata_ready_def)
  then show ?thesis using run d(3)
    by (intro exI [of _ ?m1] exI [of _ d]) (simp add: staged_off_priv)
qed

interpretation sata: sector_store
  "\<lambda>l a. ahci_read hw p l (word_of_nat a)" "\<lambda>l a. ahci_write hw p l (word_of_nat a)"
  "sata_ready hw p V L hdr tbl" "s_sect V" "sata_priv hdr tbl"
  for hw p V L hdr tbl
proof unfold_locales
  fix s :: "('a, 'b) machine_scheme" and l a
  assume rdy: "sata_ready hw p V L hdr tbl s"
  then show "length (s_sect V (dev s) l) = 512" by (simp add: sata_ready_def sata_spec_def)
  assume buf: "clear_of (sata_priv hdr tbl) a 512" "a + 512 \<le> 2 ^ 32"
  show "\<exists>m d. run_state (ahci_read hw p l (word_of_nat a)) s = (True, s\<lparr>ram := m, dev := d\<rparr>)
      \<and> sata_ready hw p V L hdr tbl (s\<lparr>ram := m, dev := d\<rparr>) \<and> s_sect V d = s_sect V (dev s)
      \<and> rd_bytes m a 512 = s_sect V (dev s) l
      \<and> (\<forall>i. i \<notin> sata_priv hdr tbl \<longrightarrow> i < a \<or> a + 512 \<le> i \<longrightarrow> m i = ram s i)"
    using sata_read_run [OF rdy, of 1 a 1000000 l] buf by (simp add: ahci_read_def)
  show "\<exists>m d. run_state (ahci_write hw p l (word_of_nat a)) s = (True, s\<lparr>ram := m, dev := d\<rparr>)
      \<and> sata_ready hw p V L hdr tbl (s\<lparr>ram := m, dev := d\<rparr>)
      \<and> s_sect V d = (s_sect V (dev s))(l := rd_bytes (ram s) a 512)
      \<and> (\<forall>i. i \<notin> sata_priv hdr tbl \<longrightarrow> m i = ram s i)"
    using sata_write_run [OF rdy buf] .
qed

text \<open>RAM may be changed freely outside the driver's private memory.\<close>

lemma sata_ready_ram:
  assumes "sata_ready hw p V L hdr tbl s" and "\<And>i. i \<in> sata_priv hdr tbl \<Longrightarrow> m i = ram s i"
  shows "sata_ready hw p V L hdr tbl (s\<lparr>ram := m\<rparr>)"
proof -
  have "rd32 m (hdr + 8) = rd32 (ram s) (hdr + 8)"
    by (rule rd32_cong) (simp add: assms(2) sata_priv_def)
  then show ?thesis using assms(1) by (simp add: sata_ready_def)
qed

lemma clear_ofD: "clear_of P a n \<Longrightarrow> i \<in> P \<Longrightarrow> i < a \<or> a + n \<le> i"
  by (auto simp: clear_of_def not_less)

subsection \<open>A reference controller\<close>

text \<open>
  A controller with one port at \<open>p\<close> that keeps its sectors in a function, answers three
  polls with the command still pending and then reports completion.
\<close>

record ref_disk =
  rc_clb :: u32
  rc_sect :: "u32 \<Rightarrow> u8 list"
  rc_busy :: nat
  rc_slot :: nat

definition ref_sect :: "ref_disk \<Rightarrow> u32 \<Rightarrow> u8 list" where
  "ref_sect d l = take 512 (rc_sect d l @ replicate 512 0)"

definition ref_view :: "ref_disk sata" where
  "ref_view = \<lparr>s_clb = rc_clb, s_sect = ref_sect,
     s_busy = rc_busy, s_slot = (\<lambda>d. rc_slot d mod 32)\<rparr>"

definition ref_read32 :: "nat \<Rightarrow> nat \<Rightarrow> mem \<times> ref_disk \<Rightarrow> u32 \<times> (mem \<times> ref_disk)" where
  "ref_read32 p a = (\<lambda>(m, d).
     if a = p + P_CLB then (rc_clb d, (m, d))
     else if a = p + P_CI then
       (if rc_busy d = 0 then (0, (m, d)) else (push_bit (rc_slot d mod 32) 1, (m, d\<lparr>rc_busy := rc_busy d - 1\<rparr>)))
     else (0, (m, d)))"

definition ref_write32 :: "nat \<Rightarrow> nat \<Rightarrow> u32 \<Rightarrow> mem \<times> ref_disk \<Rightarrow> mem \<times> ref_disk" where
  "ref_write32 p a v = (\<lambda>(m, d).
     if a = p + P_CLB then (m, d\<lparr>rc_clb := v\<rparr>)
     else if a = p + P_CI then
       (case first_slot (\<lambda>i. bit v i) [0..<32] of None \<Rightarrow> (m, d)
        | Some slot \<Rightarrow>
           let hdr = unat (rc_clb d) + 32 * slot; tbl = unat (rd32 m (hdr + 8)) in
           if fis_ok m hdr tbl True then
             (m, d\<lparr>rc_sect := sata_write_effect tbl m (s_sect ref_view d), rc_busy := 3, rc_slot := slot\<rparr>)
           else if fis_ok m hdr tbl False then
             (sata_read_effect (s_sect ref_view d) tbl m, d\<lparr>rc_busy := 3, rc_slot := slot\<rparr>)
           else (m, d))
     else (m, d))"

definition ref_hw :: "nat \<Rightarrow> ref_disk hw" where
  "ref_hw p = \<lparr>hw_read32 = ref_read32 p, hw_write32 = ref_write32 p, hw_dma = id,
     hw_inb = (\<lambda>_ x. (0, x)), hw_outb = (\<lambda>_ _. id), hw_inw = (\<lambda>_ x. (0, x)), hw_outw = (\<lambda>_ _. id),
     hw_inl = (\<lambda>_ x. (0, x)), hw_outl = (\<lambda>_ _. id)\<rparr>"

lemma fis_ok_dir: "fis_ok m hdr tbl True \<Longrightarrow> \<not> fis_ok m hdr tbl False"
  by (auto simp: fis_ok_def)

lemma write_effect_length:
  assumes "\<And>l. length (f l) = 512"
  shows "length (sata_write_effect tbl m f l) = 512"
proof -
  have "length (fold (\<lambda>k g. g(x k := rd_bytes m (y k) 512)) ks f l) = 512" for ks :: "nat list" and x y
    using assms by (induction ks arbitrary: f) auto
  then show ?thesis by (simp add: sata_write_effect_def)
qed

lemma ref_sect_length: "length (ref_sect d l) = 512"
  by (simp add: ref_sect_def)

lemma ref_sect_full: "(\<And>l. length (f l) = 512) \<Longrightarrow> ref_sect (d\<lparr>rc_sect := f\<rparr>) = f"
  by (simp add: ref_sect_def fun_eq_iff)

lemma ref_sect_other [simp]: "ref_sect (d\<lparr>rc_busy := k\<rparr>) = ref_sect d" "ref_sect (d\<lparr>rc_busy := k, rc_slot := j\<rparr>) = ref_sect d"
  by (simp_all add: ref_sect_def fun_eq_iff)

lemma first_slot_push_bit: "slot < 32 \<Longrightarrow> first_slot (bit (2 ^ slot :: u32)) [0..<32] = Some slot"
  by (rule first_slot_eqI) (auto simp: bit_simps)

lemma ref_spec: "sata_spec (ref_hw p) p ref_view 3"
  unfolding sata_spec_def
proof (intro conjI allI)
  show "sata_idle_regs (ref_hw p) p ref_view"
    by (auto simp: sata_idle_regs_def sata_keeps_def ref_hw_def ref_view_def ref_read32_def
        ref_write32_def port_regs)
  show "sata_busy_regs (ref_hw p) p ref_view"
    by (auto simp: sata_busy_regs_def sata_keeps_def ref_hw_def ref_view_def ref_read32_def
        port_regs bit_simps)
  show "sata_issue (ref_hw p) p ref_view 3"
    unfolding sata_issue_def Let_def
  proof (intro allI impI)
    fix m :: mem and d :: ref_disk and w slot
    assume slot: "slot < 32" and idle: "s_busy ref_view d = 0"
      and ok: "fis_ok m (unat (s_clb ref_view d) + 32 * slot)
        (unat (rd32 m (unat (s_clb ref_view d) + 32 * slot + 8))) w"
    show "\<exists>d'. hw_write32 (ref_hw p) (p + P_CI) (push_bit slot 1) (m, d) =
            (if w then m
             else sata_read_effect (s_sect ref_view d)
                   (unat (rd32 m (unat (s_clb ref_view d) + 32 * slot + 8))) m, d') \<and>
            s_clb ref_view d' = s_clb ref_view d \<and> s_busy ref_view d' \<le> 3 \<and> s_slot ref_view d' = slot \<and>
            s_sect ref_view d' =
            (if w then sata_write_effect (unat (rd32 m (unat (s_clb ref_view d) + 32 * slot + 8))) m (s_sect ref_view d)
             else s_sect ref_view d)"
    proof (cases w)
      case True
      then show ?thesis using ok slot
        by (simp add: ref_hw_def ref_write32_def first_slot_push_bit Let_def port_regs ref_view_def
            ref_sect_full write_effect_length ref_sect_length)
    next
      case False
      then show ?thesis using ok slot fis_ok_dir
        by (auto simp: ref_hw_def ref_write32_def first_slot_push_bit Let_def port_regs ref_view_def)
    qed
  qed
  show "length (s_sect ref_view d l) = 512" for d l by (simp add: ref_view_def ref_sect_length)
qed

text \<open>A machine on which the driver is ready: command list at 0x800000, table at 0x800800.\<close>

definition ref_machine :: "(u32 \<Rightarrow> u8 list) \<Rightarrow> mem \<Rightarrow> ref_disk machine" where
  "ref_machine f m = \<lparr>ram = wr32 0x800008 0x800800 m,
     dev = \<lparr>rc_clb = 0x800000, rc_sect = f, rc_busy = 0, rc_slot = 0\<rparr>\<rparr>"

lemma ref_ready: "sata_ready (ref_hw p) p ref_view 3 0x800000 0x800800 (ref_machine f m)"
  using ref_spec by (simp add: sata_ready_def ref_machine_def ref_view_def)

subsection \<open>Properties\<close>

text \<open>
  Property C1. On a controller that behaves as documented, \<open>ahci_read\<close> returns success, leaves
  exactly the addressed sector in the buffer, changes no other memory than its own command
  header and table, changes no sector, and leaves the driver ready for the next command.
\<close>

theorem ahci_read_correct:
  assumes "sata_ready hw p V L hdr tbl s"
    and "clear_of (sata_priv hdr tbl) a 512" and "a + 512 \<le> 2 ^ 32"
  shows "\<exists>m d. run_state (ahci_read hw p l (word_of_nat a)) s = (True, s\<lparr>ram := m, dev := d\<rparr>)
    \<and> sata_ready hw p V L hdr tbl (s\<lparr>ram := m, dev := d\<rparr>) \<and> s_sect V d = s_sect V (dev s)
    \<and> rd_bytes m a 512 = s_sect V (dev s) l
    \<and> (\<forall>i. i \<notin> sata_priv hdr tbl \<longrightarrow> i < a \<or> a + 512 \<le> i \<longrightarrow> m i = ram s i)"
  by (rule sata.rd_ok [OF assms])

theorem ahci_read_correct_witness:
  "\<exists>s'. run_state (ahci_read (ref_hw 0) 0 7 (word_of_nat 0x1000)) (ref_machine (\<lambda>l. replicate 512 (ucast l)) (\<lambda>_. 0))
      = (True, s') \<and> rd_bytes (ram s') 0x1000 512 = replicate 512 7"
  using ahci_read_correct [OF ref_ready [where p = 0 and f = "\<lambda>l. replicate 512 (ucast l)" and m = "\<lambda>_. 0"], where a = "0x1000" and l = 7]
  by (auto simp: clear_of_def sata_priv_def ref_view_def ref_sect_def ref_machine_def)

text \<open>
  Property C2. What \<open>ahci_write\<close> stores in a sector from one buffer, a later \<open>ahci_read\<close> of that
  sector brings back into another, and no other sector changed in between.
\<close>

theorem ahci_write_read_back:
  assumes "sata_ready hw p V L hdr tbl s"
    and "clear_of (sata_priv hdr tbl) a 512" "a + 512 \<le> 2 ^ 32"
    and "clear_of (sata_priv hdr tbl) b 512" "b + 512 \<le> 2 ^ 32"
  shows "\<exists>m d. run_state (do { ahci_write hw p l (word_of_nat a); ahci_read hw p l (word_of_nat b) }) s
      = (True, s\<lparr>ram := m, dev := d\<rparr>) \<and> rd_bytes m b 512 = rd_bytes (ram s) a 512"
  by (rule sata.read_back [OF assms])

theorem ahci_write_read_back_witness:
  "\<exists>s'. run_state (do { ahci_write (ref_hw 0) 0 9 (word_of_nat 0x1000); ahci_read (ref_hw 0) 0 9 (word_of_nat 0x2000) })
      (ref_machine (\<lambda>_. []) (\<lambda>i. if 0x1000 \<le> i \<and> i < 0x1200 then 5 else 0)) = (True, s')
    \<and> rd_bytes (ram s') 0x2000 512 = replicate 512 5"
proof -
  let ?m = "\<lambda>i. if 0x1000 \<le> i \<and> i < 0x1200 then 5 else (0 :: u8)"
  have "rd_bytes (ram (ref_machine (\<lambda>_. []) ?m)) 0x1000 512 = replicate 512 5"
    by (rule nth_equalityI) (simp_all add: rd_bytes_def ref_machine_def wr32_def)
  then show ?thesis
    using ahci_write_read_back [OF ref_ready [where p = 0 and f = "\<lambda>_. []" and m = ?m], where a = "0x1000" and b = "0x2000" and l = 9]
    by (auto simp: clear_of_def sata_priv_def)
qed

text \<open>
  Property C3. \<open>ahci_read_multi\<close> with a count from 1 to 8192 brings that many consecutive
  sectors into consecutive memory with one command.
\<close>

theorem ahci_read_multi_correct:
  assumes "sata_ready hw p V L hdr tbl s" and "0 < n" "n \<le> 8192"
    and "clear_of (sata_priv hdr tbl) a (512 * unat n)" "a + 512 * unat n \<le> 2 ^ 32"
  shows "\<exists>m d. run_state (ahci_read_multi hw p l n (word_of_nat a)) s = (True, s\<lparr>ram := m, dev := d\<rparr>)
    \<and> sata_ready hw p V L hdr tbl (s\<lparr>ram := m, dev := d\<rparr>) \<and> s_sect V d = s_sect V (dev s)
    \<and> rd_bytes m a (512 * unat n) = concat (map (\<lambda>k. s_sect V (dev s) (l + word_of_nat k)) [0..<unat n])
    \<and> (\<forall>i. i \<notin> sata_priv hdr tbl \<longrightarrow> i < a \<or> a + 512 * unat n \<le> i \<longrightarrow> m i = ram s i)"
  unfolding ahci_read_multi_def by (rule sata_read_run [OF assms]) simp

theorem ahci_read_multi_correct_witness:
  "\<exists>s'. run_state (ahci_read_multi (ref_hw 0) 0 7 2 (word_of_nat 0x1000)) (ref_machine (\<lambda>l. replicate 512 (ucast l)) (\<lambda>_. 0))
      = (True, s') \<and> rd_bytes (ram s') 0x1000 1024 = replicate 512 7 @ replicate 512 8"
  using ahci_read_multi_correct [OF ref_ready [where p = 0 and f = "\<lambda>l. replicate 512 (ucast l)" and m = "\<lambda>_. 0"], where n = 2 and a = "0x1000" and l = 7]
  by (auto simp: clear_of_def sata_priv_def ref_view_def ref_sect_def ref_machine_def upt_rec)

text \<open>
  The slot search: a free slot is found whenever one exists, and it is the lowest;
  when all 32 are busy the search returns slot 0, which is busy, so the check against 32 that
  follows it can never reject a command.
\<close>

theorem find_slot_cases:
  "find_slot slots < 32
   \<and> (if slots = 0xFFFFFFFF then find_slot slots = 0
      else \<not> bit slots (find_slot slots) \<and> (\<forall>j < find_slot slots. bit slots j))"
proof -
  let ?P = "\<lambda>i. \<not> bit slots i"
  have full: "(\<forall>i < 32. bit slots i) \<longleftrightarrow> slots = 0xFFFFFFFF"
  proof
    assume a: "\<forall>i < 32. bit slots i"
    have "slots = mask 32" by (rule bit_word_eqI) (use a in \<open>simp add: bit_simps\<close>)
    then show "slots = 0xFFFFFFFF" by (simp add: mask_eq_exp_minus_1)
  next
    assume "slots = 0xFFFFFFFF"
    then have "slots = mask 32" by (simp add: mask_eq_exp_minus_1)
    then show "\<forall>i < 32. bit slots i" by (simp add: bit_simps)
  qed
  show ?thesis
  proof (cases "first_slot ?P [0..<32]")
    case None
    then have "\<forall>i < 32. bit slots i" by (simp add: first_slot_None)
    then show ?thesis using None full by (simp add: find_slot_def)
  next
    case (Some i)
    from first_slot_Some [OF Some] have i: "i < 32" "\<not> bit slots i" "\<forall>j < i. bit slots j"
      by auto
    then have "slots \<noteq> 0xFFFFFFFF" using full by metis
    then show ?thesis using Some i by (simp add: find_slot_def)
  qed
qed

theorem find_slot_cases_witness: "\<not> bit (3 :: u32) (find_slot 3) \<and> find_slot 0xFFFFFFFF = 0"
  using find_slot_cases [of 3] find_slot_cases [of "0xFFFFFFFF"] by simp

end
