(* ===== verification/Volumes.thy ===== *)
theory Volumes
  imports Ahci
begin

text \<open>
  \<open>cosmos_ahci.cpp\<close>, the layer above the sector commands: finding and naming the drives, the
  boot-sector label scan, and the two read-only file system loaders (ISO 9660 and FAT32).
\<close>

subsection \<open>Mounting\<close>

text \<open>The compaction loop at the head of \<open>ahci_mount_drive\<close>, cosmos_ahci.cpp:594\<close>

definition retain_loop :: "nat \<Rightarrow> drive list \<Rightarrow> nat \<times> drive list" where
  "retain_loop n ds = fold (\<lambda>d (r, ds). if drv_type (ds ! d) \<noteq> 2 then (r + 1, ds[r := ds ! d]) else (r, ds))
     [0..<n] (0, ds)"

text \<open>Size and model name out of the IDENTIFY data, cosmos_ahci.cpp:665 to 684\<close>

definition identify_mb :: "mem \<Rightarrow> nat \<Rightarrow> u32 \<Rightarrow> int" where
  "identify_mb m buf sig =
     (if sig \<noteq> SATA_SIG_ATAPI then
        let s = push_bit 16 (ucast (rd16 m (buf + 202))) OR ucast (rd16 m (buf + 200)) :: u32;
            s' = (if s = 0 then push_bit 16 (ucast (rd16 m (buf + 122))) OR ucast (rd16 m (buf + 120)) else s)
        in drop_bit 11 (sint s')
      else 1024)"

fun trim_tail :: "nat \<Rightarrow> string \<Rightarrow> string" where
  "trim_tail 0 s = s"
| "trim_tail (Suc n) s =
     (if s ! Suc n = CHR '' '' \<or> s ! Suc n = CHR 0x00 then trim_tail n (s[Suc n := CHR 0x00]) else s)"

definition identify_model :: "mem \<Rightarrow> nat \<Rightarrow> string" where
  "identify_model m buf =
     (let raw = concat (map (\<lambda>k. [chr_of (m (buf + 54 + 2 * k + 1)), chr_of (m (buf + 54 + 2 * k))]) [0..<20]);
          s = trim_tail 39 raw
      in if s ! 0 = CHR 0x00 then ''UNKNOWN DRIVE'' else c_str s)"

text \<open>The label of a drive whose sector 0 carries the boot signature, cosmos_ahci.cpp:696\<close>

definition boot_label :: "mem \<Rightarrow> nat \<Rightarrow> string" where
  "boot_label m buf =
     (if bytes_are m (buf + 82) ''FAT3'' then '' [FAT32]''
      else if bytes_are m (buf + 3) ''CFS'' then '' [CFS]'' else '' [RAW]'')"

definition mount_stop_port :: "'d hw \<Rightarrow> nat \<Rightarrow> ('d, 'z, bool) op" where
  "mount_stop_port hw regs = do {
     mmio_upd hw (regs + P_CMD) (\<lambda>v. v AND NOT 0x0001);
     poll_for (do { v \<leftarrow> mmio_read32 hw (regs + P_CMD); State_Monad.return (v AND 0x8000 = 0) }) 500000;
     mmio_upd hw (regs + P_CMD) (\<lambda>v. v AND NOT 0x0010);
     poll_for (do { v \<leftarrow> mmio_read32 hw (regs + P_CMD); State_Monad.return (v AND 0x4000 = 0) }) 500000;
     mmio_write32 hw (regs + P_SCTL) 1;
     mmio_write32 hw (regs + P_SCTL) 0;
     poll_for (do { v \<leftarrow> mmio_read32 hw (regs + P_SSTS); State_Monad.return (v AND 0x0F = 3) }) 1000000
   }"

definition mount_start_port :: "'d hw \<Rightarrow> nat \<Rightarrow> nat \<Rightarrow> ('d, 'z, u32) op" where
  "mount_start_port hw regs i = do {
     mmio_write32 hw (regs + P_SERR) 0xFFFFFFFF;
     mmio_write32 hw (regs + P_IS) 0xFFFFFFFF;
     mmio_write32 hw (regs + P_CLB) (word_of_nat (cmd_list_addr i));
     mmio_write32 hw (regs + P_CLBU) 0;
     mmio_write32 hw (regs + P_FB) (word_of_nat (fis_base_addr i));
     mmio_write32 hw (regs + P_FBU) 0;
     mmio_upd hw (regs + P_CMD) (\<lambda>v. v OR 0x0010);
     spin_while (mmio_test hw (regs + P_TFD) 0x88) 1000000;
     mmio_upd hw (regs + P_CMD) (\<lambda>v. v OR 0x0001);
     mmio_read32 hw (regs + P_SIG)
   }"

text \<open>Reading sector 0 of an ATA drive and labelling it, cosmos_ahci.cpp:685 to 712\<close>

definition mount_label :: "'d hw \<Rightarrow> nat \<Rightarrow> nat \<Rightarrow> u32 \<Rightarrow> string \<Rightarrow> ('d, 'z, string) op" where
  "mount_label hw regs i sig name =
     (if sig \<noteq> SATA_SIG_ATAPI then do {
        let buf = data_buffer_addr i;
        poke (zero_fill buf 2048);
        poke (ahci_table i [0x00258027, 0x40000000, 0, 1] (word_of_nat buf) (511 OR 0x80000000));
        ok \<leftarrow> ahci_fire hw regs;
        m \<leftarrow> peek id;
        State_Monad.return
          (if ok \<and> m (buf + 510) = 0x55 \<and> m (buf + 511) = 0xAA then name @ boot_label m buf else name)
      } else State_Monad.return (name @ '' [ISO9660]''))"

definition add_drive :: "drive \<Rightarrow> (('d, 'z) disks_scheme, nat) state" where
  "add_drive e = do {
     n \<leftarrow> gets drive_count;
     if n < 8 then do {
       modify (\<lambda>s. s\<lparr>drives := (drives s)[n := e], drive_count := n + 1\<rparr>);
       State_Monad.return 1
     } else State_Monad.return 0
   }"

text \<open>One port of \<open>ahci_mount_drive\<close>, cosmos_ahci.cpp:608 to 723: how many drives it added\<close>

definition mount_port :: "'d hw \<Rightarrow> nat \<Rightarrow> nat \<Rightarrow> (('d, 'z) disks_scheme, nat) state" where
  "mount_port hw abar i = do {
     let regs = port_regs_at abar i;
     link_up \<leftarrow> mount_stop_port hw regs;
     if \<not> link_up then State_Monad.return 0
     else do {
       sig \<leftarrow> mount_start_port hw regs i;
       let buf = data_buffer_addr i;
       poke (zero_fill buf 2048);
       let identify_cmd = (if sig = SATA_SIG_ATAPI then 0xA1 else 0xEC);
       poke (ahci_mailbox i (5 OR 0x10000 OR 0x400) [push_bit 16 identify_cmd OR 0x00008027]
               (word_of_nat buf) (511 OR 0x80000000));
       ok \<leftarrow> ahci_issue hw regs;
       if \<not> ok then State_Monad.return 0
       else do {
         m \<leftarrow> peek id;
         let mb = identify_mb m buf sig;
         name \<leftarrow> mount_label hw regs i sig (identify_model m buf);
         add_drive \<lparr>drv_type = 2, size_mb = mb, base_port = i, model = name\<rparr>
       }
     }
   }"

text \<open>\<open>ahci_mount_drive\<close>, cosmos_ahci.cpp:591\<close>

fun mount_ports :: "'d hw \<Rightarrow> nat \<Rightarrow> u32 \<Rightarrow> nat list \<Rightarrow> nat \<Rightarrow> (('d, 'z) disks_scheme, nat) state" where
  "mount_ports hw abar pi [] found = State_Monad.return found"
| "mount_ports hw abar pi (i # is) found =
     (if bit pi i then do { k \<leftarrow> mount_port hw abar i; mount_ports hw abar pi is (found + k) }
      else mount_ports hw abar pi is found)"

definition ahci_mount_drive :: "'d hw \<Rightarrow> (('d, 'z) disks_scheme, unit) state" where
  "ahci_mount_drive hw = do {
     modify (\<lambda>s. case retain_loop (drive_count s) (drives s) of (r, ds) \<Rightarrow> s\<lparr>drives := ds, drive_count := r\<rparr>);
     bar \<leftarrow> gets global_ahci_abar;
     if bar = 0 then skip
     else do {
       let abar = unat bar;
       mmio_upd hw (abar + 4) (\<lambda>v. v OR 0x80000000);
       mmio_upd hw (abar + 4) (\<lambda>v. v OR 2);
       pi \<leftarrow> mmio_read32 hw (abar + 12);
       found \<leftarrow> mount_ports hw abar pi [0..<32] 0;
       set_status (if 0 < found then ''AHCI: MULTI DRIVES + FS SCANNED!'' else ''AHCI: NO DRIVES FOUND'')
     }
   }"

subsection \<open>Boot-sector labels\<close>

text \<open>\<open>ahci_read_mbr\<close>, cosmos_ahci.cpp:730. The code polls registers 12 and 13.\<close>

fun mbr_wait :: "'d hw \<Rightarrow> nat \<Rightarrow> nat \<Rightarrow> ('d, 'z, nat) op" where
  "mbr_wait hw regs 0 = do { _ \<leftarrow> mmio_test hw (regs + 4 * 12) 1; State_Monad.return 0 }"
| "mbr_wait hw regs (Suc t) = do {
     b \<leftarrow> mmio_test hw (regs + 4 * 12) 1;
     if \<not> b then State_Monad.return (Suc t)
     else do {
       e \<leftarrow> mmio_test hw (regs + 4 * 13) 0x40000000;
       if e then State_Monad.return (Suc t) else mbr_wait hw regs t
     }
   }"

definition mbr_label :: "mem \<Rightarrow> nat \<Rightarrow> string" where
  "mbr_label m buf =
     (if bytes_are m (buf + 82) ''FAT32'' then ''[FAT32]''
      else if bytes_are m (buf + 3) ''EXFAT'' then ''[exFAT]''
      else if bytes_are m (buf + 3) ''NTFS'' then ''[NTFS]''
      else if bytes_are m (buf + 3) ''CFS'' then ''[CFS]''
      else
        let part_type = m (buf + 446 + 4) in
        if part_type = 0xEE then ''[GPT]''
        else if part_type = 0x07 then ''[NTFS]''
        else if part_type = 0x0B \<or> part_type = 0x0C then ''[FAT32]''
        else if part_type = 0x83 then ''[EXT]''
        else if part_type \<noteq> 0 then ''[MBR]''
        else ''[RAW]'')"

definition mbr_buffer_addr :: "nat \<Rightarrow> nat" where "mbr_buffer_addr port_no = 0x500000 + port_no * 512"

definition mbr_command :: "'d hw \<Rightarrow> nat \<Rightarrow> nat \<Rightarrow> ('d, 'z, unit) op" where
  "mbr_command hw regs port_no = do {
     let lst = 0x400000 + port_no * 1024;
     let fb = 0x408000 + port_no * 256;
     let tbl = 0x410000 + port_no * 8192;
     let buf = mbr_buffer_addr port_no;
     poke (zero_fill buf 512);
     mmio_write32 hw (regs + P_CLB) (word_of_nat lst);
     mmio_write32 hw (regs + P_CLBU) 0;
     mmio_write32 hw (regs + P_FB) (word_of_nat fb);
     mmio_write32 hw (regs + P_FBU) 0;
     poke (wr_words lst [5 OR 0x10000 OR 0x400, 0, word_of_nat tbl, 0]);
     poke (wr_words tbl [0x00258027, 0x40000000, 0, 1]);
     poke (wr_words (tbl + 128) [word_of_nat buf, 0, 0, 511]);
     spin_while (mmio_test hw (regs + P_TFD) 0x88) 1000000;
     mmio_write32 hw (regs + 4 * 12) 1
   }"

definition mbr_drive :: "'d hw \<Rightarrow> nat \<Rightarrow> nat \<Rightarrow> (('d, 'z) disks_scheme, unit) state" where
  "mbr_drive hw abar d = do {
     port_no \<leftarrow> gets (\<lambda>s. base_port (drives s ! d));
     let regs = port_regs_at abar port_no;
     mbr_command hw regs port_no;
     timeout \<leftarrow> mbr_wait hw regs 1000000;
     ok \<leftarrow> (if 0 < timeout then do { e \<leftarrow> mmio_test hw (regs + 4 * 13) 0x40000000; State_Monad.return (\<not> e) }
           else State_Monad.return False);
     m \<leftarrow> peek id;
     let buf = mbr_buffer_addr port_no;
     if ok \<and> m (buf + 510) = 0x55 \<and> m (buf + 511) = 0xAA then do {
       modify (\<lambda>s. s\<lparr>drives := (drives s)[d := (drives s ! d)\<lparr>model := take 30 (model (drives s ! d)) @ mbr_label m buf\<rparr>]\<rparr>);
       set_status ''FS SCANNED!''
     } else skip
   }"

definition ahci_read_mbr :: "'d hw \<Rightarrow> (('d, 'z) disks_scheme, unit) state" where
  "ahci_read_mbr hw = do {
     n \<leftarrow> gets drive_count;
     bar \<leftarrow> gets global_ahci_abar;
     if n = 0 then set_status ''ERROR: NO DRIVES MOUNTED''
     else if bar = 0 then set_status ''ERROR: ABAR IS NULL''
     else for_m [0..<n] (mbr_drive hw (unat bar))
   }"

subsection \<open>Properties\<close>

lemma retain_loop_take:
  assumes "n \<le> length ds" "retain_loop n ds = (r, ds')"
  shows "take r ds' = filter (\<lambda>e. drv_type e \<noteq> 2) (take n ds) \<and> r \<le> n \<and> length ds' = length ds
    \<and> (\<forall>j. n \<le> j \<longrightarrow> ds' ! j = ds ! j)"
  using assms
proof (induction n arbitrary: r ds')
  case 0
  then show ?case by (simp add: retain_loop_def)
next
  case (Suc n)
  obtain k es where k: "retain_loop n ds = (k, es)" by fastforce
  have IH: "take k es = filter (\<lambda>e. drv_type e \<noteq> 2) (take n ds)" "k \<le> n" "length es = length ds"
    "\<forall>j. n \<le> j \<longrightarrow> es ! j = ds ! j"
    using Suc.IH [OF _ k] Suc.prems(1) by auto
  have step: "(r, ds') = (if drv_type (es ! n) \<noteq> 2 then (k + 1, es[k := es ! n]) else (k, es))"
    using Suc.prems(2) k by (simp add: retain_loop_def split: prod.splits if_splits)
  have en: "es ! n = ds ! n" using IH(4) by simp
  have tk: "take (Suc n) ds = take n ds @ [ds ! n]" using Suc.prems(1) by (simp add: take_Suc_conv_app_nth)
  show ?case
  proof (cases "drv_type (ds ! n) \<noteq> 2")
    case True
    then have r: "r = Suc k" "ds' = es[k := ds ! n]" using step en by simp_all
    have "take r ds' = take k es @ [ds ! n]"
      using r IH(2,3) Suc.prems(1) by (simp add: take_Suc_conv_app_nth)
    then show ?thesis using r True tk IH by auto
  next
    case False
    then show ?thesis using step en tk IH by auto
  qed
qed

lemma add_drive_bound: "preserves (\<lambda>s. drive_count s \<le> 8 \<and> length (drives s) = 8) (add_drive e)"
  by (auto simp: preserves_def add_drive_def)

lemma touches_mount [hw_only]:
  "touches_hw (mount_stop_port hw regs)" "touches_hw (mount_start_port hw regs i)"
  "touches_hw (mount_label hw regs i sig name)"
  unfolding mount_stop_port_def mount_start_port_def mount_label_def by (intro hw_only)+

lemma mount_port_bound:
  "preserves (\<lambda>s. drive_count s \<le> 8 \<and> length (drives s) = 8) (mount_port hw abar i)"
  unfolding mount_port_def
  by (intro preserving add_drive_bound; (rule preserves_hw, intro hw_only)?; auto)

lemma mount_ports_bound:
  "preserves (\<lambda>s. drive_count s \<le> 8 \<and> length (drives s) = 8) (mount_ports hw abar pi is k)"
proof (induction "is" arbitrary: k)
  case (Cons i "is")
  then show ?case by (auto intro!: preserving mount_port_bound)
qed (simp add: preserving)

lemma mount_drive_bound:
  "preserves (\<lambda>s. drive_count s \<le> 8 \<and> length (drives s) = 8) (ahci_mount_drive hw)"
proof -
  have m: "preserves (\<lambda>s. drive_count s \<le> 8 \<and> length (drives s) = 8)
    (modify (\<lambda>s. case retain_loop (drive_count s) (drives s) of (r, ds) \<Rightarrow> s\<lparr>drives := ds, drive_count := r\<rparr>)
      :: (('a, 'b) disks_scheme, unit) state)"
    by (rule preserves_modify) (auto dest!: retain_loop_take [rotated] split: prod.splits)
  show ?thesis
    unfolding ahci_mount_drive_def set_status_def
    by (intro m preserves_bind mount_ports_bound; (intro preserving mount_ports_bound)?; (rule preserves_hw, intro hw_only)?; auto)
qed

text \<open>
  Mounting first drops exactly the SATA drives (type 2) of the table and keeps the
  others in their order, and for every drive it then finds the table never grows beyond its
  eight entries.
\<close>

theorem mount_drive_table:
  assumes "drive_count s \<le> 8" and "length (drives s) = 8"
  shows "take (fst (retain_loop (drive_count s) (drives s))) (snd (retain_loop (drive_count s) (drives s)))
      = filter (\<lambda>e. drv_type e \<noteq> 2) (take (drive_count s) (drives s))
    \<and> drive_count (snd (run_state (ahci_mount_drive hw) s)) \<le> 8
    \<and> length (drives (snd (run_state (ahci_mount_drive hw) s))) = 8"
proof -
  have "take (fst (retain_loop (drive_count s) (drives s))) (snd (retain_loop (drive_count s) (drives s)))
      = filter (\<lambda>e. drv_type e \<noteq> 2) (take (drive_count s) (drives s))"
    using retain_loop_take [OF _ prod.collapse [symmetric]] assms by simp
  then show ?thesis using preservesD [OF mount_drive_bound, of s hw] assms by simp
qed

theorem mount_drive_table_witness:
  "drive_count (snd (run_state (ahci_mount_drive null_hw) start_disks)) \<le> 8"
  using mount_drive_table [of start_disks null_hw] by (simp add: start_disks_def)

text \<open>
  \<open>quiet_ports\<close>: a controller that transfers data only when a command is written to a CI
  register; accesses to any other register leave RAM as it is.
\<close>

definition quiet_ports :: "'d hw \<Rightarrow> nat \<Rightarrow> bool" where
  "quiet_ports hw abar \<longleftrightarrow>
     (\<forall>a x. fst (snd (hw_read32 hw a x)) = fst x)
     \<and> (\<forall>a v x. (\<forall>i. a \<noteq> port_regs_at abar i + P_CI) \<longrightarrow> fst (hw_write32 hw a v x) = fst x)"

lemma mmio_write32_ram:
  "quiet_ports hw abar \<Longrightarrow> (\<forall>i. a \<noteq> port_regs_at abar i + P_CI) \<Longrightarrow>
   ram (snd (run_state (mmio_write32 hw a v) s)) = ram s"
  by (simp add: quiet_ports_def mmio_write32_def run_dev_write)

lemma mmio_read32_ram:
  "quiet_ports hw abar \<Longrightarrow> ram (snd (run_state (mmio_read32 hw a) s)) = ram s"
  by (simp add: quiet_ports_def mmio_read32_def run_dev_read)

lemma not_ci: "r < 128 \<Longrightarrow> r \<noteq> P_CI \<Longrightarrow> port_regs_at abar p + r \<noteq> port_regs_at abar i + P_CI"
proof
  assume r: "r < 128" "r \<noteq> P_CI" and eq: "port_regs_at abar p + r = port_regs_at abar i + P_CI"
  then have "128 * p + r = 128 * i + 56" by (simp add: port_regs_at_def P_CI_def)
  then have "(128 * p + r) mod 128 = (128 * i + 56) mod 128" by simp
  then show False using r by (simp add: P_CI_def)
qed

lemma preserves_ram_keep:
  assumes "quiet_ports hw abar" "\<And>s m d. P s \<Longrightarrow> m = ram s \<Longrightarrow> P (s\<lparr>ram := m, dev := d\<rparr>)"
  shows "preserves P (mmio_read32 hw a)"
    and "(\<forall>i. a \<noteq> port_regs_at abar i + P_CI) \<Longrightarrow> preserves P (mmio_write32 hw a v)"
  using assms by (auto simp: preserves_def quiet_ports_def mmio_write32_def mmio_read32_def run_dev_write run_dev_read)

lemma wr_words_other: "i < a \<or> a + 4 * length ws \<le> i \<Longrightarrow> wr_words a ws m i = m i"
proof (induction ws arbitrary: a m)
  case (Cons w ws)
  then have "wr_words (a + 4) ws (wr32 a w m) i = wr32 a w m i" by auto
  then show ?case using Cons.prems by (auto simp: wr32_other)
qed simp

lemma preserves_poke_at:
  assumes "\<And>m. f m x = m x"
  shows "preserves (\<lambda>s. ram s x = v \<and> drives s = D \<and> cmd_status s = C) (poke f)"
  using assms by (simp add: preserves_def)

lemma mbr_wait_ram:
  "quiet_ports hw abar \<Longrightarrow> preserves (\<lambda>s. ram s x = v \<and> drives s = D \<and> cmd_status s = C) (mbr_wait hw regs t)"
  by (induction t) (auto simp: mmio_test_def intro!: preserving preserves_ram_keep(1))

lemma mbr_command_ram:
  fixes s :: "('d, 'z) disks_scheme" and hw :: "'d hw"
  assumes q: "quiet_ports hw abar" and p: "p < 32"
  shows "let s' = snd (run_state (mbr_command hw (port_regs_at abar p) p) s) in
    ram s' (mbr_buffer_addr p + 510) = 0 \<and> drives s' = drives s \<and> cmd_status s' = cmd_status s"
proof -
  let ?x = "mbr_buffer_addr p + 510"
  let ?Q = "\<lambda>s'. ram s' ?x = 0 \<and> drives s' = drives s \<and> cmd_status s' = cmd_status s"
  note ram_keep = preserves_ram_keep [OF q, where P = ?Q]
  have regs: "\<forall>i. port_regs_at abar p + r \<noteq> port_regs_at abar i + P_CI" if "r < 128" "r \<noteq> P_CI" for r
    using not_ci that by blast
  define rest :: "(('d, 'z) disks_scheme, unit) state" where "rest = (do {
     mmio_write32 hw (port_regs_at abar p + P_CLB) (word_of_nat (0x400000 + p * 1024));
     mmio_write32 hw (port_regs_at abar p + P_CLBU) 0;
     mmio_write32 hw (port_regs_at abar p + P_FB) (word_of_nat (0x408000 + p * 256));
     mmio_write32 hw (port_regs_at abar p + P_FBU) 0;
     poke (wr_words (0x400000 + p * 1024) [5 OR 0x10000 OR 0x400, 0, word_of_nat (0x410000 + p * 8192), 0]);
     poke (wr_words (0x410000 + p * 8192) [0x00258027, 0x40000000, 0, 1]);
     poke (wr_words (0x410000 + p * 8192 + 128) [word_of_nat (mbr_buffer_addr p), 0, 0, 511]);
     spin_while (mmio_test hw (port_regs_at abar p + P_TFD) 0x88) 1000000;
     mmio_write32 hw (port_regs_at abar p + 4 * 12) 1 })"
  have "preserves ?Q rest"
    unfolding rest_def mmio_test_def
    by (intro preserving preserves_poke_at ram_keep regs)
      (use p in \<open>auto simp: port_regs mbr_buffer_addr_def simp del: wr_words.simps intro!: wr_words_other\<close>)
  moreover have "?Q (snd (run_state (poke (zero_fill (mbr_buffer_addr p) 512)) s))"
    by (simp add: zero_fill_def)
  moreover have "mbr_command hw (port_regs_at abar p) p = do { poke (zero_fill (mbr_buffer_addr p) 512); rest }"
    by (simp add: mbr_command_def rest_def Let_def)
  ultimately show ?thesis by (simp add: Let_def preserves_def)
qed

lemma mbr_drive_unchanged:
  fixes s :: "('d, 'z) disks_scheme" and hw :: "'d hw"
  assumes q: "quiet_ports hw abar" and p: "base_port (drives s ! d) < 32"
  shows "drives (snd (run_state (mbr_drive hw abar d) s)) = drives s
    \<and> cmd_status (snd (run_state (mbr_drive hw abar d) s)) = cmd_status s"
proof -
  let ?p = "base_port (drives s ! d)"
  let ?regs = "port_regs_at abar ?p" and ?x = "mbr_buffer_addr ?p + 510"
  let ?Q = "\<lambda>s'. ram s' ?x = 0 \<and> drives s' = drives s \<and> cmd_status s' = cmd_status s"
  define rest :: "(('d, 'z) disks_scheme, unit) state" where "rest = (do {
     timeout \<leftarrow> mbr_wait hw ?regs 1000000;
     ok \<leftarrow> (if 0 < timeout then do { e \<leftarrow> mmio_test hw (?regs + 4 * 13) 0x40000000; State_Monad.return (\<not> e) }
           else State_Monad.return False);
     m \<leftarrow> peek id;
     if ok \<and> m ?x = 0x55 \<and> m (mbr_buffer_addr ?p + 511) = 0xAA then do {
       modify (\<lambda>s. s\<lparr>drives := (drives s)[d := (drives s ! d)\<lparr>model := take 30 (model (drives s ! d)) @ mbr_label m (mbr_buffer_addr ?p)\<rparr>]\<rparr>);
       set_status ''FS SCANNED!''
     } else skip })"
  have last: "preserves ?Q (do { m \<leftarrow> peek id; if ok \<and> m ?x = 0x55 \<and> B m then F m else skip })" for ok B F
    by (auto simp: preserves_def)
  have "preserves ?Q rest"
    unfolding rest_def
    by (intro preserves_bind last mbr_wait_ram [OF q])
      (auto simp: mmio_test_def intro!: preserving preserves_ram_keep(1) [OF q])
  moreover have "?Q (snd (run_state (mbr_command hw ?regs ?p) s))"
    using mbr_command_ram [OF q p] by (simp add: Let_def)
  moreover have "run_state (mbr_drive hw abar d) s = run_state (do { mbr_command hw ?regs ?p; rest }) s"
    by (simp add: mbr_drive_def rest_def Let_def split: prod.splits)
  ultimately show ?thesis by (simp add: preserves_def split: prod.splits)
qed

text \<open>
  \<open>ahci_read_mbr\<close> never issues its command: it writes and polls SERR (register 12)
  where the driver elsewhere uses CI (register 14), so on a controller that moves data only for
  commands written to CI no drive ever gets a file-system label and the status line stays.
\<close>

theorem read_mbr_labels_nothing:
  fixes s :: "('d, 'z) disks_scheme" and hw :: "'d hw"
  assumes "quiet_ports hw (unat (global_ahci_abar s))" and "global_ahci_abar s \<noteq> 0"
    and "0 < drive_count s" and "\<forall>d < drive_count s. base_port (drives s ! d) < 32"
  shows "drives (snd (run_state (ahci_read_mbr hw) s)) = drives s
    \<and> cmd_status (snd (run_state (ahci_read_mbr hw) s)) = cmd_status s"
proof -
  let ?Q = "\<lambda>s'. drives s' = drives s \<and> cmd_status s' = cmd_status s"
  have "preserves ?Q (for_m [0..<drive_count s] (mbr_drive hw (unat (global_ahci_abar s))) :: (('d, 'z) disks_scheme, unit) state)"
  proof (rule preserves_for)
    fix d
    assume "d \<in> set [0..<drive_count s]"
    then have "base_port (drives s ! d) < 32" using assms(4) by simp
    then show "preserves ?Q (mbr_drive hw (unat (global_ahci_abar s)) d)"
      by (auto simp: preserves_def dest: mbr_drive_unchanged [OF assms(1)]) (metis mbr_drive_unchanged [OF assms(1)])+
  qed
  then show ?thesis using assms(2,3) by (simp add: ahci_read_mbr_def preserves_def)
qed

theorem read_mbr_labels_nothing_witness:
  "drives (snd (run_state (ahci_read_mbr null_hw) (start_disks\<lparr>drive_count := 1\<rparr>))) = drives start_disks"
proof -
  have "quiet_ports (null_hw :: unit hw) a" for a by (simp add: quiet_ports_def null_hw_def)
  then show ?thesis
    using read_mbr_labels_nothing [of null_hw "start_disks\<lparr>drive_count := 1\<rparr>"] by (simp add: start_disks_def)
qed

end
