(* ===== verification/Loaders.thy ===== *)
theory Loaders
  imports Volumes
begin

text \<open>
  The read-only file system code of \<open>cosmos_ahci.cpp\<close>: the ISO 9660 kernel loader and the
  FAT32 directory listing and file loader with long file names. \<open>int\<close> arithmetic on sector
  numbers is done on 32-bit words.
\<close>

definition bpb_buffer :: nat where "bpb_buffer = 0x600000"
definition dir_buffer :: nat where "dir_buffer = 0x601000"
definition fat_buffer :: nat where "fat_buffer = 0x602000"
definition file_load_addr :: u32 where "file_load_addr = 0x1000000"

subsection \<open>ISO 9660\<close>

text \<open>
  The directory search of \<open>iso9660_load_file\<close>, cosmos_ahci.cpp:278: a record whose length byte
  is 0 ends it; a record that is no directory matches when its name starts with the target.
\<close>

definition iso_match :: "mem \<Rightarrow> nat \<Rightarrow> string \<Rightarrow> bool" where
  "iso_match m e target \<longleftrightarrow> m (e + 25) AND 0x02 = 0 \<and> bytes_are m (e + 33) target"

function iso_search :: "mem \<Rightarrow> nat \<Rightarrow> string \<Rightarrow> nat \<Rightarrow> (u32 \<times> u32) option" where
  "iso_search m root_size target offset =
     (if root_size \<le> offset then None
      else let e = dir_buffer + offset in
        if m e = 0 then None
        else if iso_match m e target then Some (rd32 m (e + 2), rd32 m (e + 10))
        else iso_search m root_size target (offset + unat (m e)))"
  by pat_completeness auto
termination
  by (relation "measure (\<lambda>(m, root_size, target, offset). root_size - offset)")
    (auto simp: unat_gt_0 intro!: diff_less_mono2)

declare iso_search.simps [simp del]

definition iso_sectors :: "u32 \<Rightarrow> u32" where
  "iso_sectors bytes = (bytes + 2047) div 2048"

definition iso9660_load_file :: "'d hw \<Rightarrow> nat \<Rightarrow> string \<Rightarrow> (('d, 'z) disks_scheme, unit) state" where
  "iso9660_load_file hw port_no target = do {
     ok1 \<leftarrow> ahci_read_cdrom hw port_no 16 1 (word_of_nat bpb_buffer);
     m1 \<leftarrow> peek id;
     if \<not> ok1 then set_status ''ISO: PVD READ FAILED''
     else if \<not> bytes_are m1 (bpb_buffer + 1) ''CD001'' then set_status ''ISO: NOT ISO9660''
     else do {
       let root_lba = rd32 m1 (bpb_buffer + 156 + 2);
       let root_size = rd32 m1 (bpb_buffer + 156 + 10);
       ok2 \<leftarrow> ahci_read_cdrom hw port_no root_lba (iso_sectors root_size) (word_of_nat dir_buffer);
       m2 \<leftarrow> peek id;
       if \<not> ok2 then set_status ''ISO: DIR READ FAILED''
       else do {
         let (file_lba, file_size) = (case iso_search m2 (unat root_size) target 0 of None \<Rightarrow> (0, 0) | Some r \<Rightarrow> r);
         if file_lba = 0 then set_status ''ISO: KERNEL.BIN NOT FOUND''
         else do {
           ok3 \<leftarrow> ahci_read_cdrom hw port_no file_lba (iso_sectors file_size) file_load_addr;
           set_status (if \<not> ok3 then ''ISO: FILE READ FAILED'' else ''ISO: KERNEL LOADED TO 0x1000000!'')
         }
       }
     }
   }"

subsection \<open>FAT32: volume geometry\<close>

text \<open>Offsets into \<open>FAT32_BPB\<close>, cosmos_ahci.cpp:78; the sums of cosmos_ahci.cpp:387 and 494.\<close>

definition fat_start :: "mem \<Rightarrow> u32" where
  "fat_start m = rd32 m (bpb_buffer + 28) + ucast (rd16 m (bpb_buffer + 14))"

definition sectors_per_cluster :: "mem \<Rightarrow> u32" where
  "sectors_per_cluster m = ucast (m (bpb_buffer + 13))"

definition data_start :: "mem \<Rightarrow> u32" where
  "data_start m = fat_start m + ucast (m (bpb_buffer + 16)) * rd32 m (bpb_buffer + 36)"

definition cluster_lba :: "u32 \<Rightarrow> mem \<Rightarrow> u32 \<Rightarrow> u32" where
  "cluster_lba ds m c = ds + (c - 2) * sectors_per_cluster m"

definition root_lba :: "mem \<Rightarrow> u32" where
  "root_lba m = cluster_lba (data_start m) m (rd32 m (bpb_buffer + 44))"

subsection \<open>FAT32: long file names\<close>

text \<open>
  The 13 name bytes of a long-name entry (the low byte of each UTF-16 unit) and their place in
  the buffer \<open>current_lfn[256]\<close>. The buffer is seen as memory from its first byte on, so a
  write at 256 or above is a write behind it.
\<close>

definition lfn_offsets :: "nat list" where
  "lfn_offsets = [1, 3, 5, 7, 9, 14, 16, 18, 20, 22, 24, 28, 30]"

definition lfn_store :: "mem \<Rightarrow> nat \<Rightarrow> mem \<Rightarrow> mem" where
  "lfn_store m e lfn =
     (let seq = unat (m e AND 0x1F) in
      if seq = 0 \<or> 20 < seq then lfn
      else wr_bytes ((seq - 1) * 13) (map (\<lambda>k. m (e + k)) lfn_offsets) lfn)"

definition lfn_clear :: "mem \<Rightarrow> mem" where
  "lfn_clear lfn = zero_fill 0 256 lfn"

text \<open>
  The deleted-entry test \<open>name[0] == 0xE5\<close> (cosmos_ahci.cpp:405 and 511) compares a signed
  \<open>char\<close> with 229.
\<close>

definition is_deleted :: "u8 \<Rightarrow> bool" where
  "is_deleted b \<longleftrightarrow> sint b = 0xE5"

subsection \<open>FAT32: directory listing\<close>

text \<open>The name of a short entry, cosmos_ahci.cpp:453\<close>

definition short_name :: "mem \<Rightarrow> nat \<Rightarrow> string" where
  "short_name m e = concat (map (\<lambda>c.
     (if m (e + c) \<noteq> byte_of CHR '' '' then [chr_of (m (e + c))] else []) @
     (if c = 7 \<and> m (e + 8) \<noteq> byte_of CHR '' '' then ''.'' else [])) [0..<11])"

text \<open>The copy loop for a long name, cosmos_ahci.cpp:448; \<open>l\<close> is \<open>l_idx\<close>\<close>

function long_name :: "mem \<Rightarrow> nat \<Rightarrow> string \<Rightarrow> string" where
  "long_name lfn l found =
     (if lfn l \<noteq> 0 \<and> lfn l \<noteq> 0xFF \<and> l < 255 \<and> length found < 490
      then long_name lfn (l + 1) (found @ [chr_of (lfn l)]) else found)"
  by pat_completeness auto
termination
  by (relation "measure (\<lambda>(lfn, l, found). 255 - l)") auto

declare long_name.simps [simp del]

text \<open>The loop over the 16 entries of the sector, cosmos_ahci.cpp:403\<close>

fun dir_loop :: "mem \<Rightarrow> nat list \<Rightarrow> bool \<Rightarrow> mem \<Rightarrow> string \<Rightarrow> string" where
  "dir_loop m [] has_lfn lfn found = found"
| "dir_loop m (i # is) has_lfn lfn found =
     (let e = dir_buffer + 32 * i; attr = m (e + 11) in
      if m e = 0 then found
      else if is_deleted (m e) then dir_loop m is False lfn found
      else if attr = 0x0F then dir_loop m is True (lfn_store m e lfn) found
      else if attr AND 0x08 \<noteq> 0 then dir_loop m is False lfn found
      else
        let f1 = (if has_lfn then long_name lfn 0 found else found @ short_name m e);
            f2 = (if attr AND 0x10 \<noteq> 0 then f1 @ ''/'' else f1) @ '' ''
        in if 480 < length f2 then f2 else dir_loop m is False (lfn_clear lfn) f2)"

definition dir_listing :: "mem \<Rightarrow> mem \<Rightarrow> string" where
  "dir_listing m lfn = dir_loop m [0..<16] False (lfn_clear lfn) []"

text \<open>\<open>fat32_read_root_dir\<close>, cosmos_ahci.cpp:377; \<open>stack\<close> is what the name buffer held before\<close>

definition fat32_read_root_dir :: "'d hw \<Rightarrow> nat \<Rightarrow> mem \<Rightarrow> (('d, 'z) disks_scheme, unit) state" where
  "fat32_read_root_dir hw port_no stack = do {
     ok1 \<leftarrow> ahci_read_sectors hw port_no 0 1 (word_of_nat bpb_buffer);
     m1 \<leftarrow> peek id;
     if \<not> ok1 then set_status ''FAT32: BPB READ FAILED''
     else if rd16 m1 (bpb_buffer + 11) = 0 then set_status ''FAT32: INVALID BPB''
     else do {
       ok2 \<leftarrow> ahci_read_sectors hw port_no (root_lba m1) 1 (word_of_nat dir_buffer);
       m2 \<leftarrow> peek id;
       if \<not> ok2 then set_status ''FAT32: DIR READ FAILED''
       else do {
         let found = dir_listing m2 stack;
         set_status (if 0 < length found then c_str found else ''FAT32: DIR IS EMPTY'')
       }
     }
   }"

subsection \<open>FAT32: loading a file\<close>

text \<open>
  The name tests of cosmos_ahci.cpp:533. The target is the byte array of the caller, NUL
  included; the long-name loop stops at a common NUL or the first difference.
\<close>

fun lfn_match :: "nat \<Rightarrow> mem \<Rightarrow> mem \<Rightarrow> nat \<Rightarrow> bool" where
  "lfn_match 0 lfn target c = True"
| "lfn_match (Suc n) lfn target c =
     (if lfn c = 0 \<and> target c = 0 then True
      else if lfn c \<noteq> target c then False
      else lfn_match n lfn target (c + 1))"

definition short_match :: "mem \<Rightarrow> nat \<Rightarrow> mem \<Rightarrow> bool" where
  "short_match m e target \<longleftrightarrow> (\<forall>c \<in> set [0..<11]. m (e + c) = target c)"

fun load_search :: "mem \<Rightarrow> mem \<Rightarrow> nat list \<Rightarrow> bool \<Rightarrow> mem \<Rightarrow> u32 \<times> u32" where
  "load_search m target [] has_lfn lfn = (0, 0)"
| "load_search m target (i # is) has_lfn lfn =
     (let e = dir_buffer + 32 * i; attr = m (e + 11) in
      if m e = 0 then (0, 0)
      else if is_deleted (m e) then load_search m target is False lfn
      else if attr = 0x0F then load_search m target is True (lfn_store m e lfn)
      else if attr AND 0x08 \<noteq> 0 then load_search m target is False lfn
      else if (if has_lfn then lfn_match 255 lfn target 0 else short_match m e target) then
        (push_bit 16 (ucast (rd16 m (e + 20))) OR ucast (rd16 m (e + 26)), rd32 m (e + 28))
      else load_search m target is False (lfn_clear lfn))"

text \<open>
  Following the cluster chain, cosmos_ahci.cpp:567. The bound on \<open>clusters_read\<close> ends every
  chain, cyclic ones included; a call always has \<open>clusters_read \<le> 10000\<close>, so the third line is
  never taken.
\<close>

definition fat_entry_addr :: "u32 \<Rightarrow> nat" where
  "fat_entry_addr c = nat (int fat_buffer + 4 * (sgn (sint (c * 4)) * (\<bar>sint (c * 4)\<bar> mod 512 div 4)))"

definition fat_sector :: "u32 \<Rightarrow> u32 \<Rightarrow> u32" where
  "fat_sector fs c = fs + word_of_int (sgn (sint (c * 4)) * (\<bar>sint (c * 4)\<bar> div 512))"

function load_chain ::
  "'d hw \<Rightarrow> nat \<Rightarrow> u32 \<Rightarrow> u32 \<Rightarrow> u32 \<Rightarrow> u32 \<Rightarrow> nat \<Rightarrow> (('d, 'z) disks_scheme, unit) state" where
  "load_chain hw port_no fs ds cluster ptr clusters_read =
     (if \<not> sint cluster < 0x0FFFFFF8 then set_status ''FILE LOADED TO 0x1000000!''
      else if 10000 < clusters_read then skip
      else do {
        m \<leftarrow> peek id;
        ok1 \<leftarrow> ahci_read_sectors hw port_no (cluster_lba ds m cluster) (sectors_per_cluster m) ptr;
        if \<not> ok1 then set_status ''FAT32 LOAD: DATA READ FAILED''
        else do {
          m1 \<leftarrow> peek id;
          ok2 \<leftarrow> ahci_read_sectors hw port_no (fat_sector fs cluster) 1 (word_of_nat fat_buffer);
          if \<not> ok2 then set_status ''FAT32 LOAD: FAT READ FAILED''
          else do {
            next \<leftarrow> peek (\<lambda>m. rd32 m (fat_entry_addr cluster) AND 0x0FFFFFFF);
            if next = 0 \<or> 10000 < clusters_read + 1 then set_status ''FAT32 LOAD: FAT CHAIN BROKEN!''
            else load_chain hw port_no fs ds next (ptr + sectors_per_cluster m1 * 512) (clusters_read + 1)
          }
        }
      })"
  by pat_completeness auto
termination
  by (relation "measure (\<lambda>(hw, port_no, fs, ds, cluster, ptr, k). 10001 - k)") auto

declare load_chain.simps [simp del]

text \<open>\<open>fat32_load_file\<close>, cosmos_ahci.cpp:480\<close>

definition fat32_load_file :: "'d hw \<Rightarrow> nat \<Rightarrow> mem \<Rightarrow> mem \<Rightarrow> (('d, 'z) disks_scheme, unit) state" where
  "fat32_load_file hw port_no target stack = do {
     ok1 \<leftarrow> ahci_read_sectors hw port_no 0 1 (word_of_nat bpb_buffer);
     m1 \<leftarrow> peek id;
     if \<not> ok1 then set_status ''FAT32 LOAD: BPB READ FAILED''
     else if rd16 m1 (bpb_buffer + 11) = 0 then set_status ''FAT32 LOAD: INVALID BPB''
     else do {
       ok2 \<leftarrow> ahci_read_sectors hw port_no (root_lba m1) 1 (word_of_nat dir_buffer);
       m2 \<leftarrow> peek id;
       if \<not> ok2 then set_status ''FAT32 LOAD: DIR READ FAILED''
       else do {
         let (target_cluster, file_size) = load_search m2 target [0..<16] False (lfn_clear stack);
         if target_cluster = 0 then set_status ''FAT32 LOAD: FILE NOT FOUND''
         else load_chain hw port_no (fat_start m1) (data_start m1) target_cluster file_load_addr 0
       }
     }
   }"

subsection \<open>Properties\<close>

lemma length_lfn_offsets [simp]: "length lfn_offsets = 13"
  by (simp add: lfn_offsets_def)

text \<open>
  Storing a piece of a long file name stays inside \<open>current_lfn[256]\<close> for the
  sequence numbers up to 19; the check lets 20 through as well, and then four bytes chosen by
  the directory entry are written behind the buffer.
\<close>

theorem lfn_store_bounds:
  "(m e AND 0x1F \<noteq> 20 \<longrightarrow> (\<forall>i \<ge> 256. lfn_store m e lfn i = lfn i))
   \<and> (m e AND 0x1F = 20 \<longrightarrow>
        map (lfn_store m e lfn) [256, 257, 258, 259] = map m [e + 22, e + 24, e + 28, e + 30])"
proof (intro conjI impI allI)
  fix i :: nat
  assume seq: "m e AND 0x1F \<noteq> 20" and i: "256 \<le> i"
  have "unat (m e AND 0x1F) \<noteq> 20"
  proof
    assume "unat (m e AND 0x1F) = 20"
    then have "word_of_nat (unat (m e AND 0x1F)) = (word_of_nat 20 :: u8)" by (rule arg_cong)
    then show False using seq by simp
  qed
  then show "lfn_store m e lfn i = lfn i"
    using i by (auto simp: lfn_store_def Let_def wr_bytes_def)
next
  assume "m e AND 0x1F = 20"
  then show "map (lfn_store m e lfn) [256, 257, 258, 259] = map m [e + 22, e + 24, e + 28, e + 30]"
    by (simp add: lfn_store_def wr_bytes_def lfn_offsets_def)
qed

theorem lfn_store_bounds_witness:
  "lfn_store ((\<lambda>_. 7)(0 := 20)) 0 (\<lambda>_. 0) 259 = 7"
  using lfn_store_bounds [of "(\<lambda>_. 7)(0 := 20)" 0 "\<lambda>_. 0"] by simp

text \<open>
  The test for deleted directory entries never succeeds: \<open>char\<close> is signed, so no
  byte equals 0xE5, and deleted files stay visible to the listing and to the loader.
\<close>

theorem deleted_never_detected: "\<not> is_deleted b"
proof -
  have "sint b < 2 ^ (LENGTH(8) - 1)" by (rule sint_lt)
  then show ?thesis by (simp add: is_deleted_def)
qed

lemma long_name_length: "length found \<le> 490 \<Longrightarrow> length (long_name lfn l found) \<le> 490"
proof (induction lfn l found rule: long_name.induct)
  case (1 lfn l found)
  then show ?case by (subst long_name.simps) auto
qed

lemma short_name_length: "length (short_name m e) \<le> 12"
proof -
  have "length (short_name m e) = sum_list (map (\<lambda>c. (if m (e + c) \<noteq> byte_of CHR '' '' then 1 else 0) +
     (if c = 7 \<and> m (e + 8) \<noteq> byte_of CHR '' '' then 1 else 0)) [0..<11])"
    by (auto simp: short_name_def length_concat comp_def intro!: arg_cong [where f = sum_list])
  also have "\<dots> \<le> sum_list (map (\<lambda>c. 1 + (if c = 7 then 1 else 0)) [0..<11 :: nat])"
    by (rule sum_list_mono) auto
  also have "\<dots> = 12" by (simp add: upt_rec)
  finally show ?thesis .
qed

lemma dir_loop_length: "length found \<le> 480 \<Longrightarrow> length (dir_loop m is h lfn found) \<le> 494"
proof (induction "is" arbitrary: h lfn found)
  case (Cons i "is")
  let ?e = "dir_buffer + 32 * i"
  let ?f = "if h then long_name lfn 0 found else found @ short_name m ?e"
  have "length ?f \<le> 492"
    using long_name_length [of found lfn 0] short_name_length [of m ?e] Cons.prems by auto
  then show ?case using Cons by (auto simp: Let_def)
qed simp

text \<open>
  Whatever a FAT32 directory sector contains, the listing stays within its 500-byte
  buffer; it can still be far longer than the status lines it is copied to (32 and 256 bytes).
\<close>

theorem dir_listing_bounded: "length (dir_listing m stack) + 1 \<le> 500"
  using dir_loop_length [of "[]" m "[0..<16]" False "lfn_clear stack"] by (simp add: dir_listing_def)

definition load_verdicts :: "string set" where
  "load_verdicts = {''FAT32 LOAD: BPB READ FAILED'', ''FAT32 LOAD: INVALID BPB'',
     ''FAT32 LOAD: DIR READ FAILED'', ''FAT32 LOAD: FILE NOT FOUND'', ''FAT32 LOAD: DATA READ FAILED'',
     ''FAT32 LOAD: FAT READ FAILED'', ''FAT32 LOAD: FAT CHAIN BROKEN!'', ''FILE LOADED TO 0x1000000!''}"

definition verdict :: "(('d, 'z) disks_scheme, 'a) state \<Rightarrow> bool" where
  "verdict c \<longleftrightarrow> (\<forall>s. cmd_status (snd (run_state c s)) \<in> load_verdicts)"

lemma verdict_bind: "(\<And>x. verdict (f x)) \<Longrightarrow> verdict (do { x \<leftarrow> c; f x })"
  by (simp add: verdict_def split: prod.splits)

lemma verdict_if: "(b \<Longrightarrow> verdict c) \<Longrightarrow> (\<not> b \<Longrightarrow> verdict d) \<Longrightarrow> verdict (if b then c else d)"
  by simp

lemma verdict_set: "t \<in> load_verdicts \<Longrightarrow> verdict (set_status t)"
  by (simp add: verdict_def)

lemma load_chain_verdict: "k \<le> 10000 \<Longrightarrow> verdict (load_chain hw p fs ds c ptr k)"
proof (induction hw p fs ds c ptr k rule: load_chain.induct)
  case (1 hw p fs ds c ptr k)
  show ?case
    by (subst load_chain.simps)
      (use 1 in \<open>auto simp: load_verdicts_def Let_def intro!: verdict_bind verdict_set\<close>)
qed

text \<open>
  Property C36. \<open>fat32_load_file\<close> always comes back with a verdict, on every medium and every
  controller, cyclic cluster chains included: the status line ends as one of eight messages, each of which
  fits the 32-byte buffer.
\<close>

theorem fat32_load_verdict:
  fixes s :: "('d, 'z) disks_scheme" and hw :: "'d hw"
  shows "cmd_status (snd (run_state (fat32_load_file hw p target stack) s)) \<in> load_verdicts
   \<and> (\<forall>t \<in> load_verdicts. fits os1_status_size t)"
proof -
  have "verdict (fat32_load_file hw p target stack :: (('d, 'z) disks_scheme, unit) state)"
    unfolding fat32_load_file_def
    by (auto simp: load_verdicts_def Let_def
        intro!: verdict_bind verdict_set load_chain_verdict split: prod.splits)
  moreover have "\<forall>t \<in> load_verdicts. fits os1_status_size t"
    by (simp add: load_verdicts_def fits_def os1_status_size_def)
  ultimately show ?thesis by (simp add: verdict_def)
qed

theorem fat32_load_verdict_witness:
  "fits os1_status_size (cmd_status (snd (run_state (fat32_load_file null_hw 0 (\<lambda>_. 0) (\<lambda>_. 0)) start_disks)))"
  using fat32_load_verdict [of null_hw 0 "\<lambda>_. 0" "\<lambda>_. 0" start_disks] by blast

end
