(* ===== verification/Cfs.thy ===== *)
theory Cfs
  imports Sata CStrings
begin

text \<open>
  \<open>cosmos_cfs.cpp\<close> and \<open>ahci_save_file_complete\<close> (kernel.cpp): the root directory of the
  CosmOS file system, one sector of eight 64-byte entries, with the operations that add a file
  to it, load a file and format a drive. All of them work through \<open>ahci_read\<close> and
  \<open>ahci_write\<close>; their theorems rest on the sector store.
\<close>

subsection \<open>Layout\<close>

text \<open>\<open>CFS_DIR_ENTRY\<close>, cosmos_cfs.h:25: type, flags, 46 name bytes, start LBA, size\<close>

definition CFS_ROOT_LBA :: u32 where "CFS_ROOT_LBA = 1002"
definition cfs_dir_buf :: nat where "cfs_dir_buf = 0x805000"

definition cfs_entry :: "nat \<Rightarrow> nat \<Rightarrow> nat" where
  "cfs_entry dir i = dir + 64 * i"

definition cfs_put_entry :: "nat \<Rightarrow> u8 \<Rightarrow> string \<Rightarrow> u64 \<Rightarrow> u64 \<Rightarrow> mem \<Rightarrow> mem" where
  "cfs_put_entry e flags name start_lba file_size m =
     wr64 (e + 56) file_size (wr64 (e + 48) start_lba
       (str_put (e + 2) name (m(e := 1, e + 1 := flags))))"

subsection \<open>Operations\<close>

text \<open>\<open>cfs_finalize_file\<close>, cosmos_cfs.cpp:10\<close>

definition cfs_finalize_file :: "'d hw \<Rightarrow> nat \<Rightarrow> string \<Rightarrow> u32 \<Rightarrow> u32 \<Rightarrow> ('d, 'z, unit) op" where
  "cfs_finalize_file hw port filename start_lba total_bytes = do {
     ok \<leftarrow> ahci_read hw port CFS_ROOT_LBA (word_of_nat cfs_dir_buf);
     if \<not> ok then skip
     else do {
       m \<leftarrow> peek id;
       case first_slot (\<lambda>i. m (cfs_entry cfs_dir_buf i) = 0) [0..<8] of
         None \<Rightarrow> skip
       | Some i \<Rightarrow> do {
           poke (cfs_put_entry (cfs_entry cfs_dir_buf i) 0 filename (ucast start_lba) (ucast total_bytes));
           ahci_write hw port CFS_ROOT_LBA (word_of_nat cfs_dir_buf);
           skip
         }
     }
   }"

text \<open>\<open>cfs_read_file\<close>, cosmos_cfs.cpp:34: the file size, 0 when there is no such file\<close>

definition cfs_find :: "mem \<Rightarrow> string \<Rightarrow> nat option" where
  "cfs_find m target = first_slot (\<lambda>i. m (cfs_entry cfs_dir_buf i) = 1
     \<and> str_eq_at m (cfs_entry cfs_dir_buf i + 2) target) [0..<8]"

definition cfs_read_file :: "'d hw \<Rightarrow> nat \<Rightarrow> string \<Rightarrow> nat \<Rightarrow> ('d, 'z, u32) op" where
  "cfs_read_file hw port target ram_destination = do {
     ok \<leftarrow> ahci_read hw port CFS_ROOT_LBA (word_of_nat cfs_dir_buf);
     if \<not> ok then State_Monad.return 0
     else do {
       m \<leftarrow> peek id;
       case cfs_find m target of
         None \<Rightarrow> State_Monad.return 0
       | Some i \<Rightarrow> do {
           let target_lba = (ucast (rd64 m (cfs_entry cfs_dir_buf i + 48)) :: u32);
           let file_size = (ucast (rd64 m (cfs_entry cfs_dir_buf i + 56)) :: u32);
           for_m [0..<unat ((file_size + 511) div 512)] (\<lambda>k. do {
             ahci_read hw port (target_lba + word_of_nat k) (word_of_nat (ram_destination + 512 * k));
             skip });
           State_Monad.return file_size
         }
     }
   }"

text \<open>\<open>CFS_SUPERBLOCK\<close> (cosmos_cfs.h:10) and \<open>cfs_format_drive\<close>, cosmos_cfs.cpp:71\<close>

definition cfs_format_buf :: nat where "cfs_format_buf = 0x800000"

definition cfs_superblock :: "u64 \<Rightarrow> nat \<Rightarrow> mem \<Rightarrow> mem" where
  "cfs_superblock total_sectors sb m =
     str_put (sb + 48) ''COSMOS_SYS''
       (wr64 (sb + 40) 2000 (wr64 (sb + 32) 1002 (wr64 (sb + 24) 1 (wr64 (sb + 16) total_sectors
         (wr32 (sb + 12) 8 (wr32 (sb + 8) 512 (wr32 (sb + 4) 1 (wr32 sb 0x4D534F43
           (zero_fill sb 512 m)))))))))"

definition cfs_format_drive :: "'d hw \<Rightarrow> nat \<Rightarrow> u64 \<Rightarrow> (('d, 'z) console_scheme, unit) state" where
  "cfs_format_drive hw port total_sectors =
     (if port = 0 then set_status ''CFS ERR: PORT IS NULL''
      else do {
        poke (cfs_superblock total_sectors cfs_format_buf);
        ok1 \<leftarrow> ahci_write hw port 0 (word_of_nat cfs_format_buf);
        if \<not> ok1 then set_status ''CFS ERR: WRITE MBR FAILED''
        else do {
          poke (zero_fill cfs_format_buf 512);
          root_dir_lba \<leftarrow> peek (\<lambda>m. ucast (rd64 m (cfs_format_buf + 32)));
          ok2 \<leftarrow> ahci_write hw port root_dir_lba (word_of_nat cfs_format_buf);
          set_status (if \<not> ok2 then ''CFS ERR: WRITE ROOT FAILED'' else ''CFS: DRIVE FORMATTED!'')
        }
      })"

text \<open>
  \<open>ahci_save_file_complete\<close>, kernel.cpp:243: searches 28 entries, of which only the first eight
  are in the sector it reads; the name test looks at twelve characters.
\<close>

definition save_dir_buf :: nat where "save_dir_buf = 0x802000"

definition save_match :: "mem \<Rightarrow> nat \<Rightarrow> mem \<Rightarrow> nat \<Rightarrow> bool" where
  "save_match m e fm filename \<longleftrightarrow>
     list_all (\<lambda>c. m (e + 2 + c) = fm (filename + c) \<or> fm (filename + c) = 0) [0..<12]"

definition save_slot :: "mem \<Rightarrow> nat \<Rightarrow> nat option" where
  "save_slot m filename =
     (case first_slot (\<lambda>i. m (cfs_entry save_dir_buf i) = 1
              \<and> save_match m (cfs_entry save_dir_buf i) m filename) [0..<28] of
        Some i \<Rightarrow> Some i
      | None \<Rightarrow> first_slot (\<lambda>i. m (cfs_entry save_dir_buf i) = 0) [0..<28])"

definition ahci_save_file_complete :: "'d hw \<Rightarrow> nat \<Rightarrow> nat \<Rightarrow> string \<Rightarrow> nat \<Rightarrow> ('d, 'z, unit) op" where
  "ahci_save_file_complete hw hdd filename name data_buf = do {
     ahci_read hw hdd CFS_ROOT_LBA (word_of_nat save_dir_buf);
     m \<leftarrow> peek id;
     case save_slot m filename of
       None \<Rightarrow> skip
     | Some slot \<Rightarrow> do {
         let target_sec = 4000 + word_of_nat slot;
         ahci_write hw hdd target_sec (word_of_nat data_buf);
         poke (\<lambda>m. m(cfs_entry save_dir_buf slot := 1));
         poke (str_put (cfs_entry save_dir_buf slot + 2) name);
         poke (wr64 (cfs_entry save_dir_buf slot + 56) 512);
         poke (wr64 (cfs_entry save_dir_buf slot + 48) (ucast target_sec));
         ahci_write hw hdd CFS_ROOT_LBA (word_of_nat save_dir_buf);
         skip
       }
   }"

subsection \<open>Properties\<close>

lemma cfs_superblock_other: "i < sb \<or> sb + 512 \<le> i \<Longrightarrow> cfs_superblock n sb m i = m i"
  by (auto simp: cfs_superblock_def wr64_other wr32_other str_put_other zero_fill_other)

text \<open>
  Formatting destroys its own superblock: the buffer is cleared before
  \<open>root_dir_lba\<close> is read back from it, so the second write goes to sector 0. On a working
  controller the drive ends with a zeroed sector 0, an untouched directory sector, and the
  message that it was formatted.
\<close>

theorem cfs_format_erases_superblock:
  assumes "sata_ready hw port V L hdr tbl s" and "port \<noteq> 0"
    and "clear_of (sata_priv hdr tbl) cfs_format_buf 512"
  shows "s_sect V (dev (snd (run_state (cfs_format_drive hw port n) s))) = (s_sect V (dev s))(0 := replicate 512 0)
    \<and> cmd_status (snd (run_state (cfs_format_drive hw port n) s)) = ''CFS: DRIVE FORMATTED!''"
proof -
  let ?B = "cfs_format_buf" and ?s1 = "s\<lparr>ram := cfs_superblock n cfs_format_buf (ram s)\<rparr>"
  have fit: "?B + 512 \<le> 2 ^ 32" by (simp add: cfs_format_buf_def)
  have "sata_ready hw port V L hdr tbl ?s1"
    by (rule sata_ready_ram [OF assms(1)]) (rule cfs_superblock_other, rule clear_ofD [OF assms(3)])
  from sata.wr_ok [OF this assms(3) fit, of 0] obtain m d where
    w1: "run_state (ahci_write hw port 0 (word_of_nat ?B)) ?s1 = (True, s\<lparr>ram := m, dev := d\<rparr>)"
    and r1: "sata_ready hw port V L hdr tbl (s\<lparr>ram := m, dev := d\<rparr>)"
    and d1: "s_sect V d = (s_sect V (dev s))(0 := rd_bytes (ram ?s1) ?B 512)" by auto
  let ?m = "zero_fill ?B 512 m"
  have "sata_ready hw port V L hdr tbl ((s\<lparr>ram := m, dev := d\<rparr>)\<lparr>ram := ?m\<rparr>)"
    by (rule sata_ready_ram [OF r1]) (use clear_ofD [OF assms(3)] in \<open>auto simp: zero_fill_other\<close>)
  then have r2: "sata_ready hw port V L hdr tbl (s\<lparr>ram := ?m, dev := d\<rparr>)" by simp
  from sata.wr_ok [OF r2 assms(3) fit, of 0] obtain m' d' where
    w2: "run_state (ahci_write hw port 0 (word_of_nat ?B)) (s\<lparr>ram := ?m, dev := d\<rparr>)
      = (True, s\<lparr>ram := m', dev := d'\<rparr>)"
    and d2: "s_sect V d' = (s_sect V d)(0 := rd_bytes ?m ?B 512)" by auto
  have z: "rd_bytes ?m ?B 512 = replicate 512 0"
    by (rule nth_equalityI) (simp_all add: rd_bytes_def zero_fill_def)
  have "rd64 ?m (?B + 32) = 0" by (rule rd64_zero) (simp add: zero_fill_def)
  then have "run_state (cfs_format_drive hw port n) s
      = ((), s\<lparr>ram := m', dev := d', cmd_status := ''CFS: DRIVE FORMATTED!''\<rparr>)"
    using assms(2) w1 w2 by (simp add: cfs_format_drive_def ram_dev_swap)
  then show ?thesis using d1 d2 z by simp
qed

definition ref_console :: "(u32 \<Rightarrow> u8 list) \<Rightarrow> mem \<Rightarrow> ref_disk console" where
  "ref_console f m = \<lparr>ram = wr32 0x808008 0x808800 m,
     dev = \<lparr>rc_clb = 0x808000, rc_sect = f, rc_busy = 0, rc_slot = 0\<rparr>,
     cmd_status = [], hw_usb = [], hw_disk = []\<rparr>"

lemma ref_console_ready:
  "sata_ready (ref_hw p) p ref_view 3 0x808000 0x808800 (ref_console f m)"
  using ref_spec by (simp add: sata_ready_def ref_console_def ref_view_def)

theorem cfs_format_erases_superblock_witness:
  "ref_sect (dev (snd (run_state (cfs_format_drive (ref_hw 256) 256 2048) (ref_console (\<lambda>_. []) (\<lambda>_. 0))))) 0
    = replicate 512 0"
proof -
  have "clear_of (sata_priv 0x808000 0x808800) cfs_format_buf 512"
    by (auto simp: clear_of_def sata_priv_def cfs_format_buf_def)
  from cfs_format_erases_superblock [OF ref_console_ready [where p = 256 and f = "\<lambda>_. []" and m = "\<lambda>_. 0"] _ this, of 2048]
  show ?thesis by (simp add: ref_view_def ref_console_def ref_sect_def)
qed

text \<open>
  The directory as it is on the disk: byte \<open>k\<close> of entry \<open>i\<close> of a 512-byte sector.
\<close>

definition dir_byte :: "u8 list \<Rightarrow> nat \<Rightarrow> nat \<Rightarrow> u8" where
  "dir_byte D i k = D ! (64 * i + k)"

definition dir_named :: "u8 list \<Rightarrow> nat \<Rightarrow> string \<Rightarrow> bool" where
  "dir_named D i t \<longleftrightarrow> dir_byte D i 0 = 1 \<and> str_eq_at ((!) D) (64 * i + 2) t"

lemma first_slot_upt:
  "first_slot P [0..<n] = Some i \<longleftrightarrow> i < n \<and> P i \<and> (\<forall>j < i. \<not> P j)"
proof
  assume "first_slot P [0..<n] = Some i"
  from first_slot_Some [OF this] show "i < n \<and> P i \<and> (\<forall>j < i. \<not> P j)" by auto
next
  assume "i < n \<and> P i \<and> (\<forall>j < i. \<not> P j)"
  then show "first_slot P [0..<n] = Some i" by (intro first_slot_eqI) auto
qed

lemma sector_in_ram: "rd_bytes m a 512 = D \<Longrightarrow> k < 512 \<Longrightarrow> m (a + k) = D ! k"
  by (auto simp: rd_bytes_def)

lemma put_entry_other: "length name \<le> 45 \<Longrightarrow> i < e \<or> e + 64 \<le> i \<Longrightarrow> cfs_put_entry e f name l n m i = m i"
  by (auto simp: cfs_put_entry_def wr64_other str_put_other)

lemma put_entry_fields:
  assumes "length name \<le> 45"
  shows "cfs_put_entry e f name l n m e = 1" "str_eq_at (cfs_put_entry e f name l n m) (e + 2) name"
    "rd64 (cfs_put_entry e f name l n m) (e + 48) = l" "rd64 (cfs_put_entry e f name l n m) (e + 56) = n"
proof -
  let ?p = "str_put (e + 2) name (m(e := 1, e + 1 := f))"
  show "cfs_put_entry e f name l n m e = 1"
    by (simp add: cfs_put_entry_def wr64_other str_put_other)
  have "str_eq_at (cfs_put_entry e f name l n m) (e + 2) name = str_eq_at ?p (e + 2) name"
    using assms by (intro str_eq_at_cong) (simp add: cfs_put_entry_def wr64_other)
  then show "str_eq_at (cfs_put_entry e f name l n m) (e + 2) name" by (simp add: str_eq_at_put)
  have "rd64 (cfs_put_entry e f name l n m) (e + 48) = rd64 (wr64 (e + 48) l ?p) (e + 48)"
    by (rule rd64_cong) (simp add: cfs_put_entry_def wr64_other)
  then show "rd64 (cfs_put_entry e f name l n m) (e + 48) = l" by simp
  show "rd64 (cfs_put_entry e f name l n m) (e + 56) = n" by (simp add: cfs_put_entry_def)
qed

lemma cfs_find_new:
  assumes D: "rd_bytes m cfs_dir_buf 512 = D" and i: "i < 8" and len: "length name \<le> 45"
    and no: "\<forall>j < i. \<not> dir_named D j name"
  shows "cfs_find (cfs_put_entry (cfs_entry cfs_dir_buf i) f name l n m) name = Some i"
proof -
  let ?m = "cfs_put_entry (cfs_entry cfs_dir_buf i) f name l n m"
  have "\<not> (?m (cfs_entry cfs_dir_buf j) = 1 \<and> str_eq_at ?m (cfs_entry cfs_dir_buf j + 2) name)" if j: "j < i" for j
  proof -
    have same: "?m (cfs_dir_buf + 64 * j + k) = D ! (64 * j + k)" if k: "k < 64" for k
    proof -
      have "64 * j + k < 64 * i" using j k by linarith
      then have "?m (cfs_dir_buf + 64 * j + k) = m (cfs_dir_buf + (64 * j + k))"
        by (subst put_entry_other [OF len]) (simp_all add: cfs_entry_def add.assoc)
      also have "\<dots> = D ! (64 * j + k)" by (rule sector_in_ram [OF D]) (use i j k in linarith)
      finally show ?thesis .
    qed
    have "?m (cfs_entry cfs_dir_buf j) = dir_byte D j 0"
      using same [of 0] by (simp add: cfs_entry_def dir_byte_def)
    moreover have "str_eq_at ?m (cfs_entry cfs_dir_buf j + 2) name = str_eq_at ((!) D) (64 * j + 2) name"
    proof (rule str_eq_at_cong)
      fix k
      assume "k \<le> length name"
      then show "?m (cfs_entry cfs_dir_buf j + 2 + k) = D ! (64 * j + 2 + k)"
        using same [of "2 + k"] len by (simp add: cfs_entry_def add.assoc)
    qed
    ultimately show ?thesis using no j by (simp add: dir_named_def)
  qed
  then show ?thesis
    using i put_entry_fields [OF len] unfolding cfs_find_def first_slot_upt by blast
qed

text \<open>Adding a file: the new directory sector holds the entry in the first free slot.\<close>

lemma cfs_buf_fits: "cfs_dir_buf + 512 \<le> 2 ^ 32"
  by (simp add: cfs_dir_buf_def)

lemma cfs_finalize_run:
  assumes rdy: "sata_ready hw port V L hdr tbl s"
    and buf: "clear_of (sata_priv hdr tbl) cfs_dir_buf 512" and len: "length name \<le> 45"
    and slot: "i < 8" "dir_byte (s_sect V (dev s) CFS_ROOT_LBA) i 0 = 0"
      "\<forall>j < i. dir_byte (s_sect V (dev s) CFS_ROOT_LBA) j 0 \<noteq> 0"
  shows "\<exists>m m' d. run_state (cfs_finalize_file hw port name l n) s = ((), s\<lparr>ram := m', dev := d\<rparr>)
    \<and> sata_ready hw port V L hdr tbl (s\<lparr>ram := m', dev := d\<rparr>)
    \<and> rd_bytes m cfs_dir_buf 512 = s_sect V (dev s) CFS_ROOT_LBA
    \<and> s_sect V d = (s_sect V (dev s))(CFS_ROOT_LBA :=
        rd_bytes (cfs_put_entry (cfs_entry cfs_dir_buf i) 0 name (ucast l) (ucast n) m) cfs_dir_buf 512)"
proof -
  let ?D = "s_sect V (dev s) CFS_ROOT_LBA"
  from sata.rd_ok [OF rdy buf cfs_buf_fits, of CFS_ROOT_LBA] obtain m d where
    one: "run_state (ahci_read hw port CFS_ROOT_LBA (word_of_nat cfs_dir_buf)) s = (True, s\<lparr>ram := m, dev := d\<rparr>)"
    and r1: "sata_ready hw port V L hdr tbl (s\<lparr>ram := m, dev := d\<rparr>)" and d: "s_sect V d = s_sect V (dev s)"
    and D: "rd_bytes m cfs_dir_buf 512 = ?D" by blast
  have ty: "m (cfs_entry cfs_dir_buf j) = dir_byte ?D j 0" if "j < 8" for j
    using sector_in_ram [OF D, of "64 * j"] that by (simp add: cfs_entry_def dir_byte_def)
  have fs: "first_slot (\<lambda>i. m (cfs_entry cfs_dir_buf i) = 0) [0..<8] = Some i"
    using slot ty by (simp add: first_slot_upt)
  let ?e = "cfs_put_entry (cfs_entry cfs_dir_buf i) 0 name (ucast l) (ucast n)"
  have "sata_ready hw port V L hdr tbl ((s\<lparr>ram := m, dev := d\<rparr>)\<lparr>ram := ?e m\<rparr>)"
  proof (rule sata_ready_ram [OF r1])
    fix k
    assume "k \<in> sata_priv hdr tbl"
    from clear_ofD [OF buf this] have "k < cfs_entry cfs_dir_buf i \<or> cfs_entry cfs_dir_buf i + 64 \<le> k"
      using slot(1) by (auto simp: cfs_entry_def)
    then show "?e m k = ram (s\<lparr>ram := m, dev := d\<rparr>) k" using put_entry_other [OF len] by simp
  qed
  then have r2: "sata_ready hw port V L hdr tbl (s\<lparr>ram := ?e m, dev := d\<rparr>)" by simp
  from sata.wr_ok [OF r2 buf cfs_buf_fits, of CFS_ROOT_LBA] obtain m' d' where
    two: "run_state (ahci_write hw port CFS_ROOT_LBA (word_of_nat cfs_dir_buf)) (s\<lparr>ram := ?e m, dev := d\<rparr>)
      = (True, s\<lparr>ram := m', dev := d'\<rparr>)"
    and r3: "sata_ready hw port V L hdr tbl (s\<lparr>ram := m', dev := d'\<rparr>)"
    and d': "s_sect V d' = (s_sect V d)(CFS_ROOT_LBA := rd_bytes (?e m) cfs_dir_buf 512)" by auto
  have "run_state (cfs_finalize_file hw port name l n) s = ((), s\<lparr>ram := m', dev := d'\<rparr>)"
    using one two fs by (simp add: cfs_finalize_file_def)
  then show ?thesis using r3 D d d' by metis
qed

text \<open>Loading a file whose directory entry is known.\<close>

lemma cfs_read_run:
  assumes rdy: "sata_ready hw port V L hdr tbl s"
    and buf: "clear_of (sata_priv hdr tbl) cfs_dir_buf 512"
    and dir: "s_sect V (dev s) CFS_ROOT_LBA = rd_bytes M cfs_dir_buf 512"
    and find: "cfs_find M name = Some i"
    and ent: "rd64 M (cfs_entry cfs_dir_buf i + 48) = ucast (l :: u32)"
      "rd64 M (cfs_entry cfs_dir_buf i + 56) = ucast (n :: u32)"
    and k: "k = unat ((n + 511) div 512)"
    and dst: "clear_of (sata_priv hdr tbl) dst (512 * k)" "dst + 512 * k \<le> 2 ^ 32"
    and len: "length name \<le> 45"
  shows "\<exists>m d. run_state (cfs_read_file hw port name dst) s = (n, s\<lparr>ram := m, dev := d\<rparr>)
    \<and> (\<forall>j < k. rd_bytes m (dst + 512 * j) 512 = s_sect V (dev s) (l + word_of_nat j))"
proof -
  from sata.rd_ok [OF rdy buf cfs_buf_fits, of CFS_ROOT_LBA] obtain m d where
    one: "run_state (ahci_read hw port CFS_ROOT_LBA (word_of_nat cfs_dir_buf)) s = (True, s\<lparr>ram := m, dev := d\<rparr>)"
    and r1: "sata_ready hw port V L hdr tbl (s\<lparr>ram := m, dev := d\<rparr>)" and d: "s_sect V d = s_sect V (dev s)"
    and D: "rd_bytes m cfs_dir_buf 512 = s_sect V (dev s) CFS_ROOT_LBA" by blast
  have same: "m (cfs_dir_buf + x) = M (cfs_dir_buf + x)" if "x < 512" for x
    using sector_in_ram [OF D that] sector_in_ram [OF dir [symmetric] that] by simp
  have i: "i < 8" using find by (simp add: cfs_find_def first_slot_upt)
  have same_e: "m (cfs_entry cfs_dir_buf j + x) = M (cfs_entry cfs_dir_buf j + x)" if "j < 8" "x < 64" for j x
  proof -
    have "64 * j + x < 512" using that by linarith
    from same [OF this] show ?thesis by (simp add: cfs_entry_def add.assoc)
  qed
  have "(m (cfs_entry cfs_dir_buf j) = 1 \<and> str_eq_at m (cfs_entry cfs_dir_buf j + 2) name)
      = (M (cfs_entry cfs_dir_buf j) = 1 \<and> str_eq_at M (cfs_entry cfs_dir_buf j + 2) name)" if "j < 8" for j
  proof -
    have "str_eq_at m (cfs_entry cfs_dir_buf j + 2) name = str_eq_at M (cfs_entry cfs_dir_buf j + 2) name"
      by (rule str_eq_at_cong) (use same_e [OF that, of "2 + _"] len in \<open>simp add: add.assoc\<close>)
    then show ?thesis using same_e [OF that, of 0] by simp
  qed
  then have f: "cfs_find m name = Some i"
    using find unfolding cfs_find_def first_slot_upt by (metis (no_types, lifting) order_less_trans)
  have e: "rd64 m (cfs_entry cfs_dir_buf i + 48) = ucast l" "rd64 m (cfs_entry cfs_dir_buf i + 56) = ucast n"
    unfolding ent [symmetric] by (rule rd64_cong; use same_e [OF i] in \<open>simp add: add.assoc\<close>)+
  have u: "ucast (ucast x :: u64) = x" for x :: u32
    by (rule bit_word_eqI) (auto simp: bit_simps)
  from sata.rd_run_ok [OF r1 dst, of l] obtain m' d' where
    run: "run_state (sata.rd_run hw port l dst k) (s\<lparr>ram := m, dev := d\<rparr>) = ((), s\<lparr>ram := m', dev := d'\<rparr>)"
    and data: "\<forall>j < k. rd_bytes m' (dst + 512 * j) 512 = s_sect V d (l + word_of_nat j)" by auto
  have loop: "run_state (for_m [0..<k] (\<lambda>j. do { ahci_read hw port (l + word_of_nat j) (word_of_nat (dst + 512 * j)); skip }))
      (s\<lparr>ram := m, dev := d\<rparr>) = ((), s\<lparr>ram := m', dev := d'\<rparr>)"
    by (simp only: sata.for_rd0 run)
  have "run_state (cfs_read_file hw port name dst) s = (n, s\<lparr>ram := m', dev := d'\<rparr>)"
    using one f run loop by (simp add: cfs_read_file_def e u k [symmetric] Let_def)
  then show ?thesis using data d by auto
qed

text \<open>
  Property C11. A file entered with \<open>cfs_finalize_file\<close> is found again by \<open>cfs_read_file\<close>: as long
  as the directory has a free slot and no earlier entry of that name, the loader returns the size
  that was entered and brings the file's consecutive sectors to the destination; no sector but
  the directory has changed.
\<close>

theorem cfs_finalize_then_read:
  assumes rdy: "sata_ready hw port V L hdr tbl s"
    and buf: "clear_of (sata_priv hdr tbl) cfs_dir_buf 512" and len: "length name \<le> 45"
    and slot: "i < 8" "dir_byte (s_sect V (dev s) CFS_ROOT_LBA) i 0 = 0"
      "\<forall>j < i. dir_byte (s_sect V (dev s) CFS_ROOT_LBA) j 0 \<noteq> 0
        \<and> \<not> dir_named (s_sect V (dev s) CFS_ROOT_LBA) j name"
    and k: "k = unat ((n + 511) div 512)"
    and dst: "clear_of (sata_priv hdr tbl) dst (512 * k)" "dst + 512 * k \<le> 2 ^ 32"
  shows "\<exists>s1 s2. run_state (cfs_finalize_file hw port name l n) s = ((), s1)
    \<and> run_state (cfs_read_file hw port name dst) s1 = (n, s2)
    \<and> (\<forall>j < k. rd_bytes (ram s2) (dst + 512 * j) 512 = s_sect V (dev s1) (l + word_of_nat j))
    \<and> (\<forall>x. x \<noteq> CFS_ROOT_LBA \<longrightarrow> s_sect V (dev s1) x = s_sect V (dev s) x)"
proof -
  obtain m m' d where
    fin: "run_state (cfs_finalize_file hw port name l n) s = ((), s\<lparr>ram := m', dev := d\<rparr>)"
    and r1: "sata_ready hw port V L hdr tbl (s\<lparr>ram := m', dev := d\<rparr>)"
    and D: "rd_bytes m cfs_dir_buf 512 = s_sect V (dev s) CFS_ROOT_LBA"
    and d: "s_sect V d = (s_sect V (dev s))(CFS_ROOT_LBA :=
        rd_bytes (cfs_put_entry (cfs_entry cfs_dir_buf i) 0 name (ucast l) (ucast n) m) cfs_dir_buf 512)"
    using cfs_finalize_run [OF rdy buf len slot(1,2), of l n] slot(3) by blast
  let ?M = "cfs_put_entry (cfs_entry cfs_dir_buf i) 0 name (ucast l) (ucast n) m"
  have find: "cfs_find ?M name = Some i" using cfs_find_new [OF D slot(1) len] slot(3) by blast
  have dir: "s_sect V (dev (s\<lparr>ram := m', dev := d\<rparr>)) CFS_ROOT_LBA = rd_bytes ?M cfs_dir_buf 512"
    using d by simp
  from cfs_read_run [OF r1 buf dir find put_entry_fields(3,4) [OF len] k dst len]
  obtain m2 d2 where "run_state (cfs_read_file hw port name dst) (s\<lparr>ram := m', dev := d\<rparr>)
      = (n, s\<lparr>ram := m', dev := d\<rparr>\<lparr>ram := m2, dev := d2\<rparr>)"
    "\<forall>j < k. rd_bytes m2 (dst + 512 * j) 512 = s_sect V d (l + word_of_nat j)" by auto
  with fin d show ?thesis
    by (intro exI [of _ "s\<lparr>ram := m', dev := d\<rparr>"] exI [of _ "s\<lparr>ram := m2, dev := d2\<rparr>"]) simp
qed

theorem cfs_finalize_then_read_witness:
  "\<exists>s1 s2. run_state (cfs_finalize_file (ref_hw 256) 256 ''A.TXT'' 2000 700) (ref_console (\<lambda>_. []) (\<lambda>_. 0)) = ((), s1)
    \<and> run_state (cfs_read_file (ref_hw 256) 256 ''A.TXT'' 0x900000) s1 = (700, s2)"
proof -
  have z: "s_sect ref_view (dev (ref_console (\<lambda>_. []) (\<lambda>_. 0))) CFS_ROOT_LBA = replicate 512 0"
    by (simp add: ref_view_def ref_console_def ref_sect_def)
  have "unat (((700 :: u32) + 511) div 512) = 2" by simp
  then show ?thesis
    using cfs_finalize_then_read [OF ref_console_ready [where p = 256 and f = "\<lambda>_. []" and m = "\<lambda>_. 0"],
        where name = "''A.TXT''" and i = 0 and k = 2 and n = 700 and dst = "0x900000" and l = 2000]
    by (auto simp: z dir_byte_def clear_of_def sata_priv_def cfs_dir_buf_def)
qed

text \<open>
  \<open>ahci_save_file_complete\<close> searches 28 directory entries although the directory
  sector holds eight: when the slot it picks is one of the others, the directory sector that it
  writes back is the one it read, and the file is not in the directory of the disk.
\<close>

theorem save_file_lost:
  assumes rdy: "sata_ready hw hdd V L hdr tbl s"
    and buf: "clear_of (sata_priv hdr tbl) save_dir_buf 1792" and len: "length name \<le> 45"
    and data: "clear_of (sata_priv hdr tbl) data_buf 512" "data_buf + 512 \<le> 2 ^ 32"
    and first: "run_state (ahci_read hw hdd CFS_ROOT_LBA (word_of_nat save_dir_buf)) s = (ok, s1)"
    and slot: "save_slot (ram s1) filename = Some i" "8 \<le> i"
  shows "s_sect V (dev (snd (run_state (ahci_save_file_complete hw hdd filename name data_buf) s))) CFS_ROOT_LBA
    = s_sect V (dev s) CFS_ROOT_LBA"
proof -
  have buf1: "clear_of (sata_priv hdr tbl) save_dir_buf 512" by (rule clear_of_sub [OF buf]) simp_all
  have fit: "save_dir_buf + 512 \<le> 2 ^ 32" by (simp add: save_dir_buf_def)
  have i28: "i < 28"
    using slot(1) by (auto simp: save_slot_def split: option.splits dest!: first_slot_Some)
  from sata.rd_ok [OF rdy buf1 fit, of CFS_ROOT_LBA] first obtain m d where
    s1: "ok = True" "s1 = s\<lparr>ram := m, dev := d\<rparr>" and r1: "sata_ready hw hdd V L hdr tbl s1"
    and d: "s_sect V d = s_sect V (dev s)" and D: "rd_bytes m save_dir_buf 512 = s_sect V (dev s) CFS_ROOT_LBA"
    by auto
  from sata.wr_ok [OF r1 data, of "4000 + word_of_nat i"] obtain m2 d2 where
    w1: "run_state (ahci_write hw hdd (4000 + word_of_nat i) (word_of_nat data_buf)) s1 = (True, s1\<lparr>ram := m2, dev := d2\<rparr>)"
    and r2: "sata_ready hw hdd V L hdr tbl (s1\<lparr>ram := m2, dev := d2\<rparr>)"
    and k2: "\<forall>x. x \<notin> sata_priv hdr tbl \<longrightarrow> m2 x = m x" using s1 by auto
  let ?e = "cfs_entry save_dir_buf i" and ?t = "4000 + word_of_nat i :: u32"
  define m3 where "m3 = wr64 (?e + 48) (ucast ?t) (wr64 (?e + 56) 512 (str_put (?e + 2) name (m2(?e := 1))))"
  have m3: "m3 x = m2 x" if "x < ?e \<or> ?e + 64 \<le> x" for x
    using that len by (auto simp: m3_def wr64_other str_put_other)
  have "sata_ready hw hdd V L hdr tbl (s1\<lparr>ram := m2, dev := d2\<rparr>\<lparr>ram := m3\<rparr>)"
  proof (rule sata_ready_ram [OF r2])
    fix x
    assume "x \<in> sata_priv hdr tbl"
    from clear_ofD [OF buf this] have "x < ?e \<or> ?e + 64 \<le> x"
      using i28 by (auto simp: cfs_entry_def)
    then show "m3 x = ram (s1\<lparr>ram := m2, dev := d2\<rparr>) x" using m3 by simp
  qed
  then have r3: "sata_ready hw hdd V L hdr tbl (s\<lparr>ram := m3, dev := d2\<rparr>)" using s1 by simp
  from sata.wr_ok [OF r3 buf1 fit, of CFS_ROOT_LBA] obtain m4 d4 where
    w2: "run_state (ahci_write hw hdd CFS_ROOT_LBA (word_of_nat save_dir_buf)) (s\<lparr>ram := m3, dev := d2\<rparr>)
      = (True, s\<lparr>ram := m4, dev := d4\<rparr>)"
    and d4: "s_sect V d4 = (s_sect V d2)(CFS_ROOT_LBA := rd_bytes m3 save_dir_buf 512)" by auto
  have "rd_bytes m3 save_dir_buf 512 = rd_bytes m save_dir_buf 512"
  proof -
    have "m3 (save_dir_buf + x) = m (save_dir_buf + x)" if "x < 512" for x
    proof -
      have "save_dir_buf + x < ?e" using that slot(2) by (simp add: cfs_entry_def)
      moreover have "save_dir_buf + x \<notin> sata_priv hdr tbl" using buf1 that by (simp add: clear_of_def)
      ultimately show ?thesis using m3 k2 by simp
    qed
    then show ?thesis by (simp add: rd_bytes_def)
  qed
  moreover have "run_state (ahci_save_file_complete hw hdd filename name data_buf) s = ((), s\<lparr>ram := m4, dev := d4\<rparr>)"
    using first s1 slot(1) w1 w2 by (simp add: ahci_save_file_complete_def m3_def Let_def)
  ultimately show ?thesis using d4 D by simp
qed

theorem save_file_lost_witness:
  "s_sect ref_view (dev (snd (run_state (ahci_save_file_complete (ref_hw 256) 256 0x700000 ''Z'' 0x900000)
      (ref_console (\<lambda>_. replicate 512 1) ((\<lambda>_. 0)(0x700000 := 90)))))) CFS_ROOT_LBA = replicate 512 1"
proof -
  let ?s = "ref_console (\<lambda>_. replicate 512 1) ((\<lambda>_. 0)(0x700000 := 90))"
  note rdy = ref_console_ready [where p = 256 and f = "\<lambda>_. replicate 512 1" and m = "(\<lambda>_. 0)(0x700000 := 90)"]
  have c: "clear_of (sata_priv 0x808000 0x808800) save_dir_buf 1792"
    "clear_of (sata_priv 0x808000 0x808800) save_dir_buf 512" "clear_of (sata_priv 0x808000 0x808800) 0x900000 512"
    by (auto simp: clear_of_def sata_priv_def save_dir_buf_def)
  have z: "s_sect ref_view (dev ?s) CFS_ROOT_LBA = replicate 512 1"
    by (simp add: ref_view_def ref_console_def ref_sect_def)
  from sata.rd_ok [OF rdy c(2), of CFS_ROOT_LBA] obtain m d where
    one: "run_state (ahci_read (ref_hw 256) 256 CFS_ROOT_LBA (word_of_nat save_dir_buf)) ?s = (True, ?s\<lparr>ram := m, dev := d\<rparr>)"
    and D: "rd_bytes m save_dir_buf 512 = replicate 512 1"
    and k: "\<forall>i. i \<notin> sata_priv 0x808000 0x808800 \<longrightarrow> i < save_dir_buf \<or> save_dir_buf + 512 \<le> i \<longrightarrow> m i = ram ?s i"
    unfolding z by (auto simp: save_dir_buf_def)
  have m1: "m (cfs_entry save_dir_buf i + x) = 1" if "i < 8" "x < 64" for i x
  proof -
    have x: "64 * i + x < 512" using that by linarith
    from sector_in_ram [OF D x] x show ?thesis by (simp add: cfs_entry_def add.assoc)
  qed
  have m0: "m (cfs_entry save_dir_buf i) = 0" if "8 \<le> i" "i < 28" for i
    using k that by (simp add: cfs_entry_def save_dir_buf_def sata_priv_def ref_console_def wr32_def)
  have f: "m 0x700000 = 90" using k by (simp add: save_dir_buf_def sata_priv_def ref_console_def wr32_def)
  have t1: "m (cfs_entry save_dir_buf i) = 1" "m (cfs_entry save_dir_buf i + 2) = 1" if "i < 8" for i
    using m1 [OF that, of 0] m1 [OF that, of 2] by simp_all
  have "\<not> save_match m (cfs_entry save_dir_buf i) m 0x700000" if "i < 8" for i
    using t1 [OF that] f by (auto simp: save_match_def list_all_iff intro!: bexI [of _ 0])
  then have "\<not> (m (cfs_entry save_dir_buf i) = 1 \<and> save_match m (cfs_entry save_dir_buf i) m 0x700000)"
    if "i < 28" for i
    using m0 [of i] that by (cases "i < 8") auto
  then have "first_slot (\<lambda>i. m (cfs_entry save_dir_buf i) = 1
      \<and> save_match m (cfs_entry save_dir_buf i) m 0x700000) [0..<28] = None"
    by (auto simp: first_slot_None)
  moreover have "first_slot (\<lambda>i. m (cfs_entry save_dir_buf i) = 0) [0..<28] = Some 8"
    using m0 [of 8] t1(1) by (simp add: first_slot_upt)
  ultimately have "save_slot (ram (?s\<lparr>ram := m, dev := d\<rparr>)) 0x700000 = Some 8"
    by (simp add: save_slot_def)
  from save_file_lost [OF rdy c(1) _ c(3) _ one this, of "''Z''"] show ?thesis by (simp add: z)
qed

end
