(* ===== verification/Ring_Cursor.thy ===== *)
theory Ring_Cursor
  imports Machine
begin

text \<open>
  Cursors that run around a fixed number of places: the recorder's disk position, the
  descriptor rings of the network card and the event ring of the USB controller. The locale
  states what such a cursor promises; the consequences are proved once.
\<close>

locale ring_cursor =
  fixes valid :: "'a \<Rightarrow> bool" and step :: "'a \<Rightarrow> 'a" and pos :: "'a \<Rightarrow> nat" and n :: nat
  assumes valid_step: "valid x \<Longrightarrow> valid (step x)"
    and pos_less: "valid x \<Longrightarrow> pos x < n"
    and pos_step: "valid x \<Longrightarrow> pos (step x) = (pos x + 1) mod n"
begin

lemma valid_steps: "valid x \<Longrightarrow> valid ((step ^^ k) x)"
  by (induction k) (auto intro: valid_step)

lemma pos_steps: "valid x \<Longrightarrow> pos ((step ^^ k) x) = (pos x + k) mod n"
proof (induction k)
  case (Suc k)
  then show ?case using pos_step [OF valid_steps [OF Suc.prems, of k]] by (simp add: mod_Suc_eq)
qed (simp add: pos_less)

text \<open>A place is reached again after exactly one round, and not before.\<close>

lemma lap: "valid x \<Longrightarrow> pos ((step ^^ n) x) = pos x"
  by (simp add: pos_steps pos_less)

lemma within_lap:
  assumes "valid x" "j < k" "k < n"
  shows "pos ((step ^^ j) x) \<noteq> pos ((step ^^ k) x)"
proof
  assume "pos ((step ^^ j) x) = pos ((step ^^ k) x)"
  then have "(pos x + j) mod n = (pos x + k) mod n" using assms(1) by (simp add: pos_steps)
  then have "n dvd (pos x + k) - (pos x + j)" using assms(2)
    by (metis add_le_cancel_left less_imp_le mod_eq_dvd_iff_nat)
  then have "n dvd k - j" by simp
  then show False using assms(2,3) by (auto dest: dvd_imp_le)
qed

end

end
