(* ===== verification/Usb.thy ===== *)
theory Usb
  imports Volumes CStrings
begin

text \<open>
  USB mass storage over a UHCI controller: the transfer descriptors of \<open>cosmos_usb.cpp\<close>, its
  bulk-only transport with the SCSI commands READ(10) and READ CAPACITY(10), the older transport
  of \<open>kernel.cpp\<close>, the search for the controller, and the mounting of the sticks found. The
  controller works on the descriptor in RAM, so the status word is read after the device moved.
  Local variables of the C functions that the controller reads or writes live at a stack
  address \<open>stk\<close>, which is a parameter.
\<close>

record 'd usb = "'d disks" +
  usb_io_base :: u32
  uhci_base_port :: u16

definition uhci_frame_list :: nat where "uhci_frame_list = 0x02000000"
definition current_td :: nat where "current_td = 0x02001000"
definition global_setup :: nat where "global_setup = 0x02002000"

subsection \<open>Transfer descriptors, cosmos_usb.cpp\<close>

definition uhci_token :: "u32 \<Rightarrow> u32 \<Rightarrow> u32 \<Rightarrow> u32 \<Rightarrow> u32 \<Rightarrow> u32" where
  "uhci_token max_len toggle ep dev_addr pid =
     push_bit 21 max_len OR push_bit 19 toggle OR push_bit 15 ep OR push_bit 8 dev_addr OR pid"

text \<open>The descriptor, the frame list that points to it, run, wait, stop, and the verdict.\<close>

definition uhci_put_td :: "u32 \<Rightarrow> u32 \<Rightarrow> mem \<Rightarrow> mem" where
  "uhci_put_td token buffer m =
     fold (\<lambda>i. wr32 (uhci_frame_list + 4 * i) (word_of_nat current_td)) [0..<1024]
       (wr32 (current_td + 12) buffer (wr32 (current_td + 8) token
         (wr32 (current_td + 4) 0x18800000 (wr32 current_td 1 m))))"

definition uhci_td_active :: "'d hw \<Rightarrow> nat \<Rightarrow> ('d, 'z, bool) op" where
  "uhci_td_active hw td = do {
     v \<leftarrow> peek_dma hw (\<lambda>m. rd32 m (td + 4));
     State_Monad.return (v AND 0x800000 \<noteq> 0)
   }"

definition uhci_run_td :: "'d hw \<Rightarrow> u32 \<Rightarrow> u32 \<Rightarrow> (('d, 'z) usb_scheme, bool) state" where
  "uhci_run_td hw token buffer = do {
     base \<leftarrow> gets (\<lambda>s. ucast (usb_io_base s));
     poke (uhci_put_td token buffer);
     v \<leftarrow> inw hw base;
     outw hw base (v OR 1);
     timeout \<leftarrow> spin_while (uhci_td_active hw current_td) 1000000;
     v2 \<leftarrow> inw hw base;
     outw hw base (v2 AND NOT 1);
     st \<leftarrow> peek (\<lambda>m. rd32 m (current_td + 4));
     State_Monad.return (\<not> (timeout = 0 \<or> st AND 0x7E0000 \<noteq> 0))
   }"

definition uhci_set_frames :: "'d hw \<Rightarrow> (('d, 'z) usb_scheme, unit) state" where
  "uhci_set_frames hw = do {
     base \<leftarrow> gets (\<lambda>s. ucast (usb_io_base s));
     outw hw (base + 8) (ucast (word_of_nat uhci_frame_list :: u32));
     outw hw (base + 10) (ucast (drop_bit 16 (word_of_nat uhci_frame_list :: u32)))
   }"

text \<open>\<open>uhci_execute_td\<close>, cosmos_usb.cpp:86, and the two bulk directions\<close>

definition uhci_execute_td ::
  "'d hw \<Rightarrow> u32 \<Rightarrow> u32 \<Rightarrow> u32 \<Rightarrow> u32 \<Rightarrow> int \<Rightarrow> (('d, 'z) usb_scheme, bool) state" where
  "uhci_execute_td hw pid dev_addr ep buffer len = do {
     base \<leftarrow> gets usb_io_base;
     if base = 0 then State_Monad.return False
     else do {
       uhci_set_frames hw;
       let max_len = (if 0 < len then word_of_int (len - 1) else 0x7FF);
       uhci_run_td hw (uhci_token max_len 0 ep dev_addr pid) buffer
     }
   }"

definition usb_bulk_out :: "'d hw \<Rightarrow> u32 \<Rightarrow> u32 \<Rightarrow> u32 \<Rightarrow> int \<Rightarrow> (('d, 'z) usb_scheme, bool) state" where
  "usb_bulk_out hw dev_addr ep buffer len = uhci_execute_td hw 0xE1 dev_addr ep buffer len"

definition usb_bulk_in :: "'d hw \<Rightarrow> u32 \<Rightarrow> u32 \<Rightarrow> u32 \<Rightarrow> int \<Rightarrow> (('d, 'z) usb_scheme, bool) state" where
  "usb_bulk_in hw dev_addr ep buffer len = uhci_execute_td hw 0x69 dev_addr ep buffer len"

text \<open>\<open>uhci_execute_control\<close>, cosmos_usb.cpp:166: the setup stage, then the status stage\<close>

definition uhci_execute_control :: "'d hw \<Rightarrow> u32 \<Rightarrow> (('d, 'z) usb_scheme, bool) state" where
  "uhci_execute_control hw dev_addr = do {
     uhci_set_frames hw;
     ok \<leftarrow> uhci_run_td hw (uhci_token 7 0 0 dev_addr 0x2D) (word_of_nat global_setup);
     if \<not> ok then State_Monad.return False
     else uhci_run_td hw (uhci_token 0x7FF 1 0 dev_addr 0x69) 0
   }"

text \<open>\<open>USB_SETUP_PKT\<close> (cosmos_usb.cpp:157) and \<open>usb_enumerate_device\<close>, cosmos_usb.cpp:194\<close>

definition put_setup :: "u8 \<Rightarrow> u8 \<Rightarrow> u16 \<Rightarrow> mem \<Rightarrow> mem" where
  "put_setup rt req val m =
     wr16 (global_setup + 6) 0 (wr16 (global_setup + 4) 0 (wr16 (global_setup + 2) val
       (m(global_setup := rt, global_setup + 1 := req))))"

definition port_upd :: "'d hw \<Rightarrow> u16 \<Rightarrow> (u16 \<Rightarrow> u16) \<Rightarrow> ('d, 'z, unit) op" where
  "port_upd hw port_reg f = do { p \<leftarrow> inw hw port_reg; outw hw port_reg (f (p AND 0xFFD5)) }"

definition usb_enumerate_device :: "'d hw \<Rightarrow> nat \<Rightarrow> u16 \<Rightarrow> (('d, 'z) usb_scheme, bool) state" where
  "usb_enumerate_device hw port_idx new_address = do {
     port_reg \<leftarrow> gets (\<lambda>s. ucast (usb_io_base s) + 0x10 + word_of_nat (port_idx * 2));
     port_upd hw port_reg (\<lambda>p. p OR 0x0200);
     port_upd hw port_reg (\<lambda>p. p AND NOT 0x0200);
     port_upd hw port_reg (\<lambda>p. p OR 0x0004);
     st \<leftarrow> inw hw port_reg;
     if st AND 0x0004 = 0 then State_Monad.return False
     else do {
       poke (put_setup 0 5 new_address);
       ok \<leftarrow> uhci_execute_control hw 0;
       if \<not> ok then State_Monad.return False
       else do {
         poke (put_setup 0 9 1);
         uhci_execute_control hw (ucast new_address)
       }
     }
   }"

subsection \<open>Bulk-only transport, cosmos_usb.cpp\<close>

text \<open>\<open>USB_CBW\<close>: 31 packed bytes; \<open>USB_CSW\<close>: 13. The READ(10) block packs its sector in big endian.\<close>

definition put_cbw :: "nat \<Rightarrow> u32 \<Rightarrow> u32 \<Rightarrow> u8 list \<Rightarrow> mem \<Rightarrow> mem" where
  "put_cbw a tag len scsi m =
     wr_bytes (a + 15) scsi (wr_bytes (a + 12) [0x80, 0, 10]
       (wr32 (a + 8) len (wr32 (a + 4) tag (wr32 a 0x43425355 (zero_fill a 31 m)))))"

definition scsi_read10 :: "u32 \<Rightarrow> u32 \<Rightarrow> u8 list" where
  "scsi_read10 lba n =
     [0x28, 0, ucast (drop_bit 24 lba), ucast (drop_bit 16 lba), ucast (drop_bit 8 lba), ucast lba,
      0, ucast (drop_bit 8 n), ucast n]"

definition csw_bad :: "mem \<Rightarrow> nat \<Rightarrow> bool" where
  "csw_bad m csw \<longleftrightarrow> rd32 m csw \<noteq> 0x53425355 \<or> m (csw + 12) \<noteq> 0"

definition usb_bot_read_sectors ::
  "'d hw \<Rightarrow> nat \<Rightarrow> u32 \<Rightarrow> u32 \<Rightarrow> u32 \<Rightarrow> u32 \<Rightarrow> u32 \<Rightarrow> u32 \<Rightarrow> (('d, 'z) usb_scheme, bool) state" where
  "usb_bot_read_sectors hw stk dev_addr ep_out ep_in lba num_sectors buffer = do {
     let len = num_sectors * 512;
     poke (put_cbw stk 1 len (scsi_read10 lba num_sectors));
     ok1 \<leftarrow> usb_bulk_out hw dev_addr ep_out (word_of_nat stk) 31;
     if \<not> ok1 then State_Monad.return False
     else do {
       ok2 \<leftarrow> usb_bulk_in hw dev_addr ep_in buffer (sint len);
       if \<not> ok2 then State_Monad.return False
       else do {
         ok3 \<leftarrow> usb_bulk_in hw dev_addr ep_in (word_of_nat (stk + 32)) 13;
         m \<leftarrow> peek id;
         State_Monad.return (ok3 \<and> \<not> csw_bad m (stk + 32))
       }
     }
   }"

definition rd32_be :: "mem \<Rightarrow> nat \<Rightarrow> u32" where
  "rd32_be m a = push_bit 24 (ucast (m a)) OR push_bit 16 (ucast (m (a + 1)))
     OR push_bit 8 (ucast (m (a + 2))) OR ucast (m (a + 3))"

definition usb_bot_get_capacity ::
  "'d hw \<Rightarrow> nat \<Rightarrow> u32 \<Rightarrow> u32 \<Rightarrow> u32 \<Rightarrow> (('d, 'z) usb_scheme, int) state" where
  "usb_bot_get_capacity hw stk dev_addr ep_out ep_in = do {
     poke (put_cbw stk 2 8 [0x25]);
     ok1 \<leftarrow> usb_bulk_out hw dev_addr ep_out (word_of_nat stk) 31;
     if \<not> ok1 then State_Monad.return 0
     else do {
       ok2 \<leftarrow> usb_bulk_in hw dev_addr ep_in (word_of_nat (stk + 48)) 8;
       if \<not> ok2 then State_Monad.return 0
       else do {
         ok3 \<leftarrow> usb_bulk_in hw dev_addr ep_in (word_of_nat (stk + 32)) 13;
         last_lba \<leftarrow> peek (\<lambda>m. rd32_be m (stk + 48));
         State_Monad.return (if ok3 then uint ((last_lba + 1) div 2048) else 0)
       }
     }
   }"
subsection \<open>The transport of the kernel, kernel.cpp\<close>

text \<open>\<open>uhci_bulk_transfer\<close>, kernel.cpp:371: 0 is success, 1 an error\<close>

definition bulk_td :: nat where "bulk_td = 0x0C000000"

definition uhci_bulk_transfer ::
  "'d hw \<Rightarrow> u32 \<Rightarrow> u32 \<Rightarrow> bool \<Rightarrow> u32 \<Rightarrow> u32 \<Rightarrow> (('d, 'z) usb_scheme, nat) state" where
  "uhci_bulk_transfer hw dev_addr endpoint is_in buffer_addr len = do {
     port \<leftarrow> gets uhci_base_port;
     if port = 0 then State_Monad.return 1
     else do {
       poke (wr32 bulk_td 1);
       poke (wr32 (bulk_td + 4) 0x1800000);
       poke (wr32 (bulk_td + 8) (uhci_token ((len - 1) AND 0x7FF) 0 endpoint dev_addr (if is_in then 0x69 else 0xE1)));
       poke (wr32 (bulk_td + 12) buffer_addr);
       outl hw (port + 8) (word_of_nat bulk_td);
       outw hw port 1;
       poll_for (do { b \<leftarrow> uhci_td_active hw bulk_td; State_Monad.return (\<not> b) }) 5000000;
       outw hw port 0;
       st \<leftarrow> peek (\<lambda>m. rd32 m (bulk_td + 4));
       if st AND 0x7E0000 \<noteq> 0 then do { set_status ''USB TRANSFER ERROR!''; State_Monad.return 1 }
       else State_Monad.return 0
     }
   }"

text \<open>
  \<open>usb_bot_get_capacity\<close> and \<open>usb_bot_read_sectors\<close>, kernel.cpp:424 and 466. The local blocks are
  not cleared first: the CBW fields are all stored, the CSW keeps what was on the stack. The
  capacity is a pair of the sector count and the block size written to the caller's variable.
\<close>

definition put_kcbw :: "nat \<Rightarrow> u32 \<Rightarrow> u32 \<Rightarrow> u8 list \<Rightarrow> mem \<Rightarrow> mem" where
  "put_kcbw a tag len scsi m =
     wr_bytes (a + 15) scsi (zero_fill (a + 15) 16 (wr_bytes (a + 12) [0x80, 0, 10]
       (wr32 (a + 8) len (wr32 (a + 4) tag (wr32 a 0x43425355 m)))))"

definition kusb_get_capacity ::
  "'d hw \<Rightarrow> nat \<Rightarrow> u32 \<Rightarrow> u32 \<Rightarrow> u32 \<Rightarrow> (('d, 'z) usb_scheme, u32 \<times> u32 option) state" where
  "kusb_get_capacity hw stk dev_addr ep_in ep_out = do {
     poke (put_kcbw stk 1 8 [0x25]);
     uhci_bulk_transfer hw dev_addr ep_out False (word_of_nat stk) 31;
     uhci_bulk_transfer hw dev_addr ep_in True (word_of_nat (stk + 48)) 8;
     uhci_bulk_transfer hw dev_addr ep_in True (word_of_nat (stk + 32)) 13;
     m \<leftarrow> peek id;
     if csw_bad m (stk + 32) then do {
       set_status ''USB ERROR: CAPACITY READ FAILED'';
       State_Monad.return (0, None)
     } else do {
       set_status ''USB STICK READY!'';
       State_Monad.return (rd32_be m (stk + 48), Some (rd32_be m (stk + 52)))
     }
   }"

definition kusb_read_sectors ::
  "'d hw \<Rightarrow> nat \<Rightarrow> u32 \<Rightarrow> u32 \<Rightarrow> u32 \<Rightarrow> u32 \<Rightarrow> u8 \<Rightarrow> u32 \<Rightarrow> (('d, 'z) usb_scheme, nat) state" where
  "kusb_read_sectors hw stk dev_addr ep_in ep_out lba count buffer_addr = do {
     let len = 512 * ucast count;
     poke (put_kcbw stk 2 len (scsi_read10 lba (ucast count)));
     e1 \<leftarrow> uhci_bulk_transfer hw dev_addr ep_out False (word_of_nat stk) 31;
     if e1 \<noteq> 0 then do { set_status ''USB READ ERROR: CBW FAILED''; State_Monad.return 1 }
     else do {
       e2 \<leftarrow> uhci_bulk_transfer hw dev_addr ep_in True buffer_addr len;
       if e2 \<noteq> 0 then do { set_status ''USB READ ERROR: DATA FAILED''; State_Monad.return 1 }
       else do {
         e3 \<leftarrow> uhci_bulk_transfer hw dev_addr ep_in True (word_of_nat (stk + 32)) 13;
         m \<leftarrow> peek id;
         if e3 \<noteq> 0 then do { set_status ''USB READ ERROR: CSW FAILED''; State_Monad.return 1 }
         else if csw_bad m (stk + 32) then do { set_status ''USB READ ERROR: SCSI STATUS BAD''; State_Monad.return 1 }
         else do { set_status ''USB READ SUCCESS!''; State_Monad.return 0 }
       }
     }
   }"

subsection \<open>Finding the controller and mounting sticks, kernel.cpp\<close>

definition pci_config :: "'d hw \<Rightarrow> u32 \<Rightarrow> ('d, 'z, u32) op" where
  "pci_config hw addr = do { outl hw 0xCF8 addr; inl hw 0xCFC }"

definition pci_addr :: "nat \<Rightarrow> nat \<Rightarrow> nat \<Rightarrow> u32" where
  "pci_addr bus slot func = word_of_nat (bus * 65536 + slot * 2048 + func * 256) OR 0x80000000"

text \<open>
  \<open>pci_find_uhci\<close>, kernel.cpp:277. A function that does not answer ends the functions of its
  slot; the first UHCI controller ends the whole scan. \<open>found\<close> is \<open>found_any_usb\<close>.
\<close>

definition uhci_adopt :: "'d hw \<Rightarrow> u32 \<Rightarrow> (('d, 'z) usb_scheme, unit) state" where
  "uhci_adopt hw addr = do {
     b \<leftarrow> pci_config hw (addr + 0x20);
     modify (\<lambda>s. s\<lparr>usb_io_base := b AND NOT 3\<rparr>);
     cmd \<leftarrow> pci_config hw (addr + 4);
     outl hw 0xCF8 (addr + 4);
     outl hw 0xCFC (cmd OR 4)
   }"

fun uhci_funcs :: "'d hw \<Rightarrow> nat \<Rightarrow> nat \<Rightarrow> nat list \<Rightarrow> bool \<Rightarrow> (('d, 'z) usb_scheme, bool \<times> bool) state" where
  "uhci_funcs hw bus slot [] found = State_Monad.return (found, False)"
| "uhci_funcs hw bus slot (f # fs) found = do {
     let addr = pci_addr bus slot f;
     vendor \<leftarrow> pci_config hw addr;
     if vendor AND 0xFFFF = 0xFFFF then State_Monad.return (found, False)
     else do {
       ci \<leftarrow> pci_config hw (addr + 8);
       let prog_if = drop_bit 8 ci AND 0xFF;
       if drop_bit 24 ci AND 0xFF = 0x0C \<and> drop_bit 16 ci AND 0xFF = 0x03 then
         if prog_if = 0 then do { uhci_adopt hw addr; State_Monad.return (True, True) }
         else do {
           when_m (prog_if = 0x10) (set_hw_usb ''FOUND OHCI (UNSUPPORTED)'');
           when_m (prog_if = 0x20) (set_hw_usb ''FOUND EHCI (USB 2.0)'');
           when_m (prog_if = 0x30) (set_hw_usb ''FOUND xHCI (USB 3.0+)'');
           uhci_funcs hw bus slot fs True
         }
       else uhci_funcs hw bus slot fs found
     }
   }"

fun uhci_slots :: "'d hw \<Rightarrow> (nat \<times> nat) list \<Rightarrow> bool \<Rightarrow> (('d, 'z) usb_scheme, unit) state" where
  "uhci_slots hw [] found = when_m (\<not> found) (set_hw_usb ''NO USB HARDWARE ON PCI'')"
| "uhci_slots hw (p # ps) found = do {
     r \<leftarrow> uhci_funcs hw (fst p) (snd p) [0..<8] found;
     if snd r then skip else uhci_slots hw ps (fst r)
   }"

definition pci_slots :: "(nat \<times> nat) list" where
  "pci_slots = concat (map (\<lambda>b. map (Pair b) [0..<32]) [0..<256])"

definition pci_find_uhci :: "'d hw \<Rightarrow> (('d, 'z) usb_scheme, unit) state" where
  "pci_find_uhci hw = uhci_slots hw pci_slots False"

text \<open>\<open>usb_mount_drive\<close>, kernel.cpp:314\<close>

definition usb_mount_port :: "'d hw \<Rightarrow> nat \<Rightarrow> nat \<Rightarrow> (('d, 'z) usb_scheme, nat) state" where
  "usb_mount_port hw stk p = do {
     port_reg \<leftarrow> gets (\<lambda>s. ucast (usb_io_base s) + 0x10 + word_of_nat (p * 2));
     st \<leftarrow> inw hw port_reg;
     if st AND 1 = 0 then State_Monad.return 0
     else do {
       ok \<leftarrow> usb_enumerate_device hw p (word_of_nat (p + 1));
       if \<not> ok then do { set_hw_usb ''USB HANDSHAKE FAILED''; State_Monad.return 0 }
       else do {
         n \<leftarrow> gets drive_count;
         if n < 8 then do {
           mb \<leftarrow> usb_bot_get_capacity hw stk (word_of_nat (p + 1)) 2 129;
           add_drive \<lparr>drv_type = 3, size_mb = mb, base_port = p + 1,
             model = ''USB DEVICE ON PORT '' @ [char_of (49 + p)]\<rparr>
         } else State_Monad.return 0
       }
     }
   }"

definition usb_mount_drive :: "'d hw \<Rightarrow> nat \<Rightarrow> (('d, 'z) usb_scheme, unit) state" where
  "usb_mount_drive hw stk = do {
     pci_find_uhci hw;
     base \<leftarrow> gets usb_io_base;
     if base = 0 then set_hw_usb ''NO UHCI CONTROLLER''
     else do {
       k0 \<leftarrow> usb_mount_port hw stk 0;
       k1 \<leftarrow> usb_mount_port hw stk 1;
       set_hw_usb (if 0 < k0 + k1 then ''CLICK TO CYCLE STICKS'' else ''PORTS EMPTY'')
     }
   }"
subsection \<open>Properties\<close>

lemma touches_uhci [hw_only]:
  "touches_hw (uhci_td_active hw td)" "touches_hw (pci_config hw a)" "touches_hw (port_upd hw r f)"
  unfolding uhci_td_active_def pci_config_def port_upd_def by (intro hw_only)+

lemma touches_usb [hw_only]:
  "touches_hw (uhci_run_td hw token buffer)" "touches_hw (uhci_set_frames hw)"
  unfolding uhci_run_td_def uhci_set_frames_def by (intro hw_only)+

lemma touches_execute [hw_only]:
  "touches_hw (uhci_execute_td hw pid dev_addr ep buffer n)" "touches_hw (uhci_execute_control hw dev_addr)"
  unfolding uhci_execute_td_def uhci_execute_control_def by (intro hw_only)+

lemma touches_bulk [hw_only]:
  "touches_hw (usb_bulk_out hw dev_addr ep buffer n)" "touches_hw (usb_bulk_in hw dev_addr ep buffer n)"
  unfolding usb_bulk_out_def usb_bulk_in_def by (intro hw_only)+

lemma touches_bot [hw_only]:
  "touches_hw (usb_bot_read_sectors hw stk dev_addr ep_out ep_in lba num buffer)"
  "touches_hw (usb_bot_get_capacity hw stk dev_addr ep_out ep_in)"
  "touches_hw (usb_enumerate_device hw p addr)"
  unfolding usb_bot_read_sectors_def usb_bot_get_capacity_def usb_enumerate_device_def by (intro hw_only)+

lemma rd32_be_bytes: "rd32_be m a = lba" if "rd_bytes m a 4 = [ucast (drop_bit 24 lba), ucast (drop_bit 16 lba), ucast (drop_bit 8 lba), ucast lba]"
proof -
  have b: "m a = ucast (drop_bit 24 lba)" "m (a + 1) = ucast (drop_bit 16 lba)"
    "m (a + 2) = ucast (drop_bit 8 lba)" "m (a + 3) = ucast lba"
    using that by (simp_all add: rd_bytes_def upt_rec numeral_3_eq_3)
  show ?thesis
  proof (rule bit_word_eqI)
    fix n
    assume n: "n < LENGTH(32)"
    consider "n < 8" | "8 \<le> n" "n < 16" | "16 \<le> n" "n < 24" | "24 \<le> n" "n < 32"
      using n by fastforce
    then show "bit (rd32_be m a) n = bit lba n"
      unfolding rd32_be_def b by cases (auto simp: bit_simps)
  qed
qed

text \<open>
  The command block of a read carries the sector number in the four big-endian
  bytes the SCSI standard asks for and the count in two, whatever was on the stack before.
\<close>

theorem read10_block:
  "let m' = put_cbw a tag (n * 512) (scsi_read10 lba n) m in
     rd32 m' a = 0x43425355 \<and> m' (a + 15) = 0x28 \<and> rd32_be m' (a + 17) = lba
     \<and> m' (a + 22) = ucast (drop_bit 8 n) \<and> m' (a + 23) = ucast n \<and> rd32 m' (a + 8) = n * 512"
proof -
  let ?c = "wr32 (a + 8) (n * 512) (wr32 (a + 4) tag (wr32 a 0x43425355 (zero_fill a 31 m)))"
  let ?f = "wr_bytes (a + 12) [0x80, 0, 10] ?c"
  define m' where "m' = put_cbw a tag (n * 512) (scsi_read10 lba n) m"
  have m': "m' = wr_bytes (a + 15) (scsi_read10 lba n) ?f"
    by (simp add: m'_def put_cbw_def)
  have low: "m' (a + i) = ?c (a + i)" if "i < 12" for i
    using that by (simp add: m' wr_bytes_other)
  have hi: "m' (a + (15 + i)) = scsi_read10 lba n ! i" if "i < 9" for i
    unfolding m' add.assoc [symmetric] using that by (intro wr_bytes_at) (simp add: scsi_read10_def)
  have "rd32 m' a = rd32 ?c (a + 0)" by (rule rd32_cong) (use low [of "_"] in simp)
  moreover have "rd32 m' (a + 8) = rd32 ?c (a + 8)"
    by (rule rd32_cong) (use low [of "8 + _"] in \<open>simp add: add.assoc\<close>)
  moreover have "rd32_be m' (a + 17) = lba"
    by (rule rd32_be_bytes)
      (use hi [of 2] hi [of 3] hi [of 4] hi [of 5] in \<open>simp add: rd_bytes_def upt_rec scsi_read10_def add.assoc\<close>)
  ultimately show ?thesis
    unfolding Let_def m'_def [symmetric]
    using hi [of 0] hi [of 7] hi [of 8] by (simp add: rd32_wr32_other scsi_read10_def)
qed

text \<open>
  The mount code passes the IN endpoint as 129, its address byte, although the
  descriptor field is a number below 16: the direction bit falls into the length field, so the
  descriptor asks endpoint 1 for a packet whose encoded length has bit 1 set.
\<close>

theorem token_endpoint_spill:
  "uhci_token max_len t 129 dev_addr pid = uhci_token (max_len OR 2) t 1 dev_addr pid"
proof -
  have "push_bit 15 (129 :: u32) = push_bit 21 2 OR push_bit 15 1" by code_simp
  moreover have "push_bit 21 (max_len OR 2) = push_bit 21 max_len OR push_bit 21 (2 :: u32)"
    by (simp only: push_bit_or)
  ultimately show ?thesis
    by (simp only: uhci_token_def or.assoc or.commute or.left_commute)
qed

text \<open>Waiting for something that never happens.\<close>

lemma spin_while_never:
  assumes "\<And>s. Q s \<Longrightarrow> fst (run_state c s) \<and> Q (snd (run_state c s))" and "Q s"
  shows "fst (run_state (spin_while c n) s) = 0 \<and> Q (snd (run_state (spin_while c n) s))"
  using assms(2)
proof (induction n arbitrary: s)
  case 0
  then show ?case using assms(1) [of s] by (cases "run_state c s") simp
next
  case (Suc n)
  then show ?case using assms(1) [of s] by (cases "run_state c s") simp
qed

lemma poll_for_never:
  assumes "\<And>s. Q s \<Longrightarrow> \<not> fst (run_state c s) \<and> Q (snd (run_state c s))" and "Q s"
  shows "\<not> fst (run_state (poll_for c n) s) \<and> Q (snd (run_state (poll_for c n) s))"
  using assms(2)
proof (induction n arbitrary: s)
  case (Suc n)
  then show ?case using assms(1) [of s] by (cases "run_state c s") simp
qed simp

text \<open>A controller that does not work on memory: no access to it changes RAM.\<close>

definition dead_hw :: "'d hw \<Rightarrow> bool" where
  "dead_hw hw \<longleftrightarrow> (\<forall>m d. fst (hw_dma hw (m, d)) = m) \<and> (\<forall>p m d. fst (snd (hw_inw hw p (m, d))) = m)
     \<and> (\<forall>p v m d. fst (hw_outw hw p v (m, d)) = m) \<and> (\<forall>p v m d. fst (hw_outl hw p v (m, d)) = m)"

lemma dead_ram:
  assumes "dead_hw hw"
  shows "ram (snd (run_state (outw hw p v) s)) = ram s" "ram (snd (run_state (outl hw p l) s)) = ram s"
    "ram (snd (run_state (inw hw p) s)) = ram s"
    "ram (snd (run_state (uhci_td_active hw td) s)) = ram s"
    "fst (run_state (uhci_td_active hw td) s) \<longleftrightarrow> rd32 (ram s) (td + 4) AND 0x800000 \<noteq> 0"
  using assms
  by (simp_all add: dead_hw_def outw_def outl_def inw_def run_dev_write run_dev_read uhci_td_active_def peek_dma_def)

lemma fill_other:
  "a + 4 * n \<le> i \<or> i < a \<Longrightarrow> fold (\<lambda>k. wr32 (a + 4 * k) v) [0..<n] m i = m i"
  by (induction n) (auto simp: wr32_other)

lemma put_td_status: "rd32 (uhci_put_td token buffer m) (current_td + 4) = 0x18800000"
proof -
  have "rd32 (uhci_put_td token buffer m) (current_td + 4)
      = rd32 (wr32 (current_td + 4) 0x18800000 (wr32 current_td 1 m)) (current_td + 4)"
    by (rule rd32_cong)
      (simp add: uhci_put_td_def fill_other wr32_other current_td_def uhci_frame_list_def del: upt_Suc)
  then show ?thesis by simp
qed

lemma run_unitE:
  obtains s' where "run_state (c :: ('s, unit) state) s = ((), s')"
  by (cases "run_state c s") simp

lemma run_td_dead:
  assumes "dead_hw hw"
  shows "fst (run_state (uhci_run_td hw token buffer) s) = False"
proof -
  let ?Q = "\<lambda>t. ram t = uhci_put_td token buffer (ram s)"
  have step: "fst (run_state (uhci_td_active hw current_td) t) \<and> ?Q (snd (run_state (uhci_td_active hw current_td) t))"
    if "?Q t" for t
    using that put_td_status by (simp add: dead_ram [OF assms])
  let ?s1 = "s\<lparr>ram := uhci_put_td token buffer (ram s)\<rparr>"
  define p where "p = (ucast (usb_io_base s) :: u16)"
  obtain v s2 where 1: "run_state (inw hw p) ?s1 = (v, s2)" by fastforce
  obtain s3 where 2: "run_state (outw hw p (v OR 1)) s2 = ((), s3)" by (rule run_unitE)
  have q: "?Q s3"
    using dead_ram(3) [OF assms, of p ?s1] dead_ram(1) [OF assms, of p "v OR 1" s2] 1 2 by simp
  obtain t s4 where 3: "run_state (spin_while (uhci_td_active hw current_td) 1000000) s3 = (t, s4)" by fastforce
  have "t = 0" using spin_while_never [where Q = ?Q and s = s3 and n = 1000000, OF step q] 3 by simp
  then show ?thesis using 1 2 3 by (simp add: uhci_run_td_def p_def Let_def split: prod.splits)
qed

text \<open>
  Property C39. A controller that never answers: the transfer of \<open>cosmos_usb.cpp\<close> reports the
  timeout as a failure, the transfer of \<open>kernel.cpp\<close> only looks at the error bits and reports
  success although its descriptor is still active.
\<close>

theorem dead_controller_verdicts:
  fixes s :: "('d, 'z) usb_scheme"
  assumes "dead_hw hw" and "uhci_base_port s \<noteq> 0"
  shows "fst (run_state (usb_bulk_in hw adr ep buffer n) s) = False
    \<and> fst (run_state (uhci_bulk_transfer hw adr ep is_in buffer len) s) = 0"
proof
  obtain m d where f: "run_state (uhci_set_frames hw) s = ((), s\<lparr>ram := m, dev := d\<rparr>)"
    using touches_run [OF touches_usb(2) [where hw = hw], where s = s] by auto
  show "fst (run_state (usb_bulk_in hw adr ep buffer n) s) = False"
    using f by (simp add: usb_bulk_in_def uhci_execute_td_def Let_def run_td_dead [OF assms(1)])
  let ?p = "uhci_base_port s"
  define td where "td = wr32 (bulk_td + 12) buffer (wr32 (bulk_td + 8)
    (uhci_token ((len - 1) AND 0x7FF) 0 ep adr (if is_in then 0x69 else 0xE1))
      (wr32 (bulk_td + 4) 0x1800000 (wr32 bulk_td 1 (ram s))))"
  let ?Q = "\<lambda>t. ram t = td"
  have st: "rd32 td (bulk_td + 4) = 0x1800000"
    by (simp add: td_def rd32_wr32_other)
  let ?c = "do { b \<leftarrow> uhci_td_active hw bulk_td; State_Monad.return (\<not> b) }"
  have step: "\<not> fst (run_state ?c t) \<and> ?Q (snd (run_state ?c t))" if "?Q t" for t
  proof -
    obtain v t' where r: "run_state (uhci_td_active hw bulk_td) t = (v, t')" by fastforce
    then show ?thesis
      using that st dead_ram(4) [OF assms(1), of bulk_td t] dead_ram(5) [OF assms(1), of bulk_td t] by simp
  qed
  obtain s1 where 1: "run_state (outl hw (?p + 8) (word_of_nat bulk_td)) (s\<lparr>ram := td\<rparr>) = ((), s1)" by (rule run_unitE)
  obtain s2 where 2: "run_state (outw hw ?p 1) s1 = ((), s2)" by (rule run_unitE)
  have q: "?Q s2"
    using dead_ram(2) [OF assms(1), of "?p + 8" "word_of_nat bulk_td" "s\<lparr>ram := td\<rparr>"]
      dead_ram(1) [OF assms(1), of ?p 1 s1] 1 2 by simp
  obtain b s3 where 3: "run_state (poll_for ?c 5000000) s2 = (b, s3)" by fastforce
  have q3: "?Q s3" using poll_for_never [where Q = ?Q and s = s2 and n = 5000000, OF step q] 3 by simp
  obtain s4 where 4: "run_state (outw hw ?p 0) s3 = ((), s4)" by (rule run_unitE)
  have q4: "?Q s4" using dead_ram(1) [OF assms(1), of ?p 0 s3] 4 q3 by simp
  show "fst (run_state (uhci_bulk_transfer hw adr ep is_in buffer len) s) = 0"
    using assms(2) 1 2 3 4 q4 st by (simp add: uhci_bulk_transfer_def td_def)
qed

definition start_usb :: "u32 \<Rightarrow> u16 \<Rightarrow> unit usb" where
  "start_usb io kport = \<lparr>ram = \<lambda>_. 0, dev = (), cmd_status = [], hw_usb = [], hw_disk = [],
     global_active_port = 0, global_ahci_abar = 0xFEBF1000, ahci_scan_state = 1, ahci_scan_timer = 0,
     drives = replicate 8 \<lparr>drv_type = 0, size_mb = 0, base_port = 0, model = []\<rparr>, drive_count = 0,
     ahci_found_ports_bitmask = 0, is_ahci_found = True, ahci_bar5 = 0xFEBF1000,
     usb_io_base = io, uhci_base_port = kport\<rparr>"

theorem dead_controller_verdicts_witness:
  "fst (run_state (uhci_bulk_transfer null_hw 1 129 True 0x800000 512) (start_usb 0xC000 0xC000)) = 0"
  using dead_controller_verdicts [of null_hw "start_usb 0xC000 0xC000" 1 129 "0x800000" 512 True 512]
  by (simp add: dead_hw_def null_hw_def start_usb_def)

text \<open>
  Without a controller both transports fail before anything is sent: the first
  returns false and only its command block on the stack has changed, the second returns an error
  code with its message.
\<close>

theorem usb_read_without_controller:
  fixes s :: "('d, 'z) usb_scheme"
  assumes "usb_io_base s = 0" and "uhci_base_port s = 0"
  shows "run_state (usb_bot_read_sectors hw stk adr ep_out ep_in lba n buffer) s
      = (False, s\<lparr>ram := put_cbw stk 1 (n * 512) (scsi_read10 lba n) (ram s)\<rparr>)
    \<and> run_state (kusb_read_sectors hw stk adr ep_in ep_out lba count buffer) s
      = (1, s\<lparr>ram := put_kcbw stk 2 (512 * ucast count) (scsi_read10 lba (ucast count)) (ram s),
             cmd_status := ''USB READ ERROR: CBW FAILED''\<rparr>)"
  using assms
  by (simp add: usb_bot_read_sectors_def kusb_read_sectors_def usb_bulk_out_def uhci_execute_td_def
      uhci_bulk_transfer_def Let_def)

theorem usb_read_without_controller_witness:
  "fst (run_state (kusb_read_sectors null_hw 0x7000 1 129 2 0 1 0x800000) (start_usb 0 0)) = 1"
  using usb_read_without_controller [of "start_usb 0 0" null_hw "0x7000" 1 2 129 0 1 "0x800000" 1]
  by (simp add: start_usb_def)

definition mounted_from :: "drive list \<Rightarrow> nat \<Rightarrow> ('d, 'z) usb_scheme \<Rightarrow> nat \<Rightarrow> bool" where
  "mounted_from ds n s k \<longleftrightarrow> length (drives s) = 8 \<and> n \<le> drive_count s \<and> drive_count s \<le> 8
     \<and> drive_count s \<le> n + k \<and> take n (drives s) = take n ds"

lemma mounted_hw: "mounted_from ds n (s\<lparr>ram := m, dev := d\<rparr>) k = mounted_from ds n s k"
  "mounted_from ds n (s\<lparr>hw_usb := t\<rparr>) k = mounted_from ds n s k"
  "mounted_from ds n (s\<lparr>usb_io_base := b\<rparr>) k = mounted_from ds n s k"
  by (simp_all add: mounted_from_def)

lemma uhci_adopt_keeps: "preserves (\<lambda>s. mounted_from ds n s k) (uhci_adopt hw addr)"
  unfolding uhci_adopt_def
  by (intro preserving; (rule preserves_hw, intro hw_only)?; auto simp: mounted_hw)

lemma uhci_funcs_keeps: "preserves (\<lambda>s. mounted_from ds n s k) (uhci_funcs hw b sl fs found)"
proof (induction fs arbitrary: found)
  case (Cons f fs)
  show ?case unfolding uhci_funcs.simps set_hw_usb_def
    by (intro preserving uhci_adopt_keeps Cons; (rule preserves_hw, intro hw_only)?; auto simp: mounted_hw)
qed (simp add: preserving)

lemma uhci_slots_keeps: "preserves (\<lambda>s. mounted_from ds n s k) (uhci_slots hw ps found)"
proof (induction ps arbitrary: found)
  case Nil
  show ?case unfolding uhci_slots.simps set_hw_usb_def by (intro preserving) (auto simp: mounted_hw)
next
  case (Cons p ps)
  show ?case unfolding uhci_slots.simps by (intro preserving uhci_funcs_keeps Cons)
qed

lemma mount_port_step:
  assumes "mounted_from ds n s k"
  shows "mounted_from ds n (snd (run_state (usb_mount_port hw stk p) s)) (Suc k)"
proof -
  have grow: "mounted_from ds n s' (Suc k)" if "mounted_from ds n s' k" for s' :: "('c, 'e) usb_scheme"
    using that by (auto simp: mounted_from_def)
  define P where "P = (\<lambda>s :: ('a, 'b) usb_scheme. mounted_from ds n s k)"
  define r where "r = (ucast (usb_io_base s) + 0x10 + word_of_nat (p * 2) :: u16)"
  obtain st m d where 1: "run_state (inw hw r) s = (st, s\<lparr>ram := m, dev := d\<rparr>)"
    using touches_run [OF touches_ports(5) [where hw = hw and p = r], where s = s] by auto
  obtain ok m2 d2 where 2: "run_state (usb_enumerate_device hw p (word_of_nat (p + 1))) (s\<lparr>ram := m, dev := d\<rparr>)
      = (ok, s\<lparr>ram := m2, dev := d2\<rparr>)"
    using touches_run [OF touches_bot(3) [where hw = hw and p = p and addr = "word_of_nat (p + 1)"],
        where s = "s\<lparr>ram := m, dev := d\<rparr>"] by auto
  obtain mb m3 d3 where 3: "run_state (usb_bot_get_capacity hw stk (word_of_nat (p + 1)) 2 129) (s\<lparr>ram := m2, dev := d2\<rparr>)
      = (mb, s\<lparr>ram := m3, dev := d3\<rparr>)"
    using touches_run [OF touches_bot(2) [where hw = hw and stk = stk and dev_addr = "word_of_nat (p + 1)"
          and ep_out = 2 and ep_in = 129], where s = "s\<lparr>ram := m2, dev := d2\<rparr>"] by auto
  show ?thesis
    using assms 1 2 3
    by (auto simp: usb_mount_port_def add_drive_def r_def mounted_from_def Let_def)
qed

text \<open>
  Property C40. Mounting sticks keeps the drive table in order: it never holds more than its
  eight entries, the drives already there stay, and at most the two ports add one each.
\<close>

theorem usb_mount_table:
  fixes s :: "('d, 'z) usb_scheme"
  assumes "length (drives s) = 8" and "drive_count s \<le> 8"
  shows "mounted_from (drives s) (drive_count s) (snd (run_state (usb_mount_drive hw stk) s)) 2"
proof -
  let ?M = "mounted_from (drives s) (drive_count s)"
  obtain s1 where 1: "run_state (pci_find_uhci hw) s = ((), s1)" by (rule run_unitE)
  have "?M s 0" using assms by (simp add: mounted_from_def)
  then have m1: "?M s1 0" using preservesD [OF uhci_slots_keeps, of "drives s" "drive_count s" s 0] 1
    unfolding pci_find_uhci_def by (metis snd_conv)
  obtain k0 s2 where 2: "run_state (usb_mount_port hw stk 0) s1 = (k0, s2)" by fastforce
  have m2: "?M s2 1" using mount_port_step [OF m1, of hw stk 0] 2 by simp
  obtain k1 s3 where 3: "run_state (usb_mount_port hw stk 1) s2 = (k1, s3)" by fastforce
  have m3: "?M s3 2" using mount_port_step [OF m2, of hw stk 1] 3 by (simp add: numeral_2_eq_2)
  have "?M s1 2" using m1 by (auto simp: mounted_from_def)
  then show ?thesis using 1 2 3 m3 by (simp add: usb_mount_drive_def mounted_hw)
qed

theorem usb_mount_table_witness:
  "drive_count (snd (run_state (usb_mount_drive null_hw 0x7000) (start_usb 0 0))) \<le> 2"
  using usb_mount_table [of "start_usb 0 0" null_hw "0x7000"]
  by (simp add: mounted_from_def start_usb_def)

end
