(* ===== verification/Tba.thy ===== *)
theory Tba
  imports Cfs Frames Ring_Cursor Usb
begin

text \<open>
  \<open>cosmos_tba.cpp\<close>: the stream recorder. Sixteen 256-byte frames are collected in RAM and
  written as eight sectors; the disk position runs around the sectors 3000 to 12999.
\<close>

record 'd recorder = "'d usb" +
  tba_block_idx :: nat
  tba_current_lba :: u32

definition tba_ram_buffer :: nat where "tba_ram_buffer = 0x900000"
definition tba_max_lba :: u32 where "tba_max_lba = 13000"

text \<open>\<open>tba_flush_to_disk\<close>, cosmos_tba.cpp:14\<close>

definition tba_next_lba :: "u32 \<Rightarrow> u32" where
  "tba_next_lba lba = (if tba_max_lba \<le> lba + 8 then 3000 else lba + 8)"

definition tba_flush_to_disk :: "'d hw \<Rightarrow> (('d, 'z) recorder_scheme, unit) state" where
  "tba_flush_to_disk hw = do {
     port \<leftarrow> get_active_ahci_port;
     if port = 0 then modify (\<lambda>s. s\<lparr>tba_block_idx := 0\<rparr>)
     else do {
       lba \<leftarrow> gets tba_current_lba;
       for_m [0..<8] (\<lambda>k. do {
         ahci_write hw port (lba + word_of_nat k) (word_of_nat (tba_ram_buffer + 512 * k));
         skip });
       modify (\<lambda>s. s\<lparr>tba_block_idx := 0\<rparr>);
       modify (\<lambda>s. s\<lparr>tba_current_lba := tba_next_lba lba\<rparr>)
     }
   }"

text \<open>\<open>tba_record_frame\<close> and \<open>tba_master_stream\<close>, cosmos_tba.cpp:39 and 54\<close>

definition tba_advance :: "'d hw \<Rightarrow> (('d, 'z) recorder_scheme, unit) state" where
  "tba_advance hw = do {
     modify (\<lambda>s. s\<lparr>tba_block_idx := tba_block_idx s + 1\<rparr>);
     i \<leftarrow> gets tba_block_idx;
     when_m (i = 16) (tba_flush_to_disk hw)
   }"

definition tba_record_frame ::
  "'d hw \<Rightarrow> u16 \<Rightarrow> u8 \<Rightarrow> u8 \<Rightarrow> u8 \<Rightarrow> u8 \<Rightarrow> (('d, 'z) recorder_scheme, unit) state" where
  "tba_record_frame hw sensor_val r g b a = do {
     i \<leftarrow> gets tba_block_idx;
     poke (cb_build (tba_ram_buffer + i * 256) sensor_val r g b a);
     tba_advance hw
   }"

definition tba_master_stream :: "'d hw \<Rightarrow> nat \<Rightarrow> (('d, 'z) recorder_scheme, unit) state" where
  "tba_master_stream hw network_payload = do {
     i \<leftarrow> gets tba_block_idx;
     poke (copy_frame (tba_ram_buffer + i * 256) network_payload);
     tba_advance hw
   }"

subsection \<open>The disk position is a ring cursor\<close>

definition tba_pos_ok :: "u32 \<Rightarrow> bool" where
  "tba_pos_ok lba \<longleftrightarrow> 3000 \<le> unat lba \<and> unat lba < 13000 \<and> (unat lba - 3000) mod 8 = 0"

lemma tba_next_unat:
  assumes "tba_pos_ok lba"
  shows "unat (tba_next_lba lba) = (if 13000 \<le> unat lba + 8 then 3000 else unat lba + 8)"
proof -
  have "unat (lba + 8) = unat lba + 8"
    using assms by (simp add: tba_pos_ok_def unat_word_ariths)
  then show ?thesis by (simp add: tba_next_lba_def tba_max_lba_def word_le_nat_alt)
qed

interpretation tba: ring_cursor tba_pos_ok tba_next_lba "\<lambda>lba. (unat lba - 3000) div 8" 1250
proof unfold_locales
  fix lba
  assume ok: "tba_pos_ok lba"
  define q where "q = (unat lba - 3000) div 8"
  have "8 * q = unat lba - 3000" using ok by (simp add: q_def tba_pos_ok_def mod_0_imp_dvd)
  then have lba: "unat lba = 3000 + 8 * q" using ok by (simp add: tba_pos_ok_def)
  have q: "q < 1250" using lba ok by (simp add: tba_pos_ok_def)
  show "(unat lba - 3000) div 8 < 1250" using q by (simp add: lba)
  show "tba_pos_ok (tba_next_lba lba)"
    using q by (simp add: tba_pos_ok_def tba_next_unat [OF ok] lba)
  show "(unat (tba_next_lba lba) - 3000) div 8 = ((unat lba - 3000) div 8 + 1) mod 1250"
  proof (cases "q = 1249")
    case True
    then show ?thesis by (simp add: tba_next_unat [OF ok] lba)
  next
    case False
    then show ?thesis using q by (simp add: tba_next_unat [OF ok] lba)
  qed
qed

subsection \<open>Properties\<close>

definition tba_inv :: "('d, 'z) recorder_scheme \<Rightarrow> bool" where
  "tba_inv s \<longleftrightarrow> tba_block_idx s < 16 \<and> tba_pos_ok (tba_current_lba s)"

lemma flush_inv:
  fixes s :: "('d, 'z) recorder_scheme"
  assumes "tba_pos_ok (tba_current_lba s)"
  shows "tba_inv (snd (run_state (tba_flush_to_disk hw) s))"
proof -
  have t: "touches_hw (for_m [0..<8] (\<lambda>k. do {
         ahci_write hw (global_active_port s) (tba_current_lba s + word_of_nat k)
           (word_of_nat (tba_ram_buffer + 512 * k)); skip }))"
    by (intro hw_only)
  obtain m d where "run_state (for_m [0..<8] (\<lambda>k. do {
         ahci_write hw (global_active_port s) (tba_current_lba s + word_of_nat k) (word_of_nat (tba_ram_buffer + 512 * k)); skip })) s
      = ((), s\<lparr>ram := m, dev := d\<rparr>)"
    using touches_run [OF t, where s = s] by auto
  then show ?thesis using assms tba.valid_step
    by (simp add: tba_inv_def tba_flush_to_disk_def get_active_ahci_port_def)
qed

lemma advance_inv: "tba_inv s \<Longrightarrow> tba_inv (snd (run_state (tba_advance hw) s))"
  using flush_inv [of "s\<lparr>tba_block_idx := 16\<rparr>" hw] by (auto simp: tba_inv_def tba_advance_def)


definition start_recorder :: "(u32 \<Rightarrow> u8 list) \<Rightarrow> nat \<Rightarrow> nat \<Rightarrow> ref_disk recorder" where
  "start_recorder f port i = \<lparr>ram = wr32 0x800008 0x800800
       (cosmos.build_all 0x900000 (replicate i (7, 1, 2, 3, 4)) (\<lambda>_. 0)),
     dev = \<lparr>rc_clb = 0x800000, rc_sect = f, rc_busy = 0, rc_slot = 0\<rparr>, cmd_status = [], hw_usb = [], hw_disk = [],
     global_active_port = port, global_ahci_abar = 0, ahci_scan_state = 0, ahci_scan_timer = 0,
     drives = [], drive_count = 0, ahci_found_ports_bitmask = 0, is_ahci_found = True, ahci_bar5 = 0,
     usb_io_base = 0, uhci_base_port = 0, tba_block_idx = i, tba_current_lba = 12992\<rparr>"


text \<open>
  The recorder overwrites its oldest data first: after exactly 1250 flushes the disk
  position is back where it was, and on the way it visits no position twice.
\<close>

theorem recorder_lap:
  assumes "tba_pos_ok lba"
  shows "unat ((tba_next_lba ^^ 1250) lba) = unat lba
    \<and> (\<forall>j k. j < k \<and> k < 1250 \<longrightarrow> (tba_next_lba ^^ j) lba \<noteq> (tba_next_lba ^^ k) lba)"
proof -
  have uniq: "unat x = unat y"
    if "tba_pos_ok x" "tba_pos_ok y" "(unat x - 3000) div 8 = (unat y - 3000) div 8" for x y
    using that by (auto simp: tba_pos_ok_def)
  have "unat ((tba_next_lba ^^ 1250) lba) = unat lba"
    by (rule uniq [OF tba.valid_steps [OF assms] assms tba.lap [OF assms]])
  moreover have "(tba_next_lba ^^ j) lba \<noteq> (tba_next_lba ^^ k) lba" if "j < k" "k < 1250" for j k
    using tba.within_lap [OF assms that] by auto
  ultimately show ?thesis by blast
qed

theorem recorder_lap_witness: "unat ((tba_next_lba ^^ 1250) 3000) = 3000"
  using recorder_lap [of 3000] by (simp add: tba_pos_ok_def)

text \<open>The frames in the buffer that are already recorded.\<close>

definition frames_valid :: "nat \<Rightarrow> mem \<Rightarrow> bool" where
  "frames_valid n m \<longleftrightarrow> (\<forall>j < n. cb_validate m (tba_ram_buffer + 256 * j))"

lemma record_valid:
  assumes "frames_valid i m"
  shows "frames_valid (i + 1) (cb_build (tba_ram_buffer + i * 256) sv r g b a m)"
  unfolding frames_valid_def
proof (intro allI impI)
  fix j
  assume j: "j < i + 1"
  show "cb_validate (cb_build (tba_ram_buffer + i * 256) sv r g b a m) (tba_ram_buffer + 256 * j)"
  proof (cases "j = i")
    case True
    then show ?thesis using cb_build_valid by (simp add: mult.commute)
  next
    case False
    with j have "j < i" by simp
    then show ?thesis
      using cosmos.build_other_valid [of m "tba_ram_buffer + 256 * j" "tba_ram_buffer + i * 256" "(sv, r, g, b, a)"]
        assms by (simp add: frames_valid_def)
  qed
qed

text \<open>
  Property C12. When the sixteenth frame is recorded on a ready drive, the eight sectors at the
  disk position hold the sixteen frames, each of which validates, no other sector changes, the
  buffer is empty again and the position has moved on.
\<close>

theorem recorder_flush_stores_frames:
  assumes rdy: "sata_ready hw port V L hdr tbl s" and port: "global_active_port s = port" "port \<noteq> 0"
    and buf: "clear_of (sata_priv hdr tbl) tba_ram_buffer 4096"
    and idx: "tba_block_idx s = 15" and val: "frames_valid 15 (ram s)"
  shows "let s' = snd (run_state (tba_record_frame hw sv r g b a) s) in
      tba_block_idx s' = 0 \<and> tba_current_lba s' = tba_next_lba (tba_current_lba s)
      \<and> (\<forall>k < 8. \<forall>h < 2. cb_validate ((!) (s_sect V (dev s') (tba_current_lba s + word_of_nat k))) (256 * h))
      \<and> (\<forall>x. (\<forall>k < 8. x \<noteq> tba_current_lba s + word_of_nat k) \<longrightarrow> s_sect V (dev s') x = s_sect V (dev s) x)"
proof -
  let ?m = "cb_build (tba_ram_buffer + 15 * 256) sv r g b a (ram s)"
  let ?s1 = "s\<lparr>ram := ?m, tba_block_idx := 16\<rparr>"
  have fit: "tba_ram_buffer + 512 * 8 \<le> 2 ^ 32" by (simp add: tba_ram_buffer_def)
  have buf8: "clear_of (sata_priv hdr tbl) tba_ram_buffer (512 * 8)" using buf by simp
  have "sata_ready hw port V L hdr tbl (s\<lparr>ram := ?m\<rparr>)"
  proof (rule sata_ready_ram [OF rdy])
    fix i
    assume "i \<in> sata_priv hdr tbl"
    from clear_ofD [OF buf this] show "?m i = ram s i" by (intro cb_build_other) auto
  qed
  then have r1: "sata_ready hw port V L hdr tbl ?s1" by (simp add: sata_ready_def)
  from sata.wr_run_ok [OF r1 buf8 fit, of "tba_current_lba s"] obtain m d where
    run: "run_state (sata.wr_run hw port (tba_current_lba s) tba_ram_buffer 8) ?s1 = ((), ?s1\<lparr>ram := m, dev := d\<rparr>)"
    and new: "\<forall>k < 8. s_sect V d (tba_current_lba s + word_of_nat k) = rd_bytes ?m (tba_ram_buffer + 512 * k) 512"
    and old: "\<forall>x. (\<forall>k < 8. x \<noteq> tba_current_lba s + word_of_nat k) \<longrightarrow> s_sect V d x = s_sect V (dev s) x" by auto
  have loop: "run_state (for_m [0..<8] (\<lambda>k. do {
         ahci_write hw port (tba_current_lba s + word_of_nat k) (word_of_nat (tba_ram_buffer + 512 * k));
         skip })) ?s1 = ((), ?s1\<lparr>ram := m, dev := d\<rparr>)"
    by (simp only: sata.for_wr0 run)
  have fv: "frames_valid 16 ?m" using record_valid [OF val, of sv r g b a] by simp
  have "cb_validate ((!) (s_sect V d (tba_current_lba s + word_of_nat k))) (256 * h)" if k: "k < 8" "h < 2" for k h
  proof -
    have "cb_validate ?m (tba_ram_buffer + 256 * (2 * k + h))"
    proof -
      have "2 * k + h < 16" using k by linarith
      then show ?thesis using fv unfolding frames_valid_def by blast
    qed
    then show ?thesis
    proof (rule cb_validate_local [THEN iffD1, rotated])
      fix i :: nat
      assume i: "i < 256"
      have "256 * h + i < 512" using k(2) i by linarith
      then have "rd_bytes ?m (tba_ram_buffer + 512 * k) 512 ! (256 * h + i) = ?m (tba_ram_buffer + 512 * k + (256 * h + i))"
        by (simp add: rd_bytes_def)
      then show "?m (tba_ram_buffer + 256 * (2 * k + h) + i)
          = s_sect V d (tba_current_lba s + word_of_nat k) ! (256 * h + i)"
        using new k(1) by (simp add: algebra_simps)
    qed
  qed
  moreover have "run_state (tba_record_frame hw sv r g b a) s = ((), s\<lparr>ram := m, dev := d,
      tba_block_idx := 0, tba_current_lba := tba_next_lba (tba_current_lba s)\<rparr>)"
    using idx port loop
    by (simp add: tba_record_frame_def tba_advance_def tba_flush_to_disk_def get_active_ahci_port_def)
  ultimately show ?thesis using old by (simp add: Let_def)
qed

theorem recorder_flush_stores_frames_witness:
  "tba_current_lba (snd (run_state (tba_record_frame (ref_hw 256) 7 1 2 3 4) (start_recorder (\<lambda>_. []) 256 15))) = 3000"
proof -
  let ?s = "start_recorder (\<lambda>_. []) 256 15"
  have rdy: "sata_ready (ref_hw 256) 256 ref_view 3 0x800000 0x800800 ?s"
    using ref_spec by (simp add: sata_ready_def start_recorder_def ref_view_def)
  have "frames_valid 15 (ram ?s)"
    unfolding frames_valid_def
  proof (intro allI impI)
    fix j :: nat
    assume "j < 15"
    then have "cb_validate (cosmos.build_all 0x900000 (replicate 15 (7, 1, 2, 3, 4)) (\<lambda>_. 0)) (0x900000 + 256 * j)"
      by (intro cosmos.build_all_valid) simp
    then show "cb_validate (ram ?s) (tba_ram_buffer + 256 * j)"
      unfolding tba_ram_buffer_def
      by (rule cosmos.valid_after) (simp add: start_recorder_def wr32_other)
  qed
  then have "let s' = snd (run_state (tba_record_frame (ref_hw 256) 7 1 2 3 4) ?s) in
      tba_block_idx s' = 0 \<and> tba_current_lba s' = tba_next_lba (tba_current_lba ?s)
      \<and> (\<forall>k < 8. \<forall>h < 2. cb_validate ((!) (s_sect ref_view (dev s') (tba_current_lba ?s + word_of_nat k))) (256 * h))
      \<and> (\<forall>x. (\<forall>k < 8. x \<noteq> tba_current_lba ?s + word_of_nat k) \<longrightarrow> s_sect ref_view (dev s') x = s_sect ref_view (dev ?s) x)"
    by (intro recorder_flush_stores_frames [OF rdy])
      (auto simp: start_recorder_def clear_of_def sata_priv_def tba_ram_buffer_def)
  then have "tba_current_lba (snd (run_state (tba_record_frame (ref_hw 256) 7 1 2 3 4) ?s))
      = tba_next_lba (tba_current_lba ?s)" by (simp only: Let_def)
  then show ?thesis by (simp add: start_recorder_def tba_next_lba_def tba_max_lba_def)
qed

end
