(* ===== verification/Partition.thy ===== *)
theory Partition
  imports Ahci CStrings
begin

text \<open>
  \<open>cosmos_partition.cpp\<close> and the sector analysers of \<open>cosmos_fs.cpp\<close>: what the two kernels
  read out of boot sectors, GPT tables and NTFS records. The analysers look at a buffer in
  memory; an offset computed from the data may lie outside the buffer the caller filled, and
  \<open>mem\<close> then gives the byte that is there.
\<close>

subsection \<open>Partition scan of the OS1/OS2 bridge\<close>

record 'd part_state = "'d disks" +
  gpt_partition_starts :: "u64 list"
  gpt_partition_count :: nat

definition part_buffer :: nat where "part_buffer = 0x06000000"

text \<open>\<open>starts[count] = lba; count++\<close> on the array of 16\<close>

definition add_start :: "u64 \<Rightarrow> u64 list \<times> nat \<Rightarrow> u64 list \<times> nat" where
  "add_start lba p = ((fst p)[snd p := lba], snd p + 1)"

definition gpt_collect :: "mem \<Rightarrow> nat \<Rightarrow> u64 list \<times> nat \<Rightarrow> u64 list \<times> nat" where
  "gpt_collect m buf p = fold (\<lambda>i p.
     if rd64 m (buf + 128 * i + 32) \<noteq> 0 then add_start (rd64 m (buf + 128 * i + 32)) p else p) [0..<16] p"

definition mbr_collect :: "mem \<Rightarrow> nat \<Rightarrow> u64 list \<times> nat \<Rightarrow> u64 list \<times> nat" where
  "mbr_collect m buf p = fold (\<lambda>i p.
     let e = buf + 446 + i * 16; ty = m (e + 4); start_lba = rd32 m (e + 8)
     in if ty \<noteq> 0 \<and> start_lba \<noteq> 0 then add_start (ucast start_lba) p else p) [0..<4] p"

definition set_parts :: "u64 list \<times> nat \<Rightarrow> (('d, 'z) part_state_scheme, unit) state" where
  "set_parts p = modify (\<lambda>s. s\<lparr>gpt_partition_starts := fst p, gpt_partition_count := snd p\<rparr>)"

text \<open>\<open>scan_partitions\<close>, cosmos_partition.cpp:11\<close>

definition scan_mbr :: "'d hw \<Rightarrow> u8 \<Rightarrow> (('d, 'z) part_state_scheme, unit) state" where
  "scan_mbr hw port_no = do {
     ok \<leftarrow> ahci_read_sectors hw (unat port_no) 0 1 (word_of_nat part_buffer);
     m \<leftarrow> peek id;
     p \<leftarrow> gets (\<lambda>s. (gpt_partition_starts s, gpt_partition_count s));
     when_m (ok \<and> m (part_buffer + 510) = 0x55 \<and> m (part_buffer + 511) = 0xAA)
       (set_parts (mbr_collect m part_buffer p))
   }"

definition scan_partitions :: "'d hw \<Rightarrow> u8 \<Rightarrow> (('d, 'z) part_state_scheme, unit) state" where
  "scan_partitions hw port_no = do {
     modify (\<lambda>s. s\<lparr>gpt_partition_count := 0\<rparr>);
     ok \<leftarrow> ahci_read_sectors hw (unat port_no) 1 1 (word_of_nat part_buffer);
     m \<leftarrow> peek id;
     if ok \<and> rd64 m part_buffer = 0x5452415020494645 then do {
       ok2 \<leftarrow> ahci_read_sectors hw (unat port_no) (ucast (rd64 m (part_buffer + 72))) 4 (word_of_nat part_buffer);
       m2 \<leftarrow> peek id;
       p \<leftarrow> gets (\<lambda>s. (gpt_partition_starts s, gpt_partition_count s));
       when_m ok2 (set_parts (gpt_collect m2 part_buffer p))
     }
     else scan_mbr hw port_no
   }"

subsection \<open>The analysers of the disk view\<close>

record parts =
  mbr_info_text :: string
  mbr_start_lba :: u32
  gpt_partition_lba :: u32
  mft_start_lba :: u32

text \<open>\<open>analyze_mbr\<close>, cosmos_fs.cpp:53\<close>

fun mbr_entries :: "mem \<Rightarrow> nat \<Rightarrow> nat list \<Rightarrow> parts \<Rightarrow> parts" where
  "mbr_entries m buf [] p = p"
| "mbr_entries m buf (i # is) p =
     (let e = buf + 446 + i * 16; part_type = m (e + 4) in
      if part_type = 0 then p
      else let p1 = p\<lparr>mbr_start_lba := rd32 m (e + 8)\<rparr> in
        if part_type = 0x07 then p1\<lparr>mbr_info_text := ''FORMAT: NTFS / exFAT''\<rparr>
        else if part_type = 0x0B \<or> part_type = 0x0C then p1\<lparr>mbr_info_text := ''FORMAT: FAT32''\<rparr>
        else if part_type = 0xEE then p1\<lparr>mbr_info_text := ''FORMAT: GPT (MODERN EFI)''\<rparr>
        else p1\<lparr>mbr_info_text := ''FORMAT: UNKNOWN TYPE''\<rparr>)"

definition analyze_mbr :: "mem \<Rightarrow> nat \<Rightarrow> parts \<Rightarrow> parts" where
  "analyze_mbr m buf p =
     (if m (buf + 510) \<noteq> 0x55 \<or> m (buf + 511) \<noteq> 0xAA then p\<lparr>mbr_info_text := ''STATUS: RAW (NO SIGNATURE)''\<rparr>
      else mbr_entries m buf [0..<4] p)"

text \<open>\<open>analyze_gpt\<close>, cosmos_fs.cpp:79\<close>

definition analyze_gpt :: "mem \<Rightarrow> nat \<Rightarrow> parts \<Rightarrow> parts" where
  "analyze_gpt m buf p =
     (if \<not> bytes_are m buf ''EFI PART'' then p\<lparr>mbr_info_text := ''GPT ERROR: INVALID SIGNATURE''\<rparr>
      else p\<lparr>mbr_info_text := ''GPT HEADER FOUND! READ LBA 2 NEXT.'', gpt_partition_lba := rd32 m (buf + 72)\<rparr>)"

text \<open>\<open>analyze_gpt_entries\<close>, cosmos_fs.cpp:99\<close>

fun gpt_entries :: "mem \<Rightarrow> nat \<Rightarrow> nat list \<Rightarrow> bool \<Rightarrow> parts \<Rightarrow> parts" where
  "gpt_entries m buf [] found_any p =
     (if \<not> found_any then p\<lparr>mbr_info_text := ''GPT: NO KNOWN PARTITION FOUND''\<rparr> else p)"
| "gpt_entries m buf (i # is) found_any p =
     (let e = buf + i * 128; first_lba = rd32 m (e + 32); guid_part_1 = rd32 m e in
      if list_all (\<lambda>j. m (e + j) = 0) [0..<16] then gpt_entries m buf [] found_any p
      else if guid_part_1 = 0xEBD0A0A2 then
        p\<lparr>mbr_info_text := ''FOUND: MS DATA (exFAT/NTFS)'', gpt_partition_lba := first_lba\<rparr>
      else if guid_part_1 = 0xC12A7328 then
        gpt_entries m buf is True (p\<lparr>mbr_info_text := ''FOUND: EFI SYSTEM (FAT32)'', gpt_partition_lba := first_lba\<rparr>)
      else gpt_entries m buf is found_any p)"

definition analyze_gpt_entries :: "mem \<Rightarrow> nat \<Rightarrow> parts \<Rightarrow> parts" where
  "analyze_gpt_entries m buf p = gpt_entries m buf [0..<4] False p"

text \<open>\<open>analyze_vbr\<close>, cosmos_fs.cpp:134\<close>

definition analyze_vbr :: "mem \<Rightarrow> nat \<Rightarrow> parts \<Rightarrow> parts" where
  "analyze_vbr m buf p =
     (if bytes_are m (buf + 3) ''NTFS'' then
        p\<lparr>mft_start_lba := gpt_partition_lba p + rd32 m (buf + 48) * ucast (m (buf + 13)),
          mbr_info_text := ''MFT FOUND! DRIVE CAN BE ROOTED NOW.''\<rparr>
      else if bytes_are m (buf + 3) ''EXFA'' then p\<lparr>mbr_info_text := ''FILESYSTEM: exFAT''\<rparr>
      else p\<lparr>mbr_info_text := ''FILESYSTEM: UNKNOWN''\<rparr>)"

subsection \<open>Properties\<close>

lemma collect_filter:
  assumes "length (filter P vs) + k \<le> length ps"
  shows "let r = fold (\<lambda>v p. if P v then add_start v p else p) vs (ps, k) in
    snd r = k + length (filter P vs) \<and> length (fst r) = length ps
    \<and> take (k + length (filter P vs)) (fst r) = take k ps @ filter P vs"
  using assms
proof (induction vs arbitrary: ps k)
  case (Cons v vs)
  show ?case
  proof (cases "P v")
    case True
    then have "k < length ps" using Cons.prems by simp
    then have "take (k + 1) (ps[k := v]) = take k ps @ [v]"
      by (simp add: take_Suc_conv_app_nth)
    then show ?thesis using True Cons.IH [of "k + 1" "ps[k := v]"] Cons.prems
      by (simp add: add_start_def Let_def)
  next
    case False
    then show ?thesis using Cons by simp
  qed
qed simp

lemma fold_map_arg: "fold (\<lambda>i p. g (h i) p) is p = fold g (map h is) p"
  by (induction "is" arbitrary: p) auto

lemma gpt_collect_vals:
  "gpt_collect m buf p = fold (\<lambda>v p. if v \<noteq> 0 then add_start v p else p)
     (map (\<lambda>i. rd64 m (buf + 128 * i + 32)) [0..<16]) p"
  unfolding gpt_collect_def
  by (rule fold_map_arg [where g = "\<lambda>v p. if v \<noteq> 0 then add_start v p else p"])

definition mbr_start :: "mem \<Rightarrow> nat \<Rightarrow> nat \<Rightarrow> u64" where
  "mbr_start m buf i =
     (if m (buf + 446 + i * 16 + 4) \<noteq> 0 then ucast (rd32 m (buf + 446 + i * 16 + 8)) else 0)"

lemma mbr_collect_vals:
  "mbr_collect m buf p = fold (\<lambda>v p. if v \<noteq> 0 then add_start v p else p) (map (mbr_start m buf) [0..<4]) p"
proof -
  have z: "(ucast x :: u64) = 0 \<longleftrightarrow> x = 0" for x :: u32
  proof
    assume "(ucast x :: u64) = 0"
    then have "(ucast (ucast x :: u64) :: u32) = ucast (0 :: u64)" by (rule arg_cong)
    moreover have "(ucast (ucast x :: u64) :: u32) = x" by (rule bit_word_eqI) (auto simp: bit_simps)
    ultimately show "x = 0" by simp
  qed simp
  have "mbr_collect m buf p = fold (\<lambda>i p. if mbr_start m buf i \<noteq> 0 then add_start (mbr_start m buf i) p else p) [0..<4] p"
    unfolding mbr_collect_def by (rule fold_cong) (auto simp: mbr_start_def Let_def z)
  also have "\<dots> = fold (\<lambda>v p. if v \<noteq> 0 then add_start v p else p) (map (mbr_start m buf) [0..<4]) p"
    by (rule fold_map_arg [where g = "\<lambda>v p. if v \<noteq> 0 then add_start v p else p"])
  finally show ?thesis .
qed

text \<open>
  The partition list the second kernel receives: for a GPT table the non-zero start
  sectors of the first 16 entries, for an MBR those of the used entries among the four, in table
  order, and never more than the array of 16 holds.
\<close>

theorem partitions_collected:
  assumes "length ps = 16"
  shows "(let r = gpt_collect m buf (ps, 0) in
      take (snd r) (fst r) = filter (\<lambda>v. v \<noteq> 0) (map (\<lambda>i. rd64 m (buf + 128 * i + 32)) [0..<16])
      \<and> snd r \<le> 16 \<and> length (fst r) = 16)
    \<and> (let r = mbr_collect m buf (ps, 0) in
      take (snd r) (fst r) = filter (\<lambda>v. v \<noteq> 0) (map (mbr_start m buf) [0..<4])
      \<and> snd r \<le> 4 \<and> length (fst r) = 16)"
proof -
  let ?g = "map (\<lambda>i. rd64 m (buf + 128 * i + 32)) [0..<16]" and ?m = "map (mbr_start m buf) [0..<4]"
  have "length (filter (\<lambda>v. v \<noteq> 0) ?g) \<le> 16" "length (filter (\<lambda>v. v \<noteq> 0) ?m) \<le> 4"
    using length_filter_le [of "\<lambda>v. v \<noteq> 0" ?g] length_filter_le [of "\<lambda>v. v \<noteq> 0" ?m] by simp_all
  then show ?thesis
    using collect_filter [of "\<lambda>v. v \<noteq> 0" ?g 0 ps] collect_filter [of "\<lambda>v. v \<noteq> 0" ?m 0 ps] assms
    by (simp add: gpt_collect_vals mbr_collect_vals Let_def del: upt_Suc)
qed

theorem partitions_collected_witness:
  "snd (mbr_collect ((\<lambda>_. 0)(446 + 4 := 7, 446 + 8 := 63, 462 + 4 := 7)) 0 (replicate 16 0, 0)) \<le> 4"
  using partitions_collected [of "replicate 16 0" "(\<lambda>_. 0)(446 + 4 := 7, 446 + 8 := 63, 462 + 4 := 7)" 0]
  by (simp only: length_replicate Let_def simp_thms)

text \<open>
  \<open>analyze_mbr\<close> only ever looks at the first partition entry: when that slot is
  empty nothing is reported, whatever the other three slots contain.
\<close>

theorem analyze_mbr_first_entry:
  assumes "\<And>k. k < 16 \<Longrightarrow> m (buf + 446 + k) = m' (buf + 446 + k)"
    and "m (buf + 510) = m' (buf + 510)" and "m (buf + 511) = m' (buf + 511)"
  shows "analyze_mbr m buf p = analyze_mbr m' buf p
    \<and> (m (buf + 510) = 0x55 \<and> m (buf + 511) = 0xAA \<and> m (buf + 450) = 0 \<longrightarrow> analyze_mbr m buf p = p)"
proof -
  have "rd32 m (buf + 454) = rd32 m' (buf + 454)"
    by (rule rd32_cong) (use assms(1) [of "8 + _"] in \<open>simp add: add.assoc\<close>)
  moreover have "m (buf + 450) = m' (buf + 450)" using assms(1) [of 4] by (simp add: add.commute)
  moreover have "[0..<4] = 0 # [1..<4 :: nat]" by (simp add: upt_rec)
  ultimately show ?thesis using assms(2,3) by (simp add: analyze_mbr_def Let_def add.commute)
qed

theorem analyze_mbr_first_entry_witness:
  "analyze_mbr ((\<lambda>_. 0)(510 := 0x55, 511 := 0xAA, 466 := 7)) 0
     \<lparr>mbr_info_text = ''NEW'', mbr_start_lba = 1, gpt_partition_lba = 2, mft_start_lba = 3\<rparr>
   = \<lparr>mbr_info_text = ''NEW'', mbr_start_lba = 1, gpt_partition_lba = 2, mft_start_lba = 3\<rparr>"
  by (rule analyze_mbr_first_entry [where m' = "(\<lambda>_. 0)(510 := 0x55, 511 := 0xAA)" and buf = 0,
        THEN conjunct2, THEN mp]) simp_all

end
