(* ===== verification/Ata.thy ===== *)
theory Ata
  imports Usb Frames
begin

text \<open>
  \<open>cosmos_fs.cpp\<close>, the lower half: the PIO driver for ATA disks, the drive table that
  \<open>ata_scan_drives\<close> fills, the read router, the MBR view and the block store that packs two
  256-byte frames into a sector. The globals \<open>hdd_buf\<close> and \<open>sector0\<close> are memory; their
  addresses, given by the linker, are parameters.
\<close>

subsection \<open>State\<close>

text \<open>\<open>PhysicalDrive\<close> and \<open>Partition\<close>, cosmos_fs.h:8\<close>

record pdrive =
  present :: bool
  pd_model :: string
  pd_size_mb :: u32
  pd_base :: u16
  pd_slave :: bool
  pd_type :: nat

record mbr_part =
  part_status :: u8
  part_type :: u8
  part_start :: u32
  part_size :: u32

record 'd ata = "'d usb" +
  phys :: "pdrive list"
  ata_base :: u16
  usb_detected :: bool
  partitions :: "mbr_part list"

subsection \<open>The PIO driver\<close>

text \<open>\<open>ata_wait_busy\<close> and \<open>ata_wait_drq\<close>, cosmos_fs.cpp:270: true is a time-out\<close>

definition ata_wait :: "'d hw \<Rightarrow> u16 \<Rightarrow> (u8 \<Rightarrow> bool) \<Rightarrow> ('d, 'z, bool) op" where
  "ata_wait hw base f = do {
     ok \<leftarrow> poll_for (do { v \<leftarrow> inb hw (base + 7); State_Monad.return (f v) }) 100000;
     State_Monad.return (\<not> ok)
   }"

definition ata_wait_busy :: "'d hw \<Rightarrow> u16 \<Rightarrow> ('d, 'z, bool) op" where
  "ata_wait_busy hw base = ata_wait hw base (\<lambda>v. v AND 0x80 = 0)"

definition ata_wait_drq :: "'d hw \<Rightarrow> u16 \<Rightarrow> ('d, 'z, bool) op" where
  "ata_wait_drq hw base = ata_wait hw base (\<lambda>v. v AND 0x08 \<noteq> 0)"

text \<open>\<open>ata_read_sector\<close> and \<open>ata_write_sector\<close>, cosmos_fs.cpp:272 and 278\<close>

definition ata_setup :: "'d hw \<Rightarrow> u16 \<Rightarrow> bool \<Rightarrow> u32 \<Rightarrow> u8 \<Rightarrow> ('d, 'z, unit) op" where
  "ata_setup hw base slave lba cmd = do {
     outb hw (base + 6) (0xE0 OR (if slave then 0x10 else 0) OR (ucast (drop_bit 24 lba) AND 0x0F));
     outb hw (base + 1) 0;
     outb hw (base + 2) 1;
     outb hw (base + 3) (ucast lba);
     outb hw (base + 4) (ucast (drop_bit 8 lba));
     outb hw (base + 5) (ucast (drop_bit 16 lba));
     outb hw (base + 7) cmd
   }"

definition ata_read_sector :: "'d hw \<Rightarrow> u16 \<Rightarrow> bool \<Rightarrow> u32 \<Rightarrow> nat \<Rightarrow> ('d, 'z, unit) op" where
  "ata_read_sector hw base slave lba buffer =
     (if base = 0 then skip
      else do {
        e \<leftarrow> ata_wait_busy hw base;
        if e then skip
        else do {
          ata_setup hw base slave lba 0x20;
          e2 \<leftarrow> ata_wait_drq hw base;
          if e2 then skip else insw hw base buffer 256
        }
      })"

definition ata_write_sector :: "'d hw \<Rightarrow> u16 \<Rightarrow> bool \<Rightarrow> u32 \<Rightarrow> nat \<Rightarrow> ('d, 'z, unit) op" where
  "ata_write_sector hw base slave lba buffer =
     (if base = 0 then skip
      else do {
        e \<leftarrow> ata_wait_busy hw base;
        if e then skip
        else do {
          ata_setup hw base slave lba 0x30;
          e2 \<leftarrow> ata_wait_drq hw base;
          if e2 then skip else outsw hw base buffer 256
        }
      })"

text \<open>\<open>ata_probe\<close>, cosmos_fs.cpp:284: it gives up when the wait for the drive succeeded\<close>

definition ata_probe :: "'d hw \<Rightarrow> nat \<Rightarrow> u16 \<Rightarrow> (('d, 'z) ata_scheme, bool) state" where
  "ata_probe hw hdd_buf port = do {
     modify (\<lambda>s. s\<lparr>ata_base := port\<rparr>);
     outb hw (port + 6) 0xA0;
     outb hw (port + 7) 0xEC;
     v \<leftarrow> inb hw (port + 7);
     if v = 0 then State_Monad.return False
     else do {
       busy \<leftarrow> ata_wait_busy hw port;
       if \<not> busy then State_Monad.return False
       else do {
         e \<leftarrow> inb hw (port + 7);
         if e AND 1 \<noteq> 0 then State_Monad.return False
         else do { insw hw port hdd_buf 256; State_Monad.return True }
       }
     }
   }"

text \<open>\<open>ata_swap_string\<close>, cosmos_fs.cpp:285: bytes swapped in pairs, trailing spaces cleared\<close>

fun ata_trim :: "nat \<Rightarrow> string \<Rightarrow> string" where
  "ata_trim 0 s = s"
| "ata_trim (Suc n) s = (if s ! Suc n = CHR '' '' then ata_trim n (s[Suc n := CHR 0x00]) else s)"

definition ata_swap_string :: "mem \<Rightarrow> nat \<Rightarrow> nat \<Rightarrow> string" where
  "ata_swap_string m src len =
     c_str (ata_trim (len - 1)
       (concat (map (\<lambda>k. [chr_of (m (src + 2 * k + 1)), chr_of (m (src + 2 * k))]) [0..<len div 2])))"

text \<open>\<open>ata_identify\<close>, cosmos_fs.cpp:296\<close>

definition ata_status :: "'d hw \<Rightarrow> u16 \<Rightarrow> ('d, 'z, u8) op" where
  "ata_status hw base = do {
     r \<leftarrow> find_m [0..<1000 :: nat] (\<lambda>_. do {
       v \<leftarrow> inb hw (base + 7);
       State_Monad.return (if v \<noteq> 0 then Some v else None) });
     State_Monad.return (case r of None \<Rightarrow> 0 | Some v \<Rightarrow> v)
   }"

definition ata_data_ready :: "'d hw \<Rightarrow> u16 \<Rightarrow> ('d, 'z, bool) op" where
  "ata_data_ready hw base = do {
     r \<leftarrow> find_m [0..<1000000 :: nat] (\<lambda>_. do {
       v \<leftarrow> inb hw (base + 7);
       State_Monad.return (if v AND 1 \<noteq> 0 then Some False else if v AND 8 \<noteq> 0 then Some True else None) });
     State_Monad.return (r = Some True)
   }"

definition ata_found :: "mem \<Rightarrow> nat \<Rightarrow> u16 \<Rightarrow> bool \<Rightarrow> pdrive" where
  "ata_found m hdd_buf base slave =
     \<lparr>present = True, pd_model = ata_swap_string m (hdd_buf + 54) 40,
      pd_size_mb = (ucast (rd16 m (hdd_buf + 120)) OR push_bit 16 (ucast (rd16 m (hdd_buf + 122)))) div 2048,
      pd_base = base, pd_slave = slave, pd_type = 0\<rparr>"

definition ata_identify :: "'d hw \<Rightarrow> nat \<Rightarrow> u16 \<Rightarrow> bool \<Rightarrow> nat \<Rightarrow> (('d, 'z) ata_scheme, unit) state" where
  "ata_identify hw hdd_buf base slave slot = do {
     v \<leftarrow> inb hw (base + 7);
     if v = 0xFF then skip
     else do {
       outb hw (base + 6) (if slave then 0xB0 else 0xA0);
       for_m [0..<40 :: nat] (\<lambda>_. do { inb hw (base + 7); skip });
       outb hw (base + 2) 0; outb hw (base + 3) 0; outb hw (base + 4) 0; outb hw (base + 5) 0;
       outb hw (base + 7) 0xEC;
       st \<leftarrow> ata_status hw base;
       if st = 0 \<or> st = 0xFF then skip
       else do {
         timeout1 \<leftarrow> spin_while (do { v \<leftarrow> inb hw (base + 7); State_Monad.return (v AND 0x80 \<noteq> 0) }) 10000;
         if timeout1 = 0 then skip
         else do {
           cl \<leftarrow> inb hw (base + 4);
           ch \<leftarrow> inb hw (base + 5);
           if cl = 0x14 \<and> ch = 0xEB \<or> cl = 0x69 \<and> ch = 0x96 then skip
           else do {
             ready \<leftarrow> ata_data_ready hw base;
             if \<not> ready then skip
             else do {
               insw hw base hdd_buf 256;
               m \<leftarrow> peek id;
               when_m (slot < 8) (modify (\<lambda>s.
                 s\<lparr>phys := (phys s)[slot := ata_found m hdd_buf base slave], drive_count := drive_count s + 1\<rparr>))
             }
           }
         }
       }
     }
   }"

text \<open>\<open>ata_scan_drives\<close>, cosmos_fs.cpp:337; the stick goes to the slot with the number of drives\<close>

definition ata_add_usb :: "(('d, 'z) ata_scheme, unit) state" where
  "ata_add_usb = do {
     u \<leftarrow> gets usb_detected;
     d \<leftarrow> gets drive_count;
     when_m (u \<and> d < 20) (modify (\<lambda>s.
       s\<lparr>phys := (phys s)[d := (phys s ! d)\<lparr>present := True, pd_type := 3, pd_model := ''USB MASS STORAGE'', pd_size_mb := 16000\<rparr>],
         drive_count := d + 1\<rparr>))
   }"

definition ata_scan_drives :: "'d hw \<Rightarrow> nat \<Rightarrow> (('d, 'z) ata_scheme, unit) state" where
  "ata_scan_drives hw hdd_buf = do {
     modify (\<lambda>s. s\<lparr>drive_count := 0, phys := map (\<lambda>p. p\<lparr>present := False\<rparr>) (phys s)\<rparr>);
     ata_identify hw hdd_buf 0x1F0 False 0;
     ata_identify hw hdd_buf 0x1F0 True 1;
     ata_identify hw hdd_buf 0x170 False 2;
     ata_identify hw hdd_buf 0x170 True 3;
     b \<leftarrow> gets ata_base;
     when_m (0 < b \<and> b \<noteq> 0x1F0 \<and> b \<noteq> 0x170) (do {
       ata_identify hw hdd_buf b False 4;
       ata_identify hw hdd_buf b True 5
     });
     ata_add_usb;
     n \<leftarrow> gets drive_count;
     model0 \<leftarrow> gets (\<lambda>s. pd_model (phys s ! 0));
     set_hw_disk (if 0 < n then model0 else ''NO DRIVES'')
   }"

text \<open>\<open>mbr_scan\<close>, cosmos_fs.cpp:359\<close>

definition mbr_scan :: "'d hw \<Rightarrow> nat \<Rightarrow> (('d, 'z) ata_scheme, unit) state" where
  "mbr_scan hw sector0 = do {
     p \<leftarrow> gets (\<lambda>s. phys s ! 0);
     when_m (present p \<and> pd_type p = 0) (do {
       ata_read_sector hw (pd_base p) (pd_slave p) 0 sector0;
       m \<leftarrow> peek id;
       if m (sector0 + 510) = 0x55 \<and> m (sector0 + 511) = 0xAA then do {
         set_hw_disk ''DRIVE 0: MBR FOUND'';
         modify (\<lambda>s. s\<lparr>partitions := map (\<lambda>i. let off = sector0 + 446 + i * 16 in
            \<lparr>part_status = m off, part_type = m (off + 4), part_start = rd32 m (off + 8), part_size = rd32 m (off + 12)\<rparr>)
            [0..<4]\<rparr>)
       } else set_hw_disk ''DRIVE 0: UNKNOWN''
     })
   }"

subsection \<open>The read router and the block store\<close>

text \<open>\<open>fs_read_sectors\<close>, cosmos_fs.cpp:251\<close>

definition fs_read_sectors ::
  "'d hw \<Rightarrow> nat \<Rightarrow> int \<Rightarrow> u32 \<Rightarrow> nat \<Rightarrow> u32 \<Rightarrow> (('d, 'z) ata_scheme, unit) state" where
  "fs_read_sectors hw stk drive_idx lba buf count = do {
     n \<leftarrow> gets drive_count;
     if drive_idx < 0 \<or> int n \<le> drive_idx then skip
     else do {
       d \<leftarrow> gets (\<lambda>s. phys s ! nat drive_idx);
       if pd_type d = 0 \<or> pd_type d = 1 then do {
         ahci_read_sectors hw (unat (pd_base d)) lba count (word_of_nat buf);
         skip
       }
       else if pd_type d = 3 then do {
         usb_bot_read_sectors hw stk (ucast (pd_base d)) 2 129 lba count (word_of_nat buf);
         skip
       }
       else skip
     }
   }"

text \<open>\<open>fs_write_cosmos_blocks\<close> and \<open>fs_read_cosmos_blocks\<close>, cosmos_fs.cpp:363 and 381\<close>

function fs_write_loop :: "'d hw \<Rightarrow> nat \<Rightarrow> pdrive \<Rightarrow> u32 \<Rightarrow> nat \<Rightarrow> nat \<Rightarrow> ('d, 'z, unit) op" where
  "fs_write_loop hw hdd_buf d lba src n =
     (if n = 0 then skip
      else do {
        poke (zero_fill hdd_buf 512);
        poke (mem_copy (256 * min 2 n) hdd_buf src);
        ata_write_sector hw (pd_base d) (pd_slave d) lba hdd_buf;
        fs_write_loop hw hdd_buf d (lba + 1) (src + 256 * min 2 n) (n - min 2 n)
      })"
  by pat_completeness auto
termination by (relation "measure (\<lambda>(_, _, _, _, _, n). n)") auto

declare fs_write_loop.simps [simp del]

definition fs_write_cosmos_blocks ::
  "'d hw \<Rightarrow> nat \<Rightarrow> int \<Rightarrow> u32 \<Rightarrow> nat \<Rightarrow> int \<Rightarrow> (('d, 'z) ata_scheme, unit) state" where
  "fs_write_cosmos_blocks hw hdd_buf drive_idx start_lba block_array num_blocks = do {
     n \<leftarrow> gets drive_count;
     d \<leftarrow> gets (\<lambda>s. phys s ! nat drive_idx);
     if drive_idx < 0 \<or> int n \<le> drive_idx then skip
     else fs_write_loop hw hdd_buf d start_lba block_array (nat num_blocks)
   }"

text \<open>One frame of the sector buffer: it is validated and copied to its place in the array.\<close>

definition fs_take_block :: "nat \<Rightarrow> nat \<Rightarrow> ('d, 'z, nat) op" where
  "fs_take_block src dst = do {
     ok \<leftarrow> peek (\<lambda>m. cb_validate m src);
     if ok then do { poke (copy_frame dst src); State_Monad.return 1 }
     else State_Monad.return 0
   }"

function fs_read_loop :: "'d hw \<Rightarrow> nat \<Rightarrow> pdrive \<Rightarrow> u32 \<Rightarrow> nat \<Rightarrow> nat \<Rightarrow> nat \<Rightarrow> ('d, 'z, nat) op" where
  "fs_read_loop hw hdd_buf d lba dst n found =
     (if n = 0 then State_Monad.return found
      else do {
        ata_read_sector hw (pd_base d) (pd_slave d) lba hdd_buf;
        k0 \<leftarrow> fs_take_block hdd_buf dst;
        k1 \<leftarrow> (if n = 1 then State_Monad.return 0 else fs_take_block (hdd_buf + 256) (dst + 256));
        fs_read_loop hw hdd_buf d (lba + 1) (dst + 256 * min 2 n) (n - min 2 n) (found + k0 + k1)
      })"
  by pat_completeness auto
termination by (relation "measure (\<lambda>(_, _, _, _, _, n, _). n)") auto

declare fs_read_loop.simps [simp del]

definition fs_read_cosmos_blocks ::
  "'d hw \<Rightarrow> nat \<Rightarrow> int \<Rightarrow> u32 \<Rightarrow> nat \<Rightarrow> int \<Rightarrow> (('d, 'z) ata_scheme, nat) state" where
  "fs_read_cosmos_blocks hw hdd_buf drive_idx start_lba block_array num_blocks = do {
     n \<leftarrow> gets drive_count;
     d \<leftarrow> gets (\<lambda>s. phys s ! nat drive_idx);
     if drive_idx < 0 \<or> int n \<le> drive_idx then State_Monad.return 0
     else fs_read_loop hw hdd_buf d start_lba block_array (nat num_blocks) 0
   }"
subsection \<open>Halfwords in memory\<close>

fun wr_half :: "nat \<Rightarrow> u16 list \<Rightarrow> mem \<Rightarrow> mem" where
  "wr_half a [] m = m"
| "wr_half a (w # ws) m = wr_half (a + 2) ws (wr16 a w m)"

definition rd_half :: "mem \<Rightarrow> nat \<Rightarrow> nat \<Rightarrow> u16 list" where
  "rd_half m a n = map (\<lambda>i. rd16 m (a + 2 * i)) [0..<n]"

lemma rd_half_Suc: "rd_half m a (Suc n) = rd16 m a # rd_half m (a + 2) n"
  by (simp add: rd_half_def upt_conv_Cons map_Suc_upt [symmetric] del: upt_Suc)

lemma length_rd_half [simp]: "length (rd_half m a n) = n"
  by (simp add: rd_half_def)

lemma rd_half_0 [simp]: "rd_half m a 0 = []"
  by (simp add: rd_half_def)

lemma wr_half_other: "i < a \<or> a + 2 * length ws \<le> i \<Longrightarrow> wr_half a ws m i = m i"
  by (induction ws arbitrary: a m) (auto simp: wr16_other)

lemma wr16_rd16_bytes: "wr16 a (rd16 m b) m' a = m b" "wr16 a (rd16 m b) m' (a + 1) = m (b + 1)"
  by (rule bit_word_eqI; auto simp: wr16_def rd16_def bit_simps dest: bit_imp_le_length)+

lemma rd_bytes_Suc2: "rd_bytes m a (2 * Suc n) = m a # m (a + 1) # rd_bytes m (a + 2) (2 * n)"
  by (simp add: rd_bytes_def upt_conv_Cons map_Suc_upt [symmetric] del: upt_Suc)

text \<open>Storing the halfwords read from one place copies the bytes.\<close>

lemma wr_half_rd_half: "rd_bytes (wr_half a (rd_half m b n) m') a (2 * n) = rd_bytes m b (2 * n)"
proof (induction n arbitrary: a b m')
  case (Suc n)
  let ?m = "wr16 a (rd16 m b) m'"
  have "wr_half (a + 2) (rd_half m (b + 2) n) ?m a = m b"
    "wr_half (a + 2) (rd_half m (b + 2) n) ?m (a + 1) = m (b + 1)"
    using wr16_rd16_bytes [of a m b m'] by (simp_all add: wr_half_other)
  then show ?case using Suc [of "a + 2" "b + 2" ?m] by (simp only: rd_half_Suc wr_half.simps rd_bytes_Suc2)
qed (simp add: rd_bytes_def)

subsection \<open>The disk behind the ports\<close>

text \<open>
  The PIO protocol of an ATA disk as the standard documents it: a task file, the commands READ
  and WRITE SECTOR(S) for one sector, and 256 data words in or out. \<open>ata_spec\<close> says that the
  ports of a controller behave like this disk; the sector of a command is the key formed by the
  LBA registers and the low half of the device register.
\<close>

datatype ata_phase = Idle | Data_In "u16 list" | Data_Out "u16 list"

record ata_disk =
  ad_regs :: "nat \<Rightarrow> u8"
  ad_sect :: "u32 \<Rightarrow> u16 list"
  ad_phase :: ata_phase

definition reg_key :: "(nat \<Rightarrow> u8) \<Rightarrow> u32" where
  "reg_key r = ucast (r 3) OR push_bit 8 (ucast (r 4)) OR push_bit 16 (ucast (r 5)) OR push_bit 24 (ucast (r 6 AND 0x1F))"

definition disk_outb :: "nat \<Rightarrow> u8 \<Rightarrow> ata_disk \<Rightarrow> ata_disk" where
  "disk_outb r v a =
     (if r = 7 then
        if v = 0x20 then a\<lparr>ad_phase := Data_In (ad_sect a (reg_key (ad_regs a)))\<rparr>
        else if v = 0x30 then a\<lparr>ad_phase := Data_Out []\<rparr>
        else a
      else a\<lparr>ad_regs := (ad_regs a)(r := v)\<rparr>)"

definition disk_inw :: "ata_disk \<Rightarrow> u16 \<times> ata_disk" where
  "disk_inw a = (case ad_phase a of
     Data_In (w # ws) \<Rightarrow> (w, a\<lparr>ad_phase := if ws = [] then Idle else Data_In ws\<rparr>)
   | _ \<Rightarrow> (0, a))"

definition disk_outw :: "u16 \<Rightarrow> ata_disk \<Rightarrow> ata_disk" where
  "disk_outw w a = (case ad_phase a of
     Data_Out ws \<Rightarrow>
       if length ws = 255 then a\<lparr>ad_sect := (ad_sect a)(reg_key (ad_regs a) := ws @ [w]), ad_phase := Idle\<rparr>
       else a\<lparr>ad_phase := Data_Out (ws @ [w])\<rparr>
   | _ \<Rightarrow> a)"

definition ata_spec :: "'d hw \<Rightarrow> u16 \<Rightarrow> ('d \<Rightarrow> ata_disk) \<Rightarrow> bool" where
  "ata_spec hw base V \<longleftrightarrow>
     (\<forall>m d. case hw_inb hw (base + 7) (m, d) of (v, (m', d')) \<Rightarrow>
        v AND 0x80 = 0 \<and> (v AND 0x08 \<noteq> 0 \<longleftrightarrow> ad_phase (V d) \<noteq> Idle) \<and> m' = m \<and> V d' = V d)
   \<and> (\<forall>k v m d. 0 < k \<and> k < 8 \<longrightarrow> (case hw_outb hw (base + word_of_nat k) v (m, d) of (m', d') \<Rightarrow>
        m' = m \<and> V d' = disk_outb k v (V d)))
   \<and> (\<forall>m d. case hw_inw hw base (m, d) of (v, (m', d')) \<Rightarrow> m' = m \<and> (v, V d') = disk_inw (V d))
   \<and> (\<forall>v m d. case hw_outw hw base v (m, d) of (m', d') \<Rightarrow> m' = m \<and> V d' = disk_outw v (V d))"

text \<open>The machine has memory \<open>m\<close>, and the disk is in state \<open>a\<close>.\<close>

definition holds :: "('d \<Rightarrow> ata_disk) \<Rightarrow> ('d, 'z) machine_scheme \<Rightarrow> mem \<Rightarrow> ata_disk \<Rightarrow> bool" where
  "holds V s m a \<longleftrightarrow> ram s = m \<and> V (dev s) = a"

lemma spec_inb:
  assumes "ata_spec hw base V" "holds V s m a"
  obtains v s' where "run_state (inb hw (base + 7)) s = (v, s')" "holds V s' m a" "v AND 0x80 = 0"
    "v AND 0x08 \<noteq> 0 \<longleftrightarrow> ad_phase a \<noteq> Idle"
proof -
  obtain v m' d' where r: "hw_inb hw (base + 7) (ram s, dev s) = (v, (m', d'))" by (metis prod.exhaust)
  then have "v AND 0x80 = 0 \<and> (v AND 0x08 \<noteq> 0 \<longleftrightarrow> ad_phase (V (dev s)) \<noteq> Idle) \<and> m' = ram s \<and> V d' = V (dev s)"
    using assms(1) [unfolded ata_spec_def, THEN conjunct1, rule_format, where m = "ram s" and d = "dev s"] by simp
  then show thesis using that [of v "s\<lparr>ram := m', dev := d'\<rparr>"] r assms(2)
    by (simp add: inb_def run_dev_read holds_def)
qed

lemma spec_outb:
  assumes "ata_spec hw base V" "holds V s m a" "0 < k" "k < 8"
  shows "holds V (snd (run_state (outb hw (base + word_of_nat k) v) s)) m (disk_outb k v a)"
proof -
  obtain m' d' where r: "hw_outb hw (base + word_of_nat k) v (ram s, dev s) = (m', d')" by (metis prod.exhaust)
  then have "m' = ram s \<and> V d' = disk_outb k v (V (dev s))"
    using assms(1) [unfolded ata_spec_def, THEN conjunct2, THEN conjunct1, rule_format, where k = k and v = v and m = "ram s" and d = "dev s"]
      assms(3,4) by simp
  then show ?thesis using r assms(2) by (simp add: outb_def run_dev_write holds_def)
qed

lemma spec_inw:
  assumes "ata_spec hw base V" "holds V s m a" "ad_phase a = Data_In (w # ws)"
  obtains s' where "run_state (inw hw base) s = (w, s')"
    "holds V s' m (a\<lparr>ad_phase := if ws = [] then Idle else Data_In ws\<rparr>)"
proof -
  obtain v m' d' where r: "hw_inw hw base (ram s, dev s) = (v, (m', d'))" by (metis prod.exhaust)
  then have "m' = ram s \<and> (v, V d') = disk_inw (V (dev s))"
    using assms(1) [unfolded ata_spec_def, THEN conjunct2, THEN conjunct2, THEN conjunct1, rule_format, where m = "ram s" and d = "dev s"]
    by simp
  then show thesis using that [of "s\<lparr>ram := m', dev := d'\<rparr>"] r assms(2,3)
    by (auto simp: inw_def run_dev_read holds_def disk_inw_def)
qed

lemma spec_outw:
  assumes "ata_spec hw base V" "holds V s m a"
  shows "holds V (snd (run_state (outw hw base w) s)) m (disk_outw w a)"
proof -
  obtain m' d' where r: "hw_outw hw base w (ram s, dev s) = (m', d')" by (metis prod.exhaust)
  then have "m' = ram s \<and> V d' = disk_outw w (V (dev s))"
    using assms(1) [unfolded ata_spec_def, THEN conjunct2, THEN conjunct2, THEN conjunct2, rule_format, where v = w and m = "ram s" and d = "dev s"]
    by simp
  then show ?thesis using r assms(2) by (simp add: outw_def run_dev_write holds_def)
qed
subsection \<open>The driver on such a disk\<close>

lemma wait_ok:
  assumes "ata_spec hw base V" "holds V s m a"
    and f: "\<And>v. v AND 0x80 = 0 \<Longrightarrow> (v AND 0x08 \<noteq> 0 \<longleftrightarrow> ad_phase a \<noteq> Idle) \<Longrightarrow> f v"
  obtains s' where "run_state (ata_wait hw base f) s = (False, s')" "holds V s' m a"
proof -
  obtain v s' where r: "run_state (inb hw (base + 7)) s = (v, s')" "holds V s' m a" "f v"
    using spec_inb [OF assms(1,2)] f by metis
  let ?c = "do { v \<leftarrow> inb hw (base + 7); State_Monad.return (f v) }"
  have c: "run_state ?c s = (True, s')" using r by simp
  then have "run_state (poll_for ?c 100000) s = (True, s')" by (simp add: poll_for_now)
  then show thesis using that [of s'] r(2) by (simp add: ata_wait_def)
qed

definition setup_regs :: "bool \<Rightarrow> u32 \<Rightarrow> (nat \<Rightarrow> u8) \<Rightarrow> nat \<Rightarrow> u8" where
  "setup_regs slave lba r = r(6 := 0xE0 OR (if slave then 0x10 else 0) OR (ucast (drop_bit 24 lba) AND 0x0F),
     1 := 0, 2 := 1, 3 := ucast lba, 4 := ucast (drop_bit 8 lba), 5 := ucast (drop_bit 16 lba))"

text \<open>The sector a command addresses: 28 bits of the LBA, and the drive.\<close>

definition ata_key :: "bool \<Rightarrow> u32 \<Rightarrow> u32" where
  "ata_key slave lba = (lba AND 0x0FFFFFFF) OR (if slave then 0x10000000 else 0)"

lemma reg_key_setup: "reg_key (setup_regs slave lba r) = ata_key slave lba"
proof -
  have k: "(0x0FFFFFFF :: u32) = mask 28" "(0x0F :: u8) = mask 4"
    by (simp_all add: mask_eq_exp_minus_1)
  let ?h = "ucast (drop_bit 24 lba) AND mask 4 :: u8"
  have dev: "(0xE0 OR (if slave then 0x10 else 0) OR (ucast (drop_bit 24 lba) AND 0x0F)) AND 0x1F
      = (if slave then 0x10 else 0) OR ?h"
    unfolding k by (cases slave) (simp_all add: bit.conj_disj_distrib2 and.assoc mask_eq_exp_minus_1)
  have split: "ucast ((if slave then 0x10 else 0) OR ?h :: u8) = (if slave then 0x10 else 0) OR (ucast ?h :: u32)"
    by (cases slave) (simp_all add: unsigned_or_eq)
  have low: "(ucast (ucast lba :: u8) :: u32) OR push_bit 8 (ucast (ucast (drop_bit 8 lba) :: u8))
      OR push_bit 16 (ucast (ucast (drop_bit 16 lba) :: u8)) OR push_bit 24 (ucast ?h) = lba AND mask 28"
  proof (rule bit_word_eqI)
    fix n
    assume n: "n < LENGTH(32)"
    consider "n < 8" | "8 \<le> n" "n < 16" | "16 \<le> n" "n < 24" | "24 \<le> n" "n < 28" | "28 \<le> n" "n < 32"
      using n by fastforce
    then show "bit ((ucast (ucast lba :: u8) :: u32) OR push_bit 8 (ucast (ucast (drop_bit 8 lba) :: u8))
      OR push_bit 16 (ucast (ucast (drop_bit 16 lba) :: u8)) OR push_bit 24 (ucast ?h)) n = bit (lba AND mask 28) n"
      by cases (auto simp: bit_simps)
  qed
  have regs: "setup_regs slave lba r 3 = ucast lba" "setup_regs slave lba r 4 = ucast (drop_bit 8 lba)"
    "setup_regs slave lba r 5 = ucast (drop_bit 16 lba)"
    "setup_regs slave lba r 6 = 0xE0 OR (if slave then 0x10 else 0) OR (ucast (drop_bit 24 lba) AND 0x0F)"
    by (simp_all add: setup_regs_def)
  have dev6: "setup_regs slave lba r 6 AND 0x1F = (if slave then 0x10 else 0) OR ?h"
    unfolding regs(4) by (rule dev)
  have "reg_key (setup_regs slave lba r) = ucast (ucast lba :: u8) OR push_bit 8 (ucast (ucast (drop_bit 8 lba) :: u8))
      OR push_bit 16 (ucast (ucast (drop_bit 16 lba) :: u8))
      OR push_bit 24 ((if slave then 0x10 else 0) OR ucast ?h)"
    using regs dev6 by (simp only: reg_key_def split)
  also have "\<dots> = (lba AND mask 28) OR push_bit 24 (if slave then 0x10 else 0)"
    by (simp only: push_bit_or low [symmetric] or.assoc or.commute or.left_commute)
  also have "\<dots> = ata_key slave lba"
    by (simp add: ata_key_def mask_eq_exp_minus_1)
  finally show ?thesis .
qed

lemma setup_ok:
  assumes "ata_spec hw base V" "holds V s m a"
  shows "holds V (snd (run_state (ata_setup hw base slave lba cmd) s)) m
    (disk_outb 7 cmd (a\<lparr>ad_regs := setup_regs slave lba (ad_regs a)\<rparr>))"
proof -
  let ?d = "0xE0 OR (if slave then 0x10 else 0) OR (ucast (drop_bit 24 lba) AND 0x0F) :: u8"
  obtain s1 where 1: "run_state (outb hw (base + 6) ?d) s = ((), s1)" by (rule run_unitE)
  obtain s2 where 2: "run_state (outb hw (base + 1) 0) s1 = ((), s2)" by (rule run_unitE)
  obtain s3 where 3: "run_state (outb hw (base + 2) 1) s2 = ((), s3)" by (rule run_unitE)
  obtain s4 where 4: "run_state (outb hw (base + 3) (ucast lba)) s3 = ((), s4)" by (rule run_unitE)
  obtain s5 where 5: "run_state (outb hw (base + 4) (ucast (drop_bit 8 lba))) s4 = ((), s5)" by (rule run_unitE)
  obtain s6 where 6: "run_state (outb hw (base + 5) (ucast (drop_bit 16 lba))) s5 = ((), s6)" by (rule run_unitE)
  obtain s7 where 7: "run_state (outb hw (base + 7) cmd) s6 = ((), s7)" by (rule run_unitE)
  note o = spec_outb [OF assms(1)]
  have h: "holds V s7 m (disk_outb 7 cmd (disk_outb 5 (ucast (drop_bit 16 lba)) (disk_outb 4 (ucast (drop_bit 8 lba))
      (disk_outb 3 (ucast lba) (disk_outb 2 1 (disk_outb 1 0 (disk_outb 6 ?d a)))))))"
    using o [where k = 6 and v = ?d, OF assms(2)] 1 o [where k = 1 and v = 0 and s = s1] 2 o [where k = 2 and v = 1 and s = s2] 3
      o [where k = 3 and v = "ucast lba" and s = s3] 4 o [where k = 4 and v = "ucast (drop_bit 8 lba)" and s = s4] 5
      o [where k = 5 and v = "ucast (drop_bit 16 lba)" and s = s5] 6 o [where k = 7 and v = cmd and s = s6] 7
    by simp
  have "run_state (ata_setup hw base slave lba cmd) s = ((), s7)"
    using 1 2 3 4 5 6 7 by (simp add: ata_setup_def)
  then show ?thesis using h by (simp add: setup_regs_def disk_outb_def)
qed

lemma insw_ok:
  assumes "ata_spec hw base V"
  shows "holds V s m a \<Longrightarrow> ad_phase a = Data_In ws \<Longrightarrow> ws \<noteq> [] \<Longrightarrow>
    holds V (snd (run_state (insw hw base buf (length ws)) s)) (wr_half buf ws m) (a\<lparr>ad_phase := Idle\<rparr>)"
proof (induction ws arbitrary: s m a buf)
  case (Cons w ws)
  obtain s' where r: "run_state (inw hw base) s = (w, s')"
    and h: "holds V s' m (a\<lparr>ad_phase := if ws = [] then Idle else Data_In ws\<rparr>)"
    by (rule spec_inw [OF assms Cons.prems(1,2)])
  let ?s = "s'\<lparr>ram := wr16 buf w (ram s')\<rparr>"
  have h2: "holds V ?s (wr16 buf w m) (a\<lparr>ad_phase := if ws = [] then Idle else Data_In ws\<rparr>)"
    using h by (simp add: holds_def)
  show ?case
  proof (cases "ws = []")
    case True
    then show ?thesis using r h2 by simp
  next
    case False
    then show ?thesis using Cons.IH [where s = ?s and m = "wr16 buf w m" and buf = "buf + 2"
        and a = "a\<lparr>ad_phase := Data_In ws\<rparr>"] r h2 by simp
  qed
qed simp

lemma outsw_ok:
  assumes "ata_spec hw base V"
  shows "holds V s m a \<Longrightarrow> ad_phase a = Data_Out ws \<Longrightarrow> length ws + n = 256 \<Longrightarrow> 0 < n \<Longrightarrow>
    holds V (snd (run_state (outsw hw base buf n) s)) m
      (a\<lparr>ad_sect := (ad_sect a)(reg_key (ad_regs a) := ws @ rd_half m buf n), ad_phase := Idle\<rparr>)"
proof (induction n arbitrary: s a ws buf)
  case (Suc n)
  let ?w = "rd16 m buf"
  obtain s' where r: "run_state (outw hw base ?w) s = ((), s')" by (rule run_unitE)
  have h: "holds V s' m (disk_outw ?w a)" using spec_outw [OF assms Suc.prems(1), of ?w] r by simp
  have m: "ram s = m" using Suc.prems(1) by (simp add: holds_def)
  show ?case
  proof (cases "n = 0")
    case True
    then have d: "disk_outw ?w a = a\<lparr>ad_sect := (ad_sect a)(reg_key (ad_regs a) := ws @ [?w]), ad_phase := Idle\<rparr>"
      using Suc.prems by (simp add: disk_outw_def)
    have "rd_half m buf (Suc n) = [?w]" using True by (simp add: rd_half_Suc)
    moreover have "snd (run_state (outsw hw base buf (Suc n)) s) = s'" using True r m by simp
    ultimately show ?thesis using h by (simp only: d)
  next
    case False
    then have d: "disk_outw ?w a = a\<lparr>ad_phase := Data_Out (ws @ [?w])\<rparr>"
      using Suc.prems by (simp add: disk_outw_def)
    have "length (ws @ [?w]) + n = 256" using Suc.prems by simp
    from Suc.IH [OF h [unfolded d] _ this, of "buf + 2"] False show ?thesis
      using r m by (simp add: rd_half_Suc)
  qed
qed simp

text \<open>One sector in, one sector out.\<close>

definition disk_ok :: "ata_disk \<Rightarrow> bool" where
  "disk_ok a \<longleftrightarrow> ad_phase a = Idle \<and> (\<forall>k. length (ad_sect a k) = 256)"

lemma ata_read_ok:
  assumes "ata_spec hw base V" "holds V s m a" "disk_ok a" "base \<noteq> 0"
  shows "\<exists>a'. holds V (snd (run_state (ata_read_sector hw base slave lba buf) s))
      (wr_half buf (ad_sect a (ata_key slave lba)) m) a' \<and> disk_ok a' \<and> ad_sect a' = ad_sect a"
proof -
  obtain s1 where 1: "run_state (ata_wait_busy hw base) s = (False, s1)" "holds V s1 m a"
    unfolding ata_wait_busy_def by (rule wait_ok [OF assms(1,2)])
  let ?a = "a\<lparr>ad_regs := setup_regs slave lba (ad_regs a), ad_phase := Data_In (ad_sect a (ata_key slave lba))\<rparr>"
  obtain s2 where 2: "run_state (ata_setup hw base slave lba 0x20) s1 = ((), s2)" by (rule run_unitE)
  have h2: "holds V s2 m ?a"
    using setup_ok [OF assms(1) 1(2), of slave lba "0x20"] 2 by (simp add: disk_outb_def reg_key_setup)
  obtain s3 where 3: "run_state (ata_wait_drq hw base) s2 = (False, s3)" "holds V s3 m ?a"
    unfolding ata_wait_drq_def by (rule wait_ok [OF assms(1) h2, where f = "\<lambda>v. v AND 0x08 \<noteq> 0"]) simp
  have len: "length (ad_sect a (ata_key slave lba)) = 256" using assms(3) by (simp add: disk_ok_def)
  then have ne: "ad_sect a (ata_key slave lba) \<noteq> []" by auto
  have "holds V (snd (run_state (insw hw base buf 256) s3)) (wr_half buf (ad_sect a (ata_key slave lba)) m)
      (?a\<lparr>ad_phase := Idle\<rparr>)"
    using insw_ok [OF assms(1) 3(2) _ ne, of buf] len by simp
  moreover have "run_state (ata_read_sector hw base slave lba buf) s = run_state (insw hw base buf 256) s3"
    using assms(4) 1 2 3 by (simp add: ata_read_sector_def)
  ultimately show ?thesis using assms(3)
    by (intro exI [of _ "?a\<lparr>ad_phase := Idle\<rparr>"]) (simp add: disk_ok_def)
qed

lemma ata_write_ok:
  assumes "ata_spec hw base V" "holds V s m a" "disk_ok a" "base \<noteq> 0"
  shows "\<exists>a'. holds V (snd (run_state (ata_write_sector hw base slave lba buf) s)) m a' \<and> disk_ok a'
    \<and> ad_sect a' = (ad_sect a)(ata_key slave lba := rd_half m buf 256)"
proof -
  obtain s1 where 1: "run_state (ata_wait_busy hw base) s = (False, s1)" "holds V s1 m a"
    unfolding ata_wait_busy_def by (rule wait_ok [OF assms(1,2)])
  let ?a = "a\<lparr>ad_regs := setup_regs slave lba (ad_regs a), ad_phase := Data_Out []\<rparr>"
  obtain s2 where 2: "run_state (ata_setup hw base slave lba 0x30) s1 = ((), s2)" by (rule run_unitE)
  have h2: "holds V s2 m ?a"
    using setup_ok [OF assms(1) 1(2), of slave lba "0x30"] 2 by (simp add: disk_outb_def)
  obtain s3 where 3: "run_state (ata_wait_drq hw base) s2 = (False, s3)" "holds V s3 m ?a"
    unfolding ata_wait_drq_def by (rule wait_ok [OF assms(1) h2, where f = "\<lambda>v. v AND 0x08 \<noteq> 0"]) simp
  have "holds V (snd (run_state (outsw hw base buf 256) s3)) m
      (?a\<lparr>ad_sect := (ad_sect a)(ata_key slave lba := rd_half m buf 256), ad_phase := Idle\<rparr>)"
    using outsw_ok [OF assms(1) 3(2), of "[]" 256 buf] by (simp add: reg_key_setup)
  moreover have "run_state (ata_write_sector hw base slave lba buf) s = run_state (outsw hw base buf 256) s3"
    using assms(4) 1 2 3 by (simp add: ata_write_sector_def)
  ultimately show ?thesis using assms(3)
    by (intro exI [of _ "?a\<lparr>ad_sect := (ad_sect a)(ata_key slave lba := rd_half m buf 256), ad_phase := Idle\<rparr>"])
      (simp add: disk_ok_def)
qed
subsection \<open>Properties\<close>

lemma touches_ata [hw_only]:
  "touches_hw (ata_wait_busy hw base)" "touches_hw (ata_wait_drq hw base)" "touches_hw (ata_setup hw base slave lba cmd)"
  "touches_hw (ata_status hw base)" "touches_hw (ata_data_ready hw base)"
  unfolding ata_wait_busy_def ata_wait_drq_def ata_wait_def ata_setup_def ata_status_def ata_data_ready_def
  by (intro hw_only)+

lemma touches_ata_sector [hw_only]:
  "touches_hw (ata_read_sector hw base slave lba buf)" "touches_hw (ata_write_sector hw base slave lba buf)"
  unfolding ata_read_sector_def ata_write_sector_def by (intro hw_only)+

text \<open>
  On a disk that follows the PIO protocol a sector written from one buffer and read
  into another brings the same 512 bytes, and the disk changes in that sector only; the sector is
  chosen by the low 28 bits of the number, so that larger disks are addressed modulo 128 GB.
\<close>

theorem ata_write_read_back:
  assumes "ata_spec hw base V" and "base \<noteq> 0" and "disk_ok (V (dev s))"
    and "run_state (ata_write_sector hw base slave lba src) s = (u, s1)"
    and "run_state (ata_read_sector hw base slave lba dst) s1 = (v, s2)"
  shows "rd_bytes (ram s2) dst 512 = rd_bytes (ram s) src 512
    \<and> ad_sect (V (dev s2)) = (ad_sect (V (dev s)))(ata_key slave (lba AND 0x0FFFFFFF) := rd_half (ram s) src 256)"
proof -
  let ?k = "ata_key slave lba"
  have h: "holds V s (ram s) (V (dev s))" by (simp add: holds_def)
  from ata_write_ok [OF assms(1) h assms(3,2), of slave lba src] assms(4) obtain a1 where
    w: "holds V s1 (ram s) a1" "disk_ok a1" "ad_sect a1 = (ad_sect (V (dev s)))(?k := rd_half (ram s) src 256)"
    by auto
  from ata_read_ok [OF assms(1) w(1,2) assms(2), of slave lba dst] assms(5) obtain a2 where
    r: "holds V s2 (wr_half dst (rd_half (ram s) src 256) (ram s)) a2" "ad_sect a2 = ad_sect a1"
    using w(3) by auto
  have "rd_bytes (ram s2) dst 512 = rd_bytes (ram s) src 512"
    using r(1) wr_half_rd_half [of dst "ram s" src 256 "ram s"] by (simp add: holds_def)
  moreover have "ata_key slave (lba AND 0x0FFFFFFF) = ?k" by (simp add: ata_key_def and.assoc)
  ultimately show ?thesis using r w(3) by (simp add: holds_def)
qed

text \<open>A disk as a device of its own, on the primary channel: the specification can be met.\<close>

definition disk_hw :: "ata_disk hw" where
  "disk_hw = \<lparr>hw_read32 = (\<lambda>_ x. (0, x)), hw_write32 = (\<lambda>_ _. id), hw_dma = id,
     hw_inb = (\<lambda>p x. (if p = 0x1F7 then (if ad_phase (snd x) = Idle then 0x50 else 0x58) else 0, x)),
     hw_outb = (\<lambda>p v (m, a). (m, disk_outb (unat (p - 0x1F0)) v a)),
     hw_inw = (\<lambda>p (m, a). case disk_inw a of (v, a') \<Rightarrow> (v, (m, a'))),
     hw_outw = (\<lambda>p v (m, a). (m, disk_outw v a)),
     hw_inl = (\<lambda>_ x. (0, x)), hw_outl = (\<lambda>_ _. id)\<rparr>"

lemma disk_hw_spec: "ata_spec disk_hw 0x1F0 id"
proof -
  have "unat ((0x1F0 :: u16) + word_of_nat k - 0x1F0) = k" if "k < 8" for k
    using that by (simp add: unat_word_of_nat)
  then show ?thesis
    unfolding ata_spec_def disk_hw_def by (simp split: prod.splits)
qed

definition disk_machine :: "ata_disk machine" where
  "disk_machine = \<lparr>ram = (\<lambda>i. if i < 512 then word_of_nat i else 0),
     dev = \<lparr>ad_regs = (\<lambda>_. 0), ad_sect = (\<lambda>_. replicate 256 0), ad_phase = Idle\<rparr>\<rparr>"

theorem ata_write_read_back_witness:
  "\<exists>s1 s2. run_state (ata_write_sector disk_hw 0x1F0 False 7 0) disk_machine = ((), s1)
    \<and> run_state (ata_read_sector disk_hw 0x1F0 False 7 0x1000) s1 = ((), s2)
    \<and> rd_bytes (ram s2) 0x1000 512 = rd_bytes (ram disk_machine) 0 512"
proof -
  obtain s1 where 1: "run_state (ata_write_sector disk_hw 0x1F0 False 7 0) disk_machine = ((), s1)"
    by (rule run_unitE)
  obtain s2 where 2: "run_state (ata_read_sector disk_hw 0x1F0 False 7 0x1000) s1 = ((), s2)"
    by (rule run_unitE)
  have "disk_ok (id (dev disk_machine))" by (simp add: disk_ok_def disk_machine_def)
  from ata_write_read_back [OF disk_hw_spec _ this 1 2] show ?thesis
    by (intro exI [of _ s1] exI [of _ s2] conjI 1 2) simp
qed

definition drives_present :: "('d, 'z) ata_scheme \<Rightarrow> nat" where
  "drives_present s = length (filter present (phys s))"

text \<open>
  The stick is entered at the slot with the number of drives found, not at a free
  slot: when the only disk is the slave of the first channel, its entry is overwritten and one of
  the two drives counted does not exist.
\<close>

theorem usb_replaces_slave:
  fixes s :: "('d, 'z) ata_scheme"
  assumes "usb_detected s" and "drive_count s = 1" and "drives_present s = 1"
    and "1 < length (phys s)" and "present (phys s ! 1)"
  shows "let s' = snd (run_state ata_add_usb s) in
    drive_count s' = 2 \<and> drives_present s' = 1 \<and> pd_type (phys s' ! 1) = 3"
proof -
  let ?e = "(phys s ! 1)\<lparr>present := True, pd_type := 3, pd_model := ''USB MASS STORAGE'', pd_size_mb := 16000\<rparr>"
  obtain a b rest where p: "phys s = a # b # rest"
    using assms(4) by (cases "phys s"; cases "tl (phys s)") auto
  have "length (filter present ((phys s)[1 := ?e])) = length (filter present (phys s))"
    using assms(5) by (simp add: p)
  then show ?thesis using assms by (simp add: ata_add_usb_def drives_present_def Let_def)
qed

definition start_ata :: "pdrive list \<Rightarrow> nat \<Rightarrow> unit ata" where
  "start_ata ps n = \<lparr>ram = \<lambda>_. 0, dev = (), cmd_status = [], hw_usb = [], hw_disk = [],
     global_active_port = 0, global_ahci_abar = 0, ahci_scan_state = 0, ahci_scan_timer = 0,
     drives = [], drive_count = n, ahci_found_ports_bitmask = 0, is_ahci_found = False, ahci_bar5 = 0,
     usb_io_base = 0, uhci_base_port = 0, phys = ps, ata_base = 0, usb_detected = True, partitions = []\<rparr>"

theorem usb_replaces_slave_witness:
  "let off = \<lparr>present = False, pd_model = [], pd_size_mb = 0, pd_base = 0, pd_slave = False, pd_type = 0\<rparr>;
       s = start_ata (off # off\<lparr>present := True, pd_base := 0x1F0, pd_slave := True\<rparr> # replicate 18 off) 1;
       s' = snd (run_state ata_add_usb s)
   in drive_count s' = 2 \<and> drives_present s' = 1"
  using usb_replaces_slave [of "start_ata (\<lparr>present = False, pd_model = [], pd_size_mb = 0, pd_base = 0, pd_slave = False, pd_type = 0\<rparr>
      # \<lparr>present = True, pd_model = [], pd_size_mb = 0, pd_base = 0x1F0, pd_slave = True, pd_type = 0\<rparr>
      # replicate 18 \<lparr>present = False, pd_model = [], pd_size_mb = 0, pd_base = 0, pd_slave = False, pd_type = 0\<rparr>) 1"]
  by (simp add: start_ata_def drives_present_def Let_def)

text \<open>
  \<open>ata_probe\<close> never identifies a drive that is ready: it takes the success of the
  wait for a failure. A device whose status register is not busy is always reported absent.
\<close>

theorem ata_probe_rejects_ready:
  fixes s :: "('d, 'z) ata_scheme"
  assumes "\<And>x. fst (hw_inb hw (port + 7) x) AND 0x80 = 0"
  shows "fst (run_state (ata_probe hw buf port) s) = False"
proof -
  have w: "fst (run_state (ata_wait_busy hw port) t) = False" for t :: "('d, 'z) ata_scheme"
  proof -
    have "fst (run_state (do { v \<leftarrow> inb hw (port + 7); State_Monad.return (v AND 0x80 = 0) }) t)"
      using assms by (simp add: inb_def run_dev_read)
    from poll_for_now [OF this, of 100000] show ?thesis
      by (simp add: ata_wait_busy_def ata_wait_def)
  qed
  show ?thesis using w by (simp add: ata_probe_def split: prod.splits) (metis fst_conv)
qed

theorem ata_probe_rejects_ready_witness:
  "fst (run_state (ata_probe null_hw 0x5000 0x1F0) (start_ata [] 0)) = False"
  by (rule ata_probe_rejects_ready) (simp add: null_hw_def)

end
