(* ===== verification/Fs.thy ===== *)
theory Fs
  imports Ata Cfs Partition
begin

text \<open>
  \<open>cosmos_fs.cpp\<close>, the upper half: the file table of 28 entries of 64 bytes, the NTFS record
  parser that can fill it, and the operations that create, save, load and format. The table, the
  sector buffer \<open>hdd_buf\<close> and the note pad are globals in memory; their addresses are given by
  the linker and form the parameter \<open>L\<close>.
\<close>

subsection \<open>Layout\<close>

record fs_layout =
  at_table :: nat
  at_hdd :: nat
  at_note :: nat

text \<open>
  \<open>FileEntry\<close>, cosmos_fs.h:10, packed: name 0, sector_offset 32, is_folder 36, size 37, date 41,
  exists 57, parent_idx 58, five bytes of padding.
\<close>

definition fe :: "fs_layout \<Rightarrow> nat \<Rightarrow> nat" where
  "fe L i = at_table L + 64 * i"

definition fe_exists :: "fs_layout \<Rightarrow> mem \<Rightarrow> nat \<Rightarrow> bool" where
  "fe_exists L m i \<longleftrightarrow> m (fe L i + 57) \<noteq> 0"

definition table_bytes :: nat where "table_bytes = 28 * 64"

record 'd fs = "'d ata" +
  active_drive_idx :: int
  drive_status :: nat
  current_path_id :: u8
  current_open_file :: nat
  wifi_ssids :: "string list"

subsection \<open>The NTFS root record\<close>

text \<open>
  \<open>analyze_mft_root\<close>, cosmos_fs.cpp:158. Offsets are 16-bit and wrap; both loops go as far as
  lengths read from the buffer take them, so they may not end: a run that does not return is
  \<open>None\<close>. The attribute type is put together from two bytes only.
\<close>

definition mft16 :: "mem \<Rightarrow> nat \<Rightarrow> nat \<Rightarrow> u16" where
  "mft16 m buf off = rd16 m (buf + off)"

definition mft_name :: "fs_layout \<Rightarrow> nat \<Rightarrow> nat \<Rightarrow> nat \<Rightarrow> nat \<Rightarrow> mem \<Rightarrow> mem" where
  "mft_name L idx buf e name_len m =
     (let k = (if name_len < 12 then name_len else 11);
          m1 = fold (\<lambda>c m. m(fe L idx + c := m (buf + e + 0x52 + c * 2))) [0..<k] m
      in m1(fe L idx + k := 0))"

definition mft_take :: "fs_layout \<Rightarrow> nat \<Rightarrow> nat \<Rightarrow> nat \<Rightarrow> mem \<Rightarrow> mem" where
  "mft_take L idx buf e m =
     (let m1 = m(fe L idx + 57 := 1);
          m2 = wr32 (fe L idx + 37) (rd32 m1 (buf + e + 0x40)) m1
      in mft_name L idx buf e (unat (m (buf + e + 0x50))) m2)"

partial_function (option) mft_entries ::
  "fs_layout \<Rightarrow> nat \<Rightarrow> nat \<Rightarrow> u16 \<Rightarrow> nat \<Rightarrow> mem \<Rightarrow> mem option" where
  "mft_entries L buf limit e idx m =
     (if unat e < limit \<and> idx < 8 then
        let entry_size = mft16 m buf (unat e + 8) in
        if entry_size = 0 \<or> m (buf + unat e + 12) AND 2 \<noteq> 0 then Some m
        else if m (buf + unat e + 0x52) \<noteq> byte_of CHR ''$'' \<and> m (buf + unat e + 0x50) \<noteq> 0 then
          mft_entries L buf limit (e + entry_size) (idx + 1) (mft_take L idx buf (unat e) m)
        else mft_entries L buf limit (e + entry_size) idx m
      else Some m)"

partial_function (option) mft_attrs :: "fs_layout \<Rightarrow> nat \<Rightarrow> u16 \<Rightarrow> mem \<Rightarrow> (mem \<times> bool) option" where
  "mft_attrs L buf a m =
     (if a < 1000 then
        let attr_type = ucast (mft16 m buf (unat a)) :: u32; attr_len = mft16 m buf (unat a + 4) in
        if attr_type = 0xFFFFFFFF \<or> attr_len = 0 then Some (m, False)
        else if attr_type = 0x90 then
          let content_offset = a + mft16 m buf (unat a + 0x14);
              node_header = content_offset + 0x10;
              entry_offset = node_header + mft16 m buf (unat node_header)
          in map_option (\<lambda>m. (m, True)) (mft_entries L buf (unat a + unat attr_len) entry_offset 0 m)
        else mft_attrs L buf (a + attr_len) m
      else Some (m, False))"

definition analyze_mft_root :: "fs_layout \<Rightarrow> nat \<Rightarrow> mem \<times> parts \<Rightarrow> (mem \<times> parts) option" where
  "analyze_mft_root L buf st = (case st of (m, p) \<Rightarrow>
     if m buf \<noteq> byte_of CHR ''F'' \<or> m (buf + 1) \<noteq> byte_of CHR ''I'' then Some (m, p\<lparr>mbr_info_text := ''MFT ERROR''\<rparr>)
     else
       let a = mft16 m buf 0x14; m1 = fold (\<lambda>f m. m(fe L f + 57 := 0)) [0..<8] m in
       map_option (\<lambda>(m2, hit). (m2, if hit then p\<lparr>mbr_info_text := ''FILES LOADED!''\<rparr> else p)) (mft_attrs L buf a m1))"

subsection \<open>The table on disk\<close>

definition active_drive :: "(('d, 'z) fs_scheme, pdrive) state" where
  "active_drive = gets (\<lambda>s. phys s ! nat (active_drive_idx s))"

text \<open>
  \<open>fs_flush_table\<close>, cosmos_fs.cpp:408: a 512-byte buffer is cleared, the whole table of 1792
  bytes is copied into it, and one sector is written.
\<close>

definition safe_buf :: nat where "safe_buf = 0x800000"

definition stage_table :: "fs_layout \<Rightarrow> nat \<Rightarrow> mem \<Rightarrow> mem" where
  "stage_table L buf m = mem_copy table_bytes buf (at_table L) (zero_fill buf 512 m)"

definition fs_flush_table :: "'d hw \<Rightarrow> fs_layout \<Rightarrow> (('d, 'z) fs_scheme, unit) state" where
  "fs_flush_table hw L = do {
     hdd \<leftarrow> get_active_ahci_port;
     if hdd \<noteq> 0 then do {
       poke (stage_table L safe_buf);
       ahci_write hw hdd 1002 (word_of_nat safe_buf);
       skip
     } else do {
       idx \<leftarrow> gets active_drive_idx;
       when_m (idx \<noteq> - 1) (do {
         poke (stage_table L (at_hdd L));
         d \<leftarrow> active_drive;
         ata_write_sector hw (pd_base d) (pd_slave d) 1002 (at_hdd L)
       })
     }
   }"

subsection \<open>Creating and saving\<close>

definition fs_free_slot :: "fs_layout \<Rightarrow> mem \<Rightarrow> nat option" where
  "fs_free_slot L m = first_slot (\<lambda>i. \<not> fe_exists L m i) [0..<28]"

text \<open>The fields of a new entry, in the order the code stores them.\<close>

definition put_fe :: "nat \<Rightarrow> bool \<Rightarrow> u8 \<Rightarrow> u32 \<Rightarrow> u32 \<Rightarrow> string \<Rightarrow> mem \<Rightarrow> mem" where
  "put_fe e folder parent sz sector name m =
     str_put (e + 41) ''16.04.2026'' (str_put e name (wr32 (e + 32) sector (wr32 (e + 37) sz
       (m(e + 57 := 1, e + 36 := (if folder then 1 else 0), e + 58 := parent)))))"

text \<open>\<open>fs_create_folder\<close>, cosmos_fs.cpp:427\<close>

definition fs_create_folder :: "'d hw \<Rightarrow> fs_layout \<Rightarrow> string \<Rightarrow> (('d, 'z) fs_scheme, unit) state" where
  "fs_create_folder hw L foldername = do {
     m \<leftarrow> peek id;
     case fs_free_slot L m of
       None \<Rightarrow> skip
     | Some i \<Rightarrow> do {
         parent \<leftarrow> gets current_path_id;
         poke (put_fe (fe L i) True parent 0 0 foldername);
         d \<leftarrow> active_drive;
         ahci_write_sectors hw (unat (pd_base d)) 1002 1 (word_of_nat (at_table L));
         skip
       }
   }"

text \<open>The note pad as text: the non-zero characters of ten rows, each ended by a newline.\<close>

definition note_text :: "mem \<Rightarrow> nat \<Rightarrow> u8 list" where
  "note_text m note = concat (map (\<lambda>r.
     filter (\<lambda>b. b \<noteq> 0) (map (\<lambda>c. m (note + 41 * r + c)) [0..<40]) @ [10]) [0..<10])"

definition text_ram :: nat where "text_ram = 0x04000000"

definition put_text :: "u8 list \<Rightarrow> mem \<Rightarrow> mem" where
  "put_text bs m = wr_bytes text_ram bs (zero_fill text_ram 512 m)"

text \<open>\<open>fs_save_file\<close>, cosmos_fs.cpp:443\<close>

definition fs_save_file :: "'d hw \<Rightarrow> fs_layout \<Rightarrow> string \<Rightarrow> u32 \<Rightarrow> (('d, 'z) fs_scheme, unit) state" where
  "fs_save_file hw L filename sz = do {
     m \<leftarrow> peek id;
     case fs_free_slot L m of
       None \<Rightarrow> skip
     | Some i \<Rightarrow> do {
         parent \<leftarrow> gets current_path_id;
         let sector = 1100 + word_of_nat i;
         poke (put_fe (fe L i) False parent sz sector filename);
         poke (\<lambda>m. put_text (note_text m (at_note L)) m);
         d \<leftarrow> active_drive;
         ahci_write_sectors hw (unat (pd_base d)) sector 1 (word_of_nat text_ram);
         ahci_write_sectors hw (unat (pd_base d)) 1002 1 (word_of_nat (at_table L));
         modify (\<lambda>s. s\<lparr>current_open_file := i\<rparr>)
       }
   }"

definition fs_save :: "'d hw \<Rightarrow> fs_layout \<Rightarrow> (('d, 'z) fs_scheme, unit) state" where
  "fs_save hw L = fs_save_file hw L ''QUICK.TXT'' 512"
subsection \<open>Start and format\<close>

text \<open>\<open>fs_init\<close>, cosmos_fs.cpp:478: only the first eight entries are cleared before loading\<close>

definition clear_fe :: "fs_layout \<Rightarrow> nat \<Rightarrow> mem \<Rightarrow> mem" where
  "clear_fe L i m = (wr32 (fe L i + 37) 0 (m(fe L i + 57 := 0, fe L i := 0)))(fe L i + 36 := 0, fe L i + 58 := 255)"

definition default_fe :: "fs_layout \<Rightarrow> nat \<Rightarrow> string \<Rightarrow> u32 \<Rightarrow> mem \<Rightarrow> mem" where
  "default_fe L i name sz m =
     (str_put (fe L i + 41) ''22.12.2025'' (wr32 (fe L i + 37) sz
       ((str_put (fe L i) name (m(fe L i + 57 := 1)))(fe L i + 36 := 0))))(fe L i + 58 := 255)"

definition default_table :: "fs_layout \<Rightarrow> mem \<Rightarrow> mem" where
  "default_table L m =
     default_fe L 1 ''kernel.bin'' 10240 (default_fe L 0 ''boot.sys'' 512
       (fold (\<lambda>i m. m(fe L i + 57 := 0)) [0..<28] m))"

definition table_used :: "fs_layout \<Rightarrow> mem \<Rightarrow> bool" where
  "table_used L m \<longleftrightarrow> list_ex (fe_exists L m) [0..<28]"

definition fs_load_table :: "'d hw \<Rightarrow> fs_layout \<Rightarrow> (('d, 'z) fs_scheme, bool) state" where
  "fs_load_table hw L = do {
     hdd \<leftarrow> get_active_ahci_port;
     if hdd \<noteq> 0 then do {
       ahci_read hw hdd 1002 (word_of_nat safe_buf);
       poke (mem_copy table_bytes (at_table L) safe_buf);
       peek (table_used L)
     } else do {
       idx \<leftarrow> gets active_drive_idx;
       if idx \<noteq> - 1 then do {
         d \<leftarrow> active_drive;
         ata_read_sector hw (pd_base d) (pd_slave d) 1002 (at_hdd L);
         poke (mem_copy table_bytes (at_table L) (at_hdd L));
         peek (table_used L)
       } else State_Monad.return False
     }
   }"

definition fs_init :: "'d hw \<Rightarrow> fs_layout \<Rightarrow> (('d, 'z) fs_scheme, unit) state" where
  "fs_init hw L = do {
     poke (fold (clear_fe L) [0..<8]);
     found_table \<leftarrow> fs_load_table hw L;
     when_m (\<not> found_table) (do { poke (default_table L); fs_flush_table hw L });
     modify (\<lambda>s. s\<lparr>wifi_ssids := [''Home-WiFi (90%)'', ''Telekom-AB12'', ''Office-Net'', ''Guest-Access'']\<rparr>)
   }"

text \<open>\<open>fs_format_drive\<close>, cosmos_fs.cpp:534\<close>

definition format_table :: "fs_layout \<Rightarrow> mem \<Rightarrow> mem" where
  "format_table L m =
     (let m1 = fold (\<lambda>i m. wr32 (fe L i + 37) 0 (m(fe L i + 57 := 0, fe L i + 36 := 0))) [0..<8] m;
          m2 = str_put (fe L 0 + 41) ''01.04.2026''
                 ((str_put (fe L 0) ''COSMOS_ROOT'' (m1(fe L 0 + 57 := 1)))(fe L 0 + 36 := 1, fe L 0 + 58 := 255));
          m3 = (str_put (fe L 1) ''readme.txt'' (m2(fe L 1 + 57 := 1)))(fe L 1 + 36 := 0)
      in str_put (fe L 1 + 41) ''01.04.2026''
           ((wr32 (fe L 1 + 32) 2000 (wr32 (fe L 1 + 37) 512 m3))(fe L 1 + 58 := 0)))"

definition readme_text :: string where
  "readme_text = ''WELCOME - BARE METAL COSMOS OS!'' @ [CHR 0x0A] @ ''Das Dateisystem CFS ist aktiv.''"

definition fs_format_drive :: "'d hw \<Rightarrow> fs_layout \<Rightarrow> (('d, 'z) fs_scheme, unit) state" where
  "fs_format_drive hw L = do {
     idx \<leftarrow> gets active_drive_idx;
     n \<leftarrow> gets drive_count;
     if idx < 0 \<or> int n \<le> idx then set_status ''ERR: NO DRIVE SELECTED''
     else do {
       hdd \<leftarrow> get_active_ahci_port;
       d \<leftarrow> active_drive;
       when_m (hdd \<noteq> 0) (cfs_format_drive hw hdd (ucast (pd_size_mb d) * 2048));
       poke (format_table L);
       modify (\<lambda>s. s\<lparr>drive_status := 1\<rparr>);
       fs_flush_table hw L;
       (if hdd \<noteq> 0 then do {
         poke (put_text (bytes_of readme_text));
         ahci_write_sectors hw (unat (pd_base d)) 2000 1 (word_of_nat text_ram);
         skip
       } else do {
         poke (\<lambda>m. wr_bytes (at_hdd L) (bytes_of readme_text) (zero_fill (at_hdd L) 512 m));
         ata_write_sector hw (pd_base d) (pd_slave d) 2000 (at_hdd L)
       });
       set_status ''DRIVE FORMATTED TO CFS!''
     }
   }"

subsection \<open>Slots of a table\<close>

text \<open>
  What the tables of the sources have in common: a slot that is filled is no longer free and the
  others stay as they were. The search for the lowest free slot then behaves like a stack of
  free places. Interpreted on the file table and on the CFS directory.
\<close>

locale slot_table =
  fixes free :: "mem \<Rightarrow> nat \<Rightarrow> bool" and put :: "nat \<Rightarrow> 'v \<Rightarrow> mem \<Rightarrow> mem" and ok :: "'v \<Rightarrow> bool" and n :: nat
  assumes put_used: "i < n \<Longrightarrow> ok v \<Longrightarrow> \<not> free (put i v m) i"
    and put_other: "i < n \<Longrightarrow> j < n \<Longrightarrow> i \<noteq> j \<Longrightarrow> ok v \<Longrightarrow> free (put i v m) j = free m j"
begin

definition alloc :: "'v \<Rightarrow> mem \<Rightarrow> mem" where
  "alloc v m = (case first_slot (free m) [0..<n] of None \<Rightarrow> m | Some i \<Rightarrow> put i v m)"

definition room :: "mem \<Rightarrow> nat" where
  "room m = card {i. i < n \<and> free m i}"

lemma alloc_full: "room m = 0 \<Longrightarrow> alloc v m = m"
  by (auto simp: room_def alloc_def card_eq_0_iff dest!: first_slot_Some split: option.split)

lemma alloc_room:
  assumes "ok v"
  shows "room (alloc v m) = room m - 1"
proof (cases "first_slot (free m) [0..<n]")
  case None
  then have "{i. i < n \<and> free m i} = {}" by (auto simp: first_slot_None)
  then have "room m = 0" by (simp add: room_def)
  then show ?thesis using alloc_full by simp
next
  case (Some i)
  then have i: "i < n" "free m i" by (auto simp: first_slot_upt)
  have "free (put i v m) j \<longleftrightarrow> j \<noteq> i \<and> free m j" if "j < n" for j
    using put_used [OF i(1) assms, of m] put_other [OF i(1) that _ assms, of m] by (cases "j = i") auto
  then have "{j. j < n \<and> free (put i v m) j} = {j. j < n \<and> free m j} - {i}"
    by auto
  moreover have "card ({j. j < n \<and> free m j} - {i}) = card {j. j < n \<and> free m j} - 1"
    using i by (intro card_Diff_singleton) simp
  ultimately show ?thesis using Some by (simp add: alloc_def room_def)
qed

lemma room_le: "room m \<le> n"
proof -
  have "card {i. i < n \<and> free m i} \<le> card {..<n}" by (intro card_mono) auto
  then show ?thesis by (simp add: room_def)
qed

lemma alloc_many: "list_all ok vs \<Longrightarrow> room (fold alloc vs m) = room m - length vs"
  by (induction vs arbitrary: m) (auto simp: alloc_room)

lemma alloc_lowest:
  assumes "first_slot (free m) [0..<n] = Some i" and "ok v"
  shows "\<not> free (alloc v m) i \<and> (\<forall>j < n. j \<noteq> i \<longrightarrow> free (alloc v m) j = free m j)"
proof -
  have "i < n" using assms(1) by (simp add: first_slot_upt)
  moreover have "alloc v m = put i v m" using assms(1) by (simp add: alloc_def)
  ultimately show ?thesis using put_used [OF _ assms(2)] put_other [OF _ _ _ assms(2)] by auto
qed

end

text \<open>The value of a file table entry: folder flag, parent, size, sector and name.\<close>

definition put_fe_at :: "fs_layout \<Rightarrow> nat \<Rightarrow> bool \<times> u8 \<times> u32 \<times> u32 \<times> string \<Rightarrow> mem \<Rightarrow> mem" where
  "put_fe_at L i v = (case v of (folder, parent, sz, sector, name) \<Rightarrow> put_fe (fe L i) folder parent sz sector name)"

definition fe_name_ok :: "bool \<times> u8 \<times> u32 \<times> u32 \<times> string \<Rightarrow> bool" where
  "fe_name_ok v \<longleftrightarrow> length (snd (snd (snd (snd v)))) < 57"

lemma put_fe_other: "length name < 57 \<Longrightarrow> i < e \<or> e + 64 \<le> i \<Longrightarrow> put_fe e f p sz sec name m i = m i"
  by (auto simp: put_fe_def str_put_other wr32_other)

lemma put_fe_exists: "length name < 57 \<Longrightarrow> put_fe e f p sz sec name m (e + 57) = 1"
  by (simp add: put_fe_def str_put_other wr32_other)

interpretation file_slots: slot_table "\<lambda>m i. \<not> fe_exists L m i" "put_fe_at L" fe_name_ok 28
proof unfold_locales
  fix i j :: nat and v :: "bool \<times> u8 \<times> u32 \<times> u32 \<times> string" and m :: mem
  assume v: "fe_name_ok v"
  show "\<not> \<not> fe_exists L (put_fe_at L i v m) i"
    using v by (cases v) (simp add: fe_exists_def put_fe_at_def put_fe_exists fe_name_ok_def)
  assume "i \<noteq> j"
  then have "fe L j + 57 < fe L i \<or> fe L i + 64 \<le> fe L j + 57" by (auto simp: fe_def)
  then show "(\<not> fe_exists L (put_fe_at L i v m) j) = (\<not> fe_exists L m j)"
    using v by (cases v) (simp add: fe_exists_def put_fe_at_def put_fe_other fe_name_ok_def)
qed

interpretation cfs_slots: slot_table "\<lambda>m i. m (cfs_entry cfs_dir_buf i) = 0"
  "\<lambda>i (flags, name, start_lba, sz). cfs_put_entry (cfs_entry cfs_dir_buf i) flags name start_lba sz"
  "\<lambda>(flags, name, start_lba, sz). length name \<le> 45" 8
proof unfold_locales
  fix i j :: nat and v :: "u8 \<times> string \<times> u64 \<times> u64" and m :: mem
  assume v: "case v of (flags, name, start_lba, sz) \<Rightarrow> length name \<le> 45"
  show "(case v of (flags, name, start_lba, sz) \<Rightarrow> cfs_put_entry (cfs_entry cfs_dir_buf i) flags name start_lba sz) m
      (cfs_entry cfs_dir_buf i) \<noteq> 0"
    using v by (cases v) (simp add: put_entry_fields)
  assume "i \<noteq> j"
  then have "cfs_entry cfs_dir_buf j < cfs_entry cfs_dir_buf i \<or> cfs_entry cfs_dir_buf i + 64 \<le> cfs_entry cfs_dir_buf j"
    by (auto simp: cfs_entry_def)
  then show "((case v of (flags, name, start_lba, sz) \<Rightarrow> cfs_put_entry (cfs_entry cfs_dir_buf i) flags name start_lba sz) m
      (cfs_entry cfs_dir_buf j) = 0) = (m (cfs_entry cfs_dir_buf j) = 0)"
    using v by (cases v) (simp add: put_entry_other)
qed
subsection \<open>Properties\<close>

text \<open>The memory effect of creating an entry, when there is room, is \<open>alloc\<close> of the table.\<close>

lemma file_alloc:
  "file_slots.alloc L v m = (case fs_free_slot L m of None \<Rightarrow> m | Some i \<Rightarrow> put_fe_at L i v m)"
  by (simp add: file_slots.alloc_def fs_free_slot_def)

definition add_entry :: "fs_layout \<Rightarrow> bool \<times> u8 \<times> u32 \<times> u32 \<times> string \<Rightarrow> mem \<Rightarrow> mem" where
  "add_entry L v m = (case fs_free_slot L m of None \<Rightarrow> m | Some i \<Rightarrow> put_fe_at L i v m)"

definition free_entries :: "fs_layout \<Rightarrow> mem \<Rightarrow> nat" where
  "free_entries L m = length (filter (\<lambda>i. \<not> fe_exists L m i) [0..<28])"

lemma free_entries_room: "free_entries L m = file_slots.room L m"
proof -
  have "free_entries L m = card (set (filter (\<lambda>i. \<not> fe_exists L m i) [0..<28]))"
    unfolding free_entries_def by (rule distinct_card [symmetric]) simp
  also have "set (filter (\<lambda>i. \<not> fe_exists L m i) [0..<28]) = {i. i < 28 \<and> \<not> fe_exists L m i}" by auto
  finally show ?thesis by (simp add: file_slots.room_def)
qed

text \<open>
  A batch of new files and folders takes exactly as many free slots of the table as
  there are entries in it, until the 28 slots are used up; in a full table creating does nothing.
\<close>

theorem file_table_fills:
  assumes "list_all fe_name_ok vs"
  shows "free_entries L (fold (add_entry L) vs m) = free_entries L m - length vs"
proof -
  have "add_entry L = file_slots.alloc L" by (intro ext) (simp add: add_entry_def file_alloc)
  then show ?thesis using file_slots.alloc_many [OF assms] by (simp add: free_entries_room)
qed

theorem file_table_fills_witness:
  "free_entries \<lparr>at_table = 0x9000, at_hdd = 0xB000, at_note = 0xC000\<rparr>
     (fold (add_entry \<lparr>at_table = 0x9000, at_hdd = 0xB000, at_note = 0xC000\<rparr>)
       (replicate 30 (False, 0, 512, 1100, ''A.TXT'')) (\<lambda>_. 0)) = 0"
proof -
  have ok: "list_all fe_name_ok (replicate 30 (False, 0, 512, 1100, ''A.TXT''))"
    by (simp add: fe_name_ok_def list_all_iff)
  have "free_entries L m \<le> 28" for L m
    unfolding free_entries_def using length_filter_le [of "\<lambda>i. \<not> fe_exists L m i" "[0..<28]"] by simp
  then show ?thesis
    by (simp only: file_table_fills [OF ok] length_replicate) (meson diff_is_0_eq le_trans numeral_le_iff order.refl semiring_norm)
qed



text \<open>The end marker of the attribute list is 32 bits wide; 16 bits never reach it.\<close>

lemma mft_type_short:
  shows "(ucast (x :: u16) :: u32) \<noteq> 0xFFFFFFFF" and "x \<noteq> 0x90 \<Longrightarrow> (ucast x :: u32) \<noteq> 0x90"
proof -
  have x: "unat x < 65536" using unsigned_less [of x] by simp
  then have u: "unat (ucast x :: u32) = unat x" by (simp add: unsigned_ucast_eq take_bit_nat_eq_self)
  from x show "(ucast x :: u32) \<noteq> 0xFFFFFFFF" using u by auto
  show "x \<noteq> 0x90 \<Longrightarrow> (ucast x :: u32) \<noteq> 0x90" using u by (auto simp: word_unat_eq_iff)
qed

lemma mft_attrs_loop:
  assumes "mft_attrs L buf a m = Some y"
    and "mft16 m buf 56 = 4" "mft16 m buf 60 = 0xFFFC"
    and "mft16 m buf 52 \<noteq> 0x90"
  shows "a \<noteq> 52 \<and> a \<noteq> 56"
  using assms
proof (induction rule: mft_attrs.raw_induct [rotated, consumes 1])
  case (1 f L buf a m y)
  show ?case
  proof (intro conjI notI)
    assume a: "a = 52"
    have s: "52 + mft16 m buf 56 = 56" using 1(3) by simp
    have "(ucast (mft16 m buf 52) :: u32) \<noteq> 0x90" "(ucast (mft16 m buf 52) :: u32) \<noteq> 0xFFFFFFFF"
      using 1(5) mft_type_short by auto
    then have "f L buf 56 m = Some y" using 1(2,3) s by (simp add: a Let_def)
    then show False using 1(1) [of L buf 56 m y] 1(3-5) by simp
  next
    assume a: "a = 56"
    have s: "56 + mft16 m buf 60 = 52" "mft16 m buf 60 \<noteq> 0" unfolding 1(4) by simp_all
    have "f L buf 52 m = Some y" using 1(2,3) s by (simp add: a Let_def)
    then show False using 1(1) [of L buf 52 m y] 1(3-5) by simp
  qed
qed
text \<open>A record of 64 bytes with such attributes: the lengths at 60 and 56 bring 56 to 52 and back.\<close>

definition bad_record :: mem where
  "bad_record = (\<lambda>_. 0)(0 := byte_of CHR ''F'', 1 := byte_of CHR ''I'', 0x14 := 56, 56 := 4, 60 := 0xFC, 61 := 0xFF)"

text \<open>
  Property C37. The parser of the NTFS root record does not end on every record: attribute lengths
  are added modulo 65536, so two attributes whose lengths are 4 and -4 send it round for ever.
\<close>

theorem mft_parser_hangs:
  assumes "at_table L \<ge> 1024"
  shows "analyze_mft_root L 0 (bad_record, p) = None"
proof -
  define m where "m = fold (\<lambda>f m. m(fe L f + 57 := 0)) [0..<8] bad_record"
  have keep: "fold (\<lambda>f m. m(fe L f + 57 := 0)) is m' i = m' i" if "i < 1024" for "is" m' i
    using that assms by (induction "is" arbitrary: m') (auto simp: fe_def)
  have b: "m i = bad_record i" if "i < 1024" for i
    unfolding m_def by (rule keep [OF that])
  have "mft16 m 0 56 = 4" "mft16 m 0 60 = 0xFFFC" "mft16 m 0 52 \<noteq> 0x90"
    by (simp_all add: mft16_def rd16_def b) (simp_all add: bad_record_def)
  then have "mft_attrs L 0 56 m = None"
    using mft_attrs_loop [of L 0 56 m] by (cases "mft_attrs L 0 56 m") auto
  moreover have "mft16 bad_record 0 0x14 = 56" by (simp add: mft16_def rd16_def bad_record_def)
  ultimately show ?thesis
    by (simp add: analyze_mft_root_def Let_def m_def [symmetric]) (simp add: bad_record_def)
qed

theorem mft_parser_hangs_witness:
  "analyze_mft_root \<lparr>at_table = 0x9000, at_hdd = 0xB000, at_note = 0xC000\<rparr> 0
     (bad_record, \<lparr>mbr_info_text = [], mbr_start_lba = 0, gpt_partition_lba = 0, mft_start_lba = 0\<rparr>) = None"
  by (rule mft_parser_hangs) simp

text \<open>
  Without a selected drive, formatting reports that and changes nothing else.
\<close>

theorem fs_format_needs_drive:
  fixes s :: "('d, 'z) fs_scheme"
  assumes "active_drive_idx s < 0 \<or> int (drive_count s) \<le> active_drive_idx s"
  shows "run_state (fs_format_drive hw L) s = ((), s\<lparr>cmd_status := ''ERR: NO DRIVE SELECTED''\<rparr>)"
  using assms by (auto simp: fs_format_drive_def)

definition start_fs :: "int \<Rightarrow> unit fs" where
  "start_fs idx = \<lparr>ram = \<lambda>_. 0, dev = (), cmd_status = [], hw_usb = [], hw_disk = [],
     global_active_port = 0, global_ahci_abar = 0, ahci_scan_state = 0, ahci_scan_timer = 0,
     drives = [], drive_count = 0, ahci_found_ports_bitmask = 0, is_ahci_found = False, ahci_bar5 = 0,
     usb_io_base = 0, uhci_base_port = 0, phys = [], ata_base = 0, usb_detected = False, partitions = [],
     active_drive_idx = idx, drive_status = 0, current_path_id = 0, current_open_file = 0, wifi_ssids = []\<rparr>"

theorem fs_format_needs_drive_witness:
  "cmd_status (snd (run_state (fs_format_drive null_hw \<lparr>at_table = 0x9000, at_hdd = 0xB000, at_note = 0xC000\<rparr>)
     (start_fs (- 1)))) = ''ERR: NO DRIVE SELECTED''"
  using fs_format_needs_drive [of "start_fs (- 1)" null_hw "\<lparr>at_table = 0x9000, at_hdd = 0xB000, at_note = 0xC000\<rparr>"]
  by (simp add: start_fs_def)

text \<open>The text of the note pad fits the sector it is put into.\<close>

lemma note_text_fits: "length (note_text m note) \<le> 410"
proof -
  have row: "length (filter P (map f [0..<40]) @ [10]) \<le> 41" for P :: "u8 \<Rightarrow> bool" and f :: "nat \<Rightarrow> u8"
    using length_filter_le [of P "map f [0..<40]"] by simp
  have all: "length (concat (map g is)) \<le> 41 * length is" if "\<And>i. length (g i) \<le> 41" for g :: "nat \<Rightarrow> u8 list" and "is"
    using that by (induction "is") (auto intro: add_mono)
  have "length (note_text m note) \<le> 41 * length [0..<10 :: nat]"
    unfolding note_text_def by (rule all, rule row)
  then show ?thesis by simp
qed

end
