(* ===== verification/Packets.thy ===== *)
theory Packets
  imports CStrings
begin

text \<open>
  \<open>net.cpp\<close>, the packets: the headers and messages the network code puts together byte by byte,
  and the parsers of what arrives. They are functions on memory; the buffers and the structures
  on the stack are given by their addresses.
\<close>

subsection \<open>Headers\<close>

text \<open>\<open>EthernetFrame\<close> (net.h:18): six bytes destination, six source, the type\<close>

definition put_ether :: "nat \<Rightarrow> u8 list \<Rightarrow> u16 \<Rightarrow> mem \<Rightarrow> mem" where
  "put_ether b mac ty m =
     wr16 (b + 12) (hs ty) (fold (\<lambda>k m. m(b + k := 0xFF, b + 6 + k := mac ! k)) [0..<6] m)"

text \<open>\<open>IPHeader\<close> (net.h:19) at \<open>a\<close>; the field \<open>tos\<close> keeps what was in the buffer.\<close>

definition put_ip_fields :: "nat \<Rightarrow> u32 \<Rightarrow> u16 \<Rightarrow> u8 \<Rightarrow> u16 \<Rightarrow> mem \<Rightarrow> mem" where
  "put_ip_fields a dst p_len proto ident m =
     wr32 (a + 16) (hl dst)
       (wr32 (a + 12) (if dst = 0xFFFFFFFF then 0 else hl 0x0A00020F)
         ((wr16 (a + 6) (hs 0x4000) (wr16 (a + 4) (hs ident) (wr16 (a + 2) (hs (20 + p_len)) (m(a := 0x45)))))
            (a + 8 := 64, a + 9 := proto)))"

text \<open>The header checksum of \<open>net_ip\<close>, net.cpp:211 to 222: big-endian words, folded, complemented\<close>

definition be16 :: "mem \<Rightarrow> nat \<Rightarrow> u16" where
  "be16 m a = push_bit 8 (ucast (m a)) OR ucast (m (a + 1))"

definition ip_sum :: "mem \<Rightarrow> nat \<Rightarrow> u32" where
  "ip_sum m a = fold (\<lambda>j s. s + ucast (be16 m (a + 2 * j))) [0..<10] 0"

definition put_ip_chk :: "nat \<Rightarrow> mem \<Rightarrow> mem" where
  "put_ip_chk a m =
     (let m0 = wr16 (a + 10) 0 m;
          final_sum = ucast (NOT (fold16 (ip_sum m0 a))) :: u16
      in wr16 (a + 10) ((drop_bit 8 final_sum AND 0xFF) OR (push_bit 8 final_sum AND 0xFF00)) m0)"

text \<open>The whole frame \<open>net_ip\<close> hands to \<open>net_raw\<close>, net.cpp:192\<close>

definition ip_frame :: "nat \<Rightarrow> u8 list \<Rightarrow> u32 \<Rightarrow> nat \<Rightarrow> u16 \<Rightarrow> u8 \<Rightarrow> u16 \<Rightarrow> mem \<Rightarrow> mem" where
  "ip_frame b mac dst p_data p_len proto ident m =
     mem_copy (unat p_len) (b + 34) p_data
       (put_ip_chk (b + 14) (put_ip_fields (b + 14) dst p_len proto ident (put_ether b mac 0x0800 m)))"

text \<open>\<open>IPv6Header\<close> (net.h:22) and the frame of \<open>net_ipv6\<close>, net.cpp:229\<close>

definition ip6_frame :: "nat \<Rightarrow> u8 list \<Rightarrow> nat \<Rightarrow> nat \<Rightarrow> u16 \<Rightarrow> u8 \<Rightarrow> mem \<Rightarrow> mem" where
  "ip6_frame b mac dst_ip6 p_data p_len next_header m =
     (let m1 = put_ether b mac 0x86DD m;
          m2 = (wr16 (b + 18) (hs p_len) (wr32 (b + 14) (hl 0x60000000) m1))(b + 20 := next_header, b + 21 := 255);
          m3 = fold (\<lambda>k m. let m' = m(b + 22 + k := 0) in m'(b + 38 + k := m' (dst_ip6 + k))) [0..<16] m2
      in mem_copy (unat p_len) (b + 54) p_data m3)"

text \<open>\<open>UDPHeader\<close> and \<open>TCPHeader\<close>, net.h:20\<close>

definition put_udp :: "nat \<Rightarrow> u16 \<Rightarrow> u16 \<Rightarrow> u16 \<Rightarrow> mem \<Rightarrow> mem" where
  "put_udp u src dst len m = wr16 (u + 6) 0 (wr16 (u + 4) (hs len) (wr16 (u + 2) (hs dst) (wr16 u (hs src) m)))"

definition put_tcp :: "nat \<Rightarrow> u16 \<Rightarrow> u16 \<Rightarrow> u32 \<Rightarrow> u32 \<Rightarrow> u8 \<Rightarrow> mem \<Rightarrow> mem" where
  "put_tcp t src dst seq ack flg m =
     wr16 (t + 18) 0 (wr16 (t + 16) 0 (wr16 (t + 14) (hs 8192)
       ((wr32 (t + 8) ack (wr32 (t + 4) seq (wr16 (t + 2) (hs dst) (wr16 t (hs src) m))))
          (t + 12 := 0x50, t + 13 := flg))))"

subsection \<open>Messages\<close>

text \<open>\<open>send_arp_ping\<close>, net.cpp:305 to 321: an ARP request of 60 bytes from 192.168.14.99\<close>

definition arp_bytes :: "u8 list \<Rightarrow> u8 list" where
  "arp_bytes mac =
     replicate 6 0xFF @ take 6 mac @ [0x08, 0x06, 0x00, 0x01, 0x08, 0x00, 0x06, 0x04, 0x00, 0x01]
     @ take 6 mac @ [192, 168, 14, 99] @ replicate 6 0 @ [192, 168, 14, 14] @ replicate 18 0"

text \<open>\<open>send_dhcp_discover\<close>, net.cpp:776 to 812: the 300 bytes of the message\<close>

definition dhcp_discover_bytes :: "u8 list \<Rightarrow> u8 list" where
  "dhcp_discover_bytes mac =
     [1, 1, 6, 0, 0x12, 0x34, 0x56, 0x78, 0, 0, 0x80, 0] @ replicate 16 0 @ take 6 mac @ replicate 202 0
     @ [99, 130, 83, 99]
     @ [53, 1, 1] @ [61, 7, 1] @ take 6 mac @ [12, 6] @ bytes_of ''COSMOS'' @ [55, 3, 1, 3, 6] @ [255]
     @ replicate 34 0"

subsection \<open>Parsers\<close>

text \<open>An address in dotted notation: the code prints each byte and moves to the end of the text.\<close>

definition dotted :: "(nat \<Rightarrow> int) \<Rightarrow> string" where
  "dotted f = int_str (f 0) @ ''.'' @ int_str (f 1) @ ''.'' @ int_str (f 2) @ ''.'' @ int_str (f 3)"

definition dotted_at :: "mem \<Rightarrow> nat \<Rightarrow> string" where
  "dotted_at m a = dotted (\<lambda>i. uint (m (a + i)))"

text \<open>What the receive code shows and learns: status line, own address, net mask and gateway.\<close>

record netinfo =
  ni_status :: string
  ni_ip :: string
  ni_mask :: string
  ni_gateway :: string

text \<open>
  The option loop of a DHCP answer, net.cpp:622 to 647. It looks at the type and length bytes of
  an option that starts inside the frame, and always moves on.
\<close>

definition dhcp_option :: "mem \<Rightarrow> nat \<Rightarrow> nat \<Rightarrow> netinfo \<Rightarrow> netinfo" where
  "dhcp_option m raw j i =
     (let opt = m (raw + j); opt_len = m (raw + j + 1);
          i1 = (if opt = 1 \<and> opt_len = 4 then i\<lparr>ni_mask := dotted_at m (raw + j + 2)\<rparr> else i)
      in if opt = 3 \<and> 4 \<le> opt_len then i1\<lparr>ni_gateway := dotted_at m (raw + j + 2)\<rparr> else i1)"

function dhcp_options :: "mem \<Rightarrow> nat \<Rightarrow> nat \<Rightarrow> nat \<Rightarrow> u8 \<Rightarrow> netinfo \<Rightarrow> u8 \<times> netinfo" where
  "dhcp_options m raw len j msg_type i =
     (if j < len \<and> m (raw + j) \<noteq> 255 then
        if m (raw + j) = 0 then dhcp_options m raw len (j + 1) msg_type i
        else dhcp_options m raw len (j + 2 + unat (m (raw + j + 1)))
          (if m (raw + j) = 53 then m (raw + j + 2) else msg_type) (dhcp_option m raw j i)
      else (msg_type, i))"
  by pat_completeness auto
termination by (relation "measure (\<lambda>(_, _, len, j, _, _). len - j)") auto

declare dhcp_options.simps [simp del]

definition frame_is :: "mem \<Rightarrow> nat \<Rightarrow> u8 list \<Rightarrow> bool" where
  "frame_is m a bs \<longleftrightarrow> rd_bytes m a (length bs) = bs"

definition starts_with :: "string \<Rightarrow> string \<Rightarrow> bool" where
  "starts_with t p \<longleftrightarrow> take (length p) t = p"

text \<open>The ARP and DHCP branches of \<open>e1000_check_rx\<close>, net.cpp:599 to 655: new data, and was it important?\<close>

definition rx_arp :: "mem \<Rightarrow> nat \<Rightarrow> netinfo \<Rightarrow> netinfo \<times> bool" where
  "rx_arp m f i =
     (if m (f + 21) = 2 then (i\<lparr>ni_status := ''ONLINE (ARP OK)!'', ni_ip := dotted_at m (f + 28)\<rparr>, True) else (i, False))"

definition rx_dhcp :: "mem \<Rightarrow> nat \<Rightarrow> nat \<Rightarrow> nat \<Rightarrow> netinfo \<Rightarrow> netinfo \<times> bool" where
  "rx_dhcp m raw off len i =
     (let f = raw + off in
      if frame_is m (f + 36) [0, 68] \<and> m (f + 42) = 2 \<and> frame_is m (f + 278) [0x63, 0x82, 0x53, 0x63] then
        let r = dhcp_options m raw len (282 + off) 0 (i\<lparr>ni_ip := dotted_at m (f + 58)\<rparr>);
            t = (if fst r = 2 then ''DHCP OFFER RX (IP GEFUNDEN!)''
                 else if fst r = 5 then ''DHCP ACK RX (ONLINE!)'' else ''DHCP RX: PROTOCOL OK'')
        in ((snd r)\<lparr>ni_status := t\<rparr>, True)
      else (i, False))"

text \<open>The frames the debugger does not show, and what it shows of the others, net.cpp:658 to 674\<close>

definition rx_noise :: "mem \<Rightarrow> nat \<Rightarrow> bool" where
  "rx_noise m f \<longleftrightarrow> frame_is m (f + 12) [0x08, 0x06] \<and> m (f + 21) = 1 \<or> frame_is m (f + 12) [0x89, 0x12]
     \<or> frame_is m (f + 12) [0x86, 0xDD] \<or> frame_is m (f + 12) [0x88, 0xE1]"

definition rx_debug :: "mem \<Rightarrow> nat \<Rightarrow> nat \<Rightarrow> string" where
  "rx_debug m f len = ''RX: L='' @ int_str (int len) @ '' T='' @ byte_to_hex (m (f + 12)) @ byte_to_hex (m (f + 13))
     @ '' O='' @ byte_to_hex (m (f + 21))"

definition e1000_frame :: "mem \<Rightarrow> nat \<Rightarrow> nat \<Rightarrow> netinfo \<Rightarrow> netinfo" where
  "e1000_frame m raw len i =
     (let i0 = i\<lparr>ni_status := ''RX RAW: L='' @ int_str (int len) @ '' '' @ byte_to_hex (m (raw + 12)) @ byte_to_hex (m (raw + 13))\<rparr>;
          off = (if m (raw + 12) = 0x81 \<and> m (raw + 13) = 0 then 4 else 0);
          f = raw + off;
          r = (if 42 + off \<le> len \<and> frame_is m (f + 12) [0x08, 0x06] then rx_arp m f i0
               else if 280 + off < len \<and> frame_is m (f + 12) [0x08, 0x00] \<and> m (f + 23) = 0x11 then rx_dhcp m raw off len i0
               else (i0, False))
      in if \<not> snd r \<and> \<not> starts_with (ni_status (fst r)) ''ONLINE'' \<and> \<not> rx_noise m f
         then (fst r)\<lparr>ni_status := rx_debug m f len\<rparr> else fst r)"
subsection \<open>Properties\<close>

lemma be16_cong: "m a = m' a \<Longrightarrow> m (a + 1) = m' (a + 1) \<Longrightarrow> be16 m a = be16 m' a"
  by (simp add: be16_def)

lemma be16_wr16: "be16 (wr16 a ((drop_bit 8 v AND 0xFF) OR (push_bit 8 v AND 0xFF00)) m) a = v"
proof -
  have k: "(0xFF :: u16) = mask 8" "(0xFF00 :: u16) = push_bit 8 (mask 8)"
    by (simp_all add: mask_eq_exp_minus_1 push_bit_eq_mult)
  show ?thesis unfolding k
    by (rule bit_word_eqI) (auto simp: be16_def wr16_def bit_simps)
qed

lemma sum_ten: "ip_sum m a = ucast (be16 m a) + ucast (be16 m (a + 2)) + ucast (be16 m (a + 4)) + ucast (be16 m (a + 6))
    + ucast (be16 m (a + 8)) + ucast (be16 m (a + 10)) + ucast (be16 m (a + 12)) + ucast (be16 m (a + 14))
    + ucast (be16 m (a + 16)) + ucast (be16 m (a + 18))"
  by (simp add: ip_sum_def upt_rec)

lemma unat_half: "unat (ucast (w :: u16) :: u32) = unat w" "unat w < 65536"
proof -
  show "unat w < 65536" using unsigned_less [of w] by simp
  then show "unat (ucast w :: u32) = unat w" by (simp add: unsigned_ucast_eq take_bit_nat_eq_self)
qed

lemma sum_small:
  fixes a b :: u32
  assumes "unat a \<le> k * 65535" "unat b \<le> 65535" "k < 1000"
  shows "unat (a + b) = unat a + unat b" "unat (a + b) \<le> (k + 1) * 65535"
proof -
  have "unat a + unat b < 2 ^ 32" using assms by simp
  then show "unat (a + b) = unat a + unat b" by (simp add: unat_word_ariths)
  then show "unat (a + b) \<le> (k + 1) * 65535" using assms by simp
qed

lemma fold_sum_bound:
  "length ws + k < 1000 \<Longrightarrow> unat (s :: u32) \<le> k * 65535 \<Longrightarrow> unat (fold (\<lambda>w s. s + ucast (w :: u16)) ws s) \<le> (k + length ws) * 65535"
proof (induction ws arbitrary: k s)
  case (Cons w ws)
  have "unat (ucast w :: u32) \<le> 65535" using unat_half [of w] by simp
  then have "unat (s + ucast w) \<le> (k + 1) * 65535" using sum_small(2) [OF Cons.prems(2), of "ucast w"] Cons.prems(1) by simp
  then show ?case using Cons.IH [of "k + 1" "s + ucast w"] Cons.prems(1) by simp
qed simp

lemma ip_sum_bound: "unat (ip_sum m a) \<le> 655350"
  using fold_sum_bound [of "map (\<lambda>j. be16 m (a + 2 * j)) [0..<10]" 0 0] by (simp add: ip_sum_def fold_map comp_def)

lemma not_eq_complement': "NOT (w :: 'a::len word) = - 1 - w"
  by (simp add: not_eq_complement)

text \<open>Adding the complement of the folded sum makes the ones' complement sum all ones.\<close>

lemma complement_sum:
  assumes "unat s \<le> 655350"
  shows "fold16 (s + ucast (ucast (NOT (fold16 s)) :: u16)) = 0xFFFF"
proof -
  let ?r = "fold16 s" and ?c = "ucast (NOT (fold16 s)) :: u16"
  have r: "unat ?r < 65536" "unat ?r mod 65535 = unat s mod 65535" "?r = 0 \<longleftrightarrow> s = 0"
    using fold16_spec [of s] by blast+
  have "?c = NOT (ucast ?r)" by (rule bit_word_eqI) (simp add: bit_simps)
  moreover have "unat (NOT (ucast ?r :: u16)) = 65535 - unat (ucast ?r :: u16)"
    by (simp add: not_eq_complement' unat_sub unsigned_minus_1_eq_mask mask_eq_exp_minus_1)
  moreover have "unat (ucast ?r :: u16) = unat ?r"
    using r(1) by (simp add: unsigned_ucast_eq take_bit_nat_eq_self)
  ultimately have c: "unat ?c = 65535 - unat ?r" by simp
  have t: "unat (s + ucast ?c) = unat s + (65535 - unat ?r)"
    using sum_small(1) [of s 10 "ucast ?c"] assms unat_half [of ?c] c by simp
  let ?t = "s + ucast ?c"
  have "unat ?t mod 65535 = 0"
  proof -
    have "unat ?t + unat ?r = unat s + 65535" using t r(1) by simp
    then have "(unat ?t + unat ?r) mod 65535 = unat s mod 65535" by simp
    then have "(unat ?t + unat s) mod 65535 = (0 + unat s) mod 65535" using r(2) by (metis add_0 mod_add_right_eq)
    then have "65535 dvd (unat ?t + unat s) - unat s" by (simp only: mod_eq_dvd_iff_nat le_add2 add_0)
    then show ?thesis by simp
  qed
  moreover have "?t \<noteq> 0"
  proof
    assume "?t = 0"
    then have "unat s + (65535 - unat ?r) = 0" using t by simp
    then have "unat s = 0" and ge: "65535 \<le> unat ?r" by simp_all
    then have "?r = 0" using r(3) by (simp add: unat_eq_zero)
    then show False using ge by simp
  qed
  ultimately have f: "unat (fold16 ?t) < 65536" "unat (fold16 ?t) mod 65535 = 0" "fold16 ?t \<noteq> 0"
    using fold16_spec [of ?t] by simp_all
  then have "65535 dvd unat (fold16 ?t)" "unat (fold16 ?t) \<noteq> 0" by (simp_all add: mod_0_imp_dvd unat_eq_zero)
  then have "unat (fold16 ?t) = 65535" using f(1) by (auto elim!: dvdE)
  then show ?thesis by (simp add: word_unat_eq_iff)
qed
text \<open>
  Property C25. The header checksum \<open>net_ip\<close> stores is the one a router verifies: the ones'
  complement sum over the finished header, checksum included, folds to 0xFFFF, for every address,
  length, protocol and identification.
\<close>

theorem ip_header_verifies:
  "fold16 (ip_sum (put_ip_chk a m) a) = 0xFFFF"
proof -
  let ?m0 = "wr16 (a + 10) 0 m" and ?m1 = "put_ip_chk a m"
  let ?f = "ucast (NOT (fold16 (ip_sum ?m0 a))) :: u16"
  have other: "be16 ?m1 (a + k) = be16 ?m0 (a + k)" if "k + 2 \<le> 10 \<or> 12 \<le> k" for k
    using that by (intro be16_cong) (auto simp: put_ip_chk_def Let_def wr16_other)
  have new: "be16 ?m1 (a + 10) = ?f" by (simp add: put_ip_chk_def Let_def be16_wr16)
  have old: "be16 ?m0 (a + 10) = 0" by (simp add: be16_def wr16_def)
  have "ip_sum ?m1 a = ip_sum ?m0 a + ucast ?f"
    using other [of 0] other [of 2] other [of 4] other [of 6] other [of 8] other [of 12] other [of 14]
      other [of 16] other [of 18] by (simp add: sum_ten new old)
  then show ?thesis using complement_sum [OF ip_sum_bound, of ?m0 a] by simp
qed

lemma length_discover: "length mac = 6 \<Longrightarrow> length (dhcp_discover_bytes mac) = 300"
  by (simp add: dhcp_discover_bytes_def)

lemma byte_at: "rd_bytes m a (length bs) = bs \<Longrightarrow> k < length bs \<Longrightarrow> m (a + k) = bs ! k"
  by (metis (no_types, lifting) add_0 diff_zero length_upt nth_map nth_upt rd_bytes_def rd_bytes_length)

text \<open>
  The receiver's own option parser understands the DISCOVER message: placed in a
  frame behind the Ethernet, IP and UDP headers, its options are walked to the end marker, the
  message type found is 1, and no mask or gateway is invented.
\<close>

theorem discover_options_parse:
  assumes "length mac = 6" and "rd_bytes m (raw + 42) 300 = dhcp_discover_bytes mac"
  shows "dhcp_options m raw 342 282 0 i = (1, i)"
proof -
  obtain x0 x1 x2 x3 x4 x5 where mac: "mac = [x0, x1, x2, x3, x4, x5]"
    using assms(1) by (auto simp: numeral_eq_Suc length_Suc_conv)
  have b: "m (raw + (42 + k)) = dhcp_discover_bytes mac ! k" if "k < 300" for k
    using byte_at [of m "raw + 42" "dhcp_discover_bytes mac" k] assms length_discover [OF assms(1)] that
    by (simp add: add.assoc)
  have pre: "dhcp_discover_bytes mac ! k = ([53, 1, 1, 61, 7, 1, x0, x1, x2, x3, x4, x5, 12, 6] @ bytes_of ''COSMOS''
      @ [55, 3, 1, 3, 6, 255] @ replicate 34 0) ! (k - 240)" if "240 \<le> k" "k < 300" for k
  proof -
    have "dhcp_discover_bytes mac = ([1, 1, 6, 0, 0x12, 0x34, 0x56, 0x78, 0, 0, 0x80, 0] @ replicate 16 0 @ mac
        @ replicate 202 0 @ [99, 130, 83, 99]) @ ([53, 1, 1, 61, 7, 1, x0, x1, x2, x3, x4, x5, 12, 6]
        @ bytes_of ''COSMOS'' @ [55, 3, 1, 3, 6, 255] @ replicate 34 0)"
      by (simp add: dhcp_discover_bytes_def mac)
    then show ?thesis using that by (simp only: nth_append) (simp add: mac)
  qed
  have opt: "m (raw + 282) = 53" "m (raw + 283) = 1" "m (raw + 284) = 1" "m (raw + 285) = 61" "m (raw + 286) = 7"
    "m (raw + 294) = 12" "m (raw + 295) = 6" "m (raw + 302) = 55" "m (raw + 303) = 3" "m (raw + 307) = 255"
    using b [of 240] b [of 241] b [of 242] b [of 243] b [of 244] b [of 252] b [of 253] b [of 260] b [of 261] b [of 265]
    by (simp_all add: pre bytes_of_def)
  note opt = opt opt [unfolded add.commute [of raw]]
  have e: "dhcp_options m raw 342 307 1 i = (1, i)" by (simp add: dhcp_options.simps [of m raw 342 307] opt)
  have d: "dhcp_options m raw 342 302 1 i = (1, i)"
    using e by (simp add: dhcp_options.simps [of m raw 342 302] opt dhcp_option_def)
  have c: "dhcp_options m raw 342 294 1 i = (1, i)"
    using d by (simp add: dhcp_options.simps [of m raw 342 294] opt dhcp_option_def)
  have b: "dhcp_options m raw 342 285 1 i = (1, i)"
    using c by (simp add: dhcp_options.simps [of m raw 342 285] opt dhcp_option_def)
  show ?thesis using b by (simp add: dhcp_options.simps [of m raw 342 282] opt dhcp_option_def)
qed

theorem discover_options_parse_witness:
  "fst (dhcp_options (wr_bytes 42 (dhcp_discover_bytes [0x52, 0x54, 0, 0x12, 0x34, 0x56]) (\<lambda>_. 0)) 0 342 282 0
     \<lparr>ni_status = [], ni_ip = [], ni_mask = [], ni_gateway = []\<rparr>) = 1"
proof -
  let ?d = "dhcp_discover_bytes [0x52, 0x54, 0, 0x12, 0x34, 0x56]"
  have "rd_bytes (wr_bytes 42 ?d (\<lambda>_. 0)) (0 + 42) 300 = ?d"
    using rd_wr_bytes [of 42 ?d "\<lambda>_. 0"] length_discover [of "[0x52, 0x54, 0, 0x12, 0x34, 0x56]"] by simp
  from discover_options_parse [OF _ this] show ?thesis by simp
qed

end
