(* ===== verification/Net.thy ===== *)
theory Net
  imports Tba Packets
begin

text \<open>
  \<open>net.cpp\<close>, the drivers and the protocol operations: the rings of the Intel card, the ring
  buffer of the RTL8139, sending and receiving. The cards are devices of the machine; the
  buffers, whose addresses differ between the two kernels, form the parameter \<open>N\<close>.
\<close>

subsection \<open>State\<close>

record net_layout =
  n_tx_rtl :: nat
  n_rx_rtl :: nat
  n_rx_ring :: nat
  n_tx_ring :: nat
  n_rx_bufs :: nat
  n_tx_bufs :: nat
  n_ip :: nat
  n_udp :: nat
  n_dhcp :: nat
  n_ip6 :: nat
  n_stk :: nat

text \<open>The addresses of the 64-bit kernel, net.cpp:9; what follows the rings is given by the linker.\<close>

definition os2_net :: "nat \<Rightarrow> net_layout" where
  "os2_net bss = \<lparr>n_tx_rtl = 0x00C10000, n_rx_rtl = 0x00C00000, n_rx_ring = 0x00E00000, n_tx_ring = 0x00E10000,
     n_rx_bufs = 0x00E20000, n_tx_bufs = 0x00E40000, n_ip = bss, n_udp = bss + 2048, n_dhcp = bss + 4096,
     n_ip6 = bss + 6144, n_stk = bss + 8192\<rparr>"

record 'd net = "'d recorder" +
  rtl_io_base :: u32
  intel_mem_base :: u32
  mac_addr :: "u8 list"
  mac_str :: string
  tx_cur :: nat
  rx_idx_rtl :: nat
  rx_cur_intel :: nat
  tx_cur_intel :: nat
  ip_address :: string
  net_mask :: string
  gateway_ip :: string
  rng_seed :: u32

text \<open>Registers of the two cards: offsets are added in 32 bits, ports keep 16 of them.\<close>

definition nic_read :: "'d hw \<Rightarrow> u32 \<Rightarrow> (('d, 'z) net_scheme, u32) state" where
  "nic_read hw off = do { b \<leftarrow> gets intel_mem_base; mmio_read32 hw (unat (b + off)) }"

definition nic_write :: "'d hw \<Rightarrow> u32 \<Rightarrow> u32 \<Rightarrow> (('d, 'z) net_scheme, unit) state" where
  "nic_write hw off v = do { b \<leftarrow> gets intel_mem_base; mmio_write32 hw (unat (b + off)) v }"

definition rtl_port :: "nat \<Rightarrow> (('d, 'z) net_scheme, u16) state" where
  "rtl_port off = gets (\<lambda>s. ucast (rtl_io_base s + word_of_nat off))"

definition random :: "(('d, 'z) net_scheme, u32) state" where
  "random = do {
     modify (\<lambda>s. s\<lparr>rng_seed := random_step (rng_seed s)\<rparr>);
     gets rng_seed
   }"

text \<open>A descriptor: four words; the cards use the low address, the length word and the status word.\<close>

definition put_desc :: "nat \<Rightarrow> u32 \<Rightarrow> u32 \<Rightarrow> u32 \<Rightarrow> u32 \<Rightarrow> mem \<Rightarrow> mem" where
  "put_desc a w0 w1 w2 w3 m = wr32 (a + 12) w3 (wr32 (a + 8) w2 (wr32 (a + 4) w1 (wr32 a w0 m)))"

definition addr_lo :: "nat \<Rightarrow> u32" where "addr_lo a = word_of_nat a"
definition addr_hi :: "nat \<Rightarrow> u32" where "addr_hi a = word_of_nat (a div 2 ^ 32)"

definition mac_text :: "u8 list \<Rightarrow> string" where
  "mac_text mac = concat (map (\<lambda>i. byte_to_hex (mac ! i) @ (if i < 5 then '':'' else [])) [0..<6])"

subsection \<open>Sending\<close>

text \<open>
  \<open>net_raw\<close>, net.cpp:132. The wait for the descriptor returns from the function as soon as the
  card is done, so what follows it is only reached when the wait ran out.
\<close>

definition net_raw_rtl :: "'d hw \<Rightarrow> net_layout \<Rightarrow> nat \<Rightarrow> nat \<Rightarrow> (('d, 'z) net_scheme, unit) state" where
  "net_raw_rtl hw N d l = do {
     cur \<leftarrow> gets tx_cur;
     poke (mem_copy l (n_tx_rtl N) d);
     p1 \<leftarrow> rtl_port (0x20 + cur * 4);
     outl hw p1 (addr_lo (n_tx_rtl N));
     p2 \<leftarrow> rtl_port (0x10 + cur * 4);
     outl hw p2 (word_of_nat l);
     set_status ''RTL: NATIVE TX FIRED!''
   }"

definition net_raw_intel :: "'d hw \<Rightarrow> net_layout \<Rightarrow> nat \<Rightarrow> nat \<Rightarrow> (('d, 'z) net_scheme, unit) state" where
  "net_raw_intel hw N d l = do {
     mac_status \<leftarrow> nic_read hw 8;
     if mac_status AND 2 = 0 then set_status ''INTEL ERR: LINK DOWN (WAIT!)''
     else do {
       cur \<leftarrow> gets tx_cur_intel;
       let buf = n_tx_bufs N + cur * 4096;
       let desc = n_tx_ring N + cur * 16;
       let len16 = (word_of_nat l :: u16);
       poke (mem_copy l buf d);
       when_m (len16 < 60) (poke (zero_fill (buf + unat len16) (60 - unat len16)));
       let send_len = (if len16 < 60 then 60 else len16);
       poke (put_desc desc (addr_lo buf) (addr_hi buf) (ucast send_len OR 0x0B000000) 0);
       modify (\<lambda>s. s\<lparr>tx_cur_intel := (cur + 1) mod 32\<rparr>);
       nic_write hw 0x3818 (word_of_nat ((cur + 1) mod 32));
       tx_done \<leftarrow> poll_for (peek_dma hw (\<lambda>m. rd32 m (desc + 12) AND 1 \<noteq> 0)) 1500000;
       if tx_done then skip
       else set_status ''TX TIMEOUT (ABER TX=1 BEDEUTET GESENDET)''
     }
   }"

definition net_raw :: "'d hw \<Rightarrow> net_layout \<Rightarrow> nat \<Rightarrow> nat \<Rightarrow> (('d, 'z) net_scheme, unit) state" where
  "net_raw hw N d l = do {
     rtl \<leftarrow> gets rtl_io_base;
     when_m (0 < rtl) (net_raw_rtl hw N d l);
     intel \<leftarrow> gets intel_mem_base;
     when_m (0 < intel) (net_raw_intel hw N d l)
   }"

text \<open>\<open>net_ip\<close> and \<open>net_ipv6\<close>, net.cpp:192 and 229\<close>

definition net_ip :: "'d hw \<Rightarrow> net_layout \<Rightarrow> u32 \<Rightarrow> nat \<Rightarrow> u16 \<Rightarrow> u8 \<Rightarrow> (('d, 'z) net_scheme, unit) state" where
  "net_ip hw N dst p_data p_len proto = do {
     mac \<leftarrow> gets mac_addr;
     r \<leftarrow> random;
     poke (ip_frame (n_ip N) mac dst p_data p_len proto (ucast r));
     net_raw hw N (n_ip N) (34 + unat p_len)
   }"

definition net_ipv6 :: "'d hw \<Rightarrow> net_layout \<Rightarrow> nat \<Rightarrow> nat \<Rightarrow> u16 \<Rightarrow> u8 \<Rightarrow> (('d, 'z) net_scheme, unit) state" where
  "net_ipv6 hw N dst_ip6 p_data p_len next_header = do {
     mac \<leftarrow> gets mac_addr;
     poke (ip6_frame (n_ip6 N) mac dst_ip6 p_data p_len next_header);
     net_raw hw N (n_ip6 N) (54 + unat p_len)
   }"

text \<open>\<open>send_big_cosmos_block\<close> and \<open>send_cosmos_block\<close>, net.cpp:254 and 267: port 9999 both ways\<close>

definition send_block :: "'d hw \<Rightarrow> net_layout \<Rightarrow> u32 \<Rightarrow> nat \<Rightarrow> string \<Rightarrow> (('d, 'z) net_scheme, unit) state" where
  "send_block hw N ip block done_text = do {
     poke (put_udp (n_stk N) 9999 9999 264);
     poke (mem_copy 256 (n_stk N + 8) block);
     net_ip hw N ip (n_stk N) 264 17;
     set_status done_text
   }"

definition send_big_cosmos_block :: "'d hw \<Rightarrow> net_layout \<Rightarrow> u32 \<Rightarrow> nat \<Rightarrow> (('d, 'z) net_scheme, unit) state" where
  "send_big_cosmos_block hw N ip block = send_block hw N ip block ''BIG BLOCK DISPATCHED''"

definition send_cosmos_block :: "'d hw \<Rightarrow> net_layout \<Rightarrow> u32 \<Rightarrow> nat \<Rightarrow> (('d, 'z) net_scheme, unit) state" where
  "send_cosmos_block hw N ip block = send_block hw N ip block ''COSMOS BLOCK SENT''"

text \<open>\<open>net_handle_cosmos_packet\<close>, net.cpp:280: the first valid frame in the packet is recorded\<close>

definition block_at :: "mem \<Rightarrow> nat \<Rightarrow> bool" where
  "block_at m a \<longleftrightarrow> m a = 0x2A \<and> m (a + 255) = 0xFF \<and> cb_validate m a"

definition net_handle_cosmos_packet :: "'d hw \<Rightarrow> nat \<Rightarrow> u16 \<Rightarrow> (('d, 'z) net_scheme, unit) state" where
  "net_handle_cosmos_packet hw data len = do {
     m \<leftarrow> peek id;
     case first_slot (\<lambda>k. block_at m (data + k)) [0..<unat len - 255] of
       None \<Rightarrow> skip
     | Some k \<Rightarrow> do { set_status ''BIG BLOCK RX: VALID''; tba_master_stream hw (data + k) }
   }"

text \<open>\<open>send_arp_ping\<close>, net.cpp:292: the link test only reports\<close>

definition send_arp_ping :: "'d hw \<Rightarrow> net_layout \<Rightarrow> (('d, 'z) net_scheme, unit) state" where
  "send_arp_ping hw N = do {
     intel \<leftarrow> gets intel_mem_base;
     when_m (0 < intel) (do {
       st \<leftarrow> nic_read hw 8;
       when_m (st AND 2 = 0) (set_status ''FEHLER: KEIN LINK (KABEL DOWN)!'')
     });
     mac \<leftarrow> gets mac_addr;
     poke (wr_bytes (n_stk N) (arp_bytes mac));
     net_raw hw N (n_stk N) 60
   }"

text \<open>\<open>apply_static_ip\<close>, net.cpp:327\<close>

definition apply_static_ip :: "'d hw \<Rightarrow> net_layout \<Rightarrow> string \<Rightarrow> (('d, 'z) net_scheme, unit) state" where
  "apply_static_ip hw N new_ip = do {
     modify (\<lambda>s. s\<lparr>ip_address := new_ip, net_mask := ''255.255.255.0'', gateway_ip := ''192.168.14.14''\<rparr>);
     set_status ''ONLINE (STATIC IP SET)'';
     send_arp_ping hw N
   }"

text \<open>\<open>send_udp\<close> to \<open>send_tcp_ack\<close>, net.cpp:344 to 385\<close>

definition send_udp :: "'d hw \<Rightarrow> net_layout \<Rightarrow> u32 \<Rightarrow> u16 \<Rightarrow> u16 \<Rightarrow> string \<Rightarrow> (('d, 'z) net_scheme, unit) state" where
  "send_udp hw N ip p_src p_dst msg = do {
     let len = 10 + word_of_nat (length msg);
     poke (put_udp (n_stk N) p_src p_dst len);
     poke (wr_bytes (n_stk N + 8) (byte_of CHR ''S'' # 84 # bytes_of msg));
     net_ip hw N ip (n_stk N) len 17;
     set_status ''UDP: SIGNED (ID 84)''
   }"

definition send_udp_raw :: "'d hw \<Rightarrow> net_layout \<Rightarrow> u32 \<Rightarrow> u16 \<Rightarrow> u16 \<Rightarrow> nat \<Rightarrow> u16 \<Rightarrow> (('d, 'z) net_scheme, unit) state" where
  "send_udp_raw hw N ip p_src p_dst payload payload_len = do {
     poke (put_udp (n_udp N) p_src p_dst (8 + payload_len));
     poke (mem_copy (unat payload_len) (n_udp N + 8) payload);
     net_ip hw N ip (n_udp N) (8 + payload_len) 17
   }"

definition send_tcp_syn :: "'d hw \<Rightarrow> net_layout \<Rightarrow> u32 \<Rightarrow> u16 \<Rightarrow> (('d, 'z) net_scheme, unit) state" where
  "send_tcp_syn hw N ip port = do {
     r \<leftarrow> random;
     poke (put_tcp (n_stk N) 49152 port (hl r) 0 2);
     net_ip hw N ip (n_stk N) 20 6;
     set_status ''TCP: SYN SENT''
   }"

definition send_tcp_ack ::
  "'d hw \<Rightarrow> net_layout \<Rightarrow> u32 \<Rightarrow> u16 \<Rightarrow> u16 \<Rightarrow> u32 \<Rightarrow> u32 \<Rightarrow> (('d, 'z) net_scheme, unit) state" where
  "send_tcp_ack hw N ip p_src p_dst seq ack_num = do {
     poke (put_tcp (n_stk N) p_src p_dst (hl seq) (hl ack_num) 0x10);
     net_ip hw N ip (n_stk N) 20 6;
     set_status ''TCP: CONNECTED (ACK)''
   }"

text \<open>\<open>send_dhcp_discover\<close>, net.cpp:769\<close>

definition send_dhcp_discover :: "'d hw \<Rightarrow> net_layout \<Rightarrow> (('d, 'z) net_scheme, unit) state" where
  "send_dhcp_discover hw N = do {
     mac \<leftarrow> gets mac_addr;
     if mac ! 0 = 0 \<and> mac ! 1 = 0 \<and> mac ! 2 = 0 then set_status ''ERR: NIC NOT INITIALIZED!''
     else do {
       poke (wr_bytes (n_dhcp N) (dhcp_discover_bytes mac));
       send_udp_raw hw N 0xFFFFFFFF 68 67 (n_dhcp N) 300
     }
   }"
subsection \<open>Bringing the cards up\<close>

text \<open>\<open>e1000_base_reset\<close>, net.cpp:87; the delay loops have no effect on the state\<close>

definition e1000_base_reset :: "'d hw \<Rightarrow> (('d, 'z) net_scheme, unit) state" where
  "e1000_base_reset hw = do {
     b \<leftarrow> gets intel_mem_base;
     if b = 0 then skip
     else do {
       nic_write hw 0x00D8 0xFFFFFFFF;
       nic_read hw 0;
       nic_write hw 0x00D8 0xFFFFFFFF;
       nic_write hw 0x0400 0;
       nic_write hw 0x0100 0;
       new_ctrl \<leftarrow> nic_read hw 0;
       nic_write hw 0 (new_ctrl OR 0x40 OR 0x20 OR 0x01 OR 0x08)
     }
   }"

text \<open>\<open>find_undi_entry\<close>, net.cpp:121: the address of the structure, for the pointer \<open>global_pxe\<close>\<close>

definition find_undi_entry :: "(('d, 'z) net_scheme, nat option) state" where
  "find_undi_entry = do {
     m \<leftarrow> peek id;
     case first_slot (\<lambda>i. bytes_are m (0x10000 + 16 * i) ''!PXE'') [0..<(0x9FFFF - 0x10000 + 15) div 16] of
       Some i \<Rightarrow> do { set_status ''UNDI INTERFACE: FOUND''; State_Monad.return (Some (0x10000 + 16 * i)) }
     | None \<Rightarrow> do { set_status ''UNDI INTERFACE: NOT FOUND''; State_Monad.return None }
   }"

text \<open>The 32 descriptors of a ring, each with its own 4096-byte buffer.\<close>

definition init_ring :: "nat \<Rightarrow> nat \<Rightarrow> mem \<Rightarrow> mem" where
  "init_ring ring bufs m =
     fold (\<lambda>i. put_desc (ring + 16 * i) (addr_lo (bufs + 4096 * i)) (addr_hi (bufs + 4096 * i)) 0 0) [0..<32] m"

text \<open>\<open>e1000_enable_tx\<close> and \<open>e1000_enable_rx\<close>, net.cpp:395 and 449\<close>

definition mac_bytes :: "u32 \<Rightarrow> u32 \<Rightarrow> u8 list" where
  "mac_bytes lo hi = [ucast lo, ucast (drop_bit 8 lo), ucast (drop_bit 16 lo), ucast (drop_bit 24 lo), ucast hi, ucast (drop_bit 8 hi)]"

definition e1000_enable_tx :: "'d hw \<Rightarrow> net_layout \<Rightarrow> (('d, 'z) net_scheme, unit) state" where
  "e1000_enable_tx hw N = do {
     b \<leftarrow> gets intel_mem_base;
     if b = 0 then skip
     else do {
       ctrl \<leftarrow> nic_read hw 0;
       nic_write hw 0 (ctrl OR 0x40 OR 0x20 OR 0x01);
       nic_write hw 0x00D8 0xFFFFFFFF;
       poke (init_ring (n_tx_ring N) (n_tx_bufs N));
       nic_write hw 0x3800 (addr_lo (n_tx_ring N));
       mac_low \<leftarrow> nic_read hw 0x5400;
       mac_high \<leftarrow> nic_read hw 0x5404;
       set_status (''MAC: '' @ mac_text (mac_bytes mac_low mac_high));
       nic_write hw 0x3804 (addr_hi (n_tx_ring N));
       nic_write hw 0x3808 512;
       nic_write hw 0x3810 0;
       nic_write hw 0x3818 0;
       modify (\<lambda>s. s\<lparr>tx_cur_intel := 0\<rparr>);
       nic_write hw 0x0400 0x0103F0FA;
       nic_write hw 0x0410 0x0060200A;
       nic_write hw 0x3828 0x02010000;
       poll_for (do { v \<leftarrow> nic_read hw 0x3828; State_Monad.return (v AND 0x02000000 \<noteq> 0) }) 1000000;
       skip
     }
   }"

definition e1000_enable_rx :: "'d hw \<Rightarrow> net_layout \<Rightarrow> (('d, 'z) net_scheme, unit) state" where
  "e1000_enable_rx hw N = do {
     b \<leftarrow> gets intel_mem_base;
     if b = 0 then skip
     else do {
       poke (init_ring (n_rx_ring N) (n_rx_bufs N));
       nic_write hw 0x2800 (addr_lo (n_rx_ring N));
       nic_write hw 0x2804 (addr_hi (n_rx_ring N));
       nic_write hw 0x2808 512;
       nic_write hw 0x2810 0;
       nic_write hw 0x2818 31;
       rxdctl \<leftarrow> nic_read hw 0x2828;
       nic_write hw 0x2828 (rxdctl OR 0x02000000);
       for_m [0..<128] (\<lambda>i. nic_write hw (0x5200 + word_of_nat (i * 4)) 0);
       nic_write hw 0x0100 0x0400801E
     }
   }"

text \<open>\<open>intel_e1000_init\<close>, net.cpp:472\<close>

definition intel_e1000_init :: "'d hw \<Rightarrow> net_layout \<Rightarrow> u32 \<Rightarrow> (('d, 'z) net_scheme, unit) state" where
  "intel_e1000_init hw N mmio_addr = do {
     let base = mmio_addr AND 0xFFFFFFF0;
     modify (\<lambda>s. s\<lparr>intel_mem_base := base\<rparr>);
     if base = 0 then skip
     else do {
       ral \<leftarrow> nic_read hw 0x5400;
       rah \<leftarrow> nic_read hw 0x5404;
       let mac = (if ral \<noteq> 0 \<and> ral \<noteq> 0xFFFFFFFF then mac_bytes ral rah else [0x52, 0x54, 0x00, 0x12, 0x34, 0x56]);
       modify (\<lambda>s. s\<lparr>mac_addr := mac, mac_str := mac_text mac\<rparr>);
       ctrl_ext \<leftarrow> nic_read hw 0x0018;
       nic_write hw 0x0018 (ctrl_ext OR 0x10000000);
       nic_read hw 0;
       nic_write hw 0x00D8 0xFFFFFFFF;
       nic_write hw 0x5800 0;
       nic_write hw 0x5808 0;
       nic_write hw 0x5810 0;
       nic_write hw 0x5400 (ucast (mac ! 0) OR push_bit 8 (ucast (mac ! 1)) OR push_bit 16 (ucast (mac ! 2)) OR push_bit 24 (ucast (mac ! 3)));
       nic_write hw 0x5404 (ucast (mac ! 4) OR push_bit 8 (ucast (mac ! 5)) OR 0x80000000);
       nic_write hw 0x0100 0;
       nic_write hw 0x0400 0;
       nic_read hw 0;
       nic_read hw 0x00C0;
       e1000_enable_rx hw N;
       e1000_enable_tx hw N;
       set_status ''INTEL: READY & LISTENING''
     }
   }"

text \<open>
  \<open>rtl_enable_rx\<close> and \<open>rtl8139_init\<close>, net.cpp:386 and 761. The wait for the reset has no bound in
  the code; \<open>fuel\<close> bounds the number of looks, and false means that the card has not come back.
\<close>

definition rtl_enable_rx :: "'d hw \<Rightarrow> net_layout \<Rightarrow> (('d, 'z) net_scheme, unit) state" where
  "rtl_enable_rx hw N = do {
     p1 \<leftarrow> rtl_port 0x30; outl hw p1 (addr_lo (n_rx_rtl N));
     p2 \<leftarrow> rtl_port 0x3C; outw hw p2 0x0005;
     p3 \<leftarrow> rtl_port 0x44; outl hw p3 0x8F;
     p4 \<leftarrow> rtl_port 0x37; outb hw p4 0x0C
   }"

definition rtl8139_init :: "nat \<Rightarrow> 'd hw \<Rightarrow> net_layout \<Rightarrow> u32 \<Rightarrow> (('d, 'z) net_scheme, bool) state" where
  "rtl8139_init fuel hw N io_addr = do {
     modify (\<lambda>s. s\<lparr>rtl_io_base := io_addr AND NOT 3\<rparr>);
     p1 \<leftarrow> rtl_port 0x52; outb hw p1 0;
     p2 \<leftarrow> rtl_port 0x37; outb hw p2 0x10;
     back \<leftarrow> poll_for (do { v \<leftarrow> inb hw p2; State_Monad.return (v AND 0x10 = 0) }) fuel;
     if \<not> back then State_Monad.return False
     else do {
       outb hw p2 0x0C;
       for_m [0..<6] (\<lambda>i. do {
         p \<leftarrow> rtl_port i;
         v \<leftarrow> inb hw p;
         modify (\<lambda>s. s\<lparr>mac_addr := (mac_addr s)[i := v]\<rparr>) });
       modify (\<lambda>s. s\<lparr>mac_str := mac_text (mac_addr s)\<rparr>);
       rtl_enable_rx hw N;
       set_status ''RTL8139 READY'';
       modify (\<lambda>s. s\<lparr>ip_address := ''DHCP (RTL)...''\<rparr>);
       State_Monad.return True
     }
   }"

subsection \<open>Receiving\<close>

definition get_info :: "('d, 'z) net_scheme \<Rightarrow> netinfo" where
  "get_info s = \<lparr>ni_status = cmd_status s, ni_ip = ip_address s, ni_mask = net_mask s, ni_gateway = gateway_ip s\<rparr>"

definition set_info :: "netinfo \<Rightarrow> ('d, 'z) net_scheme \<Rightarrow> ('d, 'z) net_scheme" where
  "set_info i s = s\<lparr>cmd_status := ni_status i, ip_address := ni_ip i, net_mask := ni_mask i, gateway_ip := ni_gateway i\<rparr>"

text \<open>
  \<open>e1000_check_rx\<close>, net.cpp:541: at most 32 descriptors, until one is not done; the tail register
  gets the last one processed.
\<close>

fun e1000_rx_loop :: "'d hw \<Rightarrow> net_layout \<Rightarrow> nat \<Rightarrow> nat option \<Rightarrow> (('d, 'z) net_scheme, nat option) state" where
  "e1000_rx_loop hw N 0 lst = State_Monad.return lst"
| "e1000_rx_loop hw N (Suc n) lst = do {
     cur \<leftarrow> gets rx_cur_intel;
     let desc = n_rx_ring N + cur * 16;
     st \<leftarrow> peek_dma hw (\<lambda>m. rd32 m (desc + 12));
     if st AND 1 = 0 then do {
       tpt \<leftarrow> nic_read hw 0x40D4;
       tpr \<leftarrow> nic_read hw 0x40D0;
       online \<leftarrow> gets (\<lambda>s. starts_with (cmd_status s) ''ONLINE'');
       when_m (\<not> online) (set_status (''HW STATS | TX: '' @ int_str (sint tpt) @ '' RX: '' @ int_str (sint tpr)));
       State_Monad.return lst
     }
     else do {
       m \<leftarrow> peek id;
       let len = unat (rd32 m (desc + 8) AND 0xFFFF);
       modify (\<lambda>s. set_info (e1000_frame m (n_rx_bufs N + cur * 4096) len (get_info s)) s);
       poke (wr32 (desc + 12) 0);
       modify (\<lambda>s. s\<lparr>rx_cur_intel := (cur + 1) mod 32\<rparr>);
       e1000_rx_loop hw N n (Some cur)
     }
   }"

definition e1000_check_rx :: "'d hw \<Rightarrow> net_layout \<Rightarrow> (('d, 'z) net_scheme, unit) state" where
  "e1000_check_rx hw N = do {
     b \<leftarrow> gets intel_mem_base;
     if b = 0 then skip
     else do {
       lst \<leftarrow> e1000_rx_loop hw N 32 None;
       case lst of None \<Rightarrow> skip | Some c \<Rightarrow> nic_write hw 0x2818 (word_of_nat c)
     }
   }"

text \<open>
  The RTL8139 half of \<open>check_incoming\<close>, net.cpp:688. An ARP request is answered inside the
  receive buffer; the octets of a DHCP answer are read as signed characters.
\<close>

definition rtl_mac_byte :: "'d hw \<Rightarrow> nat \<Rightarrow> nat \<Rightarrow> (('d, 'z) net_scheme, unit) state" where
  "rtl_mac_byte hw i a = do { p \<leftarrow> rtl_port i; v \<leftarrow> inb hw p; poke (\<lambda>m. m(a := v)) }"

definition rtl_arp_reply :: "'d hw \<Rightarrow> net_layout \<Rightarrow> nat \<Rightarrow> (('d, 'z) net_scheme, unit) state" where
  "rtl_arp_reply hw N raw = do {
     set_status ''PING EMPFANGEN! (ARP REQUEST)'';
     for_m [0..<6] (\<lambda>i. do { poke (\<lambda>m. m(raw + i := m (raw + i + 6))); rtl_mac_byte hw i (raw + i + 6) });
     poke (\<lambda>m. m(raw + 21 := 2));
     temp_ip \<leftarrow> peek (\<lambda>m. rd_bytes m (raw + 28) 4);
     for_m [0..<6] (\<lambda>i. rtl_mac_byte hw i (raw + 22 + i));
     poke (mem_copy 4 (raw + 28) (raw + 38));
     poke (mem_copy 6 (raw + 32) raw);
     poke (wr_bytes (raw + 38) temp_ip);
     net_raw hw N raw 42;
     set_status ''ARP REPLY GESENDET!''
   }"

definition rtl_dhcp :: "nat \<Rightarrow> (('d, 'z) net_scheme, unit) state" where
  "rtl_dhcp raw = do {
     m \<leftarrow> peek id;
     when_m (m (raw + 23) = 17 \<and> frame_is m (raw + 36) [0, 0x44]) (do {
       set_status ''DHCP OFFER EMPFANGEN!'';
       modify (\<lambda>s. s\<lparr>ip_address := dotted (\<lambda>i. sint (m (raw + 58 + i)))\<rparr>)
     })
   }"

definition rtl_next_idx :: "nat \<Rightarrow> nat \<Rightarrow> nat" where
  "rtl_next_idx idx rx_len =
     (let j = (idx + rx_len + 7) div 4 * 4 in if 8192 < j then 0 else j)"

definition rtl_ack :: "'d hw \<Rightarrow> nat \<Rightarrow> (('d, 'z) net_scheme, unit) state" where
  "rtl_ack hw idx = do { p \<leftarrow> rtl_port 0x38; outw hw p (word_of_int (int idx - 16)) }"

definition rtl_check_rx :: "'d hw \<Rightarrow> net_layout \<Rightarrow> (('d, 'z) net_scheme, unit) state" where
  "rtl_check_rx hw N = do {
     p \<leftarrow> rtl_port 0x37;
     cmd \<leftarrow> inb hw p;
     if cmd AND 1 \<noteq> 0 then skip
     else do {
       idx \<leftarrow> gets rx_idx_rtl;
       rx_stat \<leftarrow> peek (\<lambda>m. rd32 m (n_rx_rtl N + idx));
       let rx_len = unat (drop_bit 16 rx_stat AND 0xFFFF);
       if rx_len = 0 \<or> rx_stat AND 1 = 0 then rtl_ack hw idx
       else do {
         let raw = n_rx_rtl N + idx + 4;
         m \<leftarrow> peek id;
         when_m (frame_is m (raw + 12) [0x08, 0x06] \<and> frame_is m (raw + 20) [0, 1]) (rtl_arp_reply hw N raw);
         m2 \<leftarrow> peek id;
         when_m (frame_is m2 (raw + 12) [0x08, 0x00]) (rtl_dhcp raw);
         modify (\<lambda>s. s\<lparr>rx_idx_rtl := rtl_next_idx idx rx_len\<rparr>);
         rtl_ack hw (rtl_next_idx idx rx_len)
       }
     }
   }"

definition check_incoming :: "'d hw \<Rightarrow> net_layout \<Rightarrow> (('d, 'z) net_scheme, unit) state" where
  "check_incoming hw N = do {
     intel \<leftarrow> gets intel_mem_base;
     when_m (0 < intel) (e1000_check_rx hw N);
     rtl \<leftarrow> gets rtl_io_base;
     when_m (0 < rtl) (rtl_check_rx hw N)
   }"

text \<open>\<open>net_check_link\<close>, net.cpp:821\<close>

definition net_check_link :: "'d hw \<Rightarrow> (('d, 'z) net_scheme, unit) state" where
  "net_check_link hw = do {
     intel \<leftarrow> gets intel_mem_base;
     rtl \<leftarrow> gets rtl_io_base;
     if 0 < intel then do {
       st \<leftarrow> nic_read hw 8;
       set_status (if st AND 2 \<noteq> 0 then ''LINK UP! CABLE DETECTED.'' else ''LINK DOWN! PHY ASLEEP / NO CABLE.'')
     }
     else if 0 < rtl then set_status ''RTL8139: READY & WAITING''
     else set_status ''ERR: NO NIC INIT''
   }"
subsection \<open>Properties\<close>

lemma touches_nic [hw_only]:
  "touches_hw (nic_read hw off)" "touches_hw (nic_write hw off v)" "touches_hw (rtl_port k)"
  "touches_hw (rtl_mac_byte hw i a)" "touches_hw (rtl_ack hw idx)"
  unfolding nic_read_def nic_write_def rtl_port_def rtl_mac_byte_def rtl_ack_def by (intro hw_only)+

lemma touches_rtl_rx [hw_only]: "touches_hw (rtl_enable_rx hw N)"
  unfolding rtl_enable_rx_def by (intro hw_only)

text \<open>The cursors of the two rings of the Intel card run round their 32 descriptors.\<close>

definition next_desc :: "nat \<Rightarrow> nat" where
  "next_desc i = (i + 1) mod 32"

interpretation e1000_ring: ring_cursor "\<lambda>i. i < 32" next_desc id 32
  by unfold_locales (auto simp: next_desc_def)

text \<open>What every operation of the network code keeps: cursors and the receive index stay in range.\<close>

definition net_ok :: "('d, 'z) net_scheme \<Rightarrow> bool" where
  "net_ok s \<longleftrightarrow> tx_cur_intel s < 32 \<and> rx_cur_intel s < 32 \<and> rx_idx_rtl s \<le> 8192 \<and> 4 dvd rx_idx_rtl s"

lemma net_ok_hw [simp]: "net_ok (s\<lparr>ram := m, dev := d\<rparr>) = net_ok s" "net_ok (s\<lparr>cmd_status := t\<rparr>) = net_ok s"
  "net_ok (set_info i s) = net_ok s" "net_ok (s\<lparr>ip_address := t\<rparr>) = net_ok s"
  by (simp_all add: net_ok_def set_info_def)

lemma net_ok_cursor: "net_ok s \<Longrightarrow> net_ok (s\<lparr>rx_cur_intel := k mod 32\<rparr>)"
  "net_ok s \<Longrightarrow> net_ok (s\<lparr>tx_cur_intel := k mod 32\<rparr>)"
  "net_ok s \<Longrightarrow> net_ok (s\<lparr>rx_idx_rtl := rtl_next_idx i n\<rparr>)"
  by (simp_all add: net_ok_def rtl_next_idx_def Let_def)

lemma net_raw_keeps: "preserves net_ok (net_raw hw N d l)"
  unfolding net_raw_def net_raw_rtl_def net_raw_intel_def set_status_def
  by (intro preserving; (rule preserves_hw, intro hw_only)?; auto intro: net_ok_cursor)

lemma rx_loop_keeps: "preserves net_ok (e1000_rx_loop hw N n l)"
proof (induction n arbitrary: l)
  case (Suc n)
  show ?case unfolding e1000_rx_loop.simps set_status_def
    by (intro preserving Suc; (rule preserves_hw, intro hw_only)?; auto intro: net_ok_cursor)
qed (simp add: preserving)

lemma e1000_check_keeps: "preserves net_ok (e1000_check_rx hw N)"
  unfolding e1000_check_rx_def
  by (intro preserving rx_loop_keeps; (rule preserves_hw, intro hw_only)?; auto)

lemma rtl_reply_keeps: "preserves net_ok (rtl_arp_reply hw N raw)"
  unfolding rtl_arp_reply_def set_status_def
  by (intro preserving net_raw_keeps; (rule preserves_hw, intro hw_only)?; auto)

lemma rtl_dhcp_keeps: "preserves net_ok (rtl_dhcp raw)"
  unfolding rtl_dhcp_def set_status_def
  by (intro preserving; (rule preserves_hw, intro hw_only)?; auto)

lemma rtl_check_keeps: "preserves net_ok (rtl_check_rx hw N)"
  unfolding rtl_check_rx_def
  by (intro preserving rtl_reply_keeps rtl_dhcp_keeps; (rule preserves_hw, intro hw_only)?; auto intro: net_ok_cursor)

text \<open>
  Whatever arrives, and however the cards behave, receiving keeps the descriptor
  cursors below 32 and the index into the RTL8139 buffer a multiple of four not above 8192.
\<close>

theorem receive_keeps_cursors:
  assumes "net_ok s"
  shows "net_ok (snd (run_state (check_incoming hw N) s))"
proof -
  have "preserves net_ok (check_incoming hw N)"
    unfolding check_incoming_def by (intro preserving e1000_check_keeps rtl_check_keeps)
  then show ?thesis using assms by (rule preservesD)
qed

definition start_net :: "u32 \<Rightarrow> u32 \<Rightarrow> unit net" where
  "start_net rtl intel = \<lparr>ram = \<lambda>_. 0, dev = (), cmd_status = [], hw_usb = [], hw_disk = [],
     global_active_port = 0, global_ahci_abar = 0, ahci_scan_state = 0, ahci_scan_timer = 0,
     drives = [], drive_count = 0, ahci_found_ports_bitmask = 0, is_ahci_found = False, ahci_bar5 = 0,
     usb_io_base = 0, uhci_base_port = 0, tba_block_idx = 0, tba_current_lba = 3000, rtl_io_base = rtl, intel_mem_base = intel,
     mac_addr = [0x52, 0x54, 0, 0x12, 0x34, 0x56], mac_str = [], tx_cur = 0, rx_idx_rtl = 0, rx_cur_intel = 0,
     tx_cur_intel = 0, ip_address = [], net_mask = [], gateway_ip = [], rng_seed = 1\<rparr>"

theorem receive_keeps_cursors_witness:
  "rx_cur_intel (snd (run_state (check_incoming null_hw (os2_net 0x1100000)) (start_net 0xC000 0xF0000000))) < 32"
  using receive_keeps_cursors [of "start_net 0xC000 0xF0000000" null_hw "os2_net 0x1100000"]
  by (simp add: net_ok_def start_net_def)

text \<open>
  Sending never reports success: the wait returns from the function when the card is
  done, so the only messages \<open>net_raw\<close> leaves are the earlier one, the one of the RTL8139, the
  missing link and the time-out.
\<close>

theorem net_raw_messages:
  "cmd_status (snd (run_state (net_raw hw N d l) s)) \<in>
     {cmd_status s, ''RTL: NATIVE TX FIRED!'', ''INTEL ERR: LINK DOWN (WAIT!)'', ''TX TIMEOUT (ABER TX=1 BEDEUTET GESENDET)''}"
proof -
  define M where "M = {cmd_status s, ''RTL: NATIVE TX FIRED!'', ''INTEL ERR: LINK DOWN (WAIT!)'', ''TX TIMEOUT (ABER TX=1 BEDEUTET GESENDET)''}"
  have "preserves (\<lambda>s. cmd_status s \<in> M) (net_raw hw N d l)"
    unfolding net_raw_def net_raw_rtl_def net_raw_intel_def set_status_def
    by (intro preserving; (rule preserves_hw, intro hw_only)?; auto simp: M_def)
  then have "cmd_status (snd (run_state (net_raw hw N d l) s)) \<in> M"
    by (rule preservesD) (simp add: M_def)
  then show ?thesis by (simp only: M_def)
qed
text \<open>
  Property C24. A valid frame anywhere in a packet reaches the recorder: while its RAM buffer has
  room, the lowest such frame is stored there as a valid frame and counted, and the sender's bytes
  are not changed.
\<close>

theorem packet_to_recorder:
  fixes s :: "('d, 'z) net_scheme"
  assumes "first_slot (\<lambda>k. block_at (ram s) (data + k)) [0..<unat len - 255] = Some k"
    and "tba_block_idx s < 15"
    and "data + unat len \<le> tba_ram_buffer \<or> tba_ram_buffer + 4096 \<le> data"
  shows "let s' = snd (run_state (net_handle_cosmos_packet hw data len) s) in
    cb_validate (ram s') (tba_ram_buffer + tba_block_idx s * 256)
    \<and> rd_bytes (ram s') (tba_ram_buffer + tba_block_idx s * 256) 256 = rd_bytes (ram s) (data + k) 256
    \<and> tba_block_idx s' = tba_block_idx s + 1 \<and> cmd_status s' = ''BIG BLOCK RX: VALID''"
proof -
  let ?d = "tba_ram_buffer + tba_block_idx s * 256"
  have k: "k < unat len - 255" "cb_validate (ram s) (data + k)"
    using assms(1) by (auto simp: first_slot_upt block_at_def)
  have apart: "?d \<le> data + k \<or> data + k + 256 \<le> ?d" using assms(2,3) k(1) by linarith
  have copy: "copy_frame ?d (data + k) (ram s)
      = (\<lambda>i. if ?d \<le> i \<and> i < ?d + 256 then ram s (data + k + (i - ?d)) else ram s i)"
    unfolding copy_frame_def by (rule mem_copy_result [OF apart])
  have "cb_validate (copy_frame ?d (data + k) (ram s)) ?d"
    unfolding copy_frame_def by (rule cosmos.copy_valid [OF k(2) apart])
  moreover have "rd_bytes (copy_frame ?d (data + k) (ram s)) ?d 256 = rd_bytes (ram s) (data + k) 256"
    by (simp add: rd_bytes_def copy)
  moreover have "snd (run_state (net_handle_cosmos_packet hw data len) s)
      = s\<lparr>cmd_status := ''BIG BLOCK RX: VALID'', ram := copy_frame ?d (data + k) (ram s), tba_block_idx := tba_block_idx s + 1\<rparr>"
    using assms(1,2) by (simp add: net_handle_cosmos_packet_def tba_master_stream_def tba_advance_def)
  ultimately show ?thesis by (simp add: Let_def)
qed

theorem packet_to_recorder_witness:
  "tba_block_idx (snd (run_state (net_handle_cosmos_packet null_hw 0 300)
     ((start_net 0 0)\<lparr>ram := cb_build 5 7 1 2 3 4 (\<lambda>_. 0)\<rparr>))) = 1"
proof -
  let ?m = "cb_build 5 7 1 2 3 4 (\<lambda>_. 0)"
  have v: "cb_validate ?m 5" by (rule cb_build_valid)
  have "block_at ?m (0 + 5)" using v by (simp add: block_at_def cb_validate_def ANCHOR_BYTE_def FOOTER_BYTE_def split: if_splits)
  moreover have "\<not> block_at ?m (0 + j)" if "j < 5" for j
    using that by (simp add: block_at_def cb_build_other)
  ultimately have "first_slot (\<lambda>k. block_at (ram ((start_net 0 0)\<lparr>ram := ?m\<rparr>)) (0 + k)) [0..<unat (300 :: u16) - 255] = Some 5"
    by (simp add: first_slot_upt)
  from packet_to_recorder [OF this, of null_hw] show ?thesis
    by (simp add: start_net_def tba_ram_buffer_def Let_def)
qed

subsection \<open>What the network code leaves alone\<close>

text \<open>
  A property of the globals that depends on none that receiving and sending write. Every such
  property is kept; the other components use this for their own invariants.
\<close>

definition net_frame :: "(('d, 'z) net_scheme \<Rightarrow> bool) \<Rightarrow> bool" where
  "net_frame P \<longleftrightarrow> (\<forall>s m d. P s \<longrightarrow> P (s\<lparr>ram := m, dev := d\<rparr>)) \<and> (\<forall>s t. P s \<longrightarrow> P (s\<lparr>cmd_status := t\<rparr>))
     \<and> (\<forall>s i. P s \<longrightarrow> P (set_info i s)) \<and> (\<forall>s a. P s \<longrightarrow> P (s\<lparr>ip_address := a\<rparr>))
     \<and> (\<forall>s a b. P s \<longrightarrow> P (s\<lparr>net_mask := a, gateway_ip := b\<rparr>)) \<and> (\<forall>s n. P s \<longrightarrow> P (s\<lparr>tx_cur_intel := n\<rparr>))
     \<and> (\<forall>s n. P s \<longrightarrow> P (s\<lparr>rx_cur_intel := n\<rparr>)) \<and> (\<forall>s n. P s \<longrightarrow> P (s\<lparr>rx_idx_rtl := n\<rparr>)) \<and> (\<forall>s r. P s \<longrightarrow> P (s\<lparr>rng_seed := r\<rparr>))"

lemma net_frame_hw: "net_frame P \<Longrightarrow> touches_hw c \<Longrightarrow> preserves P c"
  by (rule preserves_hw) (simp_all add: net_frame_def)

lemma net_frame_steps:
  assumes "net_frame P"
  shows "P s \<Longrightarrow> P (s\<lparr>cmd_status := t\<rparr>)" "P s \<Longrightarrow> P (set_info i s)" "P s \<Longrightarrow> P (s\<lparr>ip_address := a\<rparr>)"
    "P s \<Longrightarrow> P (s\<lparr>tx_cur_intel := n\<rparr>)" "P s \<Longrightarrow> P (s\<lparr>rx_cur_intel := n\<rparr>)" "P s \<Longrightarrow> P (s\<lparr>rx_idx_rtl := n\<rparr>)"
    "P s \<Longrightarrow> P (s\<lparr>rng_seed := r\<rparr>)" "P s \<Longrightarrow> P (s\<lparr>ip_address := a, net_mask := b, gateway_ip := c\<rparr>)"
  using assms by (simp_all add: net_frame_def)

lemma net_frame_raw:
  assumes P: "net_frame P"
  shows "preserves P (net_raw hw N d l)"
  unfolding net_raw_def net_raw_rtl_def net_raw_intel_def set_status_def
  by (intro preserving net_frame_steps [OF P]; (rule net_frame_hw [OF P]; (intro hw_only)?)?; assumption?)

lemma net_frame_receive:
  assumes P: "net_frame P"
  shows "preserves P (check_incoming hw N)"
proof -
  note steps = net_frame_steps [OF P] and raw = net_frame_raw [OF P]
  have loop: "preserves P (e1000_rx_loop hw N n l)" for n l
  proof (induction n arbitrary: l)
    case (Suc n)
    show ?case unfolding e1000_rx_loop.simps set_status_def
      by (intro preserving Suc steps; (rule net_frame_hw [OF P]; (intro hw_only)?)?; assumption?)
  qed (simp add: preserving)
  have intel: "preserves P (e1000_check_rx hw N)" unfolding e1000_check_rx_def
    by (intro preserving loop; (rule net_frame_hw [OF P]; (intro hw_only)?)?; assumption?)
  have arp: "preserves P (rtl_arp_reply hw N raw)" and dhcp: "preserves P (rtl_dhcp raw)" for raw
    unfolding rtl_arp_reply_def rtl_dhcp_def set_status_def
    by (intro preserving raw steps; (rule net_frame_hw [OF P]; (intro hw_only)?)?; assumption?)+
  have rtl: "preserves P (rtl_check_rx hw N)" unfolding rtl_check_rx_def
    by (intro preserving arp dhcp steps; (rule net_frame_hw [OF P]; (intro hw_only)?)?; assumption?)
  show ?thesis unfolding check_incoming_def by (intro preserving intel rtl)
qed

lemma net_frame_send:
  assumes P: "net_frame P"
  shows "preserves P (send_dhcp_discover hw N)" "preserves P (apply_static_ip hw N t)"
  unfolding send_dhcp_discover_def send_udp_raw_def net_ip_def random_def apply_static_ip_def send_arp_ping_def set_status_def
  by (intro preserving net_frame_raw [OF P] net_frame_steps [OF P]; (rule net_frame_hw [OF P]; (intro hw_only)?)?; assumption?)+

end
