(* ===== verification/Heap.thy ===== *)
theory Heap
  imports Cosmos_Prelude
begin

text \<open>
  The heap of the two kernels (kernel.cpp section 1, kernel_main.cpp section 1): a linked list
  of \<open>MemoryBlock\<close> headers in RAM. The header is packed, so the two kernels differ in the base
  address, in the header's size and in the width of its \<open>next\<close> pointer. The walk over the
  list follows pointers in RAM and need not end, so it is a partial function.
\<close>

subsection \<open>Block headers and operations\<close>

record heap_abi =
  heap_base :: nat
  block_header :: nat
  pointer_bits :: nat

definition os1_heap :: heap_abi where
  "os1_heap = \<lparr>heap_base = 0x02000000, block_header = 9, pointer_bits = 32\<rparr>"

definition os2_heap :: heap_abi where
  "os2_heap = \<lparr>heap_base = 0x03000000, block_header = 13, pointer_bits = 64\<rparr>"

definition next_block :: "heap_abi \<Rightarrow> mem \<Rightarrow> nat \<Rightarrow> nat" where
  "next_block H m a =
     (if pointer_bits H = 32 then unat (rd32 m (a + 5)) else unat (rd64 m (a + 5)))"

definition put_next :: "heap_abi \<Rightarrow> nat \<Rightarrow> nat \<Rightarrow> mem \<Rightarrow> mem" where
  "put_next H a p =
     (if pointer_bits H = 32 then wr32 (a + 5) (word_of_nat p) else wr64 (a + 5) (word_of_nat p))"

definition init_heap :: "heap_abi \<Rightarrow> mem \<Rightarrow> mem" where
  "init_heap H m =
     put_next H (heap_base H) 0 (wr8 (heap_base H + 4) 1 (wr32 (heap_base H) (1024 * 1024 * 32) m))"

text \<open>\<open>malloc\<close>: the loop from the block \<open>cur\<close> on; the null pointer is 0.\<close>

partial_function (option) malloc :: "heap_abi \<Rightarrow> nat \<Rightarrow> nat \<Rightarrow> mem \<Rightarrow> (nat \<times> mem) option" where
  "malloc H cur sz m =
     (if cur = 0 then Some (0, m)
      else if m (cur + 4) = 1 \<and> sz \<le> unat (rd32 m cur)
      then Some (cur + block_header H, wr8 (cur + 4) 0 m)
      else malloc H (next_block H m cur) sz m)"

definition free :: "heap_abi \<Rightarrow> nat \<Rightarrow> mem \<Rightarrow> mem" where
  "free H p m =
     (if p = 0 then m
      else wr8 ((p + 2 ^ pointer_bits H - block_header H) mod 2 ^ pointer_bits H + 4) 1 m)"

subsection \<open>What a client does with the heap\<close>

text \<open>
  A client calls \<open>malloc\<close> and \<open>free\<close> and stores bytes. It is well-behaved when it frees only
  pointers it may have got (the null pointer or the block's) and stores outside the header.
\<close>

datatype heap_req = Malloc nat | Free nat | Store nat u8

definition heap_block :: "heap_abi \<Rightarrow> nat" where
  "heap_block H = heap_base H + block_header H"

fun call_ok :: "heap_abi \<Rightarrow> heap_req \<Rightarrow> bool" where
  "call_ok H (Malloc n) \<longleftrightarrow> True"
| "call_ok H (Free p) \<longleftrightarrow> p = 0 \<or> p = heap_block H"
| "call_ok H (Store a v) \<longleftrightarrow> a < heap_base H \<or> heap_block H \<le> a"

fun heap_call :: "heap_abi \<Rightarrow> nat \<Rightarrow> heap_req \<Rightarrow> mem \<Rightarrow> (nat \<times> mem) option" where
  "heap_call H head (Malloc n) m = malloc H head n m"
| "heap_call H head (Free p) m = Some (0, free H p m)"
| "heap_call H head (Store a v) m = Some (0, m(a := v))"

fun heap_run :: "heap_abi \<Rightarrow> nat \<Rightarrow> heap_req list \<Rightarrow> mem \<Rightarrow> nat list option" where
  "heap_run H head [] m = Some []"
| "heap_run H head (c # cs) m =
     (case heap_call H head c m of None \<Rightarrow> None
      | Some (r, m') \<Rightarrow> map_option ((#) r) (heap_run H head cs m'))"

text \<open>The specification: one slot, either free or taken, whatever the size asked for.\<close>

fun slot_call :: "heap_abi \<Rightarrow> heap_req \<Rightarrow> bool \<Rightarrow> nat \<times> bool" where
  "slot_call H (Malloc n) busy = (if \<not> busy \<and> n \<le> 33554432 then (heap_block H, True) else (0, busy))"
| "slot_call H (Free p) busy = (0, if p = heap_block H then False else busy)"
| "slot_call H (Store a v) busy = (0, busy)"

fun slot_run :: "heap_abi \<Rightarrow> heap_req list \<Rightarrow> bool \<Rightarrow> nat list" where
  "slot_run H [] busy = []"
| "slot_run H (c # cs) busy = (case slot_call H c busy of (r, b) \<Rightarrow> r # slot_run H cs b)"

subsection \<open>The refinement\<close>

text \<open>The RAM represents the slot: one block of 32 MB without a successor.\<close>

definition heap_rep :: "heap_abi \<Rightarrow> bool \<Rightarrow> mem \<Rightarrow> bool" where
  "heap_rep H busy m \<longleftrightarrow> rd32 m (heap_base H) = 33554432
     \<and> m (heap_base H + 4) = (if busy then 0 else 1) \<and> next_block H m (heap_base H) = 0"

definition heap_abi_ok :: "heap_abi \<Rightarrow> bool" where
  "heap_abi_ok H \<longleftrightarrow> 0 < heap_base H \<and> block_header H = 5 + pointer_bits H div 8
     \<and> (pointer_bits H = 32 \<or> pointer_bits H = 64) \<and> heap_block H < 2 ^ 32"

lemma heap_abis: "heap_abi_ok os1_heap" "heap_abi_ok os2_heap"
  by (simp_all add: heap_abi_ok_def heap_block_def os1_heap_def os2_heap_def)

lemma next_after_put: "next_block H (put_next H a 0 m) a = 0"
  by (simp add: next_block_def put_next_def wr64_def rd64_def rd32_wr32_other)

lemma put_next_below: "i < a + 5 \<Longrightarrow> put_next H a p m i = m i"
  by (simp add: put_next_def wr64_def wr32_other)

lemma init_heap_rep: "heap_rep H False (init_heap H m)"
proof -
  let ?b = "heap_base H"
  let ?m = "wr8 (?b + 4) 1 (wr32 ?b (1024 * 1024 * 32) m)"
  have "rd32 (put_next H ?b 0 ?m) ?b = rd32 (wr32 ?b (1024 * 1024 * 32) m) ?b"
    by (rule rd32_cong) (simp add: put_next_below wr8_def)
  moreover have "put_next H ?b 0 ?m (?b + 4) = 1" by (simp add: put_next_below wr8_def)
  ultimately show ?thesis by (simp add: heap_rep_def init_heap_def next_after_put)
qed

text \<open>Bytes outside size and \<open>next\<close> pointer do not matter to them.\<close>

lemma header_cong:
  assumes "\<And>i. i < block_header H \<Longrightarrow> i \<noteq> 4 \<Longrightarrow> m' (heap_base H + i) = m (heap_base H + i)"
    and "heap_abi_ok H"
  shows "rd32 m' (heap_base H) = rd32 m (heap_base H)"
    and "next_block H m' (heap_base H) = next_block H m (heap_base H)"
proof -
  have r: "rd32 m' (heap_base H + k) = rd32 m (heap_base H + k)"
    if "k + 4 \<le> 4 \<or> 5 \<le> k \<and> k + 4 \<le> block_header H" for k
    by (rule rd32_cong) (use assms that in \<open>auto simp: add.assoc heap_abi_ok_def\<close>)
  show "rd32 m' (heap_base H) = rd32 m (heap_base H)" using r [of 0] by simp
  show "next_block H m' (heap_base H) = next_block H m (heap_base H)"
    using r [of 5] r [of 9] assms(2) by (auto simp: next_block_def rd64_def heap_abi_ok_def add.assoc)
qed

lemma heap_rep_flag:
  assumes "heap_rep H busy m" and "heap_abi_ok H"
  shows "heap_rep H busy' (wr8 (heap_base H + 4) (if busy' then 0 else 1) m)"
  using header_cong [OF _ assms(2), of "wr8 (heap_base H + 4) (if busy' then 0 else 1) m" m] assms(1)
  by (auto simp: heap_rep_def wr8_def)

lemma heap_rep_store:
  assumes "heap_rep H busy m" and "heap_abi_ok H" and "a < heap_base H \<or> heap_block H \<le> a"
  shows "heap_rep H busy (m(a := v))"
proof -
  have "(m(a := v)) (heap_base H + i) = m (heap_base H + i)" if "i < block_header H" for i
    using assms(3) that by (auto simp: heap_block_def)
  moreover have "4 < block_header H" using assms(2) by (auto simp: heap_abi_ok_def)
  ultimately show ?thesis
    using header_cong [OF _ assms(2), of "m(a := v)" m] assms(1) by (auto simp: heap_rep_def)
qed

lemma malloc_slot:
  assumes "heap_rep H busy m" and "heap_abi_ok H"
  shows "malloc H (heap_base H) n m =
    (if \<not> busy \<and> n \<le> 33554432 then Some (heap_block H, wr8 (heap_base H + 4) 0 m) else Some (0, m))"
proof -
  have "malloc H 0 n m = Some (0, m)" by (subst malloc.simps) simp
  then show ?thesis
    using assms by (subst malloc.simps) (auto simp: heap_rep_def heap_abi_ok_def heap_block_def)
qed

lemma free_slot:
  assumes "heap_abi_ok H"
  shows "free H (heap_block H) m = wr8 (heap_base H + 4) 1 m"
proof -
  have "(2 :: nat) ^ 32 \<le> 2 ^ pointer_bits H" using assms by (auto simp: heap_abi_ok_def)
  then have "heap_base H < 2 ^ pointer_bits H" "0 < heap_base H"
    using assms unfolding heap_abi_ok_def heap_block_def by linarith+
  then show ?thesis by (simp add: free_def heap_block_def)
qed

lemma heap_call_slot:
  assumes "heap_rep H busy m" and "heap_abi_ok H" and "call_ok H c"
  shows "\<exists>m'. heap_call H (heap_base H) c m = Some (fst (slot_call H c busy), m')
    \<and> heap_rep H (snd (slot_call H c busy)) m'"
proof (cases c)
  case (Malloc n)
  then show ?thesis
    using malloc_slot [OF assms(1,2), of n] heap_rep_flag [OF assms(1,2), of True] assms(1)
    by (cases busy) simp_all
next
  case (Free p)
  have "heap_block H \<noteq> 0" using assms(2) by (simp add: heap_abi_ok_def heap_block_def)
  then show ?thesis
    using Free assms free_slot [OF assms(2), of m] heap_rep_flag [OF assms(1,2), of False]
    by (auto simp: free_def)
next
  case (Store a v)
  then show ?thesis using heap_rep_store [OF assms(1,2), of a v] assms(3) by simp
qed

lemma heap_run_slot:
  assumes "heap_abi_ok H" "\<forall>c \<in> set cs. call_ok H c"
  shows "heap_rep H busy m \<Longrightarrow> heap_run H (heap_base H) cs m = Some (slot_run H cs busy)"
  using assms(2)
proof (induction cs arbitrary: busy m)
  case (Cons c cs)
  then obtain m' where "heap_call H (heap_base H) c m = Some (fst (slot_call H c busy), m')"
    "heap_rep H (snd (slot_call H c busy)) m'"
    using heap_call_slot [OF Cons.prems(1) assms(1), of c] by auto
  then show ?case using Cons.IH Cons.prems(2) by (simp split: prod.split)
qed simp

subsection \<open>Properties\<close>

text \<open>
  Property C28. The heap of either kernel behaves as one slot of 32 MB, for every sequence of
  calls of a well-behaved client: every call returns, a \<open>malloc\<close> of any size up to 32 MB takes
  the whole heap, and every further \<open>malloc\<close> returns the null pointer until the block is freed,
  because \<open>malloc\<close> never splits a block.
\<close>

theorem heap_is_one_slot:
  assumes "H = os1_heap \<or> H = os2_heap" and "\<forall>c \<in> set calls. call_ok H c"
  shows "heap_run H (heap_base H) calls (init_heap H m) = Some (slot_run H calls False)"
  using heap_run_slot [OF _ assms(2) init_heap_rep] heap_abis assms(1) by blast

theorem heap_is_one_slot_witness:
  "heap_run os2_heap 0x03000000 [Malloc 16, Malloc 1, Store 0x03000100 7, Free 0x0300000D, Malloc 5]
     (init_heap os2_heap (\<lambda>_. 0)) = Some [0x0300000D, 0, 0, 0, 0x0300000D]"
  using heap_is_one_slot [of os2_heap
      "[Malloc 16, Malloc 1, Store 0x03000100 7, Free 0x0300000D, Malloc 5]" "\<lambda>_. 0"]
  by (simp add: os2_heap_def heap_block_def)

text \<open>
  The heap of the 32-bit kernel is never initialised (nothing calls \<open>init_heap\<close>): its head is
  the null pointer and every allocation fails.
\<close>

lemma malloc_uninitialised: "malloc H 0 n m = Some (0, m)"
  by (subst malloc.simps) simp

end
