(* ===== verification/Paging.thy ===== *)
theory Paging
  imports Cosmos_Prelude
begin

text \<open>
  Page tables: \<open>map_mmio_64\<close> and \<open>map_memory\<close> of pci.cpp, \<open>find_pte_for_address\<close> and
  \<open>disable_nx_for_app\<close> of memory.cpp. The tables are in RAM; the processor's walk over them is
  the reference \<open>mmu\<close>, after the processor manual. Addresses of the page tables are physical
  and identity-mapped, as the sources use them.
\<close>

subsection \<open>Indices and tables\<close>

definition pml4_idx :: "u64 \<Rightarrow> nat" where "pml4_idx v = unat (drop_bit 39 v AND 0x1FF)"
definition pdpt_idx :: "u64 \<Rightarrow> nat" where "pdpt_idx v = unat (drop_bit 30 v AND 0x1FF)"
definition pd_idx :: "u64 \<Rightarrow> nat" where "pd_idx v = unat (drop_bit 21 v AND 0x1FF)"
definition pt_idx :: "u64 \<Rightarrow> nat" where "pt_idx v = unat (drop_bit 12 v AND 0x1FF)"

text \<open>\<open>(uint64_t*)(e & ~0xFFFULL)\<close> and \<open>&t[i]\<close>\<close>

definition table_at :: "u64 \<Rightarrow> nat" where "table_at e = unat (e AND NOT 0xFFF)"
definition slot_at :: "u64 \<Rightarrow> nat \<Rightarrow> nat" where "slot_at e i = table_at e + 8 * i"

subsection \<open>map_mmio_64, pci.cpp:161\<close>

text \<open>A missing table is taken from the bump pointer \<open>next_free_page_table\<close>, cleared and entered.\<close>

definition first_page_table :: u64 where "first_page_table = 0x07800000"

definition ensure_table :: "nat \<Rightarrow> mem \<times> u64 \<Rightarrow> mem \<times> u64" where
  "ensure_table a = (\<lambda>(m, next_free).
     if rd64 m a AND 1 = 0
     then (wr64 a (next_free OR 3) (zero_fill (unat next_free) 4096 m), next_free + 4096)
     else (m, next_free))"

definition map_mmio_64 :: "u64 \<Rightarrow> u64 \<Rightarrow> mem \<times> u64 \<Rightarrow> mem \<times> u64" where
  "map_mmio_64 cr3 phys s = (
     let a1 = slot_at cr3 (pml4_idx phys);
         s1 = ensure_table a1 s;
         a2 = slot_at (rd64 (fst s1) a1) (pdpt_idx phys);
         (m, next_free) = ensure_table a2 s1;
         a3 = slot_at (rd64 m a2) (pd_idx phys)
     in (wr64 a3 ((phys AND 0xFFFFFFFFFFE00000) OR 0x9B) m, next_free))"

text \<open>\<open>map_memory\<close>, pci.cpp:263: the fixed page directories of the 32-bit kernel\<close>

definition map_memory :: "u32 \<Rightarrow> u64 \<Rightarrow> mem \<Rightarrow> mem" where
  "map_memory virt phys =
     wr64 (0x00B01000 + unat (drop_bit 30 virt) * 0x1000 + 8 * unat (drop_bit 21 virt AND 0x1FF))
       (phys OR 0x83)"

subsection \<open>find_pte_for_address and disable_nx_for_app, memory.cpp\<close>

text \<open>The address of the entry that maps \<open>v\<close>, 0 when a table is missing.\<close>

definition find_pte_for_address :: "u64 \<Rightarrow> u64 \<Rightarrow> mem \<Rightarrow> nat" where
  "find_pte_for_address pml4_phys v m = (
     let e1 = rd64 m (slot_at pml4_phys (pml4_idx v)) in
     if e1 AND 1 = 0 then 0
     else let a2 = slot_at e1 (pdpt_idx v); e2 = rd64 m a2 in
     if e2 AND 1 = 0 then 0
     else if e2 AND 0x80 \<noteq> 0 then a2
     else let a3 = slot_at e2 (pd_idx v); e3 = rd64 m a3 in
     if e3 AND 1 = 0 then 0
     else if e3 AND 0x80 \<noteq> 0 then a3
     else slot_at e3 (pt_idx v))"

definition clear_nx :: "u64 \<Rightarrow> u64 \<Rightarrow> mem \<Rightarrow> mem" where
  "clear_nx cr3 page m = (
     let a = find_pte_for_address cr3 page m
     in if a \<noteq> 0 then wr64 a (rd64 m a AND NOT (push_bit 63 1)) m else m)"

partial_function (option) nx_loop :: "u64 \<Rightarrow> u64 \<Rightarrow> u64 \<Rightarrow> mem \<Rightarrow> mem option" where
  "nx_loop cr3 end_page page m =
     (if page < end_page then nx_loop cr3 end_page (page + 0x1000) (clear_nx cr3 page m)
      else Some m)"

definition disable_nx_for_app :: "u64 \<Rightarrow> u64 \<Rightarrow> u64 \<Rightarrow> mem \<Rightarrow> mem option" where
  "disable_nx_for_app cr3 virtual_addr size_in_bytes m =
     nx_loop cr3 ((virtual_addr + size_in_bytes + 0xFFF) AND NOT 0xFFF) (virtual_addr AND NOT 0xFFF) m"

subsection \<open>The processor's walk\<close>

text \<open>
  Four levels with 1 GB and 2 MB pages; bits 12 to 51 of an entry are the frame. The result is
  the physical address and the entry that maps it.
\<close>

definition frame_of :: "u64 \<Rightarrow> nat \<Rightarrow> u64" where
  "frame_of e n = e AND (mask 52 AND NOT (mask n))"

definition mmu :: "u64 \<Rightarrow> u64 \<Rightarrow> mem \<Rightarrow> (u64 \<times> u64) option" where
  "mmu cr3 v m = (
     let e1 = rd64 m (unat (frame_of cr3 12) + 8 * pml4_idx v) in
     if e1 AND 1 = 0 then None
     else let e2 = rd64 m (unat (frame_of e1 12) + 8 * pdpt_idx v) in
     if e2 AND 1 = 0 then None
     else if e2 AND 0x80 \<noteq> 0 then Some (frame_of e2 30 OR (v AND mask 30), e2)
     else let e3 = rd64 m (unat (frame_of e2 12) + 8 * pd_idx v) in
     if e3 AND 1 = 0 then None
     else if e3 AND 0x80 \<noteq> 0 then Some (frame_of e3 21 OR (v AND mask 21), e3)
     else let e4 = rd64 m (unat (frame_of e3 12) + 8 * pt_idx v) in
     if e4 AND 1 = 0 then None
     else Some (frame_of e4 12 OR (v AND mask 12), e4))"

subsection \<open>Pages and entries\<close>

text \<open>
  Entries are 8-byte aligned, so an access to one stays within its page, and tables of
  different pages do not interfere.
\<close>

lemma in_page: "8 dvd a \<Longrightarrow> j < 8 \<Longrightarrow> (a + j) div 4096 = a div (4096 :: nat)"
proof -
  assume "8 dvd a" "j < 8"
  then obtain k where "a = 8 * k" "j < 8" by auto
  then show ?thesis by (simp flip: div_mult2_eq [of _ 8 512, simplified])
qed

lemma wr64_page:
  assumes "8 dvd a" and "i div 4096 \<noteq> a div 4096"
  shows "wr64 a v m i = m i"
proof -
  have "a + (i - a) = i \<and> i - a < 8" if "\<not> (i < a \<or> a + 8 \<le> i)" using that by auto
  then show ?thesis using in_page [OF assms(1), of "i - a"] assms(2) wr64_other by metis
qed

lemma rd64_page:
  assumes "8 dvd a" and "\<And>i. i div 4096 = a div 4096 \<Longrightarrow> m' i = m i"
  shows "rd64 m' a = rd64 m a"
proof -
  have "rd32 m' (a + k) = rd32 m (a + k)" if "k = 0 \<or> k = 4" for k
    by (rule rd32_cong) (use that assms(2) in_page [OF assms(1)] in \<open>auto simp: add.assoc\<close>)
  from this [of 0] this [of 4] show ?thesis by (simp add: rd64_def)
qed

lemma zero_fill_page: "4096 dvd a \<Longrightarrow> i div 4096 \<noteq> a div 4096 \<Longrightarrow> zero_fill a 4096 m i = m i"
  by (rule zero_fill_other) (auto elim!: dvdE simp: not_less div_nat_eqI)

lemma rd64_zero_fill: "a \<le> b \<Longrightarrow> b + 8 \<le> a + n \<Longrightarrow> rd64 (zero_fill a n m) b = 0"
  by (simp add: rd64_def rd32_def zero_fill_in)

lemma idx_bound: "unat (x AND 0x1FF :: u64) < 512"
proof -
  have "x AND 0x1FF \<le> (0x1FF :: u64)" by (rule word_and_le1)
  then show ?thesis by (simp add: word_le_nat_alt)
qed

lemma low12: "(0xFFF :: u64) = mask 12"
  by (simp add: mask_eq_exp_minus_1)

lemma table_aligned: "4096 dvd table_at e"
proof -
  have "take_bit 12 (table_at e) = 0"
    by (rule bit_eqI) (auto simp: table_at_def low12 bit_simps)
  then show ?thesis by (simp add: take_bit_eq_0_iff)
qed

lemma slot_page: "i < 512 \<Longrightarrow> slot_at e i div 4096 = table_at e div 4096"
  using table_aligned [of e] by (auto simp: slot_at_def elim!: dvdE)

lemma slot_aligned: "8 dvd slot_at e i"
  using dvd_trans [OF _ table_aligned, of 8 e] by (auto simp: slot_at_def intro!: dvd_add)

lemmas slot_facts = slot_page [OF idx_bound] slot_aligned

text \<open>A table handed out by the bump pointer is entered with the flags present and writable.\<close>

lemma table_at_entry:
  assumes "4096 dvd unat f"
  shows "table_at (f OR 3) = unat f"
proof -
  have "take_bit 12 f = 0"
    using assms by (simp add: word_unat_eq_iff unsigned_take_bit_eq take_bit_eq_0_iff)
  then have "f AND mask 12 = 0" by (simp add: take_bit_eq_mask)
  have "(f OR 3) AND NOT (mask 12) = f"
  proof (rule bit_word_eqI)
    fix n
    assume "n < LENGTH(64)"
    have "\<not> bit f n" if "n < 12"
      using \<open>take_bit 12 f = 0\<close> that by (metis bit_take_bit_iff bit_0_eq bot_apply bot_bool_def)
    moreover have "bit (3 :: u64) n \<longleftrightarrow> n < 2"
      using bit_mask_iff [where ?'a = u64, of 2 n] \<open>n < LENGTH(64)\<close> by (simp add: mask_eq_exp_minus_1)
    ultimately show "bit ((f OR 3) AND NOT (mask 12)) n = bit f n"
      using \<open>n < LENGTH(64)\<close> by (auto simp: bit_simps)
  qed
  then show ?thesis by (simp add: table_at_def low12)
qed

lemma aligned_pages: "4096 dvd a \<Longrightarrow> 4096 dvd b \<Longrightarrow> a div 4096 = b div 4096 \<longleftrightarrow> a = (b :: nat)"
  by (metis dvd_mult_div_cancel)

lemma small_take: "e < 2 ^ 52 \<Longrightarrow> take_bit 52 (e :: u64) = e"
  by (simp add: word_unat_eq_iff unsigned_take_bit_eq take_bit_nat_eq_self_iff word_less_nat_alt)

lemma frame_table: "e < 2 ^ 52 \<Longrightarrow> unat (frame_of e 12) = table_at e"
proof -
  assume "e < 2 ^ 52"
  then have "bit e n \<Longrightarrow> n < 52" for n using small_take [of e] by (metis bit_take_bit_iff)
  then have "frame_of e 12 = e AND NOT (mask 12)"
    by (intro bit_word_eqI) (auto simp: frame_of_def bit_simps)
  then show ?thesis by (simp add: table_at_def low12)
qed

text \<open>The entry \<open>map_mmio_64\<close> writes: a 2 MB page, present, writable, uncached.\<close>

lemma mmio_leaf:
  assumes "phys < 2 ^ 52"
  defines "e \<equiv> (phys AND 0xFFFFFFFFFFE00000) OR 0x9B :: u64"
  shows "e AND 1 \<noteq> 0" and "e AND 0x80 \<noteq> 0" and "frame_of e 21 OR (phys AND mask 21) = phys"
proof -
  have m: "(0xFFFFFFFFFFE00000 :: u64) = NOT (mask 21)" by (simp add: mask_eq_exp_minus_1)
  have e: "bit e n \<longleftrightarrow> bit phys n \<and> 21 \<le> n \<or> bit (0x9B :: u64) n" if "n < 64" for n
    using that by (auto simp: e_def m bit_simps)
  have "bit (e AND 1) 0" "bit (e AND 0x80) 7" using e [of 0] e [of 7] by (auto simp: bit_simps)
  then show "e AND 1 \<noteq> 0" "e AND 0x80 \<noteq> 0" by auto
  have "take_bit 8 (0x9B :: u64) = 0x9B" by simp
  then have low: "bit (0x9B :: u64) n \<Longrightarrow> n < 8" for n by (metis bit_take_bit_iff)
  show "frame_of e 21 OR (phys AND mask 21) = phys"
  proof (rule bit_word_eqI)
    fix n
    assume n: "n < LENGTH(64)"
    have "bit (frame_of e 21 OR (phys AND mask 21)) n
        \<longleftrightarrow> bit e n \<and> n < 52 \<and> 21 \<le> n \<or> bit phys n \<and> n < 21"
      using n by (auto simp: frame_of_def bit_simps)
    moreover have "bit phys n \<Longrightarrow> n < 52" using small_take [OF assms(1)] by (metis bit_take_bit_iff)
    ultimately show "bit (frame_of e 21 OR (phys AND mask 21)) n = bit phys n"
      using n e [of n] low [of n] by (cases "n < 21") auto
  qed
qed

subsection \<open>map_mmio_64 maps\<close>

text \<open>
  What the routine relies on: the tables it walks and the pages the bump pointer is about to
  hand out are different pages below \<open>2 ^ 52\<close>, and no 1 GB page is in the way.
\<close>

definition tables_ok :: "u64 \<Rightarrow> u64 \<Rightarrow> mem \<Rightarrow> u64 \<Rightarrow> bool" where
  "tables_ok cr3 v m next_free = (
     let e1 = rd64 m (slot_at cr3 (pml4_idx v));
         e2 = rd64 m (slot_at e1 (pdpt_idx v));
         fresh = (\<lambda>e. table_at e \<noteq> unat next_free \<and> table_at e \<noteq> unat next_free + 4096)
     in cr3 < 2 ^ 52 \<and> 4096 dvd unat next_free \<and> unat next_free + 8192 \<le> 2 ^ 52 \<and> fresh cr3
        \<and> (e1 AND 1 = 0 \<or> e1 < 2 ^ 52 \<and> fresh e1 \<and> table_at e1 \<noteq> table_at cr3
           \<and> (e2 AND 1 = 0 \<or> e2 < 2 ^ 52 \<and> fresh e2 \<and> table_at e2 \<noteq> table_at cr3
              \<and> table_at e2 \<noteq> table_at e1 \<and> e2 AND 0x80 = 0)))"

lemma ensure_present: "rd64 m a AND 1 \<noteq> 0 \<Longrightarrow> ensure_table a (m, f) = (m, f)"
  by (simp add: ensure_table_def)

lemma ensure_fresh:
  assumes "rd64 m a AND 1 = 0" "8 dvd a" "4096 dvd unat f" "unat f div 4096 \<noteq> a div 4096"
  obtains m' where "ensure_table a (m, f) = (m', f + 4096)" "rd64 m' a = f OR 3"
    "\<And>b. 8 dvd b \<Longrightarrow> b div 4096 = unat f div 4096 \<Longrightarrow> rd64 m' b = 0"
    "\<And>i. i div 4096 \<noteq> a div 4096 \<Longrightarrow> i div 4096 \<noteq> unat f div 4096 \<Longrightarrow> m' i = m i"
proof
  let ?m = "wr64 a (f OR 3) (zero_fill (unat f) 4096 m)"
  show "ensure_table a (m, f) = (?m, f + 4096)" using assms(1) by (simp add: ensure_table_def)
  show "?m i = m i" if "i div 4096 \<noteq> a div 4096" "i div 4096 \<noteq> unat f div 4096" for i
    using that assms(2,3) by (simp add: wr64_page zero_fill_page)
  show "rd64 ?m b = 0" if "8 dvd b" "b div 4096 = unat f div 4096" for b
  proof -
    have "rd64 ?m b = rd64 (zero_fill (unat f) 4096 m) b"
      using that assms(2,4) by (intro rd64_page) (simp_all add: wr64_page)
    also have "\<dots> = 0"
      using that assms(3) in_page [OF that(1), of 7]
      by (intro rd64_zero_fill) (auto elim!: dvdE simp: div_nat_eqI)
    finally show ?thesis .
  qed
qed simp

text \<open>The entry of a table from the bump pointer.\<close>

lemma fresh_entry:
  assumes "4096 dvd unat f" and "unat f < 2 ^ 52"
  shows "(f OR 3) AND 1 \<noteq> (0 :: u64)" "(f OR 3) AND 0x80 = (0 :: u64)" "f OR 3 < 2 ^ 52"
    "table_at (f OR 3) = unat f"
proof -
  have z: "take_bit 12 f = 0"
    using assms(1) by (simp add: word_unat_eq_iff unsigned_take_bit_eq take_bit_eq_0_iff)
  have "\<not> bit f 7" using bit_take_bit_iff [of 12 f 7] z by simp
  have "bit ((f OR 3) AND 1) 0" by (simp add: bit_simps)
  then show "(f OR 3) AND 1 \<noteq> 0" by auto
  have "bit (0x80 :: u64) n \<longleftrightarrow> n = 7" if "n < 64" for n
    using bit_exp_iff [where 'a = u64, of 7 n] that by simp
  moreover have "\<not> bit (3 :: u64) 7" using bit_mask_iff [where 'a = u64, of 2 7] by (simp add: mask_eq_exp_minus_1)
  ultimately show "(f OR 3) AND 0x80 = 0"
    using \<open>\<not> bit f 7\<close> by (intro bit_word_eqI) (auto simp: bit_simps)
  have "f < 2 ^ 52" using assms(2) by (simp add: word_less_nat_alt)
  then have "take_bit 52 (f OR 3) = f OR 3" by (simp add: small_take)
  then have "unat (f OR 3) < 2 ^ 52"
    by (metis take_bit_nat_less_exp unsigned_take_bit_eq)
  then show "f OR 3 < 2 ^ 52" by (simp add: word_less_nat_alt)
  show "table_at (f OR 3) = unat f" using assms(1) by (rule table_at_entry)
qed

lemma next_page: "unat f + 8192 \<le> 2 ^ 52 \<Longrightarrow> unat (f + 4096 :: u64) = unat f + 4096"
  by (simp add: unat_word_ariths)

text \<open>The invariant between the two \<open>ensure_table\<close> steps and after them.\<close>

definition walk1 :: "u64 \<Rightarrow> u64 \<Rightarrow> mem \<times> u64 \<Rightarrow> bool" where
  "walk1 cr3 v = (\<lambda>(m, f). let e1 = rd64 m (slot_at cr3 (pml4_idx v));
       e2 = rd64 m (slot_at e1 (pdpt_idx v)) in
     e1 AND 1 \<noteq> 0 \<and> e1 < 2 ^ 52 \<and> table_at e1 \<noteq> table_at cr3 \<and> 4096 dvd unat f
     \<and> unat f + 4096 \<le> 2 ^ 52 \<and> table_at cr3 \<noteq> unat f \<and> table_at e1 \<noteq> unat f
     \<and> (e2 AND 1 = 0 \<or> e2 < 2 ^ 52 \<and> table_at e2 \<noteq> table_at cr3
          \<and> table_at e2 \<noteq> table_at e1 \<and> e2 AND 0x80 = 0))"

definition walk2 :: "u64 \<Rightarrow> u64 \<Rightarrow> mem \<Rightarrow> bool" where
  "walk2 cr3 v m = (let e1 = rd64 m (slot_at cr3 (pml4_idx v));
       e2 = rd64 m (slot_at e1 (pdpt_idx v)) in
     e1 AND 1 \<noteq> 0 \<and> e1 < 2 ^ 52 \<and> table_at e1 \<noteq> table_at cr3
     \<and> e2 AND 1 \<noteq> 0 \<and> e2 < 2 ^ 52 \<and> table_at e2 \<noteq> table_at cr3
     \<and> table_at e2 \<noteq> table_at e1 \<and> e2 AND 0x80 = 0)"

lemma slot_other_page:
  "table_at e \<noteq> table_at e' \<Longrightarrow> slot_at e (unat (x AND 0x1FF :: u64)) div 4096 \<noteq> table_at e' div 4096"
  by (simp add: slot_facts aligned_pages table_aligned)

lemmas idx_defs = pml4_idx_def pdpt_idx_def pd_idx_def

lemma step1:
  assumes "tables_ok cr3 v m f"
  shows "walk1 cr3 v (ensure_table (slot_at cr3 (pml4_idx v)) (m, f))"
proof -
  let ?a = "slot_at cr3 (pml4_idx v)"
  let ?e = "rd64 m ?a"
  have f: "4096 dvd unat f" "unat f + 8192 \<le> 2 ^ 52" "table_at cr3 \<noteq> unat f"
      "table_at cr3 \<noteq> unat f + 4096"
    using assms by (simp_all add: tables_ok_def Let_def)
  show ?thesis
  proof (cases "?e AND 1 = 0")
    case False
    then show ?thesis
      using assms by (auto simp: ensure_present walk1_def tables_ok_def Let_def)
  next
    case True
    have pg: "unat f div 4096 \<noteq> ?a div 4096"
      using f by (simp add: idx_defs slot_facts aligned_pages table_aligned)
    obtain m' where m': "ensure_table ?a (m, f) = (m', f + 4096)" "rd64 m' ?a = f OR 3"
        "\<And>b. 8 dvd b \<Longrightarrow> b div 4096 = unat f div 4096 \<Longrightarrow> rd64 m' b = 0"
      using ensure_fresh [OF True slot_aligned f(1) pg] by metis
    have e: "table_at (f OR 3) = unat f" using fresh_entry [OF f(1)] f(2) by simp
    have "rd64 m' (slot_at (f OR 3) (pdpt_idx v)) = 0"
      using m'(3) [OF slot_aligned] slot_page [OF idx_bound] by (simp add: idx_defs e)
    then show ?thesis
      using m'(1,2) fresh_entry [OF f(1)] f next_page [OF f(2)]
      by (auto simp: walk1_def Let_def)
  qed
qed

lemma step2:
  assumes "walk1 cr3 v (m, f)"
    and "ensure_table (slot_at (rd64 m (slot_at cr3 (pml4_idx v))) (pdpt_idx v)) (m, f) = (m2, f2)"
  shows "walk2 cr3 v m2 \<and> rd64 m2 (slot_at cr3 (pml4_idx v)) = rd64 m (slot_at cr3 (pml4_idx v))"
proof -
  let ?a1 = "slot_at cr3 (pml4_idx v)"
  let ?e1 = "rd64 m ?a1"
  let ?a = "slot_at ?e1 (pdpt_idx v)"
  have w: "?e1 AND 1 \<noteq> 0" "?e1 < 2 ^ 52" "table_at ?e1 \<noteq> table_at cr3" "4096 dvd unat f"
      "unat f + 4096 \<le> 2 ^ 52" "table_at cr3 \<noteq> unat f" "table_at ?e1 \<noteq> unat f"
    using assms by (simp_all add: walk1_def Let_def)
  show ?thesis
  proof (cases "rd64 m ?a AND 1 = 0")
    case False
    then have "m2 = m" using assms(2) by (simp add: ensure_present)
    then show ?thesis using assms(1) False by (auto simp: walk1_def walk2_def Let_def)
  next
    case True
    have pg: "unat f div 4096 \<noteq> ?a div 4096"
      using w by (simp add: idx_defs slot_facts aligned_pages table_aligned)
    obtain m' where m': "ensure_table ?a (m, f) = (m', f + 4096)" "rd64 m' ?a = f OR 3"
        "\<And>i. i div 4096 \<noteq> ?a div 4096 \<Longrightarrow> i div 4096 \<noteq> unat f div 4096 \<Longrightarrow> m' i = m i"
      using ensure_fresh [OF True slot_aligned w(4) pg] by metis
    have "rd64 m' ?a1 = ?e1"
      by (intro rd64_page slot_aligned m'(3))
        (use w in \<open>simp_all add: idx_defs slot_facts aligned_pages table_aligned\<close>)
    then show ?thesis
      using m'(1,2) fresh_entry [OF w(4)] w assms(2) by (auto simp: walk2_def Let_def)
  qed
qed

text \<open>
  Property C29. \<open>map_mmio_64\<close> makes a device's registers reachable: whatever tables exist
  already, afterwards the processor translates the address to itself, through a 2 MB entry that
  is present, writable and uncached.
\<close>

theorem map_mmio_identity:
  assumes "tables_ok cr3 phys m next_free" and "phys < 2 ^ 52"
  shows "mmu cr3 phys (fst (map_mmio_64 cr3 phys (m, next_free)))
    = Some (phys, (phys AND 0xFFFFFFFFFFE00000) OR 0x9B)"
proof -
  let ?a1 = "slot_at cr3 (pml4_idx phys)"
  obtain m1 f1 where s1: "ensure_table ?a1 (m, next_free) = (m1, f1)" by fastforce
  let ?e1 = "rd64 m1 ?a1"
  let ?a2 = "slot_at ?e1 (pdpt_idx phys)"
  obtain m2 f2 where s2: "ensure_table ?a2 (m1, f1) = (m2, f2)" by fastforce
  have w1: "walk1 cr3 phys (m1, f1)" using step1 [OF assms(1)] s1 by simp
  have e1: "rd64 m2 ?a1 = ?e1" and w2: "walk2 cr3 phys m2" using step2 [OF w1 s2] by simp_all
  let ?e2 = "rd64 m2 ?a2"
  let ?a3 = "slot_at ?e2 (pd_idx phys)"
  let ?leaf = "(phys AND 0xFFFFFFFFFFE00000) OR 0x9B"
  let ?m3 = "wr64 ?a3 ?leaf m2"
  have m3: "fst (map_mmio_64 cr3 phys (m, next_free)) = ?m3"
    by (simp add: map_mmio_64_def s1 s2 Let_def)
  have w: "?e1 AND 1 \<noteq> 0" "?e1 < 2 ^ 52" "?e2 AND 1 \<noteq> 0" "?e2 < 2 ^ 52" "?e2 AND 0x80 = 0"
      "table_at ?e2 \<noteq> table_at cr3" "table_at ?e2 \<noteq> table_at ?e1"
    using w2 e1 by (simp_all add: walk2_def Let_def)
  have "?a1 div 4096 \<noteq> ?a3 div 4096" "?a2 div 4096 \<noteq> ?a3 div 4096"
    using w(6,7) by (simp_all add: idx_defs slot_facts aligned_pages table_aligned)
  then have "rd64 ?m3 ?a1 = rd64 m2 ?a1" "rd64 ?m3 ?a2 = ?e2"
    by (auto intro!: rd64_page slot_aligned wr64_page)
  then have r: "rd64 ?m3 ?a1 = ?e1" "rd64 ?m3 ?a2 = ?e2" by (simp_all only: e1)
  have "cr3 < 2 ^ 52" using assms(1) by (simp add: tables_ok_def Let_def)
  then show ?thesis
    using w r mmio_leaf [OF assms(2)]
    by (simp add: m3 mmu_def Let_def frame_table slot_at_def [symmetric])
qed

theorem map_mmio_identity_witness:
  "mmu 0x1000 0xFEBC0000 (fst (map_mmio_64 0x1000 0xFEBC0000 (\<lambda>_. 0, first_page_table)))
    = Some (0xFEBC0000, 0xFEA0009B)"
proof -
  have "tables_ok 0x1000 0xFEBC0000 (\<lambda>_. 0) first_page_table"
    by (simp add: tables_ok_def Let_def rd64_def rd32_def table_at_def first_page_table_def)
  then show ?thesis
    using map_mmio_identity [of "0x1000" "0xFEBC0000" "\<lambda>_. 0" first_page_table] by simp
qed

subsection \<open>disable_nx_for_app\<close>

lemma wr64_byte: "j < 8 \<Longrightarrow> wr64 a v m (a + j) = ucast (drop_bit (8 * j) v)"
proof -
  assume "j < 8"
  then consider "j = 0" | "j = 1" | "j = 2" | "j = 3" | "j = 4" | "j = 5" | "j = 6" | "j = 7" by linarith
  then show ?thesis
    by cases (simp_all add: wr64_def wr32_def, (rule bit_word_eqI, auto simp: bit_simps)+)
qed

lemma rd64_byte: "j < 8 \<Longrightarrow> ucast (drop_bit (8 * j) (rd64 m a)) = m (a + j)"
proof -
  assume "j < 8"
  then consider "j = 0" | "j = 1" | "j = 2" | "j = 3" | "j = 4" | "j = 5" | "j = 6" | "j = 7" by linarith
  then show ?thesis
    by cases (rule bit_word_eqI, auto simp: rd64_def rd32_def bit_simps ac_simps dest: bit_imp_le_length)+
qed

text \<open>Clearing bit 63 of an entry clears the top bit of its last byte and changes nothing else.\<close>

lemma clear_nx_bytes: "clear_nx cr3 page m i = m i \<or> clear_nx cr3 page m i = m i AND 0x7F"
proof -
  define a where "a = find_pte_for_address cr3 page m"
  let ?v = "rd64 m a AND NOT (push_bit 63 1)"
  have w: "wr64 a ?v m i = m i \<or> wr64 a ?v m i = m i AND 0x7F"
  proof (cases "a \<le> i \<and> i < a + 8")
    case True
    define j where "j = i - a"
    have j: "i = a + j" "j < 8" using True by (auto simp: j_def)
    have "wr64 a ?v m i = ucast (drop_bit (8 * j) (rd64 m a)) AND ucast (drop_bit (8 * j) (NOT (push_bit 63 1 :: u64)))"
      using j by (simp add: wr64_byte drop_bit_and unsigned_and_eq)
    also have "\<dots> = m i AND ucast (drop_bit (8 * j) (NOT (push_bit 63 1 :: u64)))"
      using j by (simp add: rd64_byte)
    finally have "wr64 a ?v m i = m i AND ucast (drop_bit (8 * j) (NOT (push_bit 63 1 :: u64)))" .
    moreover have "ucast (drop_bit (8 * j) (NOT (push_bit 63 1 :: u64))) = (if j = 7 then 0x7F else (NOT 0 :: u8))"
    proof -
      consider "j = 0" | "j = 1" | "j = 2" | "j = 3" | "j = 4" | "j = 5" | "j = 6" | "j = 7"
        using j(2) by linarith
      then show ?thesis by cases simp_all
    qed
    ultimately show ?thesis by simp
  qed (auto simp: wr64_other)
  show ?thesis using w by (simp add: clear_nx_def Let_def a_def)
qed

lemma nx_loop_returns:
  assumes "4096 dvd unat page" and "4096 dvd unat end_page"
  shows "\<exists>m'. nx_loop cr3 end_page page m = Some m' \<and> (\<forall>i. m' i = m i \<or> m' i = m i AND 0x7F)"
  using assms
proof (induction "unat end_page - unat page" arbitrary: page m rule: less_induct)
  case less
  show ?case
  proof (cases "page < end_page")
    case False
    then show ?thesis by (subst nx_loop.simps) simp
  next
    case True
    have le: "unat page + 4096 \<le> unat end_page"
      using True less.prems by (auto simp: word_less_nat_alt elim!: dvdE)
    then have p: "unat (page + 0x1000) = unat page + 4096"
      using unsigned_less [of end_page, where 'a = nat] by (simp add: unat_word_ariths)
    have "unat end_page - unat (page + 0x1000) < unat end_page - unat page" using le p by simp
    then obtain m' where "nx_loop cr3 end_page (page + 0x1000) (clear_nx cr3 page m) = Some m'"
        and eq: "\<And>i. m' i = clear_nx cr3 page m i \<or> m' i = clear_nx cr3 page m i AND 0x7F"
      using less.hyps [of "page + 0x1000" "clear_nx cr3 page m"] less.prems p by auto
    then have "nx_loop cr3 end_page page m = Some m'" using True by (subst nx_loop.simps) simp
    moreover have "m' i = m i \<or> m' i = m i AND 0x7F" for i
      using eq [of i] clear_nx_bytes [of cr3 page m i] by (auto simp: and.assoc)
    ultimately show ?thesis by blast
  qed
qed

lemma aligned_and: "4096 dvd unat (x AND NOT 0xFFF :: u64)"
  using table_aligned [of x] by (simp add: table_at_def)

text \<open>
  Unlocking a loaded program for execution always ends, for every address, size
  (wrap-around included) and content of the page tables, and changes nothing but the top bits of
  bytes, which it clears.
\<close>

theorem disable_nx_ends:
  "\<exists>m'. disable_nx_for_app cr3 virtual_addr size_in_bytes m = Some m'
     \<and> (\<forall>i. m' i = m i \<or> m' i = m i AND 0x7F)"
  unfolding disable_nx_for_app_def by (rule nx_loop_returns) (rule aligned_and)+

end
