(* ===== verification/Idt.thy ===== *)
theory Idt
  imports Machine
begin

text \<open>
  The interrupt descriptor table of the 64-bit kernel (pci.cpp, first section): the gates, the
  remapping of the two interrupt controllers, and what the processor makes of a gate.
\<close>

record idt_entry =
  offset_low :: u16
  selector :: u16
  ist :: u8
  types_attr :: u8
  offset_mid :: u16
  offset_high :: u32
  idt_zero :: u32

record 'd cpu = "'d machine" +
  idt :: "idt_entry list"
  idtp :: "(u16 \<times> u64) option"
  irqs_on :: bool

definition idt_gate :: "u16 \<Rightarrow> u64 \<Rightarrow> idt_entry" where
  "idt_gate cs handler = \<lparr>offset_low = ucast handler, selector = cs, ist = 0, types_attr = 0x8E,
     offset_mid = ucast (drop_bit 16 handler), offset_high = ucast (drop_bit 32 handler), idt_zero = 0\<rparr>"

definition idt_set_gate :: "u16 \<Rightarrow> u8 \<Rightarrow> u64 \<Rightarrow> (('d, 'z) cpu_scheme, unit) state" where
  "idt_set_gate cs num handler = modify (\<lambda>s. s\<lparr>idt := (idt s)[unat num := idt_gate cs handler]\<rparr>)"

text \<open>The command words for master and slave, in the order of the code.\<close>

definition pic_words :: "(u16 \<times> u8) list" where
  "pic_words = [(0x20, 0x11), (0xA0, 0x11), (0x21, 0x20), (0xA1, 0x28), (0x21, 0x04), (0xA1, 0x02),
     (0x21, 0x01), (0xA1, 0x01), (0x21, 0x00), (0xA1, 0x00)]"

definition init_idt :: "'d hw \<Rightarrow> u16 \<Rightarrow> u64 \<Rightarrow> u64 \<Rightarrow> u64 \<Rightarrow> (('d, 'z) cpu_scheme, unit) state" where
  "init_idt hw cs table isr_trap isr_hw = do {
     for_m pic_words (\<lambda>(p, v). outb hw p v);
     for_m [0..<32] (\<lambda>i. idt_set_gate cs (word_of_nat i) isr_trap);
     for_m [32..<256] (\<lambda>i. idt_set_gate cs (word_of_nat i) isr_hw);
     modify (\<lambda>s. s\<lparr>idtp := Some (16 * 256 - 1, table), irqs_on := True\<rparr>)
   }"

text \<open>The processor's view of a gate: its target, if it is a present 64-bit interrupt gate of ring 0.\<close>

definition gate_target :: "idt_entry \<Rightarrow> (u16 \<times> u64) option" where
  "gate_target e = (if types_attr e = 0x8E
     then Some (selector e, ucast (offset_low e) OR push_bit 16 (ucast (offset_mid e)) OR push_bit 32 (ucast (offset_high e)))
     else None)"

lemma gate_roundtrip: "gate_target (idt_gate cs handler) = Some (cs, handler)"
proof -
  have "(ucast (ucast handler :: u16) :: u64) OR push_bit 16 (ucast (ucast (drop_bit 16 handler) :: u16))
      OR push_bit 32 (ucast (ucast (drop_bit 32 handler) :: u32)) = handler"
  proof (rule bit_word_eqI)
    fix n
    assume n: "n < LENGTH(64)"
    consider "n < 16" | "16 \<le> n" "n < 32" | "32 \<le> n" using n by linarith
    then show "bit ((ucast (ucast handler :: u16) :: u64) OR push_bit 16 (ucast (ucast (drop_bit 16 handler) :: u16))
        OR push_bit 32 (ucast (ucast (drop_bit 32 handler) :: u32))) n = bit handler n"
      using n by cases (auto simp: bit_simps)
  qed
  then show ?thesis by (simp add: gate_target_def idt_gate_def)
qed

lemma set_gates:
  assumes "\<forall>i \<in> set is. i < 256" and "length (idt s) = 256"
  shows "run_state (for_m is (\<lambda>i. idt_set_gate cs (word_of_nat i) h)) s
    = ((), s\<lparr>idt := map (\<lambda>i. if i \<in> set is then idt_gate cs h else idt s ! i) [0..<256]\<rparr>)"
  using assms
proof (induction "is" arbitrary: s)
  case Nil
  then have "map (\<lambda>i. idt s ! i) [0..<256] = idt s" by (metis map_nth)
  then show ?case by simp
next
  case (Cons i "is")
  let ?s = "s\<lparr>idt := (idt s)[i := idt_gate cs h]\<rparr>"
  have "unat (word_of_nat i :: u8) = i" using Cons.prems by (intro unat_word_of_nat) simp
  then have "run_state (for_m (i # is) (\<lambda>i. idt_set_gate cs (word_of_nat i) h)) s
      = run_state (for_m is (\<lambda>i. idt_set_gate cs (word_of_nat i) h)) ?s"
    by (simp add: idt_set_gate_def)
  also have "\<dots> = ((), ?s\<lparr>idt := map (\<lambda>j. if j \<in> set is then idt_gate cs h else idt ?s ! j) [0..<256]\<rparr>)"
    using Cons by simp
  also have "\<dots> = ((), s\<lparr>idt := map (\<lambda>j. if j \<in> set (i # is) then idt_gate cs h else idt s ! j) [0..<256]\<rparr>)"
    using Cons.prems by (auto simp: nth_list_update intro!: map_cong)
  finally show ?case .
qed

lemma set_gate_range:
  assumes "hi \<le> 256" and "length (idt s) = 256"
  shows "run_state (for_m [lo..<hi] (\<lambda>i. idt_set_gate cs (word_of_nat i) h)) s
    = ((), s\<lparr>idt := map (\<lambda>i. if lo \<le> i \<and> i < hi then idt_gate cs h else idt s ! i) [0..<256]\<rparr>)"
  using assms by (subst set_gates) auto

lemma pic_keeps:
  "\<exists>m d. run_state (for_m ws (\<lambda>(p, v). outb hw p v)) s = ((), s\<lparr>ram := m, dev := d\<rparr>)"
proof -
  have "touches_hw (for_m ws (\<lambda>(p, v). outb hw p v))" by (intro hw_only)
  then show ?thesis using touches_run [of _ s] by fastforce
qed

text \<open>
  After \<open>init_idt\<close> every vector reaches its handler: the 32 exceptions the trap
  handler, the other 224 the hardware handler, at the code segment in use, and the register
  covers the whole table.
\<close>

theorem idt_complete:
  assumes "length (idt s) = 256"
  shows "let s' = snd (run_state (init_idt hw cs table isr_trap isr_hw) s) in
    length (idt s') = 256 \<and> idtp s' = Some (4095, table) \<and> irqs_on s'
    \<and> (\<forall>v < 256. gate_target (idt s' ! v) = Some (cs, if v < 32 then isr_trap else isr_hw))"
proof -
  obtain m d where 1: "run_state (for_m pic_words (\<lambda>(p, v). outb hw p v)) s = ((), s\<lparr>ram := m, dev := d\<rparr>)"
    using pic_keeps [of pic_words hw s] by blast
  let ?s1 = "s\<lparr>ram := m, dev := d\<rparr>"
  let ?t2 = "map (\<lambda>i. if 0 \<le> i \<and> i < 32 then idt_gate cs isr_trap else idt ?s1 ! i) [0..<256]"
  have 2: "run_state (for_m [0..<32] (\<lambda>i. idt_set_gate cs (word_of_nat i) isr_trap)) ?s1 = ((), ?s1\<lparr>idt := ?t2\<rparr>)"
    by (rule set_gate_range) (use assms in simp_all)
  let ?t3 = "map (\<lambda>i. if 32 \<le> i \<and> i < 256 then idt_gate cs isr_hw else ?t2 ! i) [0..<256]"
  have 3: "run_state (for_m [32..<256] (\<lambda>i. idt_set_gate cs (word_of_nat i) isr_hw)) (?s1\<lparr>idt := ?t2\<rparr>)
      = ((), ?s1\<lparr>idt := ?t3\<rparr>)"
    using set_gate_range [of 256 "?s1\<lparr>idt := ?t2\<rparr>" 32 cs isr_hw] by (simp del: upt_rec_numeral)
  have "gate_target (?t3 ! v) = Some (cs, if v < 32 then isr_trap else isr_hw)" if "v < 256" for v
    using that by (simp add: gate_roundtrip)
  then show ?thesis
    using 1 2 3 by (simp add: init_idt_def Let_def del: upt_rec_numeral)
qed

definition start_cpu :: "unit cpu" where
  "start_cpu = \<lparr>ram = \<lambda>_. 0, dev = (), idt = replicate 256 (idt_gate 0 0), idtp = None, irqs_on = False\<rparr>"

definition silent_hw :: "unit hw" where
  "silent_hw = \<lparr>hw_read32 = \<lambda>a s. (0, s), hw_write32 = \<lambda>a v s. s, hw_dma = \<lambda>s. s, hw_inb = \<lambda>p s. (0, s),
     hw_outb = \<lambda>p v s. s, hw_inw = \<lambda>p s. (0, s), hw_outw = \<lambda>p v s. s, hw_inl = \<lambda>p s. (0, s), hw_outl = \<lambda>p v s. s\<rparr>"

theorem idt_complete_witness:
  "gate_target (idt (snd (run_state (init_idt silent_hw 8 0x5000 0x1000 0x2000) start_cpu)) ! 33) = Some (8, 0x2000)"
  using idt_complete [of start_cpu silent_hw 8 "0x5000" "0x1000" "0x2000"]
  by (simp add: start_cpu_def Let_def)

end
