(* ===== verification/Xhci.thy ===== *)
theory Xhci
  imports Net
begin

text \<open>
  The xHCI (USB 3) driver of pci.cpp and cosmos_usb.cpp: taking the controller from the BIOS,
  reset and port power, the command ring with its event ring, the input context of a device, the
  mass storage commands over the two bulk rings, and the polling of the mouse. All rings are at
  fixed addresses in RAM; the controller is a parameter and moves between two looks at them.
\<close>

record 'd xhci = "'d net" +
  xhci_db_base :: u64
  xhci_cmd_idx :: u32
  xhci_cmd_cycle :: u32
  xhci_ev_idx :: u32
  xhci_ev_cycle :: u32
  usb_out_idx :: nat
  usb_in_idx :: nat
  global_mouse_slot :: u32
  mouse_trb_idx :: u32
  mouse_trb_cycle :: u32
  xhci_event_ring_base :: u64
  xhci_event_dequeue_idx :: nat
  xhci_event_cycle :: u32
  xhci_runtime_regs :: u64
  xhci_base_addr :: u64

definition cmd_ring :: nat where "cmd_ring = 0x04010000"
definition event_ring :: nat where "event_ring = 0x04030000"
definition out_ctx :: nat where "out_ctx = 0x04060000"
definition in_ctx :: nat where "in_ctx = 0x04070000"
definition ep0_ring :: nat where "ep0_ring = 0x04080000"
definition ep_out_ring :: nat where "ep_out_ring = 0x04090000"
definition ep_in_ring :: nat where "ep_in_ring = 0x040A0000"
definition cbw_ram :: nat where "cbw_ram = 0x040B0000"
definition cap_ram :: nat where "cap_ram = 0x040C0000"
definition csw_ram :: nat where "csw_ram = 0x040D0000"
definition xhci_dcbaa :: nat where "xhci_dcbaa = 0x08100000"

text \<open>A transfer request block: four words.\<close>

definition put_trb :: "nat \<Rightarrow> u32 \<Rightarrow> u32 \<Rightarrow> u32 \<Rightarrow> u32 \<Rightarrow> mem \<Rightarrow> mem" where
  "put_trb a param1 param2 status control m =
     wr32 (a + 12) control (wr32 (a + 8) status (wr32 (a + 4) param2 (wr32 a param1 m)))"

subsection \<open>Taking over and starting the controller, pci.cpp:318\<close>

definition handoff_legacy :: "'d hw \<Rightarrow> u32 \<Rightarrow> u32 \<Rightarrow> ('d, 'z, unit) op" where
  "handoff_legacy hw cap v = do {
     mmio_write32 hw (unat cap) (v OR 0x01000000);
     _ \<leftarrow> poll_for (do { w \<leftarrow> mmio_read32 hw (unat cap); State_Monad.return (w AND 0x00010000 = 0) }) 1000000;
     force_val \<leftarrow> mmio_read32 hw (unat cap);
     when_m (force_val AND 0x00010000 \<noteq> 0) (mmio_write32 hw (unat cap) (force_val AND NOT 0x00010000));
     ctrl \<leftarrow> mmio_read32 hw (unat (cap + 4));
     mmio_write32 hw (unat (cap + 4)) (ctrl AND 0x1FFFFE1)
   }"

fun handoff_loop :: "nat \<Rightarrow> 'd hw \<Rightarrow> u32 \<Rightarrow> ('d, 'z, unit) op" where
  "handoff_loop 0 hw cap = skip"
| "handoff_loop (Suc n) hw cap = do {
     v \<leftarrow> mmio_read32 hw (unat cap);
     if v AND 0xFF = 1 then handoff_legacy hw cap v
     else if drop_bit 8 v AND 0xFF = 0 then skip
     else handoff_loop n hw (cap + push_bit 2 (drop_bit 8 v AND 0xFF))
   }"

definition xhci_bios_handoff :: "'d hw \<Rightarrow> u32 \<Rightarrow> ('d, 'z, unit) op" where
  "xhci_bios_handoff hw cap_base = do {
     hccparams1 \<leftarrow> mmio_read32 hw (unat (cap_base + 0x10));
     let xecp_offset = drop_bit 16 hccparams1 AND 0xFFFF;
     if xecp_offset = 0 then skip else handoff_loop 20 hw (cap_base + push_bit 2 xecp_offset)
   }"

definition xhci_reset :: "'d hw \<Rightarrow> u32 \<Rightarrow> ('d, 'z, unit) op" where
  "xhci_reset hw op_base = do {
     cmd0 \<leftarrow> mmio_read32 hw (unat op_base);
     let cmd = cmd0 AND 0xFFFFFFFE;
     mmio_write32 hw (unat op_base) cmd;
     _ \<leftarrow> poll_for (do { v \<leftarrow> mmio_read32 hw (unat (op_base + 4)); State_Monad.return (v AND 1 \<noteq> 0) }) 100000;
     mmio_write32 hw (unat op_base) (cmd OR 2);
     _ \<leftarrow> poll_for (do { v \<leftarrow> mmio_read32 hw (unat op_base); State_Monad.return (v AND 2 = 0) }) 100000;
     skip
   }"

definition portsc_at :: "u32 \<Rightarrow> nat \<Rightarrow> nat" where
  "portsc_at op_base i = unat (op_base + 0x400 + word_of_nat ((i - 1) * 0x10))"

definition xhci_power_on_ports :: "'d hw \<Rightarrow> u32 \<Rightarrow> nat \<Rightarrow> ('d, 'z, unit) op" where
  "xhci_power_on_ports hw op_base max_ports = for_m [1..<Suc max_ports] (\<lambda>i. do {
     portsc \<leftarrow> mmio_read32 hw (portsc_at op_base i);
     mmio_write32 hw (portsc_at op_base i) ((portsc AND 0xFF01FFFF) OR 0x200)
   })"

text \<open>
  \<open>init_xhci_probe\<close>, cosmos_usb.cpp:128: the result is the text appended to \<open>hw_usb\<close>. The
  byte-wide read of the capability length takes the low byte of the aligned register.
\<close>

definition probe_text :: "nat \<Rightarrow> u8 \<Rightarrow> string" where
  "probe_text num caplength = ''ID:'' @ [char_of (48 + num)] @ '' C:'' @ byte_to_hex caplength @ '' ''"

definition init_xhci_probe :: "'d hw \<Rightarrow> u32 \<Rightarrow> nat \<Rightarrow> (('d, 'z) xhci_scheme, bool) state" where
  "init_xhci_probe hw bar0 num = do {
     modify (\<lambda>s. s\<lparr>xhci_base_addr := ucast bar0\<rparr>);
     xhci_bios_handoff hw bar0;
     v \<leftarrow> mmio_read32 hw (unat bar0);
     let caplength = (ucast v :: u8);
     modify (\<lambda>s. s\<lparr>hw_usb := hw_usb s @ probe_text num caplength\<rparr>);
     State_Monad.return (caplength \<noteq> 0xFF)
   }"

subsection \<open>Commands and their events, pci.cpp:429\<close>

definition ring_doorbell :: "'d hw \<Rightarrow> u64 \<Rightarrow> u32 \<Rightarrow> (('d, 'z) xhci_scheme, unit) state" where
  "ring_doorbell hw off v = do {
     db \<leftarrow> gets xhci_db_base;
     mmio_write32 hw (unat (ucast (db + off) :: u32)) v
   }"

definition xhci_command :: "'d hw \<Rightarrow> u32 \<Rightarrow> u32 \<Rightarrow> (('d, 'z) xhci_scheme, unit) state" where
  "xhci_command hw param1 control = do {
     idx \<leftarrow> gets xhci_cmd_idx;
     cyc \<leftarrow> gets xhci_cmd_cycle;
     poke (put_trb (cmd_ring + 16 * unat idx) param1 0 0 (control OR cyc));
     modify (\<lambda>s. s\<lparr>xhci_cmd_idx := xhci_cmd_idx s + 1\<rparr>);
     ring_doorbell hw 0 0
   }"

definition event_word :: "u32 \<Rightarrow> nat \<Rightarrow> mem \<Rightarrow> u32" where
  "event_word idx k m = rd32 m (event_ring + 4 * unat (idx * 4 + word_of_nat k))"

text \<open>The wait for the completion event: its code and its control word, or nothing in time.\<close>

definition xhci_wait_event :: "'d hw \<Rightarrow> (('d, 'z) xhci_scheme, (u32 \<times> u32) option) state" where
  "xhci_wait_event hw = do {
     idx \<leftarrow> gets xhci_ev_idx;
     cyc \<leftarrow> gets xhci_ev_cycle;
     found \<leftarrow> poll_for (do { c \<leftarrow> peek_dma hw (event_word idx 3); State_Monad.return (c AND 1 = cyc) }) 1000000;
     if \<not> found then State_Monad.return None
     else do {
       ctrl \<leftarrow> peek (event_word idx 3);
       st \<leftarrow> peek_dma hw (event_word idx 2);
       modify (\<lambda>s. s\<lparr>xhci_ev_idx := xhci_ev_idx s + 1\<rparr>);
       State_Monad.return (Some (drop_bit 24 st AND 0xFF, ctrl))
     }
   }"

definition xhci_send_enable_slot :: "'d hw \<Rightarrow> (('d, 'z) xhci_scheme, u8) state" where
  "xhci_send_enable_slot hw = do {
     xhci_command hw 0 (push_bit 10 9);
     r \<leftarrow> xhci_wait_event hw;
     State_Monad.return (case r of None \<Rightarrow> 0
       | Some (code, ctrl) \<Rightarrow> if code = 1 then ucast (drop_bit 24 ctrl AND 0xFF) else 0)
   }"

text \<open>\<open>xhci_send_address_device\<close>, pci.cpp:467\<close>

definition address_ctx :: "u32 \<Rightarrow> u32 \<Rightarrow> mem \<Rightarrow> mem" where
  "address_ctx port_id speed m =
     wr32 (in_ctx + 80) 8 (wr32 (in_ctx + 76) 0 (wr32 (in_ctx + 72) (word_of_nat ep0_ring OR 1)
      (wr32 (in_ctx + 68) (push_bit 1 3 OR push_bit 16 4 OR push_bit 16 (if speed = 4 then 512 else 64))
       (wr32 (in_ctx + 36) (push_bit 16 port_id) (wr32 (in_ctx + 32) (push_bit 27 1)
        (wr32 (in_ctx + 4) 3 m))))))"

definition xhci_send_address_device :: "'d hw \<Rightarrow> u8 \<Rightarrow> u8 \<Rightarrow> u32 \<Rightarrow> (('d, 'z) xhci_scheme, unit) state" where
  "xhci_send_address_device hw slot_id port_id speed = do {
     poke (\<lambda>m. zero_fill ep0_ring 256 (zero_fill in_ctx 2048 (zero_fill out_ctx 2048 m)));
     poke (wr64 (xhci_dcbaa + 8 * unat slot_id) (word_of_nat out_ctx));
     poke (address_ctx (ucast port_id) speed);
     xhci_command hw (word_of_nat in_ctx) (push_bit 10 11 OR push_bit 24 (ucast slot_id));
     r \<leftarrow> xhci_wait_event hw;
     (case r of None \<Rightarrow> skip
      | Some (code, ctrl) \<Rightarrow> set_hw_usb (if code = 1 then ''USB ADDR ASSIGNED'' else ''ADDRESS ERR''))
   }"

subsection \<open>The mouse's transfers, cosmos_usb.cpp:38\<close>

definition next_mouse_trb :: "u32 \<Rightarrow> u32" where
  "next_mouse_trb i = (if i + 1 = 63 then 0 else i + 1)"

definition xhci_submit_mouse_read :: "'d hw \<Rightarrow> (('d, 'z) xhci_scheme, unit) state" where
  "xhci_submit_mouse_read hw = do {
     slot \<leftarrow> gets global_mouse_slot;
     if slot = 0 then skip
     else do {
       i \<leftarrow> gets mouse_trb_idx;
       cyc \<leftarrow> gets mouse_trb_cycle;
       let buf = 0x06500000 + i * 8;
       poke (zero_fill (unat buf) 8);
       poke (put_trb (ep_in_ring + 4 * unat (i * 4)) buf 0 8 (push_bit 10 1 OR push_bit 5 1 OR cyc));
       when_m (i + 1 = 63) (do {
         poke (\<lambda>m. wr32 (ep_in_ring + 4 * 255) ((rd32 m (ep_in_ring + 4 * 255) AND NOT 1) OR cyc) m);
         modify (\<lambda>s. s\<lparr>mouse_trb_cycle := mouse_trb_cycle s XOR 1\<rparr>) });
       modify (\<lambda>s. s\<lparr>mouse_trb_idx := next_mouse_trb i\<rparr>);
       db \<leftarrow> gets xhci_db_base;
       mmio_write32 hw (unat (ucast db :: u32) + 4 * unat slot) 3
     }
   }"

subsection \<open>Endpoints, pci.cpp:533\<close>

definition ctx_word :: "nat \<Rightarrow> nat" where "ctx_word i = in_ctx + 4 * i"

definition ctx_upd :: "nat \<Rightarrow> (u32 \<Rightarrow> u32) \<Rightarrow> mem \<Rightarrow> mem" where
  "ctx_upd i f m = wr32 (ctx_word i) (f (rd32 m (ctx_word i))) m"

text \<open>The link block at index 63 that leads a ring back to its start.\<close>

definition put_link :: "nat \<Rightarrow> mem \<Rightarrow> mem" where
  "put_link ring = put_trb (ring + 4 * 252) (word_of_nat ring) 0 0 (push_bit 10 6 OR 2)"

definition max_packet :: "u32 \<Rightarrow> u32" where
  "max_packet speed = (if speed = 2 then 8 else if speed = 1 then 64 else 512)"

definition endpoint_ctx :: "nat \<Rightarrow> u32 \<Rightarrow> nat \<Rightarrow> mem \<Rightarrow> mem" where
  "endpoint_ctx i kind ring m =
     wr32 (ctx_word (i + 4)) 8 (wr32 (ctx_word (i + 3)) 0
       (wr32 (ctx_word (i + 2)) (word_of_nat ring OR 1) (wr32 (ctx_word (i + 1)) kind m)))"

definition mouse_ctx :: "u32 \<Rightarrow> mem \<Rightarrow> mem" where
  "mouse_ctx speed m =
     put_link ep_in_ring
       (endpoint_ctx 32 (push_bit 1 3 OR push_bit 3 7 OR push_bit 16 (if speed = 2 then 8 else 64)) ep_in_ring
         (wr32 (ctx_word 32) (push_bit 16 8)
           (ctx_upd 8 (\<lambda>v. (v AND 0x07FFFFFF) OR push_bit 27 3) (wr32 (ctx_word 1) 0xB m))))"

definition storage_ctx :: "mem \<Rightarrow> mem" where
  "storage_ctx m =
     put_link ep_in_ring (put_link ep_out_ring
       (endpoint_ctx 32 (push_bit 1 3 OR push_bit 16 6 OR push_bit 16 512) ep_in_ring
         (endpoint_ctx 24 (push_bit 1 3 OR push_bit 16 2 OR push_bit 16 512) ep_out_ring
           (ctx_upd 8 (\<lambda>v. (v AND 0x07FFFFFF) OR push_bit 27 3) (wr32 (ctx_word 1) 0xF m)))))"

text \<open>SET_PROTOCOL and SET_IDLE with their status stages, on the control ring.\<close>

definition hid_setup :: "mem \<Rightarrow> mem" where
  "hid_setup m =
     put_trb (ep0_ring + 48) 0 0 0 (push_bit 10 4 OR push_bit 16 1 OR 1)
      (put_trb (ep0_ring + 32) 0xA21 0 8 (push_bit 10 2 OR push_bit 6 1 OR 1)
       (put_trb (ep0_ring + 16) 0 0 0 (push_bit 10 4 OR push_bit 16 1 OR 1)
        (put_trb ep0_ring 0xB21 0 8 (push_bit 10 2 OR push_bit 6 1 OR 1) m)))"

definition xhci_configure_endpoints :: "'d hw \<Rightarrow> u8 \<Rightarrow> u32 \<Rightarrow> (('d, 'z) xhci_scheme, unit) state" where
  "xhci_configure_endpoints hw slot_id speed = do {
     poke (\<lambda>m. zero_fill ep_in_ring 1024 (zero_fill ep_out_ring 1024 m));
     poke (wr32 (ctx_word 0) 0);
     poke (ctx_upd 8 (\<lambda>v. (v AND NOT (push_bit 20 0xF)) OR push_bit 20 speed));
     poke (ctx_upd 17 (\<lambda>v. (v AND 0xFFFF) OR push_bit 16 (max_packet speed)));
     (if speed \<le> 2 then do {
        modify (\<lambda>s. s\<lparr>global_mouse_slot := ucast slot_id\<rparr>);
        poke (mouse_ctx speed)
      } else poke storage_ctx);
     xhci_command hw (word_of_nat in_ctx) (push_bit 10 12 OR push_bit 24 (ucast slot_id));
     r \<leftarrow> xhci_wait_event hw;
     (case r of None \<Rightarrow> skip
      | Some (code, ctrl) \<Rightarrow>
          if code \<noteq> 1 then set_hw_usb ''EP CONFIG ERR''
          else do {
            set_hw_usb ''ENDPOINTS READY!'';
            when_m (speed \<le> 2) (do {
              poke hid_setup;
              db \<leftarrow> gets xhci_db_base;
              mmio_write32 hw (unat (ucast db :: u32) + 4 * unat slot_id) 1;
              xhci_submit_mouse_read hw })
          })
   }"

text \<open>\<open>xhci_check_ports\<close>, pci.cpp:399: the first connected port is served, the others are not.\<close>

definition xhci_check_port :: "'d hw \<Rightarrow> u32 \<Rightarrow> nat \<Rightarrow> (('d, 'z) xhci_scheme, unit option) state" where
  "xhci_check_port hw op_base i = do {
     portsc \<leftarrow> mmio_read32 hw (portsc_at op_base i);
     if portsc AND 1 = 0 then State_Monad.return None
     else do {
       let port_speed = drop_bit 10 portsc AND 0xF;
       slot_id \<leftarrow> xhci_send_enable_slot hw;
       when_m (0 < slot_id) (do {
         xhci_send_address_device hw slot_id (word_of_nat i) port_speed;
         xhci_configure_endpoints hw slot_id port_speed });
       State_Monad.return (Some ())
     }
   }"

definition xhci_check_ports :: "'d hw \<Rightarrow> u32 \<Rightarrow> nat \<Rightarrow> (('d, 'z) xhci_scheme, unit) state" where
  "xhci_check_ports hw op_base max_ports = do {
     found \<leftarrow> find_m [1..<Suc max_ports] (xhci_check_port hw op_base);
     when_m (found = None) (set_hw_usb ''NO DEVICE PLUGGED'')
   }"

subsection \<open>Mass storage over the bulk rings, pci.cpp:654\<close>

text \<open>
  The 31-byte command block: the fourth word is written as a constant, then the SCSI block is
  stored from byte 15 on.
\<close>

definition xhci_cbw :: "u32 \<Rightarrow> u32 \<Rightarrow> u32 \<Rightarrow> u8 list \<Rightarrow> mem \<Rightarrow> mem" where
  "xhci_cbw tag len flags scsi m =
     wr_bytes (cbw_ram + 15) scsi
      (wr32 (cbw_ram + 12) flags (wr32 (cbw_ram + 8) len (wr32 (cbw_ram + 4) tag
        (wr32 cbw_ram 0x43425355 (zero_fill cbw_ram 112 m)))))"

text \<open>The SCSI bytes stored for READ(10) and WRITE(10), those in between being 0 already.\<close>

definition scsi_block :: "u8 \<Rightarrow> u32 \<Rightarrow> u8 list" where
  "scsi_block op lba =
     [op, 0, ucast (drop_bit 24 lba), ucast (drop_bit 16 lba), ucast (drop_bit 8 lba), ucast lba,
      0, 0, 1, 0]"

definition next_bulk :: "nat \<Rightarrow> nat" where
  "next_bulk i = (if 60 < i + 1 then 0 else i + 1)"

definition bulk_trb :: "nat \<Rightarrow> nat \<Rightarrow> u64 \<Rightarrow> u32 \<Rightarrow> mem \<Rightarrow> mem" where
  "bulk_trb ring i buf len =
     put_trb (ring + 16 * i) (ucast buf) (ucast (drop_bit 32 buf)) len (push_bit 10 1 OR push_bit 5 1 OR 1)"

definition bot_out :: "'d hw \<Rightarrow> u8 \<Rightarrow> u64 \<Rightarrow> u32 \<Rightarrow> (('d, 'z) xhci_scheme, unit) state" where
  "bot_out hw slot_id buf len = do {
     i \<leftarrow> gets usb_out_idx;
     poke (bulk_trb ep_out_ring i buf len);
     ring_doorbell hw (ucast slot_id * 32) 2;
     modify (\<lambda>s. s\<lparr>usb_out_idx := next_bulk i\<rparr>)
   }"

definition bot_in :: "'d hw \<Rightarrow> u8 \<Rightarrow> u64 \<Rightarrow> u32 \<Rightarrow> (('d, 'z) xhci_scheme, unit) state" where
  "bot_in hw slot_id buf len = do {
     i \<leftarrow> gets usb_in_idx;
     poke (bulk_trb ep_in_ring i buf len);
     ring_doorbell hw (ucast slot_id * 32) 3;
     modify (\<lambda>s. s\<lparr>usb_in_idx := next_bulk i\<rparr>)
   }"

definition swap32 :: "u32 \<Rightarrow> u32" where
  "swap32 v = (drop_bit 24 v AND 0xFF) OR (push_bit 8 v AND 0xFF0000)
     OR (drop_bit 8 v AND 0xFF00) OR (push_bit 24 v AND 0xFF000000)"

definition xhci_bot_get_capacity :: "'d hw \<Rightarrow> u8 \<Rightarrow> (('d, 'z) xhci_scheme, nat) state" where
  "xhci_bot_get_capacity hw slot_id = do {
     poke (xhci_cbw 2 8 0x0A000080 [0x25]);
     bot_out hw slot_id (word_of_nat cbw_ram) 31;
     bot_in hw slot_id (word_of_nat cap_ram) 8;
     be \<leftarrow> peek_dma hw (\<lambda>m. rd32 m cap_ram);
     let mb = unat (swap32 be) div 2048;
     State_Monad.return (if mb = 0 \<or> 500000 < mb then 16 else mb)
   }"

definition csw_good :: "mem \<Rightarrow> bool" where
  "csw_good m \<longleftrightarrow> rd32 m csw_ram = 0x53425355 \<and> rd32 m (csw_ram + 12) = 0"

definition xhci_bot_read_sectors :: "'d hw \<Rightarrow> u8 \<Rightarrow> u32 \<Rightarrow> u64 \<Rightarrow> (('d, 'z) xhci_scheme, bool) state" where
  "xhci_bot_read_sectors hw slot_id lba dest_ram = do {
     poke (\<lambda>m. zero_fill csw_ram 112 (xhci_cbw 3 512 0x0A000080 (scsi_block 0x28 lba) m));
     bot_out hw slot_id (word_of_nat cbw_ram) 31;
     bot_in hw slot_id dest_ram 512;
     bot_in hw slot_id (word_of_nat csw_ram) 13;
     peek_dma hw csw_good
   }"

definition xhci_bot_write_sectors :: "'d hw \<Rightarrow> u8 \<Rightarrow> u32 \<Rightarrow> u64 \<Rightarrow> (('d, 'z) xhci_scheme, bool) state" where
  "xhci_bot_write_sectors hw slot_id lba src_ram = do {
     poke (\<lambda>m. zero_fill csw_ram 112 (xhci_cbw 4 512 0x0A000000 (scsi_block 0x2A lba) m));
     bot_out hw slot_id (word_of_nat cbw_ram) 31;
     bot_out hw slot_id src_ram 512;
     bot_in hw slot_id (word_of_nat csw_ram) 13;
     _ \<leftarrow> spin_while (peek_dma hw (\<lambda>m. rd32 m csw_ram \<noteq> 0x53425355)) 1000000;
     peek csw_good
   }"

subsection \<open>Polling the event ring, cosmos_usb.cpp:258\<close>

text \<open>What a poll collects: the movement, the buttons and whether there was any report.\<close>

type_synonym report = "int \<times> int \<times> u8 \<times> bool"

definition add_report :: "u8 list \<Rightarrow> u32 \<Rightarrow> report \<Rightarrow> report" where
  "add_report b bytes_read = (\<lambda>(dx, dy, btn, upd).
     if b ! 0 = 1 \<and> 4 \<le> bytes_read then (dx + sint (b ! 2), dy + sint (b ! 3), btn OR b ! 1, True)
     else (dx + sint (b ! 1), dy + sint (b ! 2), btn OR b ! 0, True))"

text \<open>One event: only a transfer event of the mouse's endpoint counts, and asks for the next report.\<close>

definition mouse_event :: "'d hw \<Rightarrow> nat \<Rightarrow> report \<Rightarrow> (('d, 'z) xhci_scheme, report) state" where
  "mouse_event hw trb acc = do {
     t3 \<leftarrow> peek (\<lambda>m. rd32 m (trb + 12));
     t2 \<leftarrow> peek (\<lambda>m. rd32 m (trb + 8));
     slot \<leftarrow> gets global_mouse_slot;
     let code = drop_bit 24 t2 AND 0xFF;
     if drop_bit 10 t3 AND 0x3F = 32 \<and> drop_bit 24 t3 AND 0xFF = slot \<and> drop_bit 16 t3 AND 0x1F = 3
        \<and> (code = 1 \<or> code = 13)
     then do {
       buf \<leftarrow> peek (\<lambda>m. unat (rd64 m (unat (rd64 m trb))));
       b \<leftarrow> peek (\<lambda>m. rd_bytes m buf 4);
       xhci_submit_mouse_read hw;
       State_Monad.return (add_report b (8 - (t2 AND 0xFFFFFF)) acc)
     }
     else State_Monad.return acc
   }"

definition next_event :: "nat \<times> u32 \<Rightarrow> nat \<times> u32" where
  "next_event = (\<lambda>(idx, cyc). if 256 \<le> idx + 1 then (0, cyc XOR 1) else (idx + 1, cyc))"

definition event_at :: "u64 \<Rightarrow> nat \<Rightarrow> nat" where
  "event_at base idx = unat (base + word_of_nat (idx * 16))"

text \<open>
  The loop over the ring. It has no bound of its own, so it has \<open>fuel\<close>; the result is nothing
  when the fuel does not suffice, and the index it stopped at with the report otherwise.
\<close>

fun poll_events :: "nat \<Rightarrow> 'd hw \<Rightarrow> u64 \<Rightarrow> nat \<Rightarrow> report \<Rightarrow> (('d, 'z) xhci_scheme, (nat \<times> report) option) state" where
  "poll_events 0 hw base idx acc = State_Monad.return None"
| "poll_events (Suc n) hw base idx acc = do {
     cyc \<leftarrow> gets xhci_event_cycle;
     t3 \<leftarrow> peek_dma hw (\<lambda>m. rd32 m (event_at base idx + 12));
     if t3 AND 1 \<noteq> cyc then State_Monad.return (Some (idx, acc))
     else do {
       acc' \<leftarrow> mouse_event hw (event_at base idx) acc;
       modify (\<lambda>s. s\<lparr>xhci_event_cycle := snd (next_event (idx, xhci_event_cycle s))\<rparr>);
       poll_events n hw base (fst (next_event (idx, cyc))) acc'
     }
   }"

text \<open>The arguments of the mouse callback, when it is called.\<close>

definition mouse_move :: "report \<Rightarrow> (int \<times> int \<times> u8) option" where
  "mouse_move = (\<lambda>(dx, dy, btn, upd).
     if upd \<and> (c_div dx 2 \<noteq> 0 \<or> c_div dy 2 \<noteq> 0 \<or> btn \<noteq> 0) then Some (c_div dx 2, c_div dy 2, btn) else None)"

definition xhci_poll_events_and_mouse ::
  "nat \<Rightarrow> 'd hw \<Rightarrow> (('d, 'z) xhci_scheme, (int \<times> int \<times> u8) option option) state" where
  "xhci_poll_events_and_mouse fuel hw = do {
     base \<leftarrow> gets xhci_event_ring_base;
     start \<leftarrow> gets xhci_event_dequeue_idx;
     regs \<leftarrow> gets (\<lambda>s. unat (xhci_runtime_regs s + 0x38));
     if base = 0 then State_Monad.return (Some None)
     else do {
       r \<leftarrow> poll_events fuel hw base start (0, 0, 0, False);
       (case r of None \<Rightarrow> State_Monad.return None
        | Some (idx, acc) \<Rightarrow> do {
            when_m (idx \<noteq> start) (do {
              modify (\<lambda>s. s\<lparr>xhci_event_dequeue_idx := idx\<rparr>);
              let phys = base + word_of_nat (idx * 16);
              mmio_write32 hw regs (ucast phys OR 8);
              mmio_write32 hw (regs + 4) (ucast (drop_bit 32 phys)) });
            State_Monad.return (Some (mouse_move acc)) })
     }
   }"

subsection \<open>Properties\<close>

interpretation mouse_ring: ring_cursor "\<lambda>i. unat i < 63" next_mouse_trb unat 63
proof unfold_locales
  fix i :: u32
  assume i: "unat i < 63"
  then have s: "unat (i + 1) = unat i + 1" by (simp add: unat_word_ariths)
  have eq: "i + 1 = 63 \<longleftrightarrow> unat i + 1 = 63" unfolding s [symmetric] by (simp add: word_unat_eq_iff)
  show "unat (next_mouse_trb i) < 63" "unat i < 63" using i s eq by (auto simp: next_mouse_trb_def)
  show "unat (next_mouse_trb i) = (unat i + 1) mod 63" using i s eq by (auto simp: next_mouse_trb_def)
qed

interpretation bulk_ring: ring_cursor "\<lambda>i. i < 61" next_bulk id 61
  by unfold_locales (auto simp: next_bulk_def mod_Suc)

interpretation event_cursor: ring_cursor "\<lambda>(i, c). i < 256" next_event fst 256
  by unfold_locales (auto simp: next_event_def mod_Suc split: if_splits)

lemma touches_trb_steps [hw_only]:
  "touches_hw (handoff_legacy hw cap v)" "touches_hw (handoff_loop n hw cap)"
  "touches_hw (xhci_bios_handoff hw cap)" "touches_hw (xhci_reset hw cap)"
  "touches_hw (xhci_power_on_ports hw cap ports)"
proof -
  show l: "touches_hw (handoff_legacy hw cap v)" for cap v unfolding handoff_legacy_def by (intro hw_only)
  show p: "touches_hw (handoff_loop n hw cap)" for n cap
    by (induction n arbitrary: cap) (auto intro!: hw_only l)
  show "touches_hw (xhci_bios_handoff hw cap)" unfolding xhci_bios_handoff_def by (intro hw_only p)
  show "touches_hw (xhci_reset hw cap)" unfolding xhci_reset_def by (intro hw_only)
  show "touches_hw (xhci_power_on_ports hw cap ports)" unfolding xhci_power_on_ports_def by (intro hw_only)
qed

text \<open>
  The command block of the USB 3 transport: the signature, the tag, the transfer
  length, the direction and the SCSI operation with its sector are in place, but the length of
  the command, which the standard requires to be 10, is 0.
\<close>

theorem xhci_cbw_fields:
  "let m' = xhci_cbw tag len 0x0A000080 (scsi_block op lba) m in
     rd32 m' cbw_ram = 0x43425355 \<and> rd32 m' (cbw_ram + 4) = tag \<and> rd32 m' (cbw_ram + 8) = len
     \<and> m' (cbw_ram + 12) = 0x80 \<and> m' (cbw_ram + 14) = 0 \<and> m' (cbw_ram + 15) = op
     \<and> rd32_be m' (cbw_ram + 17) = lba"
proof -
  let ?c = "wr32 (cbw_ram + 12) 0x0A000080 (wr32 (cbw_ram + 8) len (wr32 (cbw_ram + 4) tag
        (wr32 cbw_ram 0x43425355 (zero_fill cbw_ram 112 m))))"
  define m' where "m' = xhci_cbw tag len 0x0A000080 (scsi_block op lba) m"
  have m': "m' = wr_bytes (cbw_ram + 15) (scsi_block op lba) ?c" by (simp add: m'_def xhci_cbw_def)
  have low: "m' (cbw_ram + i) = ?c (cbw_ram + i)" if "i < 15" for i
    using that by (simp add: m' wr_bytes_other)
  have hi: "m' (cbw_ram + (15 + i)) = scsi_block op lba ! i" if "i < 10" for i
    unfolding m' add.assoc [symmetric] using that by (intro wr_bytes_at) (simp add: scsi_block_def)
  have w: "rd32 m' (cbw_ram + k) = rd32 ?c (cbw_ram + k)" if "k \<le> 8" for k
    by (rule rd32_cong) (use low [of "k + _"] that in \<open>simp add: add.assoc\<close>)
  have "rd32_be m' (cbw_ram + 17) = lba"
    by (rule rd32_be_bytes)
      (use hi [of 2] hi [of 3] hi [of 4] hi [of 5] in \<open>simp add: rd_bytes_def upt_rec scsi_block_def add.assoc\<close>)
  moreover have "?c (cbw_ram + 12) = 0x80" "?c (cbw_ram + 14) = 0"
    by (simp_all add: wr32_def)
  ultimately show ?thesis
    unfolding Let_def m'_def [symmetric]
    using hi [of 0] low [of 12] low [of 14] w [of 0] w [of 4] w [of 8]
    by (simp add: rd32_wr32_other scsi_block_def)
qed

text \<open>
  A ring that stands still while it is polled: its cycle bits are a function of the index, the
  controller's accesses keep them, and the memory the driver writes for the mouse is elsewhere.
\<close>

definition bits_are :: "u64 \<Rightarrow> (nat \<Rightarrow> u32) \<Rightarrow> mem \<Rightarrow> bool" where
  "bits_are base bits m \<longleftrightarrow> (\<forall>i < 256. rd32 m (event_at base i + 12) AND 1 = bits i)"

definition quiet_ring :: "'d hw \<Rightarrow> u64 \<Rightarrow> bool" where
  "quiet_ring hw base \<longleftrightarrow>
     (\<forall>bits m d. bits_are base bits m \<longrightarrow> bits_are base bits (fst (hw_dma hw (m, d)))
        \<and> (\<forall>a v. bits_are base bits (fst (hw_write32 hw a v (m, d)))))
     \<and> (\<forall>i < 256. \<forall>k < 4. let a = event_at base i + 12 + k in
          (a < ep_in_ring \<or> ep_in_ring + 1024 \<le> a) \<and> (a < 0x06500000 \<or> 0x06500200 \<le> a))"

definition poll_ok :: "u64 \<Rightarrow> (nat \<Rightarrow> u32) \<Rightarrow> u32 \<Rightarrow> ('d, 'z) xhci_scheme \<Rightarrow> bool" where
  "poll_ok base bits c s \<longleftrightarrow> bits_are base bits (ram s) \<and> unat (mouse_trb_idx s) < 63 \<and> xhci_event_cycle s = c"

lemma bits_poke:
  assumes "quiet_ring hw base" and "bits_are base bits m"
    and "\<And>a. (a < ep_in_ring \<or> ep_in_ring + 1024 \<le> a) \<and> (a < 0x06500000 \<or> 0x06500200 \<le> a) \<Longrightarrow> f m a = m a"
  shows "bits_are base bits (f m)"
  unfolding bits_are_def
proof (intro allI impI)
  fix i :: nat
  assume i: "i < 256"
  have "f m (event_at base i + 12 + k) = m (event_at base i + 12 + k)" if "k < 4" for k
    by (rule assms(3)) (use assms(1) i that in \<open>simp add: quiet_ring_def Let_def\<close>)
  then have "rd32 (f m) (event_at base i + 12) = rd32 m (event_at base i + 12)" by (rule rd32_cong)
  then show "rd32 (f m) (event_at base i + 12) AND 1 = bits i" using assms(2) i by (simp add: bits_are_def)
qed

lemma put_trb_other: "i < a \<or> a + 16 \<le> i \<Longrightarrow> put_trb a p1 p2 st ctl m i = m i"
  by (auto simp: put_trb_def wr32_other)

lemma mouse_addresses:
  assumes "unat i < 63"
  shows "unat (i * 4 :: u32) = unat i * 4" "unat (0x06500000 + i * 8 :: u32) = 0x06500000 + unat i * 8"
  using assms by (simp_all add: unat_word_ariths)

lemma submit_keeps:
  fixes hw :: "'d hw"
  assumes "quiet_ring hw base" and "poll_ok base bits c (s :: ('d, 'z) xhci_scheme)"
  shows "poll_ok base bits c (snd (run_state (xhci_submit_mouse_read hw) s))"
proof (cases "global_mouse_slot s = 0")
  case True
  then show ?thesis using assms by (simp add: xhci_submit_mouse_read_def)
next
  case False
  let ?i = "mouse_trb_idx s"
  have i: "unat ?i < 63" using assms(2) by (simp add: poll_ok_def)
  let ?m1 = "zero_fill (unat (0x06500000 + ?i * 8)) 8 (ram s)"
  let ?m2 = "put_trb (ep_in_ring + 4 * unat (?i * 4)) (0x06500000 + ?i * 8) 0 8
    (push_bit 10 1 OR push_bit 5 1 OR mouse_trb_cycle s) ?m1"
  let ?m3 = "wr32 (ep_in_ring + 4 * 255) ((rd32 ?m2 (ep_in_ring + 4 * 255) AND NOT 1) OR mouse_trb_cycle s) ?m2"
  have b: "bits_are base bits (ram s)" using assms(2) by (simp add: poll_ok_def)
  have b1: "bits_are base bits ?m1"
    by (rule bits_poke [OF assms(1) b]) (rule zero_fill_other, use mouse_addresses [OF i] i in auto)
  have b2: "bits_are base bits ?m2"
    by (rule bits_poke [OF assms(1) b1]) (rule put_trb_other, use mouse_addresses [OF i] i in auto)
  have b3: "bits_are base bits ?m3"
    by (rule bits_poke [OF assms(1) b2]) (rule wr32_other, auto)
  have "unat (next_mouse_trb ?i) < 63" by (rule mouse_ring.valid_step [OF i])
  moreover have "bits_are base bits (fst (hw_write32 hw a v (?m2, d)))"
    "bits_are base bits (fst (hw_write32 hw a v (?m3, d)))" for a v d
    using assms(1) b2 b3 by (simp_all add: quiet_ring_def)
  ultimately show ?thesis
    using assms(2) False
    by (cases "?i = 62")
      (simp_all add: xhci_submit_mouse_read_def Let_def poll_ok_def mmio_write32_def run_dev_write)
qed

lemma submit_preserves:
  "quiet_ring hw base \<Longrightarrow> preserves (poll_ok base bits c) (xhci_submit_mouse_read hw)"
  by (simp add: preserves_def submit_keeps)

lemma mouse_event_keeps:
  "quiet_ring hw base \<Longrightarrow> preserves (poll_ok base bits c) (mouse_event hw trb acc)"
  unfolding mouse_event_def peek_def by (intro preserving submit_preserves)

lemma poll_step:
  assumes "quiet_ring hw base" and "poll_ok base bits c s" and "idx < 256"
  obtains s1 where "poll_ok base bits c s1"
    "run_state (peek_dma hw (\<lambda>m. rd32 m (event_at base idx + 12))) s = (rd32 (ram s1) (event_at base idx + 12), s1)"
    "rd32 (ram s1) (event_at base idx + 12) AND 1 = bits idx"
proof
  let ?s1 = "snd (run_state (dev_write (hw_dma hw)) s)"
  show ok: "poll_ok base bits c ?s1"
    using assms(1,2) by (simp add: poll_ok_def quiet_ring_def run_dev_write)
  show "run_state (peek_dma hw (\<lambda>m. rd32 m (event_at base idx + 12))) s = (rd32 (ram ?s1) (event_at base idx + 12), ?s1)"
    by (simp add: peek_dma_def run_dev_write)
  show "rd32 (ram ?s1) (event_at base idx + 12) AND 1 = bits idx"
    using ok assms(3) by (simp add: poll_ok_def bits_are_def)
qed

text \<open>One round of the loop: stop at a foreign cycle bit, or go on to the next place.\<close>

lemma poll_stop:
  assumes "quiet_ring hw base" "poll_ok base bits c s" "idx < 256" "bits idx \<noteq> c" "0 < n"
  shows "fst (run_state (poll_events n hw base idx acc) s) \<noteq> None"
proof -
  obtain s1 where "run_state (peek_dma hw (\<lambda>m. rd32 m (event_at base idx + 12))) s
      = (rd32 (ram s1) (event_at base idx + 12), s1)" "rd32 (ram s1) (event_at base idx + 12) AND 1 = bits idx"
    using poll_step [OF assms(1-3)] by metis
  moreover have "xhci_event_cycle s = c" using assms(2) by (simp add: poll_ok_def)
  ultimately show ?thesis using assms(4,5) by (cases n) simp_all
qed

lemma poll_go:
  assumes "quiet_ring hw base" "poll_ok base bits c s" "idx < 256" "bits idx = c"
  obtains acc' s' where "run_state (poll_events (Suc n) hw base idx acc) s
      = run_state (poll_events n hw base (fst (next_event (idx, c))) acc') s'"
    "poll_ok base bits (snd (next_event (idx, c))) s'"
proof -
  obtain s1 where s1: "poll_ok base bits c s1"
      "run_state (peek_dma hw (\<lambda>m. rd32 m (event_at base idx + 12))) s = (rd32 (ram s1) (event_at base idx + 12), s1)"
      "rd32 (ram s1) (event_at base idx + 12) AND 1 = bits idx"
    using poll_step [OF assms(1-3)] by metis
  obtain acc' s2 where s2: "run_state (mouse_event hw (event_at base idx) acc) s1 = (acc', s2)" by fastforce
  have ok: "poll_ok base bits c s2"
    using preservesD [OF mouse_event_keeps [OF assms(1)] s1(1), of "event_at base idx" acc] s2 by simp
  have c: "xhci_event_cycle s = c" using assms(2) by (simp add: poll_ok_def)
  show thesis
  proof (rule that)
    show "poll_ok base bits (snd (next_event (idx, c)))
        (s2\<lparr>xhci_event_cycle := snd (next_event (idx, xhci_event_cycle s2))\<rparr>)"
      using ok by (simp add: poll_ok_def)
    show "run_state (poll_events (Suc n) hw base idx acc) s
      = run_state (poll_events n hw base (fst (next_event (idx, c))) acc')
          (s2\<lparr>xhci_event_cycle := snd (next_event (idx, xhci_event_cycle s2))\<rparr>)"
      using s1 s2 assms(4) c by simp
  qed
qed

lemma poll_lap:
  assumes "quiet_ring hw base" and "k < 256" "bits k \<noteq> c"
  shows "poll_ok base bits c s \<Longrightarrow> idx \<le> k \<Longrightarrow> k - idx < n
    \<Longrightarrow> fst (run_state (poll_events n hw base idx acc) s) \<noteq> None"
proof (induction n arbitrary: idx s acc)
  case (Suc n)
  show ?case
  proof (cases "bits idx = c")
    case False
    then show ?thesis using Suc.prems assms(2) by (intro poll_stop [OF assms(1) Suc.prems(1)]) auto
  next
    case True
    then have less: "idx < k" using assms(3) Suc.prems(2) by (cases "idx = k") auto
    then have idx: "idx < 256" "next_event (idx, c) = (idx + 1, c)"
      using assms(2) by (auto simp: next_event_def)
    obtain acc' s' where "run_state (poll_events (Suc n) hw base idx acc) s
        = run_state (poll_events n hw base (idx + 1) acc') s'" "poll_ok base bits c s'"
      using poll_go [OF assms(1) Suc.prems(1) idx(1) True] idx(2) by (metis fst_conv snd_conv)
    then show ?thesis using Suc.IH [of s' "idx + 1" acc'] Suc.prems less by simp
  qed
qed simp

lemma poll_wrap:
  assumes "quiet_ring hw base" and "k < 256" "bits k = c"
  shows "poll_ok base bits c s \<Longrightarrow> idx < 256 \<Longrightarrow> (\<And>j. idx \<le> j \<Longrightarrow> j < 256 \<Longrightarrow> bits j = c)
    \<Longrightarrow> 256 - idx + k < n \<Longrightarrow> fst (run_state (poll_events n hw base idx acc) s) \<noteq> None"
proof (induction n arbitrary: idx s acc)
  case (Suc n)
  obtain acc' s' where go: "run_state (poll_events (Suc n) hw base idx acc) s
      = run_state (poll_events n hw base (fst (next_event (idx, c))) acc') s'"
      "poll_ok base bits (snd (next_event (idx, c))) s'"
    using poll_go [OF assms(1) Suc.prems(1,2)] Suc.prems(2,3) by (metis order_refl)
  show ?case
  proof (cases "idx = 255")
    case True
    then have "bits k \<noteq> snd (next_event (idx, c))"
      using assms(3) xor_eq_self_iff [of c 1] by (auto simp: next_event_def)
    then show ?thesis
      using poll_lap [OF assms(1,2) _ go(2), of 0 n acc'] go(1) True Suc.prems(4) by (simp add: next_event_def)
  next
    case False
    then have "next_event (idx, c) = (idx + 1, c)" using Suc.prems(2) by (auto simp: next_event_def)
    then show ?thesis
      using Suc.IH [of s' "idx + 1" acc'] go False Suc.prems(2-4) by simp
  qed
qed simp


definition start_xhci :: "unit xhci" where
  "start_xhci = \<lparr>ram = \<lambda>_. 0xFF, dev = (), cmd_status = [], hw_usb = [], hw_disk = [],
     global_active_port = 0, global_ahci_abar = 0xFEBF1000, ahci_scan_state = 1, ahci_scan_timer = 0,
     drives = replicate 8 \<lparr>drv_type = 0, size_mb = 0, base_port = 0, model = []\<rparr>, drive_count = 0,
     ahci_found_ports_bitmask = 0, is_ahci_found = True, ahci_bar5 = 0xFEBF1000,
     usb_io_base = 0, uhci_base_port = 0, tba_block_idx = 0, tba_current_lba = 3000, rtl_io_base = 0,
     intel_mem_base = 0, mac_addr = [0x52, 0x54, 0, 0x12, 0x34, 0x56], mac_str = [], tx_cur = 0,
     rx_idx_rtl = 0, rx_cur_intel = 0, tx_cur_intel = 0, ip_address = [], net_mask = [], gateway_ip = [],
     rng_seed = 1, xhci_db_base = 0, xhci_cmd_idx = 0, xhci_cmd_cycle = 1,
     xhci_ev_idx = 0, xhci_ev_cycle = 1, usb_out_idx = 0, usb_in_idx = 0, global_mouse_slot = 1,
     mouse_trb_idx = 0, mouse_trb_cycle = 1, xhci_event_ring_base = 0x08020000,
     xhci_event_dequeue_idx = 7, xhci_event_cycle = 1, xhci_runtime_regs = 0xFEA01000,
     xhci_base_addr = 0xFEA00000\<rparr>"


definition gap_ok :: "('d, 'z) xhci_scheme \<Rightarrow> bool" where
  "gap_ok s \<longleftrightarrow> usb_out_idx s < 61 \<and> usb_in_idx s < 61
     \<and> (\<forall>i \<in> {61, 62}. rd32 (ram s) (ep_out_ring + 16 * i + 12) AND 1 = 0
          \<and> rd32 (ram s) (ep_in_ring + 16 * i + 12) AND 1 = 0)"

definition bulk_transfers :: "'d hw \<Rightarrow> (bool \<times> u8 \<times> u64 \<times> u32) list \<Rightarrow> (('d, 'z) xhci_scheme, unit) state" where
  "bulk_transfers hw ts = for_m ts (\<lambda>(is_in, slot, buf, len).
     if is_in then bot_in hw slot buf len else bot_out hw slot buf len)"

lemma gap_poke:
  assumes "gap_ok s" and "i < 61" and "ring = ep_out_ring \<or> ring = ep_in_ring"
  shows "gap_ok (s\<lparr>ram := bulk_trb ring i buf len (ram s)\<rparr>)"
proof -
  have "rd32 (bulk_trb ring i buf len (ram s)) (r + 16 * j + 12) = rd32 (ram s) (r + 16 * j + 12)"
    if "j \<in> {61, 62}" "r = ep_out_ring \<or> r = ep_in_ring" for j r
    by (rule rd32_cong, unfold bulk_trb_def, rule put_trb_other)
      (use that assms(2,3) in \<open>auto simp: ep_out_ring_def ep_in_ring_def\<close>)
  then show ?thesis using assms(1) by (simp add: gap_ok_def)
qed

lemma gap_bot:
  fixes hw :: "'d hw"
  assumes "\<And>a v m d. fst (hw_write32 hw a v (m, d)) = m"
  shows "preserves gap_ok (bot_out hw slot buf len :: (('d, 'z) xhci_scheme, unit) state)"
    "preserves gap_ok (bot_in hw slot buf len :: (('d, 'z) xhci_scheme, unit) state)"
proof -
  have idx: "next_bulk i < 61" if "i < 61" for i using bulk_ring.valid_step [OF that] .
  show "preserves gap_ok (bot_out hw slot buf len :: (('d, 'z) xhci_scheme, unit) state)"
    unfolding preserves_def
  proof (intro allI impI)
    fix s :: "('d, 'z) xhci_scheme"
    assume g: "gap_ok s"
    then show "gap_ok (snd (run_state (bot_out hw slot buf len) s))"
      using gap_poke [OF g, of "usb_out_idx s" ep_out_ring buf len] idx [of "usb_out_idx s"]
      by (simp add: gap_ok_def bot_out_def ring_doorbell_def mmio_write32_def run_dev_write assms)
  qed
  show "preserves gap_ok (bot_in hw slot buf len :: (('d, 'z) xhci_scheme, unit) state)"
    unfolding preserves_def
  proof (intro allI impI)
    fix s :: "('d, 'z) xhci_scheme"
    assume g: "gap_ok s"
    then show "gap_ok (snd (run_state (bot_in hw slot buf len) s))"
      using gap_poke [OF g, of "usb_in_idx s" ep_in_ring buf len] idx [of "usb_in_idx s"]
      by (simp add: gap_ok_def bot_in_def ring_doorbell_def mmio_write32_def run_dev_write assms)
  qed
qed

text \<open>
  The bulk rings never get past their sixty-first block: the driver goes back to
  block 0 after block 60 without a link block there, and blocks 61 and 62, which the controller
  comes to next, are never handed over, so the link block at 63 is never reached.
\<close>

theorem bulk_ring_gap:
  assumes "\<And>a v m d. fst (hw_write32 hw a v (m, d)) = m"
  shows "preserves gap_ok (bulk_transfers hw ts)"
  unfolding bulk_transfers_def by (intro preserving gap_bot assms)

theorem bulk_ring_gap_witness:
  "gap_ok (snd (run_state (bulk_transfers null_hw (replicate 100 (True, 1, 0x100000, 512)))
     (start_xhci\<lparr>ram := \<lambda>_. 0\<rparr>)))"
proof -
  have "gap_ok (start_xhci\<lparr>ram := \<lambda>_. 0\<rparr>)"
    by (simp add: gap_ok_def start_xhci_def rd32_def)
  moreover have "preserves gap_ok (bulk_transfers null_hw ts :: ((unit, 'z) xhci_scheme, unit) state)" for ts
    by (rule bulk_ring_gap) (simp add: null_hw_def)
  ultimately show ?thesis by (rule preservesD [rotated])
qed

end
