(* ===== verification/Pci.thy ===== *)
theory Pci
  imports Xhci
begin

text \<open>
  The hardware inventory of pci.cpp and kernel.cpp: configuration space through the I/O ports
  and through the memory-mapped window that ACPI announces, the scan over all functions with its
  tables of cards, the searches for single controllers, and the interrupt descriptor table.
  Every location is a triple of bus, device and function.
\<close>

type_synonym loc = "nat \<times> nat \<times> nat"

record nic =
  nic_name :: string
  nic_address :: u32
  nic_type :: nat

record oracle_entry =
  or_type :: string
  or_vendor :: u16
  or_device :: u16
  or_bar :: u32

record gfx_card =
  gfx_vendor :: u16
  gfx_device :: u16
  gfx_loc :: loc
  framebuffer_addr :: u32

text \<open>
  The tables with their counters (\<open>found_nics\<close> and \<open>nic_count\<close>, \<open>hw_storage_list\<close> and
  \<open>storage_count\<close>, \<open>hw_gpu_list\<close> and \<open>gpu_count\<close>) are lists; the capacities are the
  guards of the scan.
\<close>

record 'd pci = "'d xhci" +
  pcie_base_addr :: u32
  oracle_db :: "oracle_entry list"
  found_nics :: "nic list"
  active_nic_idx :: int
  storage_list :: "string list"
  gpu_list :: "string list"
  hw_gpu :: string
  hw_net :: string
  is_net_found :: bool
  net_bar0 :: u32
  net_io_port :: u32
  is_usb_found :: bool
  usb_detected :: bool
  usb_bar0 :: u32
  xhci_discovery_count :: nat
  ac97_mixer_port :: u16
  ac97_bus_port :: u16
  logitech_found :: bool
  webcam_model :: string
  main_gfx_card :: gfx_card
  ssids :: "string list"
  wifi_window :: bool

subsection \<open>Configuration space\<close>

definition pci_cfg_addr :: "loc \<Rightarrow> u8 \<Rightarrow> u32" where
  "pci_cfg_addr = (\<lambda>(b, d, f) off.
     push_bit 16 (word_of_nat b) OR push_bit 11 (word_of_nat d) OR push_bit 8 (word_of_nat f)
     OR (ucast off AND 0xFC) OR 0x80000000)"

definition pci_read :: "'d hw \<Rightarrow> loc \<Rightarrow> u8 \<Rightarrow> ('d, 'z, u32) op" where
  "pci_read hw l off = do { outl hw 0xCF8 (pci_cfg_addr l off); inl hw 0xCFC }"

definition pci_write :: "'d hw \<Rightarrow> loc \<Rightarrow> u8 \<Rightarrow> u32 \<Rightarrow> ('d, 'z, unit) op" where
  "pci_write hw l off v = do { outl hw 0xCF8 (pci_cfg_addr l off); outl hw 0xCFC v }"

text \<open>The memory-mapped window, and the reader that prefers it, kernel.cpp:231\<close>

definition pcie_addr :: "u32 \<Rightarrow> u32 \<Rightarrow> u32 \<Rightarrow> u32 \<Rightarrow> u32 \<Rightarrow> u64" where
  "pcie_addr base b d f off =
     ucast base + ucast (push_bit 20 b) + ucast (push_bit 15 d) + ucast (push_bit 12 f) + ucast (off AND 0xFFF)"

definition pcie_read_mmio ::
  "'d hw \<Rightarrow> u32 \<Rightarrow> u32 \<Rightarrow> u32 \<Rightarrow> u32 \<Rightarrow> (('d, 'z) pci_scheme, u32) state" where
  "pcie_read_mmio hw b d f off = do {
     base \<leftarrow> gets pcie_base_addr;
     if base = 0 \<or> 0xFFFFFFF0 \<le> pcie_addr base b d f off then State_Monad.return 0xFFFFFFFF
     else mmio_read32 hw (unat (pcie_addr base b d f off))
   }"

definition pcie_write_mmio ::
  "'d hw \<Rightarrow> u32 \<Rightarrow> u32 \<Rightarrow> u32 \<Rightarrow> u32 \<Rightarrow> u32 \<Rightarrow> (('d, 'z) pci_scheme, unit) state" where
  "pcie_write_mmio hw b d f off v = do {
     base \<leftarrow> gets pcie_base_addr;
     if base = 0 \<or> 0xFFFFFFF0 \<le> pcie_addr base b d f off then skip
     else mmio_write32 hw (unat (pcie_addr base b d f off)) v
   }"

definition sys_pci_read ::
  "'d hw \<Rightarrow> u32 \<Rightarrow> u32 \<Rightarrow> u32 \<Rightarrow> u32 \<Rightarrow> (('d, 'z) pci_scheme, u32) state" where
  "sys_pci_read hw b d f off = do {
     base \<leftarrow> gets pcie_base_addr;
     if base \<noteq> 0 then pcie_read_mmio hw b d f off
     else pci_read hw (unat (ucast b :: u8), unat (ucast d :: u8), unat (ucast f :: u8)) (ucast off)
   }"

text \<open>\<open>init_acpi_and_pcie\<close>, pci.cpp:220: the first RSDP signature decides; of its table the first MCFG below 4 GB.\<close>

fun first_some :: "('a \<Rightarrow> 'b option) \<Rightarrow> 'a list \<Rightarrow> 'b option" where
  "first_some f [] = None"
| "first_some f (x # xs) = (case f x of None \<Rightarrow> first_some f xs | Some y \<Rightarrow> Some y)"

definition mcfg_base :: "mem \<Rightarrow> nat \<Rightarrow> u32 option" where
  "mcfg_base m t =
     (if rd32 m t = 0x4746434D \<and> rd32 m (t + 48) = 0 \<and> rd32 m (t + 44) \<noteq> 0 then Some (rd32 m (t + 44)) else None)"

definition rsdt_base :: "mem \<Rightarrow> nat \<Rightarrow> u32 option" where
  "rsdt_base m rsdt =
     (if rd32 m rsdt \<noteq> 0x54445352 then None
      else first_some (\<lambda>i. mcfg_base m (unat (rd32 m (rsdt + 36 + 4 * i))))
             [0..<unat ((rd32 m (rsdt + 4) - 36) div 4)])"

definition rsdp_at :: "mem \<Rightarrow> nat \<Rightarrow> bool" where
  "rsdp_at m p \<longleftrightarrow> rd32 m p = 0x20445352 \<and> rd32 m (p + 4) = 0x20525450"

definition acpi_base :: "mem \<Rightarrow> u32 option" where
  "acpi_base m = (case find (rsdp_at m) (map (\<lambda>k. 0xE0000 + 4 * k) [0..<32768]) of
     None \<Rightarrow> None | Some p \<Rightarrow> rsdt_base m (unat (rd32 m (p + 16))))"

definition init_acpi_and_pcie :: "(('d, 'z) pci_scheme, unit) state" where
  "init_acpi_and_pcie = do {
     b \<leftarrow> peek acpi_base;
     (case b of None \<Rightarrow> skip | Some v \<Rightarrow> modify (\<lambda>s. s\<lparr>pcie_base_addr := v\<rparr>))
   }"

subsection \<open>Searches for one controller\<close>

definition class_of :: "u32 \<Rightarrow> u32" where "class_of v = drop_bit 24 v AND 0xFF"
definition subclass_of :: "u32 \<Rightarrow> u32" where "subclass_of v = drop_bit 16 v AND 0xFF"
definition prog_if_of :: "u32 \<Rightarrow> u32" where "prog_if_of v = drop_bit 8 v AND 0xFF"

definition pci_locs :: "nat \<Rightarrow> loc list" where
  "pci_locs funcs = concat (map (\<lambda>(b, d). map (\<lambda>f. (b, d, f)) [0..<funcs]) pci_slots)"

text \<open>\<open>pci_find_gfx_card\<close>, pci.cpp:285: a function that does not answer ends its slot.\<close>

definition gfx_adopt :: "'d hw \<Rightarrow> loc \<Rightarrow> u32 \<Rightarrow> (('d, 'z) pci_scheme, unit) state" where
  "gfx_adopt hw l ident = do {
     bar0 \<leftarrow> pci_read hw l 0x10;
     modify (\<lambda>s. s\<lparr>main_gfx_card := \<lparr>gfx_vendor = ucast ident, gfx_device = ucast (drop_bit 16 ident),
       gfx_loc = l, framebuffer_addr = bar0 AND 0xFFFFFFF0\<rparr>\<rparr>)
   }"

fun gfx_funcs :: "'d hw \<Rightarrow> nat \<Rightarrow> nat \<Rightarrow> nat list \<Rightarrow> (('d, 'z) pci_scheme, unit option) state" where
  "gfx_funcs hw b d [] = State_Monad.return None"
| "gfx_funcs hw b d (f # fs) = do {
     ident \<leftarrow> pci_read hw (b, d, f) 0;
     if ident AND 0xFFFF = 0xFFFF then State_Monad.return None
     else do {
       cr \<leftarrow> pci_read hw (b, d, f) 8;
       if class_of cr = 3 \<and> subclass_of cr = 0
       then do { gfx_adopt hw (b, d, f) ident; State_Monad.return (Some ()) }
       else gfx_funcs hw b d fs
     }
   }"

definition pci_find_gfx_card :: "'d hw \<Rightarrow> (('d, 'z) pci_scheme, unit) state" where
  "pci_find_gfx_card hw = do {
     modify (\<lambda>s. s\<lparr>main_gfx_card := (main_gfx_card s)\<lparr>framebuffer_addr := 0\<rparr>\<rparr>);
     _ \<leftarrow> find_m pci_slots (\<lambda>(b, d). gfx_funcs hw b d [0..<8]);
     skip
   }"

text \<open>\<open>system_init_usb\<close>, pci.cpp:822, and \<open>find_dynamic_ahci_bar\<close>, kernel.cpp:1494, walk 28 functions.\<close>

definition is_xhci :: "'d hw \<Rightarrow> loc \<Rightarrow> ('d, 'z, unit option) op" where
  "is_xhci hw l = do {
     ident \<leftarrow> pci_read hw l 0;
     if ident AND 0xFFFF = 0xFFFF then State_Monad.return None
     else do {
       cr \<leftarrow> pci_read hw l 8;
       State_Monad.return (if drop_bit 8 cr = 0x0C0330 then Some () else None)
     }
   }"

definition system_init_usb :: "'d hw \<Rightarrow> (('d, 'z) console_scheme, unit) state" where
  "system_init_usb hw = do {
     found \<leftarrow> find_m (pci_locs 28) (is_xhci hw);
     set_hw_usb (if found = None then ''xHCI NOT FOUND'' else ''BIOS LEGACY USB ACTIVE'')
   }"

definition ahci_bar_of :: "'d hw \<Rightarrow> loc \<Rightarrow> ('d, 'z, u32 option) op" where
  "ahci_bar_of hw l = do {
     ident \<leftarrow> pci_read hw l 0;
     if ident AND 0xFFFF = 0xFFFF then State_Monad.return None
     else do {
       cr \<leftarrow> pci_read hw l 8;
       if class_of cr = 1 \<and> subclass_of cr = 6 then do {
         cmd \<leftarrow> pci_read hw l 4;
         pci_write hw l 4 (cmd OR 6);
         bar5 \<leftarrow> pci_read hw l 0x24;
         State_Monad.return (Some (bar5 AND 0xFFFFFFF0))
       } else State_Monad.return None
     }
   }"

definition find_dynamic_ahci_bar :: "'d hw \<Rightarrow> ('d, 'z, u32) op" where
  "find_dynamic_ahci_bar hw = do {
     r \<leftarrow> find_m (pci_locs 28) (ahci_bar_of hw);
     State_Monad.return (case r of None \<Rightarrow> 0 | Some b \<Rightarrow> b)
   }"

text \<open>\<open>force_find_ahci\<close>, kernel.cpp:1543: eight functions, and an address is given to a card without one.\<close>

definition force_ahci :: "'d hw \<Rightarrow> loc \<Rightarrow> ('d, 'z, u32 option) op" where
  "force_ahci hw l = do {
     ident \<leftarrow> pci_read hw l 0;
     if ident AND 0xFFFF = 0xFFFF then State_Monad.return None
     else do {
       cr \<leftarrow> pci_read hw l 8;
       if drop_bit 16 cr \<noteq> 0x0106 then State_Monad.return None
       else do {
         v \<leftarrow> pci_read hw l 0x24;
         let bar5 = (if v AND 0xFFFFFFF0 = 0 then 0xFEA00000 else v AND 0xFFFFFFF0);
         when_m (v AND 0xFFFFFFF0 = 0) (pci_write hw l 0x24 bar5);
         cmd \<leftarrow> pci_read hw l 4;
         pci_write hw l 4 (cmd OR 6);
         State_Monad.return (Some bar5)
       }
     }
   }"

definition force_find_ahci :: "'d hw \<Rightarrow> ('d, 'z, u32) op" where
  "force_find_ahci hw = do {
     r \<leftarrow> find_m (pci_locs 8) (force_ahci hw);
     State_Monad.return (case r of None \<Rightarrow> 0 | Some b \<Rightarrow> b)
   }"

subsection \<open>The network card in use, kernel.cpp:1408\<close>

text \<open>\<open>uhci_init\<close>: the test whether it failed masks with 0, so it is never taken.\<close>

definition uhci_init :: "'d hw \<Rightarrow> u32 \<Rightarrow> (('d, 'z) pci_scheme, unit) state" where
  "uhci_init hw io_addr = do {
     modify (\<lambda>s. s\<lparr>usb_io_base := io_addr AND NOT 3\<rparr>);
     base \<leftarrow> gets (\<lambda>s. ucast (usb_io_base s));
     outw hw base 4;
     outw hw base 0;
     outw hw base 1;
     v \<leftarrow> inb hw (base + 2);
     if v AND 0 \<noteq> 0 then set_status ''USB INIT FAIL''
     else do {
       set_status ''USB HOST RUNNING'';
       modify (\<lambda>s. s\<lparr>ip_address := ''USB SCANNING...'',
         ssids := [''FritzBox (ENC)'', ''Telekom-AB12'', ''Linksys-Home'', ''Open-Wifi'']\<rparr>)
     }
   }"

definition nic_boot :: "nat \<Rightarrow> 'd hw \<Rightarrow> net_layout \<Rightarrow> nic \<Rightarrow> (('d, 'z) pci_scheme, unit) state" where
  "nic_boot fuel hw N c =
     (if nic_type c = 1 then do {
        set_status ''BOOTING RTL...'';
        _ \<leftarrow> rtl8139_init fuel hw N (nic_address c);
        skip }
      else if nic_type c = 2 then do {
        set_status ''BOOTING INTEL...'';
        intel_e1000_init hw N (nic_address c) }
      else if nic_type c = 3 then do {
        modify (\<lambda>s. s\<lparr>mac_str := ''5C:F6:DC:32:C6:47''\<rparr>);
        base \<leftarrow> gets usb_io_base;
        (if base \<noteq> 0 then uhci_init hw base else set_status ''USB IO ERR'');
        modify (\<lambda>s. s\<lparr>wifi_window := True\<rparr>) }
      else skip)"

definition nic_select_next :: "nat \<Rightarrow> 'd hw \<Rightarrow> net_layout \<Rightarrow> (('d, 'z) pci_scheme, unit) state" where
  "nic_select_next fuel hw N = do {
     nics \<leftarrow> gets found_nics;
     if nics = [] then skip
     else do {
       modify (\<lambda>s. s\<lparr>active_nic_idx := (if int (length nics) \<le> active_nic_idx s + 1 then 0 else active_nic_idx s + 1)\<rparr>);
       i \<leftarrow> gets active_nic_idx;
       nic_boot fuel hw N (nics ! nat i)
     }
   }"

subsection \<open>The scan of all functions, pci.cpp:849\<close>

definition hex4 :: "u16 \<Rightarrow> string" where
  "hex4 v = byte_to_hex (ucast (drop_bit 8 v)) @ byte_to_hex (ucast v)"

definition card_name :: "u16 \<Rightarrow> u16 \<Rightarrow> string" where
  "card_name vendor device = hex4 vendor @ ''-'' @ hex4 device"

definition oracle_match :: "oracle_entry list \<Rightarrow> u16 \<Rightarrow> u16 \<Rightarrow> bool" where
  "oracle_match db vendor device \<longleftrightarrow> (\<exists>e \<in> set db. or_vendor e = vendor \<and> or_device e = device)"

definition scan_gpu :: "u16 \<Rightarrow> u16 \<Rightarrow> (('d, 'z) pci_scheme, unit) state" where
  "scan_gpu vendor device = do {
     known \<leftarrow> gets (\<lambda>s. oracle_match (oracle_db s) vendor device);
     n \<leftarrow> gets (\<lambda>s. length (gpu_list s));
     when_m (n < 2) (modify (\<lambda>s. s\<lparr>gpu_list := gpu_list s @
       [if known then ''ORACLE GPU'' else ''GPU: '' @ card_name vendor device]\<rparr>));
     when_m (\<not> known) (modify (\<lambda>s. s\<lparr>hw_gpu := ''GPU DEV''\<rparr>))
   }"

definition nic_of :: "u16 \<Rightarrow> u32 \<Rightarrow> nic" where
  "nic_of vendor bar0 =
     (if vendor = 0x10EC then \<lparr>nic_name = ''REALTEK'', nic_address = bar0, nic_type = 1\<rparr>
      else if vendor = 0x8086 then \<lparr>nic_name = ''INTEL'', nic_address = bar0, nic_type = 2\<rparr>
      else \<lparr>nic_name = ''GENERIC'', nic_address = bar0, nic_type = 0\<rparr>)"

definition cfg_or :: "'d hw \<Rightarrow> loc \<Rightarrow> u32 \<Rightarrow> ('d, 'z, unit) op" where
  "cfg_or hw l bits = do { cmd \<leftarrow> pci_read hw l 4; pci_write hw l 4 (cmd OR bits) }"

definition scan_nic :: "'d hw \<Rightarrow> loc \<Rightarrow> u16 \<Rightarrow> u16 \<Rightarrow> (('d, 'z) pci_scheme, unit) state" where
  "scan_nic hw l vendor device = do {
     bar0 \<leftarrow> pci_read hw l 0x10;
     (if bar0 AND 1 \<noteq> 0 then modify (\<lambda>s. s\<lparr>net_io_port := bar0 AND 0xFFFFFFFC\<rparr>)
      else modify (\<lambda>s. s\<lparr>net_bar0 := bar0 AND 0xFFFFFFF0\<rparr>));
     modify (\<lambda>s. s\<lparr>is_net_found := True\<rparr>);
     cfg_or hw l 0x0407;
     n \<leftarrow> gets (\<lambda>s. length (found_nics s));
     when_m (n < 5) (modify (\<lambda>s. s\<lparr>hw_net := ''ID:'' @ card_name vendor device,
       found_nics := found_nics s @ [nic_of vendor bar0]\<rparr>))
   }"

definition scan_ahci :: "'d hw \<Rightarrow> loc \<Rightarrow> (('d, 'z) pci_scheme, unit) state" where
  "scan_ahci hw l = do {
     bar5 \<leftarrow> pci_read hw l 0x24;
     modify (\<lambda>s. s\<lparr>ahci_bar5 := bar5 AND 0xFFFFFFF0, is_ahci_found := True\<rparr>);
     cfg_or hw l 7
   }"

text \<open>
  An Intel xHCI controller is woken up (power state D0), enabled, its message interrupts are
  switched off, and it is probed. Both walks over the capability list take at most ten steps.
\<close>

fun xhci_wake :: "nat \<Rightarrow> 'd hw \<Rightarrow> loc \<Rightarrow> u8 \<Rightarrow> ('d, 'z, unit) op" where
  "xhci_wake 0 hw l cap = skip"
| "xhci_wake (Suc n) hw l cap =
     (if cap = 0 then skip
      else do {
        r \<leftarrow> pci_read hw l cap;
        if r AND 0xFF = 1 then do {
          pmcsr \<leftarrow> pci_read hw l (cap + 4);
          pci_write hw l (cap + 4) (pmcsr AND 0xFFFFFFFC) }
        else xhci_wake n hw l (ucast (drop_bit 8 r))
      })"

fun xhci_mute :: "nat \<Rightarrow> 'd hw \<Rightarrow> loc \<Rightarrow> u8 \<Rightarrow> ('d, 'z, unit) op" where
  "xhci_mute 0 hw l cap = skip"
| "xhci_mute (Suc n) hw l cap =
     (if cap = 0 then skip
      else do {
        r \<leftarrow> pci_read hw l cap;
        (if r AND 0xFF = 0x05 then do {
           c \<leftarrow> pci_read hw l cap; pci_write hw l cap (c AND NOT 0x00010000) }
         else if r AND 0xFF = 0x11 then do {
           c \<leftarrow> pci_read hw l cap; pci_write hw l cap (c AND NOT 0x80000000) }
         else skip);
        xhci_mute n hw l (ucast (drop_bit 8 r))
      })"

definition adopt_xhci :: "'d hw \<Rightarrow> loc \<Rightarrow> (('d, 'z) pci_scheme, unit) state" where
  "adopt_xhci hw l = do {
     p1 \<leftarrow> pci_read hw l 0x34;
     xhci_wake 10 hw l (ucast p1);
     cfg_or hw l 0x0406;
     p2 \<leftarrow> pci_read hw l 0x34;
     xhci_mute 10 hw l (ucast p2);
     bar0 \<leftarrow> pci_read hw l 0x10;
     bar1 \<leftarrow> pci_read hw l 0x14;
     let clean_bar0 = bar0 AND 0xFFFFFFF0;
     when_m (clean_bar0 \<noteq> 0) (do {
       n \<leftarrow> gets xhci_discovery_count;
       ok \<leftarrow> init_xhci_probe hw clean_bar0 n;
       when_m ok (modify (\<lambda>s. s\<lparr>usb_bar0 := clean_bar0\<rparr>)) })
   }"

definition scan_usb :: "'d hw \<Rightarrow> loc \<Rightarrow> u16 \<Rightarrow> u32 \<Rightarrow> (('d, 'z) pci_scheme, unit) state" where
  "scan_usb hw l vendor prog_if = do {
     modify (\<lambda>s. s\<lparr>is_usb_found := True, usb_detected := True\<rparr>);
     when_m (prog_if = 0x30) (do {
       modify (\<lambda>s. s\<lparr>xhci_discovery_count := xhci_discovery_count s + 1\<rparr>);
       when_m (vendor = 0x8086) (adopt_xhci hw l) })
   }"

definition scan_storage :: "u16 \<Rightarrow> u16 \<Rightarrow> (('d, 'z) pci_scheme, unit) state" where
  "scan_storage vendor device = do {
     n \<leftarrow> gets (\<lambda>s. length (storage_list s));
     when_m (n < 4) (modify (\<lambda>s. s\<lparr>storage_list := storage_list s @ [''DRV: '' @ card_name vendor device]\<rparr>))
   }"

definition scan_sound :: "'d hw \<Rightarrow> loc \<Rightarrow> (('d, 'z) pci_scheme, unit) state" where
  "scan_sound hw l = do {
     mixer \<leftarrow> pci_read hw l 0x10;
     bus \<leftarrow> pci_read hw l 0x14;
     modify (\<lambda>s. s\<lparr>ac97_mixer_port := ucast (mixer AND 0xFFFFFFFE), ac97_bus_port := ucast (bus AND 0xFFFFFFFE)\<rparr>);
     cfg_or hw l 5
   }"

definition scan_function :: "'d hw \<Rightarrow> loc \<Rightarrow> (('d, 'z) pci_scheme, unit) state" where
  "scan_function hw l = do {
     ident \<leftarrow> pci_read hw l 0;
     when_m (ident AND 0xFFFF \<noteq> 0xFFFF) (do {
       cr \<leftarrow> pci_read hw l 8;
       let cls = class_of cr;
       let sub = subclass_of cr;
       let vendor = ucast ident;
       let device = ucast (drop_bit 16 ident);
       when_m (cls = 3) (scan_gpu vendor device);
       when_m (cls = 2) (scan_nic hw l vendor device);
       when_m (cls = 1 \<and> sub = 6) (scan_ahci hw l);
       when_m (cls = 0x0C \<and> sub = 3) (scan_usb hw l vendor (prog_if_of cr));
       when_m (cls = 1) (scan_storage vendor device);
       when_m (cls = 4 \<and> sub = 1) (scan_sound hw l);
       when_m (vendor = 0x046D) (modify (\<lambda>s. s\<lparr>logitech_found := True, webcam_model := ''LOGITECH C270''\<rparr>)) })
   }"

definition pci_scan_all :: "nat \<Rightarrow> 'd hw \<Rightarrow> net_layout \<Rightarrow> (('d, 'z) pci_scheme, unit) state" where
  "pci_scan_all fuel hw N = do {
     modify (\<lambda>s. s\<lparr>found_nics := [], storage_list := [], gpu_list := []\<rparr>);
     for_m (pci_locs 8) (scan_function hw);
     nics \<leftarrow> gets found_nics;
     if nics \<noteq> [] then do {
       modify (\<lambda>s. s\<lparr>active_nic_idx := -1\<rparr>);
       nic_select_next fuel hw N }
     else modify (\<lambda>s. s\<lparr>hw_net := ''NO NIC FOUND''\<rparr>)
   }"

text \<open>\<open>init_builtin_device_tree\<close>, kernel.cpp:1452\<close>

definition builtin_tree :: "oracle_entry list" where
  "builtin_tree =
     [\<lparr>or_type = ''AHCI'', or_vendor = 0x8086, or_device = 0x1C02, or_bar = 0xFB425000\<rparr>,
      \<lparr>or_type = ''GPU'', or_vendor = 0x10DE, or_device = 0x1D01, or_bar = 0xC0000000\<rparr>,
      \<lparr>or_type = ''AHCI'', or_vendor = 0x8086, or_device = 0xA102, or_bar = 0xF7124000\<rparr>,
      \<lparr>or_type = ''GPU'', or_vendor = 0x10DE, or_device = 0x1C03, or_bar = 0xE0000000\<rparr>,
      \<lparr>or_type = ''AHCI'', or_vendor = 0x8086, or_device = 0x2929, or_bar = 0xFED1C800\<rparr>,
      \<lparr>or_type = ''GPU'', or_vendor = 0x10DE, or_device = 0x06EB, or_bar = 0xE0000000\<rparr>,
      \<lparr>or_type = ''AHCI'', or_vendor = 0x8086, or_device = 0x2922, or_bar = 0xFEBB1000\<rparr>,
      \<lparr>or_type = ''NET'', or_vendor = 0x8086, or_device = 0x100E, or_bar = 0\<rparr>]"

definition init_builtin_device_tree :: "(('d, 'z) pci_scheme, unit) state" where
  "init_builtin_device_tree = do {
     modify (\<lambda>s. s\<lparr>oracle_db := builtin_tree\<rparr>);
     set_status ''ORACLE UPDATED WITH REAL ADDR''
   }"

subsection \<open>Properties\<close>

lemma touches_pci [hw_only]:
  "touches_hw (pci_read hw l off)" "touches_hw (pci_write hw l off v)" "touches_hw (cfg_or hw l v)"
  unfolding pci_read_def pci_write_def cfg_or_def by (intro hw_only)+

lemma touches_caps [hw_only]: "touches_hw (xhci_wake n hw l cap)" "touches_hw (xhci_mute n hw l cap)"
  by (induction n arbitrary: cap) (auto intro!: hw_only)

definition tables_fit :: "('d, 'z) pci_scheme \<Rightarrow> bool" where
  "tables_fit s \<longleftrightarrow> length (found_nics s) \<le> 5 \<and> length (storage_list s) \<le> 4 \<and> length (gpu_list s) \<le> 2"

lemma tables_fit_hw [simp]: "tables_fit (s\<lparr>ram := m, dev := d\<rparr>) = tables_fit s"
  by (simp add: tables_fit_def)

lemma fit_probe: "preserves tables_fit (init_xhci_probe hw bar0 n)"
  unfolding init_xhci_probe_def
  by (intro preserving; (rule preserves_hw, intro hw_only)?; simp add: tables_fit_def)

lemma fit_adopt: "preserves tables_fit (adopt_xhci hw l)"
  unfolding adopt_xhci_def
  by (intro preserving fit_probe; (rule preserves_hw, intro hw_only)?; simp add: tables_fit_def)

lemma fit_gpu: "preserves tables_fit (scan_gpu vendor device)"
  by (auto simp: preserves_def scan_gpu_def tables_fit_def)

lemma fit_storage: "preserves tables_fit (scan_storage vendor device)"
  by (auto simp: preserves_def scan_storage_def tables_fit_def)

lemma fit_guarded:
  "preserves tables_fit (do { n \<leftarrow> gets (\<lambda>s. length (found_nics s));
     when_m (n < 5) (modify (\<lambda>s. s\<lparr>hw_net := t, found_nics := found_nics s @ [c]\<rparr>)) })"
  by (auto simp: preserves_def tables_fit_def)

lemma fit_scans:
  "preserves tables_fit (scan_nic hw l vendor device)" "preserves tables_fit (scan_ahci hw l)"
  "preserves tables_fit (scan_usb hw l vendor p)" "preserves tables_fit (scan_sound hw l)"
  unfolding scan_nic_def scan_ahci_def scan_usb_def scan_sound_def
     apply (intro fit_guarded preserving; (rule preserves_hw, intro hw_only)?; simp add: tables_fit_def)
    apply (intro preserving; (rule preserves_hw, intro hw_only)?; simp add: tables_fit_def)
   apply (intro preserving fit_adopt; simp add: tables_fit_def)
  apply (intro preserving; (rule preserves_hw, intro hw_only)?; simp add: tables_fit_def)
  done

lemma fit_function: "preserves tables_fit (scan_function hw l)"
  unfolding scan_function_def
  by (intro preserving fit_scans fit_gpu fit_storage; (rule preserves_hw, intro hw_only)?; simp add: tables_fit_def)

text \<open>Booting a card leaves the inventory alone.\<close>

definition inventory_is :: "nic list \<times> string list \<times> string list \<times> int \<Rightarrow> ('d, 'z) pci_scheme \<Rightarrow> bool" where
  "inventory_is x s \<longleftrightarrow> (found_nics s, storage_list s, gpu_list s, active_nic_idx s) = x"

lemma boot_intel: "preserves (inventory_is x) (intel_e1000_init hw N a)"
  unfolding intel_e1000_init_def e1000_enable_rx_def e1000_enable_tx_def set_status_def
  by (intro preserving; (rule preserves_hw, intro hw_only)?; simp add: inventory_is_def)

lemma boot_rtl: "preserves (inventory_is x) (rtl8139_init fuel hw N a)"
  unfolding rtl8139_init_def rtl_enable_rx_def set_status_def
  by (intro preserving; (rule preserves_hw, intro hw_only)?; simp add: inventory_is_def)

lemma boot_uhci: "preserves (inventory_is x) (uhci_init hw a)"
  unfolding uhci_init_def set_status_def
  by (intro preserving; (rule preserves_hw, intro hw_only)?; simp add: inventory_is_def)

lemma boot_keeps: "preserves (inventory_is x) (nic_boot fuel hw N c)"
  unfolding nic_boot_def set_status_def
  by (intro preserving boot_intel boot_rtl boot_uhci; simp add: inventory_is_def)

lemma fit_all: "preserves tables_fit (for_m ls (scan_function hw))"
  by (intro preserving fit_function)

text \<open>
  Property C31. The inventory never overflows its tables and ends with a usable choice: for every
  machine, the scan of all functions leaves at most five network cards, four drives and two
  graphics cards in the tables, and when there is a card, the active one is the first.
\<close>

theorem pci_scan_inventory:
  fixes s :: "('d, 'z) pci_scheme"
  shows "let s' = snd (run_state (pci_scan_all fuel hw N) s) in
    tables_fit s' \<and> (found_nics s' = [] \<or> active_nic_idx s' = 0)"
proof -
  let ?s0 = "s\<lparr>found_nics := [], storage_list := [], gpu_list := []\<rparr>"
  obtain s1 where 1: "run_state (for_m (pci_locs 8) (scan_function hw)) ?s0 = ((), s1)" by (rule run_unitE)
  have f1: "tables_fit s1"
    using preservesD [OF fit_all, of ?s0 "pci_locs 8" hw] 1 by (simp add: tables_fit_def)
  show ?thesis
  proof (cases "found_nics s1 = []")
    case True
    then show ?thesis using 1 f1 by (simp add: pci_scan_all_def tables_fit_def Let_def)
  next
    case False
    let ?s2 = "s1\<lparr>active_nic_idx := 0\<rparr>"
    define x where "x = (found_nics s1, storage_list s1, gpu_list s1, 0 :: int)"
    obtain s3 where 3: "run_state (nic_boot fuel hw N (found_nics s1 ! 0)) ?s2 = ((), s3)" by (rule run_unitE)
    have "inventory_is x s3"
      using preservesD [OF boot_keeps, of x ?s2 fuel hw N "found_nics s1 ! 0"] 3 by (simp add: inventory_is_def x_def)
    moreover have "run_state (pci_scan_all fuel hw N) s = ((), s3)"
      using 1 3 False by (simp add: pci_scan_all_def nic_select_next_def)
    ultimately show ?thesis
      using f1 by (simp add: inventory_is_def x_def tables_fit_def Let_def)
  qed
qed

text \<open>
  Property C0. The searches that walk 28 functions per device do not see more hardware: the
  function number spills into the device field of the address, so function \<open>f\<close> of device \<open>d\<close>
  is function \<open>f mod 8\<close> of device \<open>d OR f div 8\<close>, and controllers are read several times.
\<close>

theorem function_spill:
  "pci_cfg_addr (b, d, f) off = pci_cfg_addr (b, d OR f div 8, f mod 8) off"
proof -
  have "word_of_nat f = (push_bit 3 (word_of_nat (f div 8)) OR word_of_nat (f mod 8) :: u32)"
    by (rule bit_word_eqI)
      (auto simp: bit_simps bit_push_bit_iff_nat drop_bit_eq_div [of 3, simplified, symmetric]
         take_bit_eq_mod [of 3, simplified, symmetric])
  moreover have "word_of_nat (d OR f div 8) = (word_of_nat d OR word_of_nat (f div 8) :: u32)"
    by (rule bit_word_eqI) (auto simp: bit_simps)
  ultimately show ?thesis
    by (simp add: pci_cfg_addr_def push_bit_or or.assoc or.left_commute)
qed

end
