(* ===== verification/Os2_Tasks.thy ===== *)
theory Os2_Tasks
  imports Xhci Idt Ring_Cursor
begin

text \<open>
  Interrupts and the scheduler of the second kernel (\<open>kernel_main.cpp\<close>): the timer interrupt
  saves the registers of the task that runs on its own stack, \<open>schedule\<close> stores that stack
  pointer and hands out the next one, and the registers found there are loaded. A new task is
  a frame of registers written by hand.
\<close>

subsection \<open>State\<close>

text \<open>
  \<open>Task\<close> (without its \<open>stack\<close> member, which no code reads or writes), the globals of the
  scheduler, the interrupt flag of the processor and what \<open>keyboard_isr\<close> leaves behind.
\<close>

record task =
  task_rsp :: u64
  task_active :: bool

record 'd os2 = "'d xhci" +
  os2_idt :: "idt_entry list"
  system_ticks :: u64
  task_quantum :: int
  tasks :: "task list"
  current_task :: nat
  num_tasks :: nat
  os2_irqs :: bool
  key_scancode :: u8
  key_ready :: bool

definition max_tasks :: nat where "max_tasks = 4"

text \<open>\<open>InterruptFrame\<close>, in the order of memory.\<close>

record interrupt_frame =
  fr_r15 :: u64
  fr_r14 :: u64
  fr_r13 :: u64
  fr_r12 :: u64
  fr_r11 :: u64
  fr_r10 :: u64
  fr_r9 :: u64
  fr_r8 :: u64
  fr_rdi :: u64
  fr_rsi :: u64
  fr_rbp :: u64
  fr_rbx :: u64
  fr_rdx :: u64
  fr_rcx :: u64
  fr_rax :: u64
  fr_rip :: u64
  fr_cs :: u64
  fr_rflags :: u64
  fr_rsp :: u64
  fr_ss :: u64

definition frame_bytes :: nat where "frame_bytes = 160"

text \<open>The words the processor pushes when it takes the interrupt, and those the routine pushes, in push order.\<close>

definition iret_words :: "interrupt_frame \<Rightarrow> u64 list" where
  "iret_words r = [fr_ss r, fr_rsp r, fr_rflags r, fr_cs r, fr_rip r]"

definition gpr_words :: "interrupt_frame \<Rightarrow> u64 list" where
  "gpr_words r = [fr_rax r, fr_rcx r, fr_rdx r, fr_rbx r, fr_rbp r, fr_rsi r, fr_rdi r,
     fr_r8 r, fr_r9 r, fr_r10 r, fr_r11 r, fr_r12 r, fr_r13 r, fr_r14 r, fr_r15 r]"

definition push :: "u64 \<Rightarrow> nat \<times> mem \<Rightarrow> nat \<times> mem" where
  "push v = (\<lambda>(sp, m). (sp - 8, wr64 (sp - 8) v m))"

fun pops :: "nat \<Rightarrow> nat \<Rightarrow> mem \<Rightarrow> u64 list" where
  "pops 0 sp m = []"
| "pops (Suc n) sp m = rd64 m sp # pops n (sp + 8) m"

text \<open>The registers after the fifteen \<open>popq\<close> and the \<open>iretq\<close>.\<close>

definition frame_at :: "mem \<Rightarrow> nat \<Rightarrow> interrupt_frame" where
  "frame_at m sp = (let ws = pops 20 sp m in
     \<lparr>fr_r15 = ws ! 0, fr_r14 = ws ! 1, fr_r13 = ws ! 2, fr_r12 = ws ! 3, fr_r11 = ws ! 4, fr_r10 = ws ! 5,
      fr_r9 = ws ! 6, fr_r8 = ws ! 7, fr_rdi = ws ! 8, fr_rsi = ws ! 9, fr_rbp = ws ! 10, fr_rbx = ws ! 11,
      fr_rdx = ws ! 12, fr_rcx = ws ! 13, fr_rax = ws ! 14, fr_rip = ws ! 15, fr_cs = ws ! 16,
      fr_rflags = ws ! 17, fr_rsp = ws ! 18, fr_ss = ws ! 19\<rparr>)"

subsection \<open>Operations\<close>

definition cli :: "(('d, 'z) os2_scheme, unit) state" where
  "cli = modify (\<lambda>s. s\<lparr>os2_irqs := False\<rparr>)"

definition sti :: "(('d, 'z) os2_scheme, unit) state" where
  "sti = modify (\<lambda>s. s\<lparr>os2_irqs := True\<rparr>)"

text \<open>\<open>yield\<close>; the \<open>hlt\<close> at its end gives the processor to the next interrupt.\<close>

definition yield :: "(('d, 'z) os2_scheme, unit) state" where
  "yield = do { modify (\<lambda>s. s\<lparr>task_quantum := 15\<rparr>); sti }"

text \<open>\<open>stack_base = 0x01200000 + id * 0x100000\<close>, its low four bits cleared.\<close>

definition stack_base :: "nat \<Rightarrow> nat" where
  "stack_base i = unat ((word_of_nat (0x01200000 + i * 0x100000) :: u64) AND NOT 0xF)"

text \<open>The frame of a new task; \<open>cs\<close> and \<open>ss\<close> are the segments in use.\<close>

definition put_new_frame :: "u64 \<Rightarrow> u64 \<Rightarrow> u64 \<Rightarrow> nat \<Rightarrow> mem \<Rightarrow> mem" where
  "put_new_frame cs ss entry base m = (let f = base - frame_bytes;
     m = zero_fill f frame_bytes m;
     m = wr64 (f + 120) entry m;
     m = wr64 (f + 128) cs m;
     m = wr64 (f + 152) ss m;
     m = wr64 (f + 136) 0x0202 m
   in wr64 (f + 144) (word_of_nat (base - 8)) m)"

definition create_task :: "u64 \<Rightarrow> u64 \<Rightarrow> u64 \<Rightarrow> (('d, 'z) os2_scheme, unit) state" where
  "create_task cs ss entry_point = do {
     cli;
     n \<leftarrow> gets num_tasks;
     if n \<ge> max_tasks then sti
     else do {
       let base = stack_base n;
       poke (put_new_frame cs ss entry_point base);
       modify (\<lambda>s. s\<lparr>tasks := (tasks s)[n := \<lparr>task_rsp = word_of_nat (base - frame_bytes), task_active = True\<rparr>],
         num_tasks := n + 1\<rparr>);
       sti
     }
   }"

definition schedule :: "u64 \<Rightarrow> (('d, 'z) os2_scheme, u64) state" where
  "schedule old_rsp = do {
     modify (\<lambda>s. s\<lparr>system_ticks := system_ticks s + 1\<rparr>);
     modify (\<lambda>s. s\<lparr>tasks := (tasks s)[current_task s := (tasks s ! current_task s)\<lparr>task_rsp := old_rsp\<rparr>]\<rparr>);
     modify (\<lambda>s. s\<lparr>current_task := current_task s + 1\<rparr>);
     wrap \<leftarrow> gets (\<lambda>s. current_task s \<ge> num_tasks s \<or> \<not> task_active (tasks s ! current_task s));
     when_m wrap (modify (\<lambda>s. s\<lparr>current_task := 0\<rparr>));
     gets (\<lambda>s. task_rsp (tasks s ! current_task s))
   }"

text \<open>
  \<open>pit_isr\<close> as the interrupted program sees it: the processor aligns its stack pointer and
  pushes five words, the routine pushes the other registers, acknowledges the interrupt,
  switches stacks in \<open>schedule\<close> and returns with what it pops.
\<close>

definition isr_entry :: "interrupt_frame \<Rightarrow> mem \<Rightarrow> nat \<times> mem" where
  "isr_entry r m = fold push (iret_words r @ gpr_words r) (unat (fr_rsp r AND NOT 0xF), m)"

definition pit_isr :: "'d hw \<Rightarrow> interrupt_frame \<Rightarrow> (('d, 'z) os2_scheme, interrupt_frame) state" where
  "pit_isr hw r = do {
     sp \<leftarrow> peek (\<lambda>m. fst (isr_entry r m));
     poke (\<lambda>m. snd (isr_entry r m));
     outb hw 0x20 0x20;
     new_rsp \<leftarrow> schedule (word_of_nat sp);
     peek (\<lambda>m. frame_at m (unat new_rsp))
   }"

definition set_idt_gate :: "nat \<Rightarrow> u64 \<Rightarrow> u8 \<Rightarrow> (('d, 'z) os2_scheme, unit) state" where
  "set_idt_gate n handler flags = modify (\<lambda>s. s\<lparr>os2_idt := (os2_idt s)[n :=
     \<lparr>offset_low = ucast (handler AND 0xFFFF), selector = 0x08, ist = 0, types_attr = flags,
      offset_mid = ucast (drop_bit 16 handler AND 0xFFFF),
      offset_high = ucast (drop_bit 32 handler AND 0xFFFFFFFF), idt_zero = 0\<rparr>]\<rparr>)"

definition remap_pic_words :: "(u16 \<times> u8) list" where
  "remap_pic_words = [(0x20, 0x11), (0xA0, 0x11), (0x21, 0x20), (0xA1, 0x28), (0x21, 0x04), (0xA1, 0x02),
     (0x21, 0x01), (0xA1, 0x01), (0x21, 0xFE), (0xA1, 0xFF)]"

definition remap_pic :: "'d hw \<Rightarrow> ('d, 'z, unit) op" where
  "remap_pic hw = for_m remap_pic_words (\<lambda>(p, v). outb hw p v)"

definition init_pit :: "'d hw \<Rightarrow> u32 \<Rightarrow> ('d, 'z, unit) op" where
  "init_pit hw frequency = do {
     let divisor = 1193180 div frequency;
     outb hw 0x43 0x36;
     outb hw 0x40 (ucast (divisor AND 0xFF));
     outb hw 0x40 (ucast (drop_bit 8 divisor AND 0xFF))
   }"

definition dummy_isr :: "'d hw \<Rightarrow> ('d, 'z, unit) op" where
  "dummy_isr hw = outb hw 0x20 0x20"

definition keyboard_isr :: "'d hw \<Rightarrow> (('d, 'z) os2_scheme, unit) state" where
  "keyboard_isr hw = do {
     k \<leftarrow> inb hw 0x60;
     modify (\<lambda>s. s\<lparr>key_scancode := k, key_ready := True\<rparr>);
     outb hw 0x20 0x20
   }"

text \<open>The handlers' addresses, and the section of \<open>main\<close> that starts interrupts and tasks.\<close>

record os2_handlers =
  at_dummy :: u64
  at_pit :: u64
  at_keyboard :: u64
  at_syscall :: u64
  at_test_task :: u64

definition os2_gates :: "os2_handlers \<Rightarrow> (nat \<times> u64 \<times> u8) list" where
  "os2_gates h = map (\<lambda>i. (i, 0, 0x8E)) [0..<256] @ map (\<lambda>i. (i, at_dummy h, 0x8E)) [0..<32]
     @ [(32, at_pit h, 0x8E), (33, at_keyboard h, 0x8E), (0x80, at_syscall h, 0xEE), (39, at_dummy h, 0x8E)]"

definition start_interrupts :: "'d hw \<Rightarrow> u64 \<Rightarrow> u64 \<Rightarrow> os2_handlers \<Rightarrow> (('d, 'z) os2_scheme, unit) state" where
  "start_interrupts hw cs ss h = do {
     for_m (os2_gates h) (\<lambda>(n, a, f). set_idt_gate n a f);
     remap_pic hw;
     init_pit hw 1000;
     modify (\<lambda>s. s\<lparr>tasks := (tasks s)[0 := (tasks s ! 0)\<lparr>task_active := True\<rparr>]\<rparr>);
     create_task cs ss (at_test_task h);
     sti
   }"

text \<open>The application linked into the kernel, and the loader that starts it as a task.\<close>

definition app_bin :: "u8 list" where
  "app_bin = [
     0xf3, 0x0f, 0x1e, 0xfa, 0xb8, 0x04, 0x00, 0x00, 0x00, 0xcd, 0x80, 0x48, 0x85, 0xc0, 0x0f, 0x84,
     0x0c, 0x01, 0x00, 0x00, 0x41, 0x57, 0x49, 0x89, 0xc3, 0x41, 0xba, 0x01, 0x00, 0x00, 0x00, 0xbe,
     0x05, 0x00, 0x00, 0x00, 0x41, 0x56, 0x41, 0xb9, 0x05, 0x00, 0x00, 0x00, 0x45, 0x31, 0xf6, 0x48,
     0x8d, 0x88, 0x10, 0x27, 0x00, 0x00, 0x41, 0x55, 0x49, 0xc7, 0xc7, 0xfe, 0xff, 0xff, 0xff, 0x41,
     0x54, 0x55, 0xbd, 0x01, 0x00, 0x00, 0x00, 0x53, 0x48, 0x89, 0xea, 0x48, 0x83, 0xec, 0x20, 0x90,
     0x48, 0x89, 0xcf, 0x4c, 0x89, 0xd8, 0x4c, 0x29, 0xdf, 0x83, 0xe7, 0x04, 0x74, 0x12, 0x49, 0x8d,
     0x43, 0x04, 0x41, 0xc7, 0x03, 0x00, 0x00, 0x00, 0x00, 0x48, 0x39, 0xc8, 0x74, 0x18, 0x66, 0x90,
     0xc7, 0x00, 0x00, 0x00, 0x00, 0x00, 0x48, 0x83, 0xc0, 0x08, 0xc7, 0x40, 0xfc, 0x00, 0x00, 0x00,
     0x00, 0x48, 0x39, 0xc8, 0x75, 0xea, 0x45, 0x6b, 0xe1, 0x32, 0x48, 0x89, 0x34, 0x24, 0x89, 0xf7,
     0x44, 0x89, 0xcd, 0x4c, 0x89, 0x4c, 0x24, 0x08, 0x44, 0x8d, 0x6e, 0x04, 0x45, 0x8d, 0x41, 0x04,
     0x83, 0xff, 0x31, 0x42, 0x8d, 0x34, 0x27, 0x89, 0xe8, 0x41, 0x0f, 0x96, 0xc1, 0x83, 0xf8, 0x31,
     0x77, 0x12, 0x45, 0x84, 0xc9, 0x74, 0x0d, 0x48, 0x63, 0xde, 0x49, 0x8d, 0x1c, 0x9b, 0xc7, 0x03,
     0x00, 0xff, 0x00, 0x00, 0x83, 0xc0, 0x01, 0x83, 0xc6, 0x32, 0x44, 0x39, 0xc0, 0x75, 0xde, 0x83,
     0xc7, 0x01, 0x44, 0x39, 0xef, 0x75, 0xc9, 0x48, 0x8b, 0x34, 0x24, 0x4c, 0x8b, 0x4c, 0x24, 0x08,
     0x4c, 0x01, 0xd6, 0x49, 0x01, 0xd1, 0x48, 0x85, 0xf6, 0x7e, 0x5a, 0x48, 0x83, 0xfe, 0x2e, 0x4d,
     0x0f, 0x4d, 0xd7, 0x4d, 0x85, 0xc9, 0x7e, 0x46, 0x49, 0x83, 0xf9, 0x2e, 0x49, 0x0f, 0x4d, 0xd7,
     0xc7, 0x44, 0x24, 0x1c, 0x00, 0x00, 0x00, 0x00, 0x8b, 0x44, 0x24, 0x1c, 0x3d, 0x4f, 0xc3, 0x00,
     0x00, 0x7e, 0x11, 0x4c, 0x89, 0xf0, 0xcd, 0x80, 0xe9, 0x33, 0xff, 0xff, 0xff, 0x0f, 0x1f, 0x00,
     0xf3, 0x90, 0xeb, 0xfc, 0xf3, 0x90, 0x8b, 0x44, 0x24, 0x1c, 0x83, 0xc0, 0x01, 0x89, 0x44, 0x24,
     0x1c, 0x8b, 0x44, 0x24, 0x1c, 0x3d, 0x4f, 0xc3, 0x00, 0x00, 0x7e, 0xe8, 0xeb, 0xd5, 0xba, 0x02,
     0x00, 0x00, 0x00, 0xeb, 0xbb, 0x41, 0xba, 0x02, 0x00, 0x00, 0x00, 0xeb, 0xa6]"

definition app_ram :: nat where "app_ram = 0x01100000"

definition load_and_run_bin :: "u64 \<Rightarrow> u64 \<Rightarrow> u32 \<Rightarrow> u32 \<Rightarrow> (('d, 'z) os2_scheme, bool) state" where
  "load_and_run_bin cs ss start_lba sector_count = do {
     n \<leftarrow> gets num_tasks;
     if n \<ge> max_tasks then State_Monad.return False
     else do {
       poke (zero_fill app_ram 65536);
       poke (wr_bytes app_ram app_bin);
       set_status ''FLUMMI LOADED FROM RAM!'';
       create_task cs ss (word_of_nat app_ram);
       State_Monad.return True
     }
   }"

text \<open>\<open>sleep_ms\<close>: one element of the list per interrupt that ends a \<open>hlt\<close>, with the ticks counted by then.\<close>

definition target_ticks :: "u64 \<Rightarrow> u32 \<Rightarrow> u64" where
  "target_ticks now ms = now + ucast ms"

fun sleep_loop :: "u64 \<Rightarrow> u64 list \<Rightarrow> u64 list option" where
  "sleep_loop target [] = None"
| "sleep_loop target (t # ts) = (if t < target then sleep_loop target ts else Some ts)"

definition sleep_ms :: "u32 \<Rightarrow> u64 list \<Rightarrow> u64 list option" where
  "sleep_ms ms ticks = (case ticks of [] \<Rightarrow> None | now # _ \<Rightarrow> sleep_loop (target_ticks now ms) ticks)"

subsection \<open>The invariant\<close>

text \<open>Between one and four tasks, all of them ready to run, and one of them running.\<close>

definition sched_ok :: "('d, 'z) os2_scheme \<Rightarrow> bool" where
  "sched_ok s \<longleftrightarrow> length (tasks s) = max_tasks \<and> 1 \<le> num_tasks s \<and> num_tasks s \<le> max_tasks
     \<and> current_task s < num_tasks s \<and> (\<forall>i < num_tasks s. task_active (tasks s ! i))"

lemma sched_okD:
  assumes "sched_ok s"
  shows "length (tasks s) = 4" "1 \<le> num_tasks s" "num_tasks s \<le> 4" "current_task s < num_tasks s"
    "current_task s < length (tasks s)" "\<And>i. i < num_tasks s \<Longrightarrow> task_active (tasks s ! i)"
  using assms by (auto simp: sched_ok_def max_tasks_def)

lemma sched_ok_hw: "sched_ok s \<Longrightarrow> sched_ok (s\<lparr>ram := m, dev := d\<rparr>)"
  by (simp add: sched_ok_def)

text \<open>What \<open>schedule\<close> comes to when the invariant holds.\<close>

definition next_task :: "('d, 'z) os2_scheme \<Rightarrow> nat" where
  "next_task s = (current_task s + 1) mod num_tasks s"

lemma schedule_run:
  assumes "sched_ok s"
  shows "run_state (schedule r) s =
    (let ts = (tasks s)[current_task s := (tasks s ! current_task s)\<lparr>task_rsp := r\<rparr>] in
     (task_rsp (ts ! next_task s),
      s\<lparr>system_ticks := system_ticks s + 1, tasks := ts, current_task := next_task s\<rparr>))"
proof -
  note ok = sched_okD [OF assms]
  have "current_task s + 1 < num_tasks s \<Longrightarrow> task_active (tasks s ! (current_task s + 1))"
    using ok(6) by simp
  then show ?thesis
    using ok(2,4) by (auto simp: schedule_def next_task_def Let_def mod_Suc nth_list_update)
qed

lemma next_task_less: "sched_ok s \<Longrightarrow> next_task s < num_tasks s"
  using sched_okD(2) by (fastforce simp: next_task_def)

lemma schedule_keeps [preserving]: "preserves sched_ok (schedule r)"
  unfolding preserves_def
proof (intro allI impI)
  fix s :: "('a, 'b) os2_scheme"
  assume ok: "sched_ok s"
  then show "sched_ok (snd (run_state (schedule r) s))"
    using next_task_less [OF ok] sched_okD [OF ok]
    by (auto simp: schedule_run [OF ok] Let_def sched_ok_def max_tasks_def nth_list_update)
qed

lemma create_task_keeps [preserving]: "preserves sched_ok (create_task cs ss e)"
  by (auto simp: preserves_def create_task_def cli_def sti_def sched_ok_def max_tasks_def Let_def
      nth_list_update less_Suc_eq)

lemma yield_keeps [preserving]: "preserves sched_ok yield"
  by (auto simp: preserves_def yield_def sti_def sched_ok_def)

lemma pit_isr_keeps [preserving]: "preserves sched_ok (pit_isr hw r)"
  unfolding pit_isr_def
  by (intro preserving preserves_hw [of "peek f" for f] preserves_hw [of "poke f" for f] preserves_hw [of "outb hw p v" for p v]
      hw_only sched_ok_hw)

subsection \<open>Round robin\<close>

text \<open>
  The reference: a queue of saved stack pointers, the running task in front. A tick stores
  the pointer of the task in front and moves it to the end of the queue.
\<close>

definition ready :: "('d, 'z) os2_scheme \<Rightarrow> u64 list" where
  "ready s = rotate (current_task s) (map task_rsp (take (num_tasks s) (tasks s)))"

definition queue_tick :: "u64 \<Rightarrow> u64 list \<Rightarrow> u64 list" where
  "queue_tick r q = tl q @ [r]"

lemma length_ready: "sched_ok s \<Longrightarrow> length (ready s) = num_tasks s"
  by (auto simp: ready_def sched_ok_def)

lemma ready_nth:
  "sched_ok s \<Longrightarrow> i < num_tasks s \<Longrightarrow> ready s ! i = task_rsp (tasks s ! ((current_task s + i) mod num_tasks s))"
  by (auto simp: ready_def sched_ok_def nth_rotate)

lemma ready_schedule:
  assumes ok: "sched_ok s"
  shows "ready (snd (run_state (schedule r) s)) = queue_tick r (ready s)"
proof (rule nth_equalityI)
  let ?s = "snd (run_state (schedule r) s)"
  have ok': "sched_ok ?s" using preservesD [OF schedule_keeps ok] .
  have n: "num_tasks ?s = num_tasks s" by (simp add: schedule_run [OF ok] Let_def)
  note b = sched_okD [OF ok]
  show len: "length (ready ?s) = length (queue_tick r (ready s))"
    using b(2) by (simp add: length_ready [OF ok] length_ready [OF ok'] n queue_tick_def)
  fix i
  assume "i < length (ready ?s)"
  then have i: "i < num_tasks s" by (simp add: length_ready [OF ok'] n)
  let ?j = "(current_task s + Suc i) mod num_tasks s"
  have "ready ?s ! i = task_rsp (tasks ?s ! ?j)"
    using ready_nth [OF ok', unfolded n, OF i] by (simp add: schedule_run [OF ok] Let_def next_task_def mod_add_left_eq)
  also have "\<dots> = (if ?j = current_task s then r else task_rsp (tasks s ! ?j))"
    using b(5) by (auto simp: schedule_run [OF ok] Let_def nth_list_update)
  also have "?j = current_task s \<longleftrightarrow> Suc i = num_tasks s"
  proof -
    consider "current_task s + Suc i < num_tasks s"
      | "num_tasks s \<le> current_task s + Suc i" "current_task s + Suc i < 2 * num_tasks s"
      using i b(4) by linarith
    then show ?thesis
      by cases (use i b(4) in \<open>auto simp: le_mod_geq\<close>)
  qed
  finally show "ready ?s ! i = queue_tick r (ready s) ! i"
    using i ready_nth [OF ok, of "Suc i"] length_ready [OF ok] b(2)
    by (auto simp: queue_tick_def nth_append nth_tl less_diff_conv)
qed

lemma schedule_front: "sched_ok s \<Longrightarrow> fst (run_state (schedule r) s) = hd (queue_tick r (ready s))"
proof -
  assume ok: "sched_ok s"
  let ?s = "snd (run_state (schedule r) s)"
  have ok': "sched_ok ?s" using preservesD [OF schedule_keeps ok] .
  have "hd (ready ?s) = ready ?s ! 0" using length_ready [OF ok'] sched_okD(2) [OF ok'] by (intro hd_conv_nth) auto
  also have "\<dots> = task_rsp (tasks ?s ! current_task ?s)"
    using ready_nth [OF ok', of 0] sched_okD(2,4) [OF ok'] by simp
  finally show ?thesis by (simp add: ready_schedule [OF ok, symmetric]) (simp add: schedule_run [OF ok] Let_def)
qed

text \<open>The stack pointers handed out by a row of ticks, each given the pointer it interrupts.\<close>

fun ticks :: "u64 list \<Rightarrow> (('d, 'z) os2_scheme, u64 list) state" where
  "ticks [] = State_Monad.return []"
| "ticks (r # rs) = do { x \<leftarrow> schedule r; xs \<leftarrow> ticks rs; State_Monad.return (x # xs) }"

fun queue_ticks :: "u64 list \<Rightarrow> u64 list \<Rightarrow> u64 list" where
  "queue_ticks [] q = []"
| "queue_ticks (r # rs) q = hd (queue_tick r q) # queue_ticks rs (queue_tick r q)"

lemma ticks_queue: "sched_ok s \<Longrightarrow> fst (run_state (ticks rs) s) = queue_ticks rs (ready s)"
proof (induction rs arbitrary: s)
  case (Cons r rs)
  let ?s = "snd (run_state (schedule r) s)"
  have "fst (run_state (ticks (r # rs)) s) = fst (run_state (schedule r) s) # fst (run_state (ticks rs) ?s)"
    by (simp split: prod.splits)
  then show ?case
    using Cons.IH [OF preservesD [OF schedule_keeps Cons.prems]] Cons.prems
    by (simp add: schedule_front ready_schedule)
qed simp

lemma queue_ticks_sequence: "q \<noteq> [] \<Longrightarrow> queue_ticks rs q = take (length rs) (tl (q @ rs))"
proof (induction rs arbitrary: q)
  case (Cons r rs)
  then obtain x q' where q: "q = x # q'" by (cases q) auto
  then show ?case using Cons.IH [of "q' @ [r]"] by (cases q') (simp_all add: queue_tick_def)
qed simp

text \<open>The position in the task table is a ring cursor over the tasks.\<close>

interpretation round: ring_cursor "\<lambda>s. sched_ok s \<and> num_tasks s = n"
  "\<lambda>s. snd (run_state (schedule r) s)" current_task n for n r
proof unfold_locales
  fix s :: "('a, 'b) os2_scheme"
  assume s: "sched_ok s \<and> num_tasks s = n"
  then have "sched_ok (snd (run_state (schedule r) s))" by (blast intro: preservesD [OF schedule_keeps])
  moreover have "num_tasks (snd (run_state (schedule r) s)) = n" using s by (simp add: schedule_run Let_def)
  ultimately show "sched_ok (snd (run_state (schedule r) s)) \<and> num_tasks (snd (run_state (schedule r) s)) = n"
    by blast
  show "current_task s < n" using s sched_okD(4) by blast
  show "current_task (snd (run_state (schedule r) s)) = (current_task s + 1) mod n"
    using s by (simp add: schedule_run Let_def next_task_def)
qed

subsection \<open>Saving and loading registers\<close>

lemma push_pair: "push v (sp, m) = (sp - 8, wr64 (sp - 8) v m)"
  by (simp add: push_def)

lemma push_all:
  assumes "8 * length ws \<le> sp"
  shows "fst (fold push ws (sp, m)) = sp - 8 * length ws"
    and "pops (length ws) (sp - 8 * length ws) (snd (fold push ws (sp, m))) = rev ws"
    and "a < sp - 8 * length ws \<or> sp \<le> a \<Longrightarrow> snd (fold push ws (sp, m)) a = m a"
  using assms
proof (induction ws arbitrary: sp m rule: rev_induct)
  case Nil
  { case 1 then show ?case by simp next case 2 then show ?case by simp next case 3 then show ?case by simp }
next
  case (snoc w ws)
  { case 1
    obtain sp' m' where e: "fold push ws (sp, m) = (sp', m')" by fastforce
    from 1 show ?case using snoc(1) [of sp m] e by (simp add: push_pair)
  next
    case 2
    obtain sp' m' where e: "fold push ws (sp, m) = (sp', m')" by fastforce
    have sp': "sp' = sp - 8 * length ws" using snoc(1) [of sp m] 2 e by simp
    have "pops (length ws) sp' m' = rev ws" using snoc(2) [of sp m] 2 e sp' by simp
    moreover have "pops n a (wr64 (sp' - 8) w m') = pops n a m'" if "sp' \<le> a" for n a
      using that 2 sp'
    proof (induction n arbitrary: a)
      case (Suc n)
      then show ?case by (auto intro!: rd64_cong wr64_other)
    qed simp
    moreover have "sp - 8 * length (ws @ [w]) = sp' - 8" "sp' - 8 + 8 = sp'" using sp' 2 by auto
    ultimately show ?case using e by (simp add: push_pair del: length_append) simp
  next
    case 3
    obtain sp' m' where e: "fold push ws (sp, m) = (sp', m')" by fastforce
    have sp': "sp' = sp - 8 * length ws" using snoc(1) [of sp m] 3 e by simp
    have "m' a = m a" using snoc(3) [of sp m] 3 e by (simp, linarith)
    moreover have "wr64 (sp' - 8) w m' a = m' a" using 3 sp' by (intro wr64_other) auto
    ultimately show ?case using e by (simp add: push_pair)
  }
qed

definition saved_at :: "interrupt_frame \<Rightarrow> nat" where
  "saved_at r = unat (fr_rsp r AND NOT 0xF) - frame_bytes"

text \<open>There is room for the frame below the stack pointer.\<close>

definition has_stack :: "interrupt_frame \<Rightarrow> bool" where
  "has_stack r \<longleftrightarrow> frame_bytes \<le> unat (fr_rsp r AND NOT 0xF)"

lemma isr_entry_saves:
  assumes "has_stack r"
  shows "fst (isr_entry r m) = saved_at r"
    and "frame_at (snd (isr_entry r m)) (saved_at r) = r"
    and "a < saved_at r \<or> saved_at r + frame_bytes \<le> a \<Longrightarrow> snd (isr_entry r m) a = m a"
proof -
  let ?ws = "iret_words r @ gpr_words r" and ?sp = "unat (fr_rsp r AND NOT 0xF)"
  have len: "length ?ws = 20" by (simp add: iret_words_def gpr_words_def)
  have room: "8 * length ?ws \<le> ?sp" using assms unfolding len by (simp add: has_stack_def frame_bytes_def)
  have sub: "?sp - 8 * length ?ws = saved_at r" unfolding len by (simp add: saved_at_def frame_bytes_def)
  show "fst (isr_entry r m) = saved_at r" using push_all(1) [OF room] sub by (simp add: isr_entry_def)
  have "pops 20 (saved_at r) (snd (isr_entry r m)) = rev ?ws"
    using push_all(2) [OF room, of m, unfolded sub, unfolded len] by (simp only: isr_entry_def)
  then show "frame_at (snd (isr_entry r m)) (saved_at r) = r"
    by (simp add: frame_at_def iret_words_def gpr_words_def)
  show "a < saved_at r \<or> saved_at r + frame_bytes \<le> a \<Longrightarrow> snd (isr_entry r m) a = m a"
    using push_all(3) [OF room, of a m] assms
    unfolding sub isr_entry_def by (auto simp: saved_at_def has_stack_def frame_bytes_def)
qed

lemma pops_cong: "(\<And>i. a \<le> i \<Longrightarrow> i < a + 8 * n \<Longrightarrow> m i = m' i) \<Longrightarrow> pops n a m = pops n a m'"
proof (induction n arbitrary: a)
  case (Suc n)
  have "rd64 m a = rd64 m' a" using Suc.prems by (intro rd64_cong) simp
  moreover have "pops n (a + 8) m = pops n (a + 8) m'" using Suc.prems by (intro Suc.IH) simp
  ultimately show ?case by simp
qed simp

lemma frame_at_cong: "(\<And>i. a \<le> i \<Longrightarrow> i < a + frame_bytes \<Longrightarrow> m i = m' i) \<Longrightarrow> frame_at m a = frame_at m' a"
  using pops_cong [of a 20 m m'] by (simp add: frame_at_def frame_bytes_def)

subsection \<open>A row of context switches\<close>

text \<open>
  Timer interrupts in a row: before each, the running task has changed memory by some
  function, and it is interrupted with some registers. The result lists the registers each
  interrupt returned with.
\<close>

fun run_isrs :: "'d hw \<Rightarrow> (interrupt_frame \<times> (mem \<Rightarrow> mem)) list \<Rightarrow> (('d, 'z) os2_scheme, interrupt_frame list) state" where
  "run_isrs hw [] = State_Monad.return []"
| "run_isrs hw ((r, f) # ts) = do { poke f; x \<leftarrow> pit_isr hw r; xs \<leftarrow> run_isrs hw ts; State_Monad.return (x # xs) }"

lemma run_isrs_Cons:
  "fst (run_state (run_isrs hw ((r, f) # ts)) s) = fst (run_state (pit_isr hw r) (s\<lparr>ram := f (ram s)\<rparr>))
     # fst (run_state (run_isrs hw ts) (snd (run_state (pit_isr hw r) (s\<lparr>ram := f (ram s)\<rparr>))))"
  "snd (run_state (run_isrs hw ((r, f) # ts)) s)
     = snd (run_state (run_isrs hw ts) (snd (run_state (pit_isr hw r) (s\<lparr>ram := f (ram s)\<rparr>))))"
  by (simp_all split: prod.splits)

declare run_isrs.simps(2) [simp del]

text \<open>Acknowledging the interrupt at the controller leaves RAM alone.\<close>

definition quiet_ack :: "'d hw \<Rightarrow> bool" where
  "quiet_ack hw \<longleftrightarrow> (\<forall>m d. fst (hw_outb hw 0x20 0x20 (m, d)) = m)"

lemma pit_isr_run:
  assumes "sched_ok s" "has_stack r" "quiet_ack hw"
  shows "ram (snd (run_state (pit_isr hw r) s)) = snd (isr_entry r (ram s))"
    and "ready (snd (run_state (pit_isr hw r) s)) = queue_tick (word_of_nat (saved_at r)) (ready s)"
    and "fst (run_state (pit_isr hw r) s) = frame_at (snd (isr_entry r (ram s)))
      (unat (hd (queue_tick (word_of_nat (saved_at r)) (ready s))))"
proof -
  let ?m = "snd (isr_entry r (ram s))"
  let ?o = "hw_outb hw 0x20 0x20 (?m, dev s)"
  let ?s = "s\<lparr>ram := ?m, dev := snd ?o\<rparr>"
  have m: "fst ?o = ?m" using assms(3) by (simp add: quiet_ack_def)
  have ok: "sched_ok ?s" using assms(1) by (rule sched_ok_hw)
  have q: "ready ?s = ready s" by (simp add: ready_def)
  have e: "run_state (pit_isr hw r) s = (let (x, s') = run_state (schedule (word_of_nat (saved_at r))) ?s
      in (frame_at (ram s') (unat x), s'))"
    using m by (simp add: pit_isr_def outb_def run_dev_write isr_entry_saves(1) [OF assms(2)] split: prod.splits)
  have k: "ram (snd (run_state (schedule x) ?s)) = ?m" for x
    by (simp add: schedule_run [OF ok] Let_def)
  show "ram (snd (run_state (pit_isr hw r) s)) = ?m"
    using e k by (simp split: prod.splits) (metis snd_conv)
  show "ready (snd (run_state (pit_isr hw r) s)) = queue_tick (word_of_nat (saved_at r)) (ready s)"
    using e ready_schedule [OF ok] q by (simp split: prod.splits) (metis snd_conv)
  show "fst (run_state (pit_isr hw r) s) = frame_at ?m (unat (hd (queue_tick (word_of_nat (saved_at r)) (ready s))))"
    using e schedule_front [OF ok] q k by (simp split: prod.splits) (metis fst_conv snd_conv)
qed

text \<open>An interrupted program, and the programs that run in between, leave a saved frame alone.\<close>

definition spares :: "nat \<Rightarrow> interrupt_frame \<times> (mem \<Rightarrow> mem) \<Rightarrow> bool" where
  "spares a t \<longleftrightarrow> has_stack (fst t)
     \<and> (saved_at (fst t) + frame_bytes \<le> a \<or> a + frame_bytes \<le> saved_at (fst t))
     \<and> (\<forall>m i. a \<le> i \<and> i < a + frame_bytes \<longrightarrow> snd t m i = m i)"

lemma run_isrs_spare:
  assumes "sched_ok s" "quiet_ack hw" "\<forall>t \<in> set ts. spares a t" "a \<le> i" "i < a + frame_bytes"
  shows "ram (snd (run_state (run_isrs hw ts) s)) i = ram s i"
  using assms(1,3)
proof (induction ts arbitrary: s)
  case (Cons t ts)
  obtain r f where t: "t = (r, f)" by fastforce
  let ?s = "s\<lparr>ram := f (ram s)\<rparr>"
  let ?s' = "snd (run_state (pit_isr hw r) ?s)"
  have ok: "sched_ok ?s" using Cons.prems(1) by (simp add: sched_ok_def)
  have sp: "has_stack r" "saved_at r + frame_bytes \<le> a \<or> a + frame_bytes \<le> saved_at r" "f (ram s) i = ram s i"
    using Cons.prems(2) t assms(4,5) by (auto simp: spares_def)
  have "ram ?s' i = f (ram s) i"
    using isr_entry_saves(3) [OF sp(1), of i "f (ram s)"] sp(2) assms(4,5) pit_isr_run(1) [OF ok sp(1) assms(2)] by auto
  moreover have "ram (snd (run_state (run_isrs hw ts) ?s')) i = ram ?s' i"
    using Cons.prems(2) by (intro Cons.IH preservesD [OF pit_isr_keeps ok]) simp
  ultimately show ?case using t sp(3) by (simp only: run_isrs_Cons)
qed simp

lemma run_isrs_queue:
  assumes "sched_ok s" "quiet_ack hw" "\<forall>t \<in> set ts. has_stack (fst t)"
  shows "sched_ok (snd (run_state (run_isrs hw ts) s))"
    and "ready (snd (run_state (run_isrs hw ts) s)) = fold (\<lambda>t. queue_tick (word_of_nat (saved_at (fst t)))) ts (ready s)"
    and "ts \<noteq> [] \<Longrightarrow> last (fst (run_state (run_isrs hw ts) s))
      = frame_at (ram (snd (run_state (run_isrs hw ts) s))) (unat (hd (ready (snd (run_state (run_isrs hw ts) s)))))"
  using assms(1,3)
proof (induction ts arbitrary: s)
  case Nil
  { case 1 then show ?case by simp next case 2 then show ?case by simp next case 3 then show ?case by simp }
next
  case (Cons t ts)
  obtain r f where t: "t = (r, f)" by fastforce
  { fix s :: "('a, 'b) os2_scheme"
    assume pre: "sched_ok s" "\<forall>x \<in> set (t # ts). has_stack (fst x)"
    let ?s = "s\<lparr>ram := f (ram s)\<rparr>"
    have ok: "sched_ok ?s" using pre(1) by (simp add: sched_ok_def)
    have hs: "has_stack r" "\<forall>x \<in> set ts. has_stack (fst x)" using pre(2) t by auto
    have q: "ready ?s = ready s" by (simp add: ready_def)
    note ok hs q preservesD [OF pit_isr_keeps ok] pit_isr_run [OF ok hs(1) assms(2), unfolded q]
  } note step = this
  { case 1 then show ?case using Cons.IH(1) [OF step(5) step(3)] by (simp only: t run_isrs_Cons)
  next
    case 2 then show ?case using Cons.IH(2) [OF step(5) step(3)] step(7) [of s] by (simp add: t run_isrs_Cons)
  next
    case 3
    note ih = Cons.IH(3) [OF _ step(5) [OF 3(2,3)] step(3) [OF 3(2,3)]]
    show ?case
    proof (cases "ts = []")
      case True
      then show ?thesis using step(6-8) [OF 3(2,3)] by (simp add: t run_isrs_Cons)
    next
      case False
      then have "fst (run_state (run_isrs hw ts) s') \<noteq> []" for s' :: "('a, 'b) os2_scheme"
        by (cases ts) (auto simp: run_isrs_Cons)
      then show ?thesis using ih [OF False] by (simp add: t run_isrs_Cons)
    qed
  }
qed

lemma fold_queue_tick:
  "fold (\<lambda>t. queue_tick (g t)) ts q = drop (length ts) (q @ map g ts)" if "q \<noteq> []"
  using that
proof (induction ts arbitrary: q)
  case (Cons t ts)
  then obtain x q' where "q = x # q'" by (cases q) auto
  then show ?case using Cons.IH [of "q' @ [g t]"] by (simp add: queue_tick_def)
qed simp

lemma saved_at_word: "unat (word_of_nat (saved_at r) :: u64) = saved_at r"
proof (rule unat_word_of_nat)
  have "unat (fr_rsp r AND NOT 0xF) < 2 ^ LENGTH(64)" by (rule unsigned_less)
  then show "saved_at r < 2 ^ LENGTH(64)" by (simp add: saved_at_def)
qed

subsection \<open>New tasks\<close>

lemma stack_base_eq:
  assumes "n < max_tasks"
  shows "stack_base n = 0x01200000 + n * 0x100000"
proof -
  have "n = 0 \<or> n = 1 \<or> n = 2 \<or> n = 3" using assms by (auto simp: max_tasks_def)
  then show ?thesis by (elim disjE) (simp_all add: stack_base_def)
qed

lemma pops_nth: "i < n \<Longrightarrow> pops n a m ! i = rd64 m (a + 8 * i)"
proof (induction n arbitrary: a i)
  case (Suc n)
  then show ?case by (cases i) (simp_all add: add.assoc)
qed simp

definition new_frame :: "u64 \<Rightarrow> u64 \<Rightarrow> u64 \<Rightarrow> nat \<Rightarrow> interrupt_frame" where
  "new_frame cs ss entry base = \<lparr>fr_r15 = 0, fr_r14 = 0, fr_r13 = 0, fr_r12 = 0, fr_r11 = 0, fr_r10 = 0,
     fr_r9 = 0, fr_r8 = 0, fr_rdi = 0, fr_rsi = 0, fr_rbp = 0, fr_rbx = 0, fr_rdx = 0, fr_rcx = 0, fr_rax = 0,
     fr_rip = entry, fr_cs = cs, fr_rflags = 0x0202, fr_rsp = word_of_nat (base - 8), fr_ss = ss\<rparr>"

lemma rd64_wr64_other: "a + 8 \<le> b \<or> b + 8 \<le> a \<Longrightarrow> rd64 (wr64 b v m) a = rd64 m a"
  by (rule rd64_cong) (auto intro: wr64_other)

lemma frame_of_new:
  assumes "frame_bytes \<le> base"
  shows "frame_at (put_new_frame cs ss entry base m) (base - frame_bytes) = new_frame cs ss entry base"
proof -
  define f where "f = base - frame_bytes"
  have z: "rd64 (zero_fill f frame_bytes m) (f + k) = 0" if "k + 8 \<le> frame_bytes" for k
    using that by (intro rd64_zero) (simp add: zero_fill_in)
  show ?thesis
    unfolding f_def [symmetric] put_new_frame_def Let_def frame_at_def
    using z [of 0] z [of 8] z [of 16] z [of 24] z [of 32] z [of 40] z [of 48] z [of 56] z [of 64] z [of 72]
      z [of 80] z [of 88] z [of 96] z [of 104] z [of 112]
    by (simp add: pops_nth new_frame_def rd64_wr64_other frame_bytes_def)
qed

subsection \<open>The gates of the second kernel\<close>

definition user_gate_target :: "idt_entry \<Rightarrow> (u16 \<times> u64) option" where
  "user_gate_target e = (if types_attr e = 0xEE then gate_target (e\<lparr>types_attr := 0x8E\<rparr>) else None)"

lemma gate_entry:
  "idt_gate 8 h = \<lparr>offset_low = ucast (h AND 0xFFFF), selector = 0x08, ist = 0, types_attr = 0x8E,
     offset_mid = ucast (drop_bit 16 h AND 0xFFFF), offset_high = ucast (drop_bit 32 h AND 0xFFFFFFFF), idt_zero = 0\<rparr>"
proof -
  have m: "(0xFFFF :: u64) = mask 16" "(0xFFFFFFFF :: u64) = mask 32" by (simp_all add: mask_eq_exp_minus_1)
  have "ucast (x AND mask 16) = (ucast x :: u16)" for x :: u64
    by (rule bit_word_eqI) (auto simp: bit_simps bit_mask_iff)
  moreover have "ucast (x AND mask 32) = (ucast x :: u32)" for x :: u64
    by (rule bit_word_eqI) (auto simp: bit_simps bit_mask_iff)
  ultimately show ?thesis by (simp add: idt_gate_def m)
qed

lemma run_set_idt_gate:
  "run_state (set_idt_gate n a f) s = ((), s\<lparr>os2_idt := (os2_idt s)[n := (idt_gate 8 a)\<lparr>types_attr := f\<rparr>]\<rparr>)"
  by (simp add: set_idt_gate_def gate_entry)

lemma set_gates_lookup:
  assumes "v < length (os2_idt s)"
  shows "os2_idt (snd (run_state (for_m gs (\<lambda>(n, a, f). set_idt_gate n a f)) s)) ! v
    = (case map_of (rev gs) v of None \<Rightarrow> os2_idt s ! v | Some (a, f) \<Rightarrow> (idt_gate 8 a)\<lparr>types_attr := f\<rparr>)"
  using assms
proof (induction gs arbitrary: s)
  case (Cons g gs)
  obtain n a f where g: "g = (n, a, f)" by (cases g) auto
  then show ?case using Cons by (auto simp: run_set_idt_gate map_add_def split: option.splits)
qed simp

lemma same_gate: "(idt_gate c a)\<lparr>types_attr := 0x8E\<rparr> = idt_gate c a"
  by (simp add: idt_gate_def)

lemma map_of_all: "map_of (rev (map (\<lambda>i. (i, c)) xs)) = (\<lambda>i. if i \<in> set xs then Some c else None)"
proof -
  have "map_of (map (\<lambda>i. (i, c)) ys) = (\<lambda>i. if i \<in> set ys then Some c else None)" for ys
    by (induction ys) (auto simp: fun_eq_iff)
  from this [of "rev xs"] show ?thesis by (simp add: rev_map)
qed

lemma os2_gates_lookup:
  "v < 256 \<Longrightarrow> map_of (rev (os2_gates h)) v = Some (
     if v = 32 then (at_pit h, 0x8E) else if v = 33 then (at_keyboard h, 0x8E)
     else if v = 0x80 then (at_syscall h, 0xEE) else if v < 32 \<or> v = 39 then (at_dummy h, 0x8E) else (0, 0x8E))"
  by (auto simp: os2_gates_def map_of_all map_add_def simp del: upt_rec_numeral)

lemma ticks_position:
  "sched_ok s \<Longrightarrow> sched_ok (snd (run_state (ticks rs) s)) \<and> num_tasks (snd (run_state (ticks rs) s)) = num_tasks s
     \<and> current_task (snd (run_state (ticks rs) s)) = (current_task s + length rs) mod num_tasks s"
proof (induction rs arbitrary: s)
  case Nil
  then show ?case using sched_okD(4) [OF Nil] by simp
next
  case (Cons r rs)
  let ?s = "snd (run_state (schedule r) s)"
  have v: "sched_ok ?s \<and> num_tasks ?s = num_tasks s" using Cons.prems by (intro round.valid_step) simp
  have "current_task ?s = (current_task s + 1) mod num_tasks s"
    using round.pos_step [of s "num_tasks s" r] Cons.prems by simp
  moreover have "snd (run_state (ticks (r # rs)) s) = snd (run_state (ticks rs) ?s)"
    by (simp split: prod.splits)
  ultimately show ?case using Cons.IH [of ?s] v by (simp add: mod_Suc_eq mod_add_left_eq)
qed

lemma new_task_state:
  assumes "sched_ok s" "num_tasks s < max_tasks"
  shows "snd (run_state (create_task cs ss e) s) = s\<lparr>ram := put_new_frame cs ss e (stack_base (num_tasks s)) (ram s),
     tasks := (tasks s)[num_tasks s := \<lparr>task_rsp = word_of_nat (stack_base (num_tasks s) - frame_bytes), task_active = True\<rparr>],
     num_tasks := num_tasks s + 1, os2_irqs := True\<rparr>"
  using assms(2) by (simp add: create_task_def cli_def sti_def Let_def)

lemma ready_insert:
  assumes ok: "sched_ok s" and n: "num_tasks s < max_tasks"
  shows "rotate (current_task s) (map task_rsp (take (num_tasks s + 1) ((tasks s)[num_tasks s := t])))
    = take (num_tasks s - current_task s) (ready s) @ [task_rsp t] @ drop (num_tasks s - current_task s) (ready s)"
proof -
  let ?c = "current_task s" and ?xs = "map task_rsp (take (num_tasks s) (tasks s))"
  have l: "length ?xs = num_tasks s" using ok by (auto simp: sched_ok_def)
  have c: "?c < num_tasks s" using sched_okD(4) [OF ok] .
  have "map task_rsp (take (num_tasks s + 1) ((tasks s)[num_tasks s := t])) = ?xs @ [task_rsp t]"
    using sched_okD(1) [OF ok] n by (simp add: take_Suc_conv_app_nth max_tasks_def)
  moreover have "rotate ?c (?xs @ [task_rsp t]) = drop ?c ?xs @ [task_rsp t] @ take ?c ?xs"
    using l c by (simp add: rotate_drop_take)
  moreover have "ready s = drop ?c ?xs @ take ?c ?xs"
    using l c by (simp add: ready_def rotate_drop_take del: take_map drop_map)
  ultimately show ?thesis using l c by simp
qed

lemma put_new_frame_other:
  assumes "i < base - frame_bytes \<or> base \<le> i" "frame_bytes \<le> base"
  shows "put_new_frame cs ss e base m i = m i"
proof -
  obtain f where f: "base = f + frame_bytes" using assms(2) by (metis le_add_diff_inverse2)
  then have out: "i < f + k \<or> f + k + 8 \<le> i" if "k + 8 \<le> frame_bytes" for k using that assms(1) by auto
  have "zero_fill f frame_bytes m i = m i" using assms(1) f by (intro zero_fill_other) auto
  then show ?thesis
    using f out [of 120] out [of 128] out [of 152] out [of 136] out [of 144]
    by (simp add: put_new_frame_def Let_def frame_bytes_def wr64_other)
qed

text \<open>
  Property C4. The scheduler is a round robin over the tasks: for every row of timer ticks it
  hands out the stack pointers a first-in first-out queue hands out, which are those of the
  other tasks in turn and then the ones the ticks themselves stored, in the order they came.
\<close>

theorem schedule_is_round_robin:
  assumes "sched_ok s"
  shows "fst (run_state (ticks rs) s) = queue_ticks rs (ready s)
    \<and> queue_ticks rs (ready s) = take (length rs) (tl (ready s @ rs))"
proof
  show "fst (run_state (ticks rs) s) = queue_ticks rs (ready s)" using assms by (rule ticks_queue)
  have "ready s \<noteq> []" using length_ready [OF assms] sched_okD(2) [OF assms] by auto
  then show "queue_ticks rs (ready s) = take (length rs) (tl (ready s @ rs))" by (rule queue_ticks_sequence)
qed

definition two_tasks :: "unit os2" where
  "two_tasks = xhci.extend start_xhci (os2.fields (replicate 256 (idt_gate 0 0)) 0 0
     [\<lparr>task_rsp = 0, task_active = True\<rparr>, \<lparr>task_rsp = 0x2000, task_active = True\<rparr>,
       \<lparr>task_rsp = 0, task_active = False\<rparr>, \<lparr>task_rsp = 0, task_active = False\<rparr>] 0 2 True 0 False)"

lemma two_tasks_sel: "num_tasks two_tasks = 2" "current_task two_tasks = 0" "length (os2_idt two_tasks) = 256"
  "tasks two_tasks = [\<lparr>task_rsp = 0, task_active = True\<rparr>, \<lparr>task_rsp = 0x2000, task_active = True\<rparr>,
     \<lparr>task_rsp = 0, task_active = False\<rparr>, \<lparr>task_rsp = 0, task_active = False\<rparr>]"
  by (simp_all add: two_tasks_def start_xhci_def xhci.defs os2.defs)

lemma two_tasks_ok: "sched_ok two_tasks"
  by (simp add: sched_ok_def two_tasks_sel max_tasks_def less_2_cases_iff)

theorem schedule_is_round_robin_witness:
  "fst (run_state (ticks [0x1000, 0x2F00, 0x1100]) two_tasks) = [0x2000, 0x1000, 0x2F00]"
  using schedule_is_round_robin [OF two_tasks_ok, of "[0x1000, 0x2F00, 0x1100]"]
  by (simp add: ready_def two_tasks_sel)

text \<open>
  Property C5. A task that the timer interrupts continues with exactly the registers it had,
  after as many interrupts as there are tasks, whatever the other tasks do in the meantime, if
  none of them writes over the 160 bytes saved below its stack pointer.
\<close>

theorem interrupted_task_resumes:
  assumes "sched_ok s" "quiet_ack hw" "has_stack r" "length others + 1 = num_tasks s"
    and "\<forall>t \<in> set others. spares (saved_at r) t"
  shows "last (fst (run_state (run_isrs hw ((r, f) # others)) s)) = r"
proof -
  let ?ts = "(r, f) # others"
  let ?s0 = "s\<lparr>ram := f (ram s)\<rparr>"
  let ?s1 = "snd (run_state (pit_isr hw r) ?s0)"
  let ?s' = "snd (run_state (run_isrs hw ?ts) s)"
  have ok0: "sched_ok ?s0" using assms(1) by (simp add: sched_ok_def)
  have ok1: "sched_ok ?s1" using preservesD [OF pit_isr_keeps ok0] .
  have hs: "\<forall>t \<in> set ?ts. has_stack (fst t)" using assms(3,5) by (auto simp: spares_def)
  note run = run_isrs_queue [OF assms(1,2) hs]
  have "ready s \<noteq> []" "length (ready s) = length ?ts"
    using length_ready [OF assms(1)] sched_okD(2) [OF assms(1)] assms(4) by auto
  then have "hd (ready ?s') = word_of_nat (saved_at r)"
    using run(2) fold_queue_tick [of "ready s" "\<lambda>t. word_of_nat (saved_at (fst t))" ?ts] by simp
  moreover have "frame_at (ram ?s') (saved_at r) = frame_at (ram ?s1) (saved_at r)"
    using run_isrs_spare [OF ok1 assms(2,5)] by (intro frame_at_cong) (simp add: run_isrs_Cons)
  ultimately show ?thesis
    using run(3) pit_isr_run(1) [OF ok0 assms(3,2)] isr_entry_saves(2) [OF assms(3)] by (simp add: saved_at_word)
qed

text \<open>
  \<open>create_task\<close> below the limit: the new task is last in the table, so it runs
  before task 0 comes round again; the frame its stack pointer refers to starts it at its
  entry point with clean registers and interrupts enabled, and no other byte of memory
  changes. At the limit of four tasks nothing but the interrupt flag does.
\<close>

theorem create_task_outcome:
  assumes "sched_ok s"
  shows "let s' = snd (run_state (create_task cs ss entry) s); n = num_tasks s; base = stack_base n in
    sched_ok s' \<and> os2_irqs s' \<and>
    (if n < max_tasks then
       ready s' = take (n - current_task s) (ready s) @ [word_of_nat (base - frame_bytes)] @ drop (n - current_task s) (ready s)
       \<and> base = 0x01200000 + n * 0x100000
       \<and> frame_at (ram s') (base - frame_bytes) = new_frame cs ss entry base
       \<and> (\<forall>i. i < base - frame_bytes \<or> base \<le> i \<longrightarrow> ram s' i = ram s i)
     else s' = s\<lparr>os2_irqs := True\<rparr>)"
proof (cases "num_tasks s < max_tasks")
  case True
  have b: "frame_bytes \<le> stack_base (num_tasks s)" using stack_base_eq [OF True] by (simp add: frame_bytes_def)
  then show ?thesis
    using preservesD [OF create_task_keeps assms] ready_insert [OF assms True] stack_base_eq [OF True]
      frame_of_new [OF b] put_new_frame_other [OF _ b]
    by (simp add: Let_def new_task_state [OF assms True] ready_def True)
next
  case False
  then show ?thesis
    using preservesD [OF create_task_keeps assms] by (simp add: create_task_def cli_def sti_def Let_def)
qed

theorem create_task_outcome_witness:
  "frame_at (ram (snd (run_state (create_task 8 16 0x4000) two_tasks))) (stack_base 2 - frame_bytes)
     = new_frame 8 16 0x4000 0x01400000
   \<and> stack_base 2 = 0x01400000"
  using create_task_outcome [OF two_tasks_ok, of 8 16 "0x4000"]
  by (simp add: Let_def two_tasks_sel max_tasks_def stack_base_def)

definition some_regs :: interrupt_frame where
  "some_regs = (new_frame 8 16 0x4000 0x01400000)\<lparr>fr_rax := 7, fr_r15 := 99\<rparr>"

theorem interrupted_task_resumes_witness:
  "last (fst (run_state (run_isrs silent_hw
     [(some_regs, \<lambda>m. m), (some_regs\<lparr>fr_rsp := 0x01300000\<rparr>, \<lambda>m. m(5 := 1))]) two_tasks)) = some_regs"
  by (rule interrupted_task_resumes [OF two_tasks_ok])
    (simp_all add: quiet_ack_def silent_hw_def has_stack_def some_regs_def new_frame_def two_tasks_sel spares_def
      saved_at_def frame_bytes_def)

text \<open>
  No task starves: in any row of as many timer ticks as there are tasks, every
  task gets the processor exactly once, the one that started the row last.
\<close>

theorem every_task_runs:
  assumes "sched_ok s" and "length rs = num_tasks s"
  shows "map (\<lambda>k. current_task (snd (run_state (ticks (take (k + 1) rs)) s))) [0..<num_tasks s]
    = rotate (current_task s + 1) [0..<num_tasks s]"
proof (rule nth_equalityI)
  fix k
  assume "k < length (map (\<lambda>k. current_task (snd (run_state (ticks (take (k + 1) rs)) s))) [0..<num_tasks s])"
  then have k: "k < num_tasks s" by simp
  then have "length (take (k + 1) rs) = k + 1" using assms(2) by simp
  then show "map (\<lambda>k. current_task (snd (run_state (ticks (take (k + 1) rs)) s))) [0..<num_tasks s] ! k
      = rotate (current_task s + 1) [0..<num_tasks s] ! k"
    using k ticks_position [OF assms(1), of "take (k + 1) rs"] by (simp add: nth_rotate add.commute del: rotate_Suc)
qed simp

theorem every_task_runs_witness:
  "map (\<lambda>k. current_task (snd (run_state (ticks (take (k + 1) [1, 2])) two_tasks))) [0..<2] = [1, 0]"
  using every_task_runs [OF two_tasks_ok, of "[1, 2]"]
  by (simp add: two_tasks_sel upt_rec
      del: ticks.simps)

text \<open>
  The start of the second kernel, up to its first \<open>sti\<close>, from a machine whose
  globals are as the program declares them: the timer, keyboard and system-call vectors reach
  their routines, only the system call from user code; the exceptions and vector 39 reach the
  empty handler; every other vector has a present gate to address 0. Two tasks are ready, the
  kernel runs, and interrupts are on.
\<close>

theorem os2_interrupts_start:
  assumes "length (os2_idt s) = 256" "tasks s = replicate 4 \<lparr>task_rsp = 0, task_active = False\<rparr>"
    "num_tasks s = 1" "current_task s = 0"
  shows "let s' = snd (run_state (start_interrupts hw cs ss h) s) in
    sched_ok s' \<and> num_tasks s' = 2 \<and> current_task s' = 0 \<and> os2_irqs s'
    \<and> frame_at (ram s') (0x01300000 - frame_bytes) = new_frame cs ss (at_test_task h) 0x01300000
    \<and> (\<forall>v < 256. if v = 0x80 then user_gate_target (os2_idt s' ! v) = Some (8, at_syscall h)
        else gate_target (os2_idt s' ! v) = Some (8, if v = 32 then at_pit h else if v = 33 then at_keyboard h
          else if v < 32 \<or> v = 39 then at_dummy h else 0))"
proof -
  let ?s1 = "snd (run_state (for_m (os2_gates h) (\<lambda>(n, a, f). set_idt_gate n a f)) s)"
  have keep: "tasks s' = tasks s'' \<and> num_tasks s' = num_tasks s'' \<and> current_task s' = current_task s''"
    if "s' = snd (run_state (for_m gs (\<lambda>(n, a, f). set_idt_gate n a f)) s'')" for gs and s' s'' :: "('a, 'b) os2_scheme"
    using that
  proof (induction gs arbitrary: s'')
    case (Cons g gs)
    then show ?case by (cases g) (auto simp: run_set_idt_gate)
  qed simp
  have t1: "tasks ?s1 = tasks s" "num_tasks ?s1 = 1" "current_task ?s1 = 0"
    using keep [OF refl, of "os2_gates h" s] assms(3,4) by auto
  have "touches_hw (do { remap_pic hw; init_pit hw 1000 })"
    unfolding remap_pic_def init_pit_def by (intro hw_only)
  then obtain m d where hw: "snd (run_state (do { remap_pic hw; init_pit hw 1000 }) ?s1) = ?s1\<lparr>ram := m, dev := d\<rparr>"
    by (rule touches_hwE)
  let ?s2 = "?s1\<lparr>ram := m, dev := d, tasks := (tasks s)[0 := (tasks s ! 0)\<lparr>task_active := True\<rparr>]\<rparr>"
  have run: "snd (run_state (start_interrupts hw cs ss h) s)
      = snd (run_state sti (snd (run_state (create_task cs ss (at_test_task h)) ?s2)))"
    using hw t1(1) by (auto simp: start_interrupts_def split: prod.splits)
  have ok: "sched_ok ?s2" using t1 assms(2) by (simp add: sched_ok_def max_tasks_def)
  have n: "num_tasks ?s2 < max_tasks" using t1 by (simp add: max_tasks_def)
  have base: "stack_base (num_tasks ?s2) = 0x01300000" using stack_base_eq [OF n] t1 by simp
  have out: "sched_ok (snd (run_state (create_task cs ss (at_test_task h)) ?s2))"
    "frame_at (ram (snd (run_state (create_task cs ss (at_test_task h)) ?s2))) (0x01300000 - frame_bytes)
      = new_frame cs ss (at_test_task h) 0x01300000"
    using preservesD [OF create_task_keeps ok] frame_of_new [of "0x01300000"] base
    by (simp_all add: new_task_state [OF ok n] frame_bytes_def)
  have gates: "os2_idt (snd (run_state (start_interrupts hw cs ss h) s)) = os2_idt ?s1"
    unfolding run by (simp add: new_task_state [OF ok n] sti_def)
  have "os2_idt ?s1 ! v = (case the (map_of (rev (os2_gates h)) v) of (a, f) \<Rightarrow> (idt_gate 8 a)\<lparr>types_attr := f\<rparr>)"
    if "v < 256" for v
    using set_gates_lookup [of v s "os2_gates h"] os2_gates_lookup [OF that] assms(1) that
    by (simp add: case_prod_beta split: option.splits)
  then have "if v = 0x80 then user_gate_target (os2_idt ?s1 ! v) = Some (8, at_syscall h)
        else gate_target (os2_idt ?s1 ! v) = Some (8, if v = 32 then at_pit h else if v = 33 then at_keyboard h
          else if v < 32 \<or> v = 39 then at_dummy h else 0)" if "v < 256" for v
    using that gate_roundtrip [of 8] by (auto simp: os2_gates_lookup user_gate_target_def same_gate)
  moreover have "sched_ok (snd (run_state (start_interrupts hw cs ss h) s))"
    "frame_at (ram (snd (run_state (start_interrupts hw cs ss h) s))) (0x01300000 - frame_bytes)
      = new_frame cs ss (at_test_task h) 0x01300000"
    unfolding run using out by (simp_all add: sti_def sched_ok_def)
  moreover have "num_tasks (snd (run_state (start_interrupts hw cs ss h) s)) = 2"
    "current_task (snd (run_state (start_interrupts hw cs ss h) s)) = 0"
    "os2_irqs (snd (run_state (start_interrupts hw cs ss h) s))"
    unfolding run using t1 by (simp_all add: new_task_state [OF ok n] sti_def)
  ultimately show ?thesis unfolding Let_def gates by blast
qed

definition os2_start :: "unit os2" where
  "os2_start = two_tasks\<lparr>tasks := replicate 4 \<lparr>task_rsp = 0, task_active = False\<rparr>, num_tasks := 1\<rparr>"

definition some_handlers :: os2_handlers where
  "some_handlers = \<lparr>at_dummy = 0x1000, at_pit = 0x2000, at_keyboard = 0x3000, at_syscall = 0x4000, at_test_task = 0x5000\<rparr>"

theorem os2_interrupts_start_witness:
  "gate_target (os2_idt (snd (run_state (start_interrupts silent_hw 8 16 some_handlers) os2_start)) ! 32) = Some (8, 0x2000)"
  using os2_interrupts_start [of os2_start silent_hw 8 16 some_handlers]
  by (simp add: os2_start_def two_tasks_sel some_handlers_def Let_def)

lemma length_app_bin: "length app_bin = 333"
  by (simp add: app_bin_def)

lemma load_and_run_bin_limit:
  "max_tasks \<le> num_tasks s \<Longrightarrow> run_state (load_and_run_bin cs ss l n) s = (False, s)"
  by (simp add: load_and_run_bin_def)

text \<open>
  The application loader: below the task limit it answers true, the image lies
  at 17 MB with zeros up to the end of its 64 KB, and the new task, whose frame lies outside
  the image, starts at its first byte. At the limit it answers false and changes nothing.
\<close>

theorem application_starts:
  assumes "sched_ok s"
  shows "case run_state (load_and_run_bin cs ss lba n) s of (b, s') \<Rightarrow>
    b = (num_tasks s < max_tasks) \<and> sched_ok s' \<and>
    (if b then rd_bytes (ram s') app_ram 333 = app_bin \<and> (\<forall>i. 333 \<le> i \<and> i < 65536 \<longrightarrow> ram s' (app_ram + i) = 0)
        \<and> num_tasks s' = num_tasks s + 1
        \<and> fr_rip (frame_at (ram s') (stack_base (num_tasks s) - frame_bytes)) = word_of_nat app_ram
     else s' = s)"
proof (cases "num_tasks s < max_tasks")
  case True
  let ?m = "wr_bytes app_ram app_bin (zero_fill app_ram 65536 (ram s))"
  let ?s = "s\<lparr>ram := ?m, cmd_status := ''FLUMMI LOADED FROM RAM!''\<rparr>"
  have ok: "sched_ok ?s" using assms by (simp add: sched_ok_def)
  have n: "num_tasks ?s < max_tasks" using True by simp
  have b: "frame_bytes \<le> stack_base (num_tasks s)" "app_ram + 65536 \<le> stack_base (num_tasks s) - frame_bytes"
    using stack_base_eq [OF True] by (simp_all add: frame_bytes_def app_ram_def)
  let ?s' = "snd (run_state (create_task cs ss (word_of_nat app_ram)) ?s)"
  have run: "run_state (load_and_run_bin cs ss lba n) s = (True, ?s')"
    using True by (simp add: load_and_run_bin_def split: prod.splits)
  have m: "ram ?s' (app_ram + i) = ?m (app_ram + i)" if "i < 65536" for i
    using that b put_new_frame_other [of "app_ram + i" "stack_base (num_tasks s)"]
    by (simp add: new_task_state [OF ok n])
  have "rd_bytes (ram ?s') app_ram 333 = rd_bytes ?m app_ram (length app_bin)"
    unfolding length_app_bin using m by (intro rd_bytes_eqI) simp
  moreover have "ram ?s' (app_ram + i) = 0" if "333 \<le> i" "i < 65536" for i
    using m [OF that(2)] that by (simp add: wr_bytes_other zero_fill_in length_app_bin)
  moreover have "fr_rip (frame_at (ram ?s') (stack_base (num_tasks s) - frame_bytes)) = word_of_nat app_ram"
    using frame_of_new [OF b(1)] by (simp add: new_task_state [OF ok n] new_frame_def)
  moreover have "num_tasks ?s' = num_tasks s + 1" by (simp add: new_task_state [OF ok n])
  moreover have "sched_ok ?s'" using ok by (rule preservesD [OF create_task_keeps])
  ultimately show ?thesis unfolding run using True by simp
next
  case False
  then show ?thesis using assms by (simp add: load_and_run_bin_limit)
qed

theorem application_starts_witness:
  "fr_rip (frame_at (ram (snd (run_state (load_and_run_bin 8 16 0 0) two_tasks))) (0x01400000 - frame_bytes)) = 0x01100000"
  using application_starts [OF two_tasks_ok, of 8 16 0 0] stack_base_eq [of 2]
  by (auto simp: case_prod_beta two_tasks_sel max_tasks_def app_ram_def split: if_splits)

text \<open>Waiting: with no wrap-around of the counter the wait ends at the first interrupt that reaches the target.\<close>

lemma sleep_loop_ends: "t \<in> set ts \<Longrightarrow> target \<le> t \<Longrightarrow> sleep_loop target ts \<noteq> None"
  by (induction ts) auto

lemma sleep_loop_early: "sleep_loop target ts = Some ts' \<Longrightarrow> \<exists>k < length ts. ts' = drop (k + 1) ts
    \<and> target \<le> ts ! k \<and> (\<forall>j < k. ts ! j < target)"
proof (induction ts)
  case (Cons t ts)
  show ?case
  proof (cases "t < target")
    case True
    then obtain k where "k < length ts" "ts' = drop (k + 1) ts" "target \<le> ts ! k" "\<forall>j < k. ts ! j < target"
      using Cons by auto
    then show ?thesis using True by (intro exI [of _ "Suc k"]) (auto simp: less_Suc_eq_0_disj)
  qed (use Cons in auto)
qed simp

end
