(* ===== verification/Os2_Windows.thy ===== *)
theory Os2_Windows
  imports Machine
begin

text \<open>
  The windows of the second kernel (\<open>kernel_main.cpp\<close>): their records, the text that is printed
  into them, and the stacking order, a permutation of the thirteen window numbers whose last
  element is the window in front.
\<close>

record window =
  win_id :: nat
  win_title :: string
  win_x :: int
  win_y :: int
  win_w :: int
  win_h :: int
  win_open :: bool
  win_minimized :: bool
  win_fullscreen :: bool
  win_color :: u32
  win_content :: string
  win_cursor :: nat

text \<open>\<open>print_win\<close>: characters up to position 2000 of the 2048, then the NUL.\<close>

fun print_win :: "string \<Rightarrow> window \<Rightarrow> window" where
  "print_win [] w = w\<lparr>win_content := (win_content w)[win_cursor w := CHR 0x00]\<rparr>"
| "print_win (c # cs) w =
     (if win_cursor w < 2000
      then print_win cs (w\<lparr>win_content := (win_content w)[win_cursor w := c], win_cursor := win_cursor w + 1\<rparr>)
      else w\<lparr>win_content := (win_content w)[win_cursor w := CHR 0x00]\<rparr>)"

text \<open>\<open>focus_window\<close>: the last place that holds the number, the ones behind it moved forward.\<close>

definition find_z :: "nat \<Rightarrow> nat list \<Rightarrow> int" where
  "find_z i z = fold (\<lambda>k found_at. if z ! k = i then int k else found_at) [0..<13] (- 1)"

definition shift_z :: "nat \<Rightarrow> nat \<Rightarrow> nat list \<Rightarrow> nat list" where
  "shift_z a b z = fold (\<lambda>k z. z[k := z ! (k + 1)]) [a..<b] z"

definition focus_window :: "nat \<Rightarrow> nat list \<Rightarrow> nat list" where
  "focus_window i z = (let found_at = find_z i z in
     if found_at = - 1 then z else (shift_z (nat found_at) 12 z)[12 := i])"

subsection \<open>Text\<close>

definition win_ok :: "window \<Rightarrow> bool" where
  "win_ok w \<longleftrightarrow> length (win_content w) = 2048 \<and> win_cursor w \<le> 2000 \<and> 100 \<le> win_w w \<and> 100 \<le> win_h w"

text \<open>The characters before the cursor.\<close>

definition win_text :: "window \<Rightarrow> string" where
  "win_text w = take (win_cursor w) (win_content w)"

lemma length_win_text: "win_ok w \<Longrightarrow> length (win_text w) = win_cursor w"
  by (auto simp: win_ok_def win_text_def)

lemma take_update_past: "n \<le> i \<Longrightarrow> take n (xs[i := x]) = take n xs"
  by (rule nth_equalityI) auto

lemma print_win_text:
  "win_ok w \<Longrightarrow> win_ok (print_win t w) \<and> win_text (print_win t w) = take 2000 (win_text w @ t)
     \<and> win_content (print_win t w) ! win_cursor (print_win t w) = CHR 0x00"
proof (induction t arbitrary: w)
  case Nil
  then have "win_cursor w \<le> 2000" by (simp add: win_ok_def)
  then have "take (win_cursor w) (win_content w) = take 2000 (take (win_cursor w) (win_content w))"
    by (simp add: min_def)
  then show ?case using Nil by (simp add: win_ok_def win_text_def take_update_past)
next
  case (Cons c cs)
  show ?case
  proof (cases "win_cursor w < 2000")
    case True
    let ?w = "w\<lparr>win_content := (win_content w)[win_cursor w := c], win_cursor := win_cursor w + 1\<rparr>"
    have "win_ok ?w" using Cons.prems True by (simp add: win_ok_def)
    moreover have "win_text ?w = win_text w @ [c]"
      using Cons.prems True by (simp add: win_text_def win_ok_def take_Suc_conv_app_nth take_update_past)
    ultimately show ?thesis using Cons.IH [of ?w] True by simp
  next
    case False
    then have "win_cursor w = 2000" using Cons.prems by (simp add: win_ok_def)
    then show ?thesis using Cons.prems by (simp add: win_ok_def win_text_def take_update_past min_def)
  qed
qed

declare print_win.simps [simp del]

lemma print_win_keeps: "win_ok w \<Longrightarrow> win_ok (print_win t w)"
  using print_win_text by blast

lemma print_win_id [simp]: "win_id (print_win t w) = win_id w"
  by (induction t arbitrary: w) (auto simp: print_win.simps)

subsection \<open>The stacking order\<close>

definition z_ok :: "nat list \<Rightarrow> bool" where
  "z_ok z \<longleftrightarrow> length z = 13 \<and> distinct z \<and> set z = {0..<13}"

lemma find_z_from:
  assumes "distinct z" "k \<le> length z"
  shows "fold (\<lambda>k f. if z ! k = i then int k else f) [0..<k] (- 1)
    = (if \<exists>j < k. z ! j = i then int (THE j. j < k \<and> z ! j = i) else - 1)"
  using assms(2)
proof (induction k)
  case (Suc k)
  show ?case
  proof (cases "z ! k = i")
    case True
    then have "(THE j. j < Suc k \<and> z ! j = i) = k"
      using Suc.prems assms(1) by (intro the_equality) (auto simp: nth_eq_iff_index_eq)
    then show ?thesis using True by auto
  next
    case False
    then have "(\<lambda>j. j < Suc k \<and> z ! j = i) = (\<lambda>j. j < k \<and> z ! j = i)" by (auto simp: less_Suc_eq)
    then show ?thesis using False Suc by (simp add: less_Suc_eq)
  qed
qed simp

lemma find_z_found:
  assumes "length z = 13" "distinct z" "z = xs @ i # ys"
  shows "find_z i z = int (length xs)"
proof -
  have at: "length xs < 13" "z ! length xs = i" using assms(1,3) by auto
  then have "(THE j. j < 13 \<and> z ! j = i) = length xs"
    using assms(1,2) by (intro the_equality) (auto simp: nth_eq_iff_index_eq)
  then show ?thesis using find_z_from [of z 13 i] assms(1,2) at by (auto simp: find_z_def simp del: upt_rec_numeral)
qed

lemma find_z_missing: "length z = 13 \<Longrightarrow> distinct z \<Longrightarrow> i \<notin> set z \<Longrightarrow> find_z i z = - 1"
  using find_z_from [of z 13 i] by (auto simp: find_z_def in_set_conv_nth simp del: upt_rec_numeral)

lemma length_shift_z [simp]: "length (shift_z a b z) = length z"
  by (induction b) (auto simp: shift_z_def)

lemma shift_z_nth:
  "b < length z \<Longrightarrow> j < length z \<Longrightarrow> shift_z a b z ! j = (if a \<le> j \<and> j < b then z ! (j + 1) else z ! j)"
proof (induction b arbitrary: j)
  case (Suc b)
  show ?case
  proof (cases "a \<le> b")
    case True
    then have "shift_z a (Suc b) z = (shift_z a b z)[b := shift_z a b z ! (b + 1)]" by (simp add: shift_z_def)
    then show ?thesis using Suc True by (auto simp: nth_list_update less_Suc_eq)
  qed (auto simp: shift_z_def)
qed (simp add: shift_z_def)

lemma filter_rest: "distinct (xs @ i # ys) \<Longrightarrow> filter (\<lambda>w. w \<noteq> i) (xs @ i # ys) = xs @ ys"
proof -
  assume d: "distinct (xs @ i # ys)"
  have "filter (\<lambda>w. w \<noteq> i) xs = xs" by (rule filter_True) (use d in auto)
  moreover have "filter (\<lambda>w. w \<noteq> i) ys = ys" by (rule filter_True) (use d in auto)
  ultimately show ?thesis by simp
qed

lemma focus_window_lemma:
  assumes "z_ok z"
  shows "focus_window i z = (if i < 13 then filter (\<lambda>w. w \<noteq> i) z @ [i] else z)"
    and "z_ok (focus_window i z)"
proof -
  show eq: "focus_window i z = (if i < 13 then filter (\<lambda>w. w \<noteq> i) z @ [i] else z)"
  proof (cases "i < 13")
    case True
    then have "i \<in> set z" using assms by (auto simp: z_ok_def)
    then obtain xs ys where z: "z = xs @ i # ys" by (meson split_list)
    have len: "length xs + length ys = 12" using assms z by (simp add: z_ok_def)
    have f: "find_z i z = int (length xs)" using find_z_found assms z by (simp add: z_ok_def)
    have "(shift_z (length xs) 12 z)[12 := i] = xs @ ys @ [i]"
    proof (rule nth_equalityI)
      fix j
      assume "j < length ((shift_z (length xs) 12 z)[12 := i])"
      then have j: "j < 13" "length z = 13" using assms by (simp_all add: z_ok_def)
      have sh: "shift_z (length xs) 12 z ! j = (if length xs \<le> j \<and> j < 12 then z ! (j + 1) else z ! j)"
        using j by (intro shift_z_nth) simp_all
      consider "j < length xs" | k where "j = length xs + k" "j < 12" | "j = 12"
      proof -
        assume a: "j < length xs \<Longrightarrow> thesis" "\<And>k. j = length xs + k \<Longrightarrow> j < 12 \<Longrightarrow> thesis" "j = 12 \<Longrightarrow> thesis"
        show thesis using a(2) [of "j - length xs"] a(1,3) j(1) by linarith
      qed
      then show "(shift_z (length xs) 12 z)[12 := i] ! j = (xs @ ys @ [i]) ! j"
        using j len sh by cases (auto simp: z nth_append)
    qed (use len z in simp)
    moreover have "filter (\<lambda>w. w \<noteq> i) z = xs @ ys"
      using assms unfolding z_ok_def z by (intro filter_rest) simp
    ultimately show ?thesis using True f by (simp add: focus_window_def Let_def)
  next
    case False
    then show ?thesis using assms find_z_missing by (simp add: focus_window_def z_ok_def)
  qed
  have "length (filter (\<lambda>w. w \<noteq> i) z) = 12" if i: "i < 13"
  proof -
    have "i \<in> set z" using i assms by (auto simp: z_ok_def)
    then obtain xs ys where z: "z = xs @ i # ys" by (meson split_list)
    have "distinct (xs @ i # ys)" "length (xs @ i # ys) = 13" using assms unfolding z_ok_def z by blast+
    then show ?thesis unfolding z by (simp only: filter_rest) simp
  qed
  moreover have "distinct (filter (\<lambda>w. w \<noteq> i) z @ [i])" using assms by (simp add: z_ok_def)
  moreover have "set (filter (\<lambda>w. w \<noteq> i) z @ [i]) = set z" if "i < 13"
  proof -
    have "i \<in> set z" using that assms by (auto simp: z_ok_def)
    then show ?thesis by auto
  qed
  ultimately show "z_ok (focus_window i z)" unfolding eq using assms unfolding z_ok_def by simp
qed

lemma focus_window_keeps: "z_ok z \<Longrightarrow> z_ok (focus_window i z)"
  by (rule focus_window_lemma(2))

text \<open>
  Property C32. Bringing a window to the front: the code moves entries one by one, the result is
  the order without the window, followed by it; the order stays a permutation of the thirteen
  windows, and a number that is no window changes nothing.
\<close>

theorem focus_window_reference:
  assumes "z_ok z"
  shows "focus_window i z = (if i < 13 then filter (\<lambda>w. w \<noteq> i) z @ [i] else z) \<and> z_ok (focus_window i z)"
  using focus_window_lemma [OF assms] by simp

theorem focus_window_reference_witness:
  "focus_window 3 [0..<13] = [0, 1, 2, 4, 5, 6, 7, 8, 9, 10, 11, 12, 3]"
proof -
  have "z_ok [0..<13]" by (simp add: z_ok_def del: upt_rec_numeral)
  from focus_window_reference [OF this, of 3] show ?thesis by (simp add: upt_rec)
qed

end
