(* ===== verification/Os2_Disk.thy ===== *)
theory Os2_Disk
  imports Os2_Tasks Os2_Windows Sata Pci
begin

text \<open>
  The disk access of the second kernel (\<open>kernel_main.cpp\<close>): its own SATA driver, which uses the
  28-bit commands READ DMA and WRITE DMA, the adapters that choose between it and the USB stick,
  and the scans that look for controllers and network cards.
\<close>

subsection \<open>State\<close>

record 'd os2_disk = "'d os2" +
  active_ahci_bar5 :: u32
  active_sata_port :: nat
  detected_ports :: "nat list"
  detected_port_count :: nat
  selected_drive_idx :: int
  os2_net_vendor :: u16
  os2_net_device :: u16
  os2_net_bar0 :: u32
  e1000_mmio_base :: u32

text \<open>The port registers are at \<open>bar + 0x100 + 0x80 * i\<close>, as in \<open>HBA_MEM\<close> of this file; \<open>ie\<close> at 20.\<close>

definition P_IE :: nat where "P_IE = 20"

definition hba_ports :: "u32 \<Rightarrow> nat \<Rightarrow> nat" where
  "hba_ports bar i = unat bar + 0x100 + i * 0x80"

subsection \<open>The driver\<close>

definition init_headers :: "nat \<Rightarrow> nat \<Rightarrow> mem \<Rightarrow> mem" where
  "init_headers clb base m =
     fold (\<lambda>i m. wr32 (clb + 32 * i + 12) 0
                   (wr32 (clb + 32 * i + 8) (word_of_nat (base + 0x1000 + i * 0x100))
                     (wr16 (clb + 32 * i + 2) 1 m))) [0..<32] m"

definition ahci_init_port :: "'d hw \<Rightarrow> nat \<Rightarrow> nat \<Rightarrow> (('d, 'z) os2_disk_scheme, unit) state" where
  "ahci_init_port hw port port_no = do {
     hba \<leftarrow> gets (\<lambda>s. unat (active_ahci_bar5 s));
     mmio_upd hw (hba + 4) (\<lambda>v. v OR 0x80000000);
     mmio_write32 hw (hba + 8) 0xFFFFFFFF;
     mmio_upd hw (port + P_CMD) (\<lambda>v. v AND NOT 1);
     spin_while (mmio_test hw (port + P_CMD) 0x8000) 100000;
     mmio_upd hw (port + P_CMD) (\<lambda>v. v AND NOT 0x10);
     spin_while (mmio_test hw (port + P_CMD) 0x4000) 100000;
     let base = 0x00800000 + port_no * 0x10000;
     poke (zero_fill base 0x10000);
     mmio_write32 hw (port + P_CLB) (word_of_nat base);
     mmio_write32 hw (port + P_CLBU) 0;
     mmio_write32 hw (port + P_FB) (word_of_nat (base + 0x400));
     mmio_write32 hw (port + P_FBU) 0;
     clb \<leftarrow> mmio_read32 hw (port + P_CLB);
     poke (init_headers (unat clb) base);
     mmio_write32 hw (port + P_IE) 0xFFFFFFFF;
     mmio_write32 hw (port + P_SERR) 0xFFFFFFFF;
     mmio_write32 hw (port + P_IS) 0xFFFFFFFF;
     mmio_upd hw (port + P_CMD) (\<lambda>v. v OR 0x10);
     mmio_upd hw (port + P_CMD) (\<lambda>v. v OR 1)
   }"

text \<open>
  The command of \<open>ahci_rw\<close> in RAM. The flag \<open>1 << 16\<close> the code adds to the 16-bit \<open>flags\<close> is
  lost in the conversion; the sector number is cut to 28 bits.
\<close>

definition rw_header :: "nat \<Rightarrow> bool \<Rightarrow> mem \<Rightarrow> mem" where
  "rw_header hdr w m =
     wr32 (hdr + 4) 0 (wr16 (hdr + 2) 1 (wr16 hdr (ucast ((5 OR (if w then push_bit 6 1 else 0) OR push_bit 16 1) :: u32)) m))"

definition rw_fis :: "nat \<Rightarrow> bool \<Rightarrow> u32 \<Rightarrow> mem \<Rightarrow> mem" where
  "rw_fis fis w lba m = m
     (fis := 0x27, fis + 1 := 0x80, fis + 2 := (if w then 0xCA else 0xC8),
      fis + 4 := ucast lba, fis + 5 := ucast (drop_bit 8 lba), fis + 6 := ucast (drop_bit 16 lba),
      fis + 7 := 0x40 OR ucast (drop_bit 24 lba AND 0x0F), fis + 12 := 1)"

definition rw_table :: "nat \<Rightarrow> u64 \<Rightarrow> bool \<Rightarrow> u32 \<Rightarrow> mem \<Rightarrow> mem" where
  "rw_table tbl buf w lba m =
     rw_fis tbl w lba
       (wr32 (tbl + 136) 0
         (wr32 (tbl + 140) 511
           (wr32 (tbl + 132) (ucast (drop_bit 32 buf))
             (wr32 (tbl + 128) (ucast buf) (zero_fill tbl 128 m)))))"

definition ahci_rw :: "'d hw \<Rightarrow> u32 \<Rightarrow> u64 \<Rightarrow> bool \<Rightarrow> (('d, 'z) os2_disk_scheme, bool) state" where
  "ahci_rw hw lba buffer_addr is_write = do {
     bar \<leftarrow> gets active_ahci_bar5;
     if bar = 0 then State_Monad.return False
     else do {
       i \<leftarrow> gets active_sata_port;
       let port = hba_ports bar i;
       mmio_write32 hw (port + P_IS) 0xFFFFFFFF;
       clb \<leftarrow> mmio_read32 hw (port + P_CLB);
       clbu \<leftarrow> mmio_read32 hw (port + P_CLBU);
       let hdr = unat ((ucast clb :: u64) OR push_bit 32 (ucast clbu));
       poke (rw_header hdr is_write);
       tbl \<leftarrow> peek (\<lambda>m. unat (rd64 m (hdr + 8)));
       poke (rw_table tbl buffer_addr is_write lba);
       spin \<leftarrow> spin_while (mmio_test hw (port + P_TFD) 0x88) 50000000;
       if spin = 0 then State_Monad.return False
       else do {
         mmio_write32 hw (port + P_CI) 1;
         done \<leftarrow> wait_command hw port 0 100000002;
         if \<not> done then State_Monad.return False
         else do { e \<leftarrow> mmio_test hw (port + P_TFD) 1; State_Monad.return (\<not> e) }
       }
     }
   }"

definition os2_read_sectors :: "'d hw \<Rightarrow> u32 \<Rightarrow> u64 \<Rightarrow> (('d, 'z) os2_disk_scheme, bool) state" where
  "os2_read_sectors hw lba buffer_addr = ahci_rw hw lba buffer_addr False"

definition os2_write_sectors :: "'d hw \<Rightarrow> u32 \<Rightarrow> u64 \<Rightarrow> (('d, 'z) os2_disk_scheme, bool) state" where
  "os2_write_sectors hw lba buffer_addr = ahci_rw hw lba buffer_addr True"

text \<open>The adapters: drive 99 is the USB stick in slot 1 of the xHCI controller.\<close>

definition disk_read_auto :: "'d hw \<Rightarrow> u32 \<Rightarrow> u64 \<Rightarrow> (('d, 'z) os2_disk_scheme, bool) state" where
  "disk_read_auto hw lba dest_ram = do {
     poke (zero_fill (unat dest_ram) 512);
     sel \<leftarrow> gets selected_drive_idx;
     if sel = 99 then xhci_bot_read_sectors hw 1 lba dest_ram
     else os2_read_sectors hw lba dest_ram
   }"

definition disk_write_auto :: "'d hw \<Rightarrow> u32 \<Rightarrow> u64 \<Rightarrow> (('d, 'z) os2_disk_scheme, bool) state" where
  "disk_write_auto hw lba src_ram = do {
     sel \<leftarrow> gets selected_drive_idx;
     if sel = 99 then xhci_bot_write_sectors hw 1 lba src_ram
     else os2_write_sectors hw lba src_ram
   }"

text \<open>
  \<open>ahci_identify\<close>. The command list base is read without its upper half, and the wait for the
  command has no bound: the function is a loop with fuel, and \<open>None\<close> stands for still waiting.
\<close>

fun identify_wait :: "'d hw \<Rightarrow> nat \<Rightarrow> nat \<Rightarrow> ('d, 'z, bool option) op" where
  "identify_wait hw port 0 = State_Monad.return None"
| "identify_wait hw port (Suc n) = do {
     ci \<leftarrow> mmio_read32 hw (port + P_CI);
     if \<not> bit ci 0 then State_Monad.return (Some True)
     else do {
       is \<leftarrow> mmio_read32 hw (port + P_IS);
       if bit is 30 then State_Monad.return (Some False) else identify_wait hw port n
     }
   }"

definition identify_table :: "nat \<Rightarrow> u32 \<Rightarrow> mem \<Rightarrow> mem" where
  "identify_table tbl buf m =
     (wr32 (tbl + 140) 511 (wr32 (tbl + 136) 0 (wr32 (tbl + 132) 0 (wr32 (tbl + 128) buf (zero_fill tbl 80 m)))))
       (tbl := 0x27, tbl + 1 := 0x80, tbl + 2 := 0xEC)"

definition ahci_identify :: "nat \<Rightarrow> 'd hw \<Rightarrow> u32 \<Rightarrow> (('d, 'z) os2_disk_scheme, bool option) state" where
  "ahci_identify fuel hw buffer_addr = do {
     bar \<leftarrow> gets active_ahci_bar5;
     if bar = 0 then State_Monad.return (Some False)
     else do {
       i \<leftarrow> gets active_sata_port;
       let port = hba_ports bar i;
       mmio_write32 hw (port + P_IS) 0xFFFFFFFF;
       mmio_write32 hw (port + P_SERR) 0xFFFFFFFF;
       clb \<leftarrow> mmio_read32 hw (port + P_CLB);
       let hdr = unat clb;
       poke (\<lambda>m. wr16 (hdr + 2) 1 (wr16 hdr 5 m));
       ctba \<leftarrow> peek (\<lambda>m. rd32 m (hdr + 8));
       poke (identify_table (unat ctba) buffer_addr);
       spin_while (mmio_test hw (port + P_TFD) 0x88) 1000000;
       mmio_write32 hw (port + P_CI) 1;
       identify_wait hw port fuel
     }
   }"

subsection \<open>Looking for controllers\<close>

text \<open>The address word and the register access, as this file repeats them in three places.\<close>

definition os2_pci_addr :: "nat \<Rightarrow> nat \<Rightarrow> nat \<Rightarrow> u32 \<Rightarrow> u32" where
  "os2_pci_addr bus slot func off =
     push_bit 16 (word_of_nat bus) OR push_bit 11 (word_of_nat slot) OR push_bit 8 (word_of_nat func)
     OR (off AND 0xFC) OR 0x80000000"

definition os2_pci_read :: "'d hw \<Rightarrow> nat \<Rightarrow> nat \<Rightarrow> nat \<Rightarrow> u32 \<Rightarrow> ('d, 'z, u32) op" where
  "os2_pci_read hw bus slot func off = do { outl hw 0xCF8 (os2_pci_addr bus slot func off); inl hw 0xCFC }"

definition os2_pci_write :: "'d hw \<Rightarrow> nat \<Rightarrow> nat \<Rightarrow> nat \<Rightarrow> u32 \<Rightarrow> u32 \<Rightarrow> ('d, 'z, unit) op" where
  "os2_pci_write hw bus slot func off v = do { outl hw 0xCF8 (os2_pci_addr bus slot func off); outl hw 0xCFC v }"

definition pci_places :: "nat \<Rightarrow> (nat \<times> nat \<times> nat) list" where
  "pci_places fs = [(b, s, f). b \<leftarrow> [0..<256], s \<leftarrow> [0..<32], f \<leftarrow> [0..<fs]]"

text \<open>The first place whose test answers with a value ends the scan.\<close>

definition os2_smart_scan :: "'d hw \<Rightarrow> (('d, 'z) os2_disk_scheme, unit) state" where
  "os2_smart_scan hw = do {
     _ \<leftarrow> find_m (pci_places 1) (\<lambda>(b, s, f). do {
       vd \<leftarrow> os2_pci_read hw b s 0 0;
       if vd = 0xFFFFFFFF then State_Monad.return None
       else do {
         cls \<leftarrow> os2_pci_read hw b s 0 8;
         if drop_bit 24 cls AND 0xFF \<noteq> 2 then State_Monad.return None
         else do {
           modify (\<lambda>st. st\<lparr>os2_net_vendor := ucast (vd AND 0xFFFF), os2_net_device := ucast (drop_bit 16 vd)\<rparr>);
           bar \<leftarrow> os2_pci_read hw b s 0 0x10;
           modify (\<lambda>st. st\<lparr>os2_net_bar0 := bar AND 0xFFFFFFF0\<rparr>);
           State_Monad.return (Some ())
         }
       }
     });
     skip
   }"

definition os2_pci_scan_all :: "'d hw \<Rightarrow> (('d, 'z) os2_disk_scheme, unit) state" where
  "os2_pci_scan_all hw = do {
     _ \<leftarrow> find_m (pci_places 1) (\<lambda>(b, s, f). do {
       vd \<leftarrow> os2_pci_read hw b s 0 0;
       if vd = 0xFFFFFFFF then State_Monad.return None
       else if vd AND 0xFFFF = 0x8086 \<and> drop_bit 16 vd = 0x100E then do {
         bar \<leftarrow> os2_pci_read hw b s 0 0x10;
         modify (\<lambda>st. st\<lparr>e1000_mmio_base := bar AND 0xFFFFFFF0\<rparr>);
         State_Monad.return (Some ())
       }
       else State_Monad.return None
     });
     skip
   }"

definition read_mac_address :: "'d hw \<Rightarrow> (('d, 'z) os2_disk_scheme, string) state" where
  "read_mac_address hw = do {
     base \<leftarrow> gets (\<lambda>s. unat (e1000_mmio_base s));
     ral \<leftarrow> mmio_read32 hw (base + 0x5400);
     rah \<leftarrow> mmio_read32 hw (base + 0x5404);
     let mac = ([ucast ral, ucast (drop_bit 8 ral), ucast (drop_bit 16 ral), ucast (drop_bit 24 ral),
       ucast rah, ucast (drop_bit 8 rah)] :: u8 list);
     State_Monad.return (concat (map (\<lambda>i. byte_to_hex (mac ! i) @ (if i < 5 then '':'' else [])) [0..<6]))
   }"

text \<open>\<open>scan_pci_class\<close>: 28 functions per slot; the text it leaves in the buffer is the result.\<close>

definition scan_pci_class :: "'d hw \<Rightarrow> u32 \<Rightarrow> string \<Rightarrow> ('d, 'z, string) op" where
  "scan_pci_class hw target_class prefix = do {
     r \<leftarrow> find_m (pci_places 28) (\<lambda>(b, s, f). do {
       vd \<leftarrow> os2_pci_read hw b s f 0;
       if vd AND 0xFFFF = 0xFFFF then State_Monad.return None
       else do {
         cls \<leftarrow> os2_pci_read hw b s f 8;
         State_Monad.return (if drop_bit 24 cls AND 0xFF = target_class then Some vd else None)
       }
     });
     State_Monad.return (case r of Some vd \<Rightarrow> prefix @ '' ['' @ hex_to_str32 vd @ '']''
       | None \<Rightarrow> ''NOT FOUND ON PCI BUS'')
   }"

text \<open>\<open>scan_pci_drives\<close>; the port character is \<open>'0' + i\<close>, also beyond 9.\<close>

definition probe_port :: "'d hw \<Rightarrow> u32 \<Rightarrow> nat \<Rightarrow> window \<Rightarrow> (('d, 'z) os2_disk_scheme, window) state" where
  "probe_port hw bar i win = do {
     ssts \<leftarrow> mmio_read32 hw (hba_ports bar i + P_SSTS);
     n \<leftarrow> gets detected_port_count;
     if ssts AND 0x0F = 3 \<and> drop_bit 8 ssts AND 0x0F = 1 \<and> n < 8 then do {
       modify (\<lambda>s. s\<lparr>detected_ports := (detected_ports s)[n := i], detected_port_count := n + 1\<rparr>);
       sig \<leftarrow> mmio_read32 hw (hba_ports bar i + P_SIG);
       let win = print_win [char_of (48 + i)] (print_win ''PORT '' win);
       if sig = 0x00000101 then State_Monad.return (print_win '': SATA HDD\<newline>'' win)
       else do {
         sig \<leftarrow> mmio_read32 hw (hba_ports bar i + P_SIG);
         State_Monad.return (print_win (if sig = SATA_SIG_ATAPI then '': CD/DVD ROM\<newline>'' else '': UNKNOWN\<newline>'') win)
       }
     }
     else State_Monad.return win
   }"

fun probe_ports :: "'d hw \<Rightarrow> u32 \<Rightarrow> nat list \<Rightarrow> window \<Rightarrow> (('d, 'z) os2_disk_scheme, window) state" where
  "probe_ports hw bar [] win = State_Monad.return win"
| "probe_ports hw bar (i # is) win = do {
     pi \<leftarrow> mmio_read32 hw (unat bar + 12);
     win \<leftarrow> (if bit pi i then probe_port hw bar i win else State_Monad.return win);
     probe_ports hw bar is win
   }"

fun probe_places :: "'d hw \<Rightarrow> (nat \<times> nat \<times> nat) list \<Rightarrow> window \<Rightarrow> (('d, 'z) os2_disk_scheme, window) state" where
  "probe_places hw [] win = State_Monad.return win"
| "probe_places hw ((b, s, f) # ps) win = do {
     vd \<leftarrow> os2_pci_read hw b s f 0;
     class_sub \<leftarrow> (if vd AND 0xFFFF \<noteq> 0xFFFF then os2_pci_read hw b s f 8 else State_Monad.return 0);
     win \<leftarrow> (if drop_bit 24 class_sub AND 0xFF = 1 \<and> drop_bit 16 class_sub AND 0xFF = 6 then do {
         cmd \<leftarrow> os2_pci_read hw b s f 4;
         os2_pci_write hw b s f 4 (cmd OR 6);
         bar5 \<leftarrow> os2_pci_read hw b s f 0x24;
         let bar5 = bar5 AND 0xFFFFFFF0;
         modify (\<lambda>st. st\<lparr>active_ahci_bar5 := bar5\<rparr>);
         probe_ports hw bar5 [0..<32] win
       } else State_Monad.return win);
     probe_places hw ps win
   }"

definition scan_pci_drives :: "'d hw \<Rightarrow> window \<Rightarrow> (('d, 'z) os2_disk_scheme, window) state" where
  "scan_pci_drives hw dsk_win = do {
     modify (\<lambda>s. s\<lparr>detected_port_count := 0, selected_drive_idx := - 1\<rparr>);
     win \<leftarrow> probe_places hw (pci_places 8)
       (print_win ''COSMOS AHCI SCANNER V6\<newline>--------------------------\<newline>'' dsk_win);
     n \<leftarrow> gets detected_port_count;
     State_Monad.return (print_win (if n = 0 then ''NO DRIVES FOUND.\<newline>'' else ''\<newline>SELECT A DRIVE TO MOUNT.\<newline>'') win)
   }"

text \<open>
  \<open>diagnose_ahci_ports\<close>. The bit is tested and set in \<open>abar[0]\<close>, the capability register; the
  delay loop has no effect on the model.
\<close>

definition diagnose_ahci_ports :: "'d hw \<Rightarrow> (('d, 'z) os2_disk_scheme, unit) state" where
  "diagnose_ahci_ports hw = do {
     bar \<leftarrow> gets global_ahci_abar;
     if bar = 0 then set_status ''ERR: ABAR IST NULL''
     else do {
       let abar = unat bar;
       v \<leftarrow> mmio_read32 hw abar;
       when_m (\<not> bit v 31) (mmio_upd hw abar (\<lambda>v. v OR 0x80000000));
       pi \<leftarrow> mmio_read32 hw (abar + 12);
       if pi = 0 \<or> pi = 0xFFFFFFFF then set_status ''ERR: MMIO/PAGING BLOCKIERT (PI=0)''
       else do {
         r \<leftarrow> find_m [0..<32] (\<lambda>i.
           if bit pi i then do {
             ssts \<leftarrow> mmio_read32 hw (abar + 4 * (64 + i * 32 + 10));
             State_Monad.return (if ssts AND 0x0F = 3 then Some () else None)
           } else State_Monad.return None);
         case r of Some _ \<Rightarrow> set_status ''HDD AUF PORT GEFUNDEN!''
         | None \<Rightarrow> set_status (if list_ex (bit pi) [0..<32] then ''ERR: PORTS DA, ABER HDD FEHLT!''
             else ''ERR: KEINE PORTS VORHANDEN'')
       }
     }
   }"

text \<open>\<open>bare_metal_port_init\<close>; \<open>base\<close> is the address of \<open>bare_metal_ahci_mem\<close>, 64 KB the compiler reserves.\<close>

definition bare_metal_port_init :: "'d hw \<Rightarrow> nat \<Rightarrow> int \<Rightarrow> (('d, 'z) os2_disk_scheme, unit) state" where
  "bare_metal_port_init hw base_addr port_no =
     (if port_no < 0 then skip
      else do {
        abar \<leftarrow> gets (\<lambda>s. unat (global_ahci_abar s));
        let regs = port_regs_at abar (nat port_no);
        mmio_upd hw (regs + P_CMD) (\<lambda>v. v AND NOT 1);
        mmio_upd hw (regs + P_CMD) (\<lambda>v. v AND NOT 0x10);
        spin_while (mmio_test hw (regs + P_CMD) 0x4000) 1000000;
        spin_while (mmio_test hw (regs + P_CMD) 0x8000) 1000000;
        set_status ''PORT REBASE (64-BIT RAM)!'';
        poke (zero_fill base_addr 0x10000);
        let clb = (word_of_nat base_addr :: u64);
        let fb = (word_of_nat (base_addr + 0x1000) :: u64);
        let ctb = (word_of_nat (base_addr + 0x2000) :: u64);
        mmio_write32 hw (regs + P_CLB) (ucast clb);
        mmio_write32 hw (regs + P_CLBU) (ucast (drop_bit 32 clb));
        mmio_write32 hw (regs + P_FB) (ucast fb);
        mmio_write32 hw (regs + P_FBU) (ucast (drop_bit 32 fb));
        poke (wr_words base_addr [push_bit 16 1 OR 5, 0, ucast ctb, ucast (drop_bit 32 ctb)]);
        mmio_write32 hw (regs + P_SERR) 0xFFFFFFFF;
        mmio_write32 hw (regs + P_IS) 0xFFFFFFFF;
        spin_while (mmio_test hw (regs + P_TFD) 0x88) 1000000;
        mmio_upd hw (regs + P_CMD) (\<lambda>v. v OR 0x10);
        mmio_upd hw (regs + P_CMD) (\<lambda>v. v OR 1)
      })"

subsection \<open>The controller under 28-bit commands\<close>

text \<open>
  The contract of theory \<open>Sata\<close> for READ DMA (0xC8) and WRITE DMA (0xCA) in command slot 0: the
  sector is the 28-bit number in bytes 4 to 7 of the FIS. The upper half of the command list
  base reads back as the 0 that \<open>ahci_init_port\<close> writes, and an idle port reports no error.
\<close>

definition lba28 :: "mem \<Rightarrow> nat \<Rightarrow> u32" where
  "lba28 m tbl = ucast (m (tbl + 4)) OR push_bit 8 (ucast (m (tbl + 5)))
     OR push_bit 16 (ucast (m (tbl + 6))) OR push_bit 24 (ucast (m (tbl + 7) AND 0x0F))"

definition fis28_ok :: "mem \<Rightarrow> nat \<Rightarrow> nat \<Rightarrow> bool \<Rightarrow> bool" where
  "fis28_ok m hdr tbl w \<longleftrightarrow>
     rd16 m hdr = (if w then 0x45 else 5) \<and> rd16 m (hdr + 2) = 1
     \<and> m tbl = 0x27 \<and> m (tbl + 1) = 0x80 \<and> m (tbl + 2) = (if w then 0xCA else 0xC8)
     \<and> bit (m (tbl + 7)) 6 \<and> m (tbl + 12) = 1 \<and> rd32 m (tbl + 140) AND 0x3FFFFF = 511"

definition sata28_issue :: "'d hw \<Rightarrow> nat \<Rightarrow> 'd sata \<Rightarrow> nat \<Rightarrow> bool" where
  "sata28_issue hw p V L \<longleftrightarrow>
     (\<forall>m d w. s_busy V d = 0 \<longrightarrow>
        (let hdr = unat (s_clb V d); tbl = unat (rd64 m (hdr + 8)) in
          fis28_ok m hdr tbl w \<longrightarrow>
            (\<exists>d'. hw_write32 hw (p + P_CI) 1 (m, d)
                 = (if w then m else wr_bytes (unat (rd64 m (tbl + 128))) (s_sect V d (lba28 m tbl)) m, d')
               \<and> s_clb V d' = s_clb V d \<and> s_busy V d' \<le> L \<and> s_slot V d' = 0
               \<and> s_sect V d' = (if w then (s_sect V d)(lba28 m tbl := rd_bytes m (unat (rd64 m (tbl + 128))) 512)
                   else s_sect V d))))"

definition sata28_spec :: "'d hw \<Rightarrow> nat \<Rightarrow> 'd sata \<Rightarrow> nat \<Rightarrow> bool" where
  "sata28_spec hw p V L \<longleftrightarrow> sata_idle_regs hw p V \<and> sata_busy_regs hw p V \<and> sata28_issue hw p V L
     \<and> (\<forall>m d. hw_read32 hw (p + P_CLBU) (m, d) = (0, (m, d)))
     \<and> (\<forall>m d. s_busy V d = 0 \<longrightarrow> \<not> bit (fst (hw_read32 hw (p + P_TFD) (m, d))) 0)
     \<and> (\<forall>d l. length (s_sect V d l) = 512)"

subsection \<open>The command in RAM\<close>

lemma rw_table_other: "i < tbl \<or> tbl + 144 \<le> i \<Longrightarrow> rw_table tbl buf w lba m i = m i"
  by (auto simp: rw_table_def rw_fis_def wr32_def zero_fill_def)

lemma rw_header_other: "i < hdr \<or> hdr + 8 \<le> i \<Longrightarrow> rw_header hdr w m i = m i"
  by (auto simp: rw_header_def wr16_def wr32_def)

lemma rw_fis_other: "i < fis \<or> fis + 20 \<le> i \<Longrightarrow> rw_fis fis w lba m i = m i"
  by (auto simp: rw_fis_def)

lemma rd32_rw_fis: "fis + 20 \<le> a \<Longrightarrow> rd32 (rw_fis fis w lba m) a = rd32 m a"
  by (rule rd32_cong) (simp add: rw_fis_other)

lemma rw_table_prdt:
  "rd64 (rw_table tbl buf w lba m) (tbl + 128) = buf"
  "rd32 (rw_table tbl buf w lba m) (tbl + 140) = 511"
  by (rule rd64_split) (simp_all add: rw_table_def rd32_rw_fis rd32_wr32_other add.assoc)

lemma bit_x40: "bit (0x40 :: u8) j \<longleftrightarrow> j = 6"
  using bit_exp_iff [of 6 j, where 'a = "8 word"] by auto

lemma lba_nibble: "(0x40 OR ucast (drop_bit 24 (lba :: u32) AND 0x0F) :: u8) AND 0x0F = ucast (take_bit 4 (drop_bit 24 lba))"
proof -
  have "(0x0F :: u32) = mask 4" "(0x0F :: u8) = mask 4" by (simp_all add: mask_eq_exp_minus_1)
  moreover have "(0x40 :: u8) AND mask 4 = 0" by (simp add: mask_eq_exp_minus_1)
  moreover have "(ucast (drop_bit 24 lba AND mask 4) :: u8) AND mask 4 = ucast (take_bit 4 (drop_bit 24 lba))"
    by (rule bit_word_eqI) (auto simp: bit_simps bit_mask_iff)
  ultimately show ?thesis by (simp only: bit.conj_disj_distrib2 or.left_neutral)
qed

lemma lba28_built: "lba28 (rw_table tbl buf w lba m) tbl = take_bit 28 lba"
proof (rule bit_word_eqI)
  fix k
  assume "k < LENGTH(32)"
  then consider "k < 8" | "8 \<le> k" "k < 16" | "16 \<le> k" "k < 24" | "24 \<le> k" "k < 28" | "28 \<le> k" "k < 32"
    by fastforce
  then show "bit (lba28 (rw_table tbl buf w lba m) tbl) k = bit (take_bit 28 lba) k"
    by cases (auto simp: lba28_def rw_table_def rw_fis_def lba_nibble bit_simps)
qed

lemma rw_flags: "(ucast ((5 OR (if w then push_bit 6 1 else 0) OR push_bit 16 1) :: u32) :: u16) = (if w then 0x45 else 5)"
  by simp

lemma fis28_built:
  assumes "hdr + 32 \<le> tbl \<or> tbl + 144 \<le> hdr"
  shows "fis28_ok (rw_table tbl buf w lba (rw_header hdr w m)) hdr tbl w"
proof -
  let ?m = "rw_table tbl buf w lba (rw_header hdr w m)"
  have h: "?m i = rw_header hdr w m i" if "hdr \<le> i" "i < hdr + 32" for i
    using that assms by (intro rw_table_other) auto
  have "rd16 ?m hdr = rd16 (rw_header hdr w m) hdr"
    using h [of hdr] h [of "hdr + 1"] by (simp add: rd16_def)
  also have "\<dots> = (if w then 0x45 else 5)"
    unfolding rw_header_def rw_flags by (simp add: rd16_def wr16_def wr32_def)
  finally have 1: "rd16 ?m hdr = (if w then 0x45 else 5)" .
  have "rd16 ?m (hdr + 2) = rd16 (rw_header hdr w m) (hdr + 2)"
    using h [of "hdr + 2"] h [of "hdr + 2 + 1"] by (simp add: rd16_def)
  then have 2: "rd16 ?m (hdr + 2) = 1" by (simp add: rw_header_def rd16_def wr16_def wr32_def)
  have "?m tbl = 0x27" "?m (tbl + 1) = 0x80" "?m (tbl + 2) = (if w then 0xCA else 0xC8)"
    "bit (?m (tbl + 7)) 6" "?m (tbl + 12) = 1"
    by (simp_all add: rw_table_def rw_fis_def bit_simps bit_x40)
  then show ?thesis using 1 2 by (simp add: fis28_ok_def rw_table_prdt)
qed

subsection \<open>Running the driver\<close>

text \<open>
  \<open>rw_ready\<close>: a port is selected, its controller idle, the command list at \<open>hdr\<close>, its first header
  points to the table at \<open>tbl\<close> (what \<open>ahci_init_port\<close> sets up), and the two do not overlap.
\<close>

definition rw_ready :: "'d hw \<Rightarrow> 'd sata \<Rightarrow> nat \<Rightarrow> nat \<Rightarrow> nat \<Rightarrow> ('d, 'z) os2_disk_scheme \<Rightarrow> bool" where
  "rw_ready hw V L hdr tbl s \<longleftrightarrow> active_ahci_bar5 s \<noteq> 0
     \<and> sata28_spec hw (hba_ports (active_ahci_bar5 s) (active_sata_port s)) V L \<and> L < 100000000
     \<and> s_busy V (dev s) = 0 \<and> unat (s_clb V (dev s)) = hdr \<and> unat (rd64 (ram s) (hdr + 8)) = tbl
     \<and> (hdr + 32 \<le> tbl \<or> tbl + 144 \<le> hdr)"

definition rw_staged :: "nat \<Rightarrow> nat \<Rightarrow> bool \<Rightarrow> u64 \<Rightarrow> u32 \<Rightarrow> mem \<Rightarrow> mem" where
  "rw_staged hdr tbl w buf lba m = rw_table tbl buf w lba (rw_header hdr w m)"

lemma rw_staged_other:
  "i < hdr \<or> hdr + 8 \<le> i \<Longrightarrow> i < tbl \<or> tbl + 144 \<le> i \<Longrightarrow> rw_staged hdr tbl w buf lba m i = m i"
  by (simp add: rw_staged_def rw_table_other rw_header_other)

lemma rw_staged_ctba:
  assumes "hdr + 32 \<le> tbl \<or> tbl + 144 \<le> hdr"
  shows "rd64 (rw_staged hdr tbl w buf lba m) (hdr + 8) = rd64 m (hdr + 8)"
proof (rule rd64_cong)
  fix i :: nat
  assume "i < 8"
  then show "rw_staged hdr tbl w buf lba m (hdr + 8 + i) = m (hdr + 8 + i)"
    using assms by (intro rw_staged_other) auto
qed

lemma unat_wide: "unat (ucast (c :: u32) :: u64) = unat c"
proof -
  have "unat c < 2 ^ LENGTH(32)" by (rule unsigned_less)
  then have "unat c < 2 ^ 64" by simp
  then show ?thesis by (simp add: unsigned_ucast_eq take_bit_nat_eq_self)
qed

lemma ahci_rw_run:
  fixes s :: "('d, 'z) os2_disk_scheme"
  assumes rdy: "rw_ready hw V L hdr tbl s"
  shows "\<exists>d. run_state (ahci_rw hw lba buf w) s
      = (True, s\<lparr>ram := (if w then rw_staged hdr tbl w buf lba (ram s)
            else wr_bytes (unat buf) (s_sect V (dev s) (take_bit 28 lba)) (rw_staged hdr tbl w buf lba (ram s))), dev := d\<rparr>)
    \<and> s_clb V d = s_clb V (dev s) \<and> s_busy V d = 0
    \<and> s_sect V d = (if w then (s_sect V (dev s))(take_bit 28 lba := rd_bytes (rw_staged hdr tbl w buf lba (ram s)) (unat buf) 512)
        else s_sect V (dev s))"
proof -
  note r = rdy [unfolded rw_ready_def]
  define p where "p = hba_ports (active_ahci_bar5 s) (active_sata_port s)"
  have spec: "sata28_spec hw p V L" using r by (simp add: p_def)
  have parts: "sata_idle_regs hw p V" "sata_busy_regs hw p V" "sata28_issue hw p V L"
    and clbu: "\<And>m d. hw_read32 hw (p + P_CLBU) (m, d) = (0, (m, d))"
    and tfd: "\<And>m d. s_busy V d = 0 \<Longrightarrow> \<not> bit (fst (hw_read32 hw (p + P_TFD) (m, d))) 0"
    using spec unfolding sata28_spec_def by blast+
  note idl = parts(1) [unfolded sata_idle_regs_def]
  let ?m1 = "rw_staged hdr tbl w buf lba (ram s)"
  obtain d1 where w1: "hw_write32 hw (p + P_IS) 0xFFFFFFFF (ram s, dev s) = (ram s, d1)"
    and k1: "sata_keeps V (dev s) d1" "s_busy V d1 = 0" using idl r by (metis insertCI)
  have clb: "hw_read32 hw (p + P_CLB) (ram s, d1) = (s_clb V d1, (ram s, d1))" using idl by simp
  have ctba: "rd64 (rw_header hdr w (ram s)) (hdr + 8) = rd64 (ram s) (hdr + 8)"
    by (rule rd64_cong) (simp add: rw_header_other)
  obtain v where r1: "hw_read32 hw (p + P_TFD) (?m1, d1) = (v, (?m1, d1))" "v AND 0x88 = 0"
    using idl k1(2) by metis
  have sp: "run_state (spin_while (mmio_test hw (p + P_TFD) 0x88) 50000000) (s\<lparr>ram := ?m1, dev := d1\<rparr>)
      = (50000000, s\<lparr>ram := ?m1, dev := d1\<rparr>)"
  proof -
    have "run_state (mmio_test hw (p + P_TFD) 0x88) (s\<lparr>ram := ?m1, dev := d1\<rparr>) = (False, s\<lparr>ram := ?m1, dev := d1\<rparr>)"
      using run_read32 [of hw "p + P_TFD" "s\<lparr>ram := ?m1, dev := d1\<rparr>" v ?m1 d1] r1 by (simp add: mmio_test_def)
    then show ?thesis using spin_while_now [of "mmio_test hw (p + P_TFD) 0x88" "s\<lparr>ram := ?m1, dev := d1\<rparr>"] by simp
  qed
  have hdr1: "unat (s_clb V d1) = hdr" using k1(1) r by (simp add: sata_keeps_def)
  have tbl1: "unat (rd64 ?m1 (unat (s_clb V d1) + 8)) = tbl" using rw_staged_ctba hdr1 r by simp
  have ok: "fis28_ok ?m1 (unat (s_clb V d1)) tbl w" using fis28_built [of hdr tbl] hdr1 r by (simp add: rw_staged_def)
  have bl: "rd64 ?m1 (tbl + 128) = buf" "lba28 ?m1 tbl = take_bit 28 lba"
    by (simp_all add: rw_staged_def rw_table_prdt lba28_built)
  let ?m2 = "if w then ?m1 else wr_bytes (unat buf) (s_sect V d1 (take_bit 28 lba)) ?m1"
  obtain d2 where w2: "hw_write32 hw (p + P_CI) 1 (?m1, d1) = (?m2, d2)"
    and k2: "s_clb V d2 = s_clb V d1" "s_busy V d2 \<le> L" "s_slot V d2 = 0"
      "s_sect V d2 = (if w then (s_sect V d1)(take_bit 28 lba := rd_bytes ?m1 (unat buf) 512) else s_sect V d1)"
    using parts(3) [unfolded sata28_issue_def Let_def, rule_format, OF k1(2), of ?m1 w] ok unfolding tbl1 bl by blast
  obtain d3 where w3: "run_state (wait_command hw p 0 100000002) (s\<lparr>ram := ?m2, dev := d2\<rparr>)
      = (True, s\<lparr>ram := ?m2, dev := d3\<rparr>)" and k3: "sata_keeps V d2 d3" "s_busy V d3 = 0"
    using wait_command_ok [OF parts(1,2), of "s\<lparr>ram := ?m2, dev := d2\<rparr>" 100000002 0] k2 r by auto
  obtain v' where r2: "hw_read32 hw (p + P_TFD) (?m2, d3) = (v', (?m2, d3))" using idl k3(2) by metis
  have err: "v' AND 1 = 0" using tfd [OF k3(2), of ?m2] r2 by (simp add: and_one_eq bit_0 even_iff_mod_2_eq_zero)
  have "run_state (ahci_rw hw lba buf w) s = (True, s\<lparr>ram := ?m2, dev := d3\<rparr>)"
    using run_write32 [of hw "p + P_IS" _ s, OF w1]
      run_read32 [of hw "p + P_CLB" "s\<lparr>ram := ram s, dev := d1\<rparr>" "s_clb V d1" "ram s" d1] clb
      run_read32 [of hw "p + P_CLBU" "s\<lparr>ram := ram s, dev := d1\<rparr>" 0 "ram s" d1] clbu
      run_write32 [of hw "p + P_CI" 1 "s\<lparr>ram := ?m1, dev := d1\<rparr>" ?m2 d2] w2
      run_read32 [of hw "p + P_TFD" "s\<lparr>ram := ?m2, dev := d3\<rparr>" v' ?m2 d3] r2
      sp w3 ctba r err
    by (simp add: ahci_rw_def Let_def p_def [symmetric] unat_wide hdr1 mmio_test_def rw_staged_def [symmetric] split del: if_split)
  then show ?thesis using k1 k2 k3 by (intro exI [of _ d3]) (auto simp: sata_keeps_def)
qed

lemma rw_staged_priv:
  "i \<notin> sata_priv hdr tbl \<Longrightarrow> rw_staged hdr tbl w buf lba m i = m i"
  by (rule rw_staged_other) (auto simp: sata_priv_def)

lemma rw_ready_step:
  assumes "rw_ready hw V L hdr tbl s" "s_clb V d = s_clb V (dev s)" "s_busy V d = 0"
    and "rd64 m (hdr + 8) = rd64 (ram s) (hdr + 8)"
  shows "rw_ready hw V L hdr tbl (s\<lparr>ram := m, dev := d\<rparr>)"
  using assms by (simp add: rw_ready_def)

lemma os2_read_run:
  assumes rdy: "rw_ready hw V L hdr tbl s" and buf: "clear_of (sata_priv hdr tbl) (unat a) 512"
  shows "\<exists>m d. run_state (os2_read_sectors hw lba a) s = (True, s\<lparr>ram := m, dev := d\<rparr>)
    \<and> rw_ready hw V L hdr tbl (s\<lparr>ram := m, dev := d\<rparr>) \<and> s_sect V d = s_sect V (dev s)
    \<and> rd_bytes m (unat a) 512 = s_sect V (dev s) (take_bit 28 lba)
    \<and> (\<forall>i. i \<notin> sata_priv hdr tbl \<longrightarrow> i < unat a \<or> unat a + 512 \<le> i \<longrightarrow> m i = ram s i)"
proof -
  let ?m1 = "rw_staged hdr tbl False a lba (ram s)"
  let ?data = "s_sect V (dev s) (take_bit 28 lba)"
  let ?m = "wr_bytes (unat a) ?data ?m1"
  have len: "length ?data = 512" using rdy by (simp add: rw_ready_def sata28_spec_def)
  obtain d where run: "run_state (os2_read_sectors hw lba a) s = (True, s\<lparr>ram := ?m, dev := d\<rparr>)"
    and d: "s_clb V d = s_clb V (dev s)" "s_busy V d = 0" "s_sect V d = s_sect V (dev s)"
    using ahci_rw_run [OF rdy, of lba a False] by (auto simp: os2_read_sectors_def)
  have off: "unat a + 512 \<le> hdr \<or> hdr + 32 \<le> unat a" using clear_of_priv [OF buf] by simp
  have "rd64 ?m (hdr + 8) = rd64 ?m1 (hdr + 8)"
    by (rule rd64_cong) (use off len in \<open>auto intro!: wr_bytes_other\<close>)
  also have "\<dots> = rd64 (ram s) (hdr + 8)" using rdy by (intro rw_staged_ctba) (simp add: rw_ready_def)
  finally have "rw_ready hw V L hdr tbl (s\<lparr>ram := ?m, dev := d\<rparr>)" using rw_ready_step [OF rdy d(1,2)] by blast
  moreover have "rd_bytes ?m (unat a) 512 = ?data" using rd_wr_bytes [of "unat a" ?data ?m1] len by simp
  moreover have "?m i = ram s i" if "i \<notin> sata_priv hdr tbl" "i < unat a \<or> unat a + 512 \<le> i" for i
    using that len by (simp add: wr_bytes_other rw_staged_priv)
  ultimately show ?thesis using run d(3) by blast
qed

lemma os2_write_run:
  assumes rdy: "rw_ready hw V L hdr tbl s" and buf: "clear_of (sata_priv hdr tbl) (unat a) 512"
  shows "\<exists>m d. run_state (os2_write_sectors hw lba a) s = (True, s\<lparr>ram := m, dev := d\<rparr>)
    \<and> rw_ready hw V L hdr tbl (s\<lparr>ram := m, dev := d\<rparr>)
    \<and> s_sect V d = (s_sect V (dev s))(take_bit 28 lba := rd_bytes (ram s) (unat a) 512)
    \<and> (\<forall>i. i \<notin> sata_priv hdr tbl \<longrightarrow> m i = ram s i)"
proof -
  let ?m = "rw_staged hdr tbl True a lba (ram s)"
  obtain d where run: "run_state (os2_write_sectors hw lba a) s = (True, s\<lparr>ram := ?m, dev := d\<rparr>)"
    and d: "s_clb V d = s_clb V (dev s)" "s_busy V d = 0"
      "s_sect V d = (s_sect V (dev s))(take_bit 28 lba := rd_bytes ?m (unat a) 512)"
    using ahci_rw_run [OF rdy, of lba a True] by (auto simp: os2_write_sectors_def)
  have "rd_bytes ?m (unat a) 512 = rd_bytes (ram s) (unat a) 512"
    by (rule rd_bytes_clear [OF buf]) (simp add: rw_staged_priv)
  moreover have "rw_ready hw V L hdr tbl (s\<lparr>ram := ?m, dev := d\<rparr>)"
    using rdy rw_staged_ctba by (intro rw_ready_step [OF rdy d(1,2)]) (auto simp: rw_ready_def)
  moreover have "?m i = ram s i" if "i \<notin> sata_priv hdr tbl" for i using that by (rule rw_staged_priv)
  ultimately show ?thesis using run d(3) by metis
qed

text \<open>Clearing a buffer outside the driver's memory changes nothing for the driver.\<close>

lemma rw_ready_fill:
  assumes "rw_ready hw V L hdr tbl s" "clear_of (sata_priv hdr tbl) a 512"
  shows "rw_ready hw V L hdr tbl (s\<lparr>ram := zero_fill a 512 (ram s)\<rparr>)"
proof -
  have "a + 512 \<le> hdr \<or> hdr + 32 \<le> a" using clear_of_priv [OF assms(2)] by simp
  then have "rd64 (zero_fill a 512 (ram s)) (hdr + 8) = rd64 (ram s) (hdr + 8)"
    by (intro rd64_cong zero_fill_other) auto
  then show ?thesis using assms(1) by (simp add: rw_ready_def)
qed

subsection \<open>The adapters\<close>

lemma disk_read_run:
  assumes rdy: "rw_ready hw V L hdr tbl s" and sel: "selected_drive_idx s \<noteq> 99"
    and buf: "clear_of (sata_priv hdr tbl) (unat a) 512"
  shows "\<exists>m d. run_state (disk_read_auto hw lba a) s = (True, s\<lparr>ram := m, dev := d\<rparr>)
    \<and> rw_ready hw V L hdr tbl (s\<lparr>ram := m, dev := d\<rparr>) \<and> s_sect V d = s_sect V (dev s)
    \<and> rd_bytes m (unat a) 512 = s_sect V (dev s) (take_bit 28 lba)
    \<and> (\<forall>i. i \<notin> sata_priv hdr tbl \<longrightarrow> i < unat a \<or> unat a + 512 \<le> i \<longrightarrow> m i = ram s i)"
proof -
  let ?s = "s\<lparr>ram := zero_fill (unat a) 512 (ram s)\<rparr>"
  obtain m d where r: "run_state (os2_read_sectors hw lba a) ?s = (True, ?s\<lparr>ram := m, dev := d\<rparr>)"
    "rw_ready hw V L hdr tbl (?s\<lparr>ram := m, dev := d\<rparr>)" "s_sect V d = s_sect V (dev s)"
    "rd_bytes m (unat a) 512 = s_sect V (dev s) (take_bit 28 lba)"
    "\<forall>i. i \<notin> sata_priv hdr tbl \<longrightarrow> i < unat a \<or> unat a + 512 \<le> i \<longrightarrow> m i = ram ?s i"
    using os2_read_run [OF rw_ready_fill [OF rdy buf] buf, of lba] by auto
  then show ?thesis using sel
    by (intro exI [of _ m] exI [of _ d]) (simp add: disk_read_auto_def zero_fill_other)
qed

lemma disk_write_run:
  assumes rdy: "rw_ready hw V L hdr tbl s" and sel: "selected_drive_idx s \<noteq> 99"
    and buf: "clear_of (sata_priv hdr tbl) (unat a) 512"
  shows "\<exists>m d. run_state (disk_write_auto hw lba a) s = (True, s\<lparr>ram := m, dev := d\<rparr>)
    \<and> rw_ready hw V L hdr tbl (s\<lparr>ram := m, dev := d\<rparr>)
    \<and> s_sect V d = (s_sect V (dev s))(take_bit 28 lba := rd_bytes (ram s) (unat a) 512)
    \<and> (\<forall>i. i \<notin> sata_priv hdr tbl \<longrightarrow> m i = ram s i)"
  using os2_write_run [OF rdy buf] sel by (simp add: disk_write_auto_def)

text \<open>The adapters keep the contract of \<open>range_store\<close> for the sectors that 28 bits can name.\<close>

interpretation disk28: range_store
  "\<lambda>l a. disk_read_auto hw l (word_of_nat a)" "\<lambda>l a. disk_write_auto hw l (word_of_nat a)"
  "\<lambda>s. rw_ready hw V L hdr tbl s \<and> selected_drive_idx s \<noteq> 99" "s_sect V" "sata_priv hdr tbl" "{l. take_bit 28 l = l}"
  for hw V L hdr tbl
proof unfold_locales
  fix s :: "('a, 'b) os2_disk_scheme" and l a
  assume rdy: "rw_ready hw V L hdr tbl s \<and> selected_drive_idx s \<noteq> 99"
  then show "length (s_sect V (dev s) l) = 512" by (simp add: rw_ready_def sata28_spec_def)
  assume buf: "clear_of (sata_priv hdr tbl) a 512" "a + 512 \<le> 2 ^ 32" and l: "l \<in> {l. take_bit 28 l = l}"
  have u: "unat (word_of_nat a :: u64) = a" using buf(2) by (intro unat_word_of_nat) simp
  show "\<exists>m d. run_state (disk_read_auto hw l (word_of_nat a)) s = (True, s\<lparr>ram := m, dev := d\<rparr>)
      \<and> (rw_ready hw V L hdr tbl (s\<lparr>ram := m, dev := d\<rparr>) \<and> selected_drive_idx (s\<lparr>ram := m, dev := d\<rparr>) \<noteq> 99)
      \<and> s_sect V d = s_sect V (dev s) \<and> rd_bytes m a 512 = s_sect V (dev s) l
      \<and> (\<forall>i. i \<notin> sata_priv hdr tbl \<longrightarrow> i < a \<or> a + 512 \<le> i \<longrightarrow> m i = ram s i)"
    using disk_read_run [of hw V L hdr tbl s "word_of_nat a" l] rdy buf(1) l by (auto simp: u)
  show "\<exists>m d. run_state (disk_write_auto hw l (word_of_nat a)) s = (True, s\<lparr>ram := m, dev := d\<rparr>)
      \<and> (rw_ready hw V L hdr tbl (s\<lparr>ram := m, dev := d\<rparr>) \<and> selected_drive_idx (s\<lparr>ram := m, dev := d\<rparr>) \<noteq> 99)
      \<and> s_sect V d = (s_sect V (dev s))(l := rd_bytes (ram s) a 512)
      \<and> (\<forall>i. i \<notin> sata_priv hdr tbl \<longrightarrow> m i = ram s i)"
    using disk_write_run [of hw V L hdr tbl s "word_of_nat a" l] rdy buf(1) l by (auto simp: u)
qed

subsection \<open>A reference controller\<close>

text \<open>The controller of theory \<open>Sata\<close>, executing 28-bit commands.\<close>

definition ref28_write32 :: "nat \<Rightarrow> nat \<Rightarrow> u32 \<Rightarrow> mem \<times> ref_disk \<Rightarrow> mem \<times> ref_disk" where
  "ref28_write32 p a v = (\<lambda>(m, d).
     if a = p + P_CI then
       (let hdr = unat (rc_clb d); tbl = unat (rd64 m (hdr + 8)); buf = unat (rd64 m (tbl + 128)) in
        if fis28_ok m hdr tbl True then
          (m, d\<lparr>rc_sect := (ref_sect d)(lba28 m tbl := rd_bytes m buf 512), rc_busy := 3, rc_slot := 0\<rparr>)
        else if fis28_ok m hdr tbl False then
          (wr_bytes buf (ref_sect d (lba28 m tbl)) m, d\<lparr>rc_busy := 3, rc_slot := 0\<rparr>)
        else (m, d))
     else (m, d))"

definition ref28_hw :: "nat \<Rightarrow> ref_disk hw" where
  "ref28_hw p = (ref_hw p)\<lparr>hw_write32 := ref28_write32 p\<rparr>"

lemma ref28_spec: "sata28_spec (ref28_hw p) p ref_view 3"
  unfolding sata28_spec_def
proof (intro conjI allI impI)
  show "sata_idle_regs (ref28_hw p) p ref_view"
    by (auto simp: sata_idle_regs_def sata_keeps_def ref28_hw_def ref_hw_def ref_view_def ref_read32_def
        ref28_write32_def port_regs)
  show "sata_busy_regs (ref28_hw p) p ref_view"
    by (auto simp: sata_busy_regs_def sata_keeps_def ref28_hw_def ref_hw_def ref_view_def ref_read32_def
        port_regs bit_simps)
  show "sata28_issue (ref28_hw p) p ref_view 3"
    unfolding sata28_issue_def Let_def
  proof (intro allI impI)
    fix m :: mem and d :: ref_disk and w
    assume ok: "fis28_ok m (unat (s_clb ref_view d)) (unat (rd64 m (unat (s_clb ref_view d) + 8))) w"
    let ?tbl = "unat (rd64 m (unat (s_clb ref_view d) + 8))"
    have dir: "\<not> fis28_ok m hdr tbl False" if "fis28_ok m hdr tbl True" for hdr tbl
      using that by (auto simp: fis28_ok_def)
    have full: "ref_sect (d\<lparr>rc_sect := (ref_sect d)(l := rd_bytes m b 512), rc_busy := 3, rc_slot := 0\<rparr>)
        = (ref_sect d)(l := rd_bytes m b 512)" for l b
      by (auto simp: ref_sect_def fun_eq_iff)
    show "\<exists>d'. hw_write32 (ref28_hw p) (p + P_CI) 1 (m, d)
          = (if w then m else wr_bytes (unat (rd64 m (?tbl + 128))) (s_sect ref_view d (lba28 m ?tbl)) m, d')
        \<and> s_clb ref_view d' = s_clb ref_view d \<and> s_busy ref_view d' \<le> 3 \<and> s_slot ref_view d' = 0
        \<and> s_sect ref_view d' = (if w then (s_sect ref_view d)(lba28 m ?tbl := rd_bytes m (unat (rd64 m (?tbl + 128))) 512)
            else s_sect ref_view d)"
      using ok dir full by (cases w) (auto simp: ref28_hw_def ref28_write32_def Let_def ref_view_def)
  qed
  show "length (s_sect ref_view d l) = 512" for d l by (simp add: ref_view_def ref_sect_length)
qed (auto simp: ref28_hw_def ref_hw_def ref_read32_def port_regs ref_view_def)

text \<open>The kernel with its SATA port at 0xFEBF1100: command list at 0x800000, table at 0x801000.\<close>

definition ref28_machine :: "(u32 \<Rightarrow> u8 list) \<Rightarrow> ref_disk os2_disk" where
  "ref28_machine f = \<lparr>ram = wr64 0x800008 0x801000 (\<lambda>_. 0),
     dev = \<lparr>rc_clb = 0x800000, rc_sect = f, rc_busy = 0, rc_slot = 0\<rparr>,
     cmd_status = [], hw_usb = [], hw_disk = [], global_active_port = 0, global_ahci_abar = 0, ahci_scan_state = 0,
     ahci_scan_timer = 0, drives = [], drive_count = 0, ahci_found_ports_bitmask = 0, is_ahci_found = True,
     ahci_bar5 = 0, usb_io_base = 0, uhci_base_port = 0, tba_block_idx = 0, tba_current_lba = 3000, rtl_io_base = 0,
     intel_mem_base = 0, mac_addr = [], mac_str = [], tx_cur = 0, rx_idx_rtl = 0, rx_cur_intel = 0, tx_cur_intel = 0,
     ip_address = [], net_mask = [], gateway_ip = [], rng_seed = 1, xhci_db_base = 0, xhci_cmd_idx = 0,
     xhci_cmd_cycle = 1, xhci_ev_idx = 0, xhci_ev_cycle = 1, usb_out_idx = 0, usb_in_idx = 0, global_mouse_slot = 1,
     mouse_trb_idx = 0, mouse_trb_cycle = 1, xhci_event_ring_base = 0x08020000,
     xhci_event_dequeue_idx = 0, xhci_event_cycle = 1, xhci_runtime_regs = 0, xhci_base_addr = 0,
     os2_idt = [], system_ticks = 0, task_quantum = 0, tasks = [], current_task = 0, num_tasks = 1, os2_irqs = True,
     key_scancode = 0, key_ready = False, active_ahci_bar5 = 0xFEBF1000, active_sata_port = 0,
     detected_ports = replicate 8 0, detected_port_count = 1, selected_drive_idx = 0,
     os2_net_vendor = 0, os2_net_device = 0, os2_net_bar0 = 0, e1000_mmio_base = 0\<rparr>"

lemma ref28_ready: "rw_ready (ref28_hw 0xFEBF1100) ref_view 3 0x800000 0x801000 (ref28_machine f)"
proof -
  have "hba_ports 0xFEBF1000 0 = 0xFEBF1100" by (simp add: hba_ports_def)
  then show ?thesis using ref28_spec [of "0xFEBF1100"] by (simp add: rw_ready_def ref28_machine_def ref_view_def)
qed

subsection \<open>Properties\<close>

text \<open>
  Property C6. Reading from a SATA drive through the adapter, on a controller that behaves as
  documented: success, the buffer holds the sector with the lower 28 bits of the number asked
  for, no sector and no other memory outside the driver's own changes, and the driver is ready
  for the next command.
\<close>

theorem disk_read_auto_correct:
  assumes rdy: "rw_ready hw V L hdr tbl s" and sel: "selected_drive_idx s \<noteq> 99"
    and buf: "clear_of (sata_priv hdr tbl) (unat a) 512"
  shows "\<exists>m d. run_state (disk_read_auto hw lba a) s = (True, s\<lparr>ram := m, dev := d\<rparr>)
    \<and> rw_ready hw V L hdr tbl (s\<lparr>ram := m, dev := d\<rparr>) \<and> s_sect V d = s_sect V (dev s)
    \<and> rd_bytes m (unat a) 512 = s_sect V (dev s) (take_bit 28 lba)
    \<and> (\<forall>i. i \<notin> sata_priv hdr tbl \<longrightarrow> i < unat a \<or> unat a + 512 \<le> i \<longrightarrow> m i = ram s i)"
  by (rule disk_read_run [OF rdy sel buf])

theorem disk_read_auto_correct_witness:
  "\<exists>s'. run_state (disk_read_auto (ref28_hw 0xFEBF1100) 0x30000007 0x2000) (ref28_machine (\<lambda>l. replicate 512 (ucast l)))
      = (True, s') \<and> rd_bytes (ram s') 0x2000 512 = replicate 512 7"
  using disk_read_auto_correct [OF ref28_ready [of "\<lambda>l. replicate 512 (ucast l)"], where a = "0x2000" and lba = "0x30000007"]
  by (auto simp: clear_of_def sata_priv_def ref28_machine_def ref_view_def ref_sect_def)

text \<open>
  Property C13. What the write adapter stores from one buffer, the read adapter brings back into
  another: from the sector written, and from every sector number that differs from it only
  above bit 27.
\<close>

theorem disk_auto_read_back:
  assumes rdy: "rw_ready hw V L hdr tbl s" and sel: "selected_drive_idx s \<noteq> 99"
    and bufs: "clear_of (sata_priv hdr tbl) (unat a) 512" "clear_of (sata_priv hdr tbl) (unat b) 512"
    and same: "take_bit 28 lba' = take_bit 28 lba"
  shows "\<exists>m d. run_state (do { disk_write_auto hw lba a; disk_read_auto hw lba' b }) s
      = (True, s\<lparr>ram := m, dev := d\<rparr>) \<and> rd_bytes m (unat b) 512 = rd_bytes (ram s) (unat a) 512"
proof -
  obtain m d where w: "run_state (disk_write_auto hw lba a) s = (True, s\<lparr>ram := m, dev := d\<rparr>)"
    "rw_ready hw V L hdr tbl (s\<lparr>ram := m, dev := d\<rparr>)"
    "s_sect V d = (s_sect V (dev s))(take_bit 28 lba := rd_bytes (ram s) (unat a) 512)"
    using disk_write_run [OF rdy sel bufs(1), of lba] by auto
  have "selected_drive_idx (s\<lparr>ram := m, dev := d\<rparr>) \<noteq> 99" using sel by simp
  from disk_read_run [OF w(2) this bufs(2), of lba'] obtain m' d' where
    r: "run_state (disk_read_auto hw lba' b) (s\<lparr>ram := m, dev := d\<rparr>) = (True, s\<lparr>ram := m, dev := d\<rparr>\<lparr>ram := m', dev := d'\<rparr>)"
    "rd_bytes m' (unat b) 512 = s_sect V d (take_bit 28 lba')" by auto
  then show ?thesis using w(1,3) same by (intro exI [of _ m'] exI [of _ d']) simp
qed

theorem disk_auto_read_back_witness:
  "\<exists>s'. run_state (do { disk_write_auto (ref28_hw 0xFEBF1100) 9 0x1000; disk_read_auto (ref28_hw 0xFEBF1100) 0x10000009 0x2000 })
      (ref28_machine (\<lambda>_. [])) = (True, s') \<and> rd_bytes (ram s') 0x2000 512 = replicate 512 0"
proof -
  have "rd_bytes (ram (ref28_machine (\<lambda>_. []))) 0x1000 512 = replicate 512 0"
    by (rule nth_equalityI) (simp_all add: rd_bytes_def ref28_machine_def wr64_other)
  then show ?thesis
    using disk_auto_read_back [OF ref28_ready [of "\<lambda>_. []"], where a = "0x1000" and b = "0x2000" and lba = 9 and lba' = "0x10000009"]
    by (auto simp: clear_of_def sata_priv_def ref28_machine_def)
qed

text \<open>
  Without a controller the adapters for a SATA drive fail at once: a read leaves
  zeros in the buffer and nothing else changed, a write changes nothing at all.
\<close>

theorem disk_auto_without_controller:
  assumes "active_ahci_bar5 s = 0" "selected_drive_idx s \<noteq> 99"
  shows "run_state (disk_read_auto hw lba a) s = (False, s\<lparr>ram := zero_fill (unat a) 512 (ram s)\<rparr>)
    \<and> run_state (disk_write_auto hw lba a) s = (False, s)"
  using assms
  by (simp_all add: disk_read_auto_def disk_write_auto_def os2_read_sectors_def os2_write_sectors_def ahci_rw_def)

theorem disk_auto_without_controller_witness:
  "fst (run_state (disk_read_auto (ref28_hw 0) 5 0x2000) ((ref28_machine (\<lambda>_. []))\<lparr>active_ahci_bar5 := 0\<rparr>)) = False"
  using disk_auto_without_controller [of "(ref28_machine (\<lambda>_. []))\<lparr>active_ahci_bar5 := 0\<rparr>" "ref28_hw 0" 5 "0x2000"]
  by (simp add: ref28_machine_def)

subsection \<open>The scans\<close>

text \<open>At most eight ports are recorded, each of them one of the 32 of a controller.\<close>

definition ports_ok :: "('d, 'z) os2_disk_scheme \<Rightarrow> bool" where
  "ports_ok s \<longleftrightarrow> length (detected_ports s) = 8 \<and> detected_port_count s \<le> 8
     \<and> (\<forall>p \<in> set (take (detected_port_count s) (detected_ports s)). p < 32)"

lemma ports_ok_hw: "ports_ok s \<Longrightarrow> ports_ok (s\<lparr>ram := m, dev := d\<rparr>)"
  by (simp add: ports_ok_def)

lemma ports_ok_add:
  assumes "ports_ok s" "detected_port_count s < 8" "i < 32"
  shows "ports_ok (s\<lparr>detected_ports := (detected_ports s)[detected_port_count s := i],
    detected_port_count := detected_port_count s + 1\<rparr>)"
  using assms by (auto simp: ports_ok_def take_Suc_conv_app_nth take_update_past)

text \<open>What a scan keeps: the table of ports, and that its window stays within its text buffer.\<close>

definition scans_well :: "(('d, 'z) os2_disk_scheme, window) state \<Rightarrow> bool" where
  "scans_well c \<longleftrightarrow> (\<forall>s. ports_ok s \<longrightarrow> win_ok (fst (run_state c s)) \<and> ports_ok (snd (run_state c s)))"

lemma scans_return: "win_ok w \<Longrightarrow> scans_well (State_Monad.return w)"
  by (simp add: scans_well_def)

lemma scans_bind_hw:
  assumes "touches_hw c" "\<And>x. scans_well (f x)"
  shows "scans_well (do { x \<leftarrow> c; f x })"
  unfolding scans_well_def
proof (intro allI impI)
  fix s :: "('a, 'b) os2_disk_scheme"
  assume s: "ports_ok s"
  obtain x m d where r: "run_state c s = (x, s\<lparr>ram := m, dev := d\<rparr>)" using touches_run [OF assms(1)] by blast
  then show "win_ok (fst (run_state (do { x \<leftarrow> c; f x }) s)) \<and> ports_ok (snd (run_state (do { x \<leftarrow> c; f x }) s))"
    using assms(2) [of x] ports_ok_hw [OF s] by (simp add: scans_well_def)
qed

lemma scans_bind:
  assumes "scans_well c" "\<And>w. win_ok w \<Longrightarrow> scans_well (f w)"
  shows "scans_well (do { w \<leftarrow> c; f w })"
  using assms by (auto simp: scans_well_def split: prod.splits)

lemma scans_modify:
  assumes "\<And>s. ports_ok s \<Longrightarrow> ports_ok (g s)" "scans_well c"
  shows "scans_well (do { modify g; c })"
  using assms by (simp add: scans_well_def)

lemma scans_if: "scans_well c \<Longrightarrow> scans_well c' \<Longrightarrow> scans_well (if b then c else c')"
  by simp

lemma touches_os2_pci [hw_only]: "touches_hw (os2_pci_read hw b s f off)" "touches_hw (os2_pci_write hw b s f off v)"
  unfolding os2_pci_read_def os2_pci_write_def by (intro hw_only)+

lemma scans_probe_port:
  assumes "i < 32" "win_ok w"
  shows "scans_well (probe_port hw bar i w)"
proof -
  let ?w = "print_win [char_of (48 + i)] (print_win ''PORT '' w)"
  let ?rest = "do {
       sig \<leftarrow> mmio_read32 hw (hba_ports bar i + P_SIG);
       if sig = 0x00000101 then State_Monad.return (print_win '': SATA HDD\<newline>'' ?w)
       else do {
         sig \<leftarrow> mmio_read32 hw (hba_ports bar i + P_SIG);
         State_Monad.return (print_win (if sig = SATA_SIG_ATAPI then '': CD/DVD ROM\<newline>'' else '': UNKNOWN\<newline>'') ?w)
       }
     } :: (('a, 'b) os2_disk_scheme, window) state"
  have rest: "scans_well ?rest"
    by (intro scans_bind_hw hw_only scans_if scans_return print_win_keeps assms(2))
  have "scans_well (do { n \<leftarrow> gets detected_port_count;
      if b \<and> n < 8 then do {
        modify (\<lambda>s. s\<lparr>detected_ports := (detected_ports s)[n := i], detected_port_count := n + 1\<rparr>); ?rest }
      else State_Monad.return w })" for b
    using rest assms ports_ok_add [OF _ _ assms(1)] by (auto simp: scans_well_def)
  from scans_bind_hw [OF touches_ports(1) this] have "scans_well (do { ssts \<leftarrow> mmio_read32 hw (hba_ports bar i + P_SSTS); n \<leftarrow> gets detected_port_count;
      if (ssts AND 0x0F = 3 \<and> drop_bit 8 ssts AND 0x0F = 1) \<and> n < 8 then do {
        modify (\<lambda>s. s\<lparr>detected_ports := (detected_ports s)[n := i], detected_port_count := n + 1\<rparr>); ?rest }
      else State_Monad.return w })"
    .
  then show ?thesis by (simp only: probe_port_def Let_def conj_assoc)
qed

lemma scans_probe_ports: "\<forall>i \<in> set is. i < 32 \<Longrightarrow> win_ok w \<Longrightarrow> scans_well (probe_ports hw bar is w)"
proof (induction "is" arbitrary: w)
  case (Cons i "is")
  then show ?case
    by (auto intro!: scans_bind_hw hw_only scans_bind [of "if b then probe_port hw bar i w else State_Monad.return w" for b]
        scans_if scans_return scans_probe_port)
qed (simp add: scans_return)

lemma scans_probe_places: "win_ok w \<Longrightarrow> scans_well (probe_places hw ps w)"
proof (induction ps arbitrary: w)
  case (Cons p ps)
  obtain b s f where p: "p = (b, s, f)" by (cases p) auto
  have find: "scans_well (if c then do {
         cmd \<leftarrow> os2_pci_read hw b s f 4;
         os2_pci_write hw b s f 4 (cmd OR 6);
         bar5 \<leftarrow> os2_pci_read hw b s f 0x24;
         let bar5 = bar5 AND 0xFFFFFFF0;
         modify (\<lambda>st. st\<lparr>active_ahci_bar5 := bar5\<rparr>);
         probe_ports hw bar5 [0..<32] w } else State_Monad.return w)" for c
    unfolding Let_def
    by (intro scans_if scans_bind_hw hw_only scans_modify scans_probe_ports scans_return Cons.prems)
      (simp_all add: ports_ok_def)
  show ?case unfolding p probe_places.simps
    by (intro scans_bind_hw scans_bind [OF find] hw_only Cons.IH)
qed (simp add: scans_return)

text \<open>
  The drive scan: whatever the PCI bus and the controllers answer, at most eight
  ports are recorded, each of them between 0 and 31, and the text in the
  window of the disk manager stays inside its buffer.
\<close>

theorem drive_scan_bounds:
  fixes s :: "('d, 'z) os2_disk_scheme"
  assumes "length (detected_ports s) = 8" "win_ok w"
  shows "case run_state (scan_pci_drives hw w) s of (w', s') \<Rightarrow> win_ok w' \<and> ports_ok s'"
proof -
  let ?s = "s\<lparr>detected_port_count := 0, selected_drive_idx := - 1\<rparr>"
  let ?c = "probe_places hw (pci_places 8)
       (print_win ''COSMOS AHCI SCANNER V6\<newline>--------------------------\<newline>'' w) :: (('d, 'z) os2_disk_scheme, window) state"
  have "ports_ok ?s" using assms(1) by (simp add: ports_ok_def)
  moreover have "scans_well ?c" by (intro scans_probe_places print_win_keeps assms)
  ultimately have ok: "win_ok (fst (run_state ?c ?s)) \<and> ports_ok (snd (run_state ?c ?s))" by (simp add: scans_well_def)
  obtain w1 s1 where r: "run_state ?c ?s = (w1, s1)" by fastforce
  then show ?thesis using ok by (simp add: scan_pci_drives_def print_win_keeps)
qed

definition blank_window :: "nat \<Rightarrow> window" where
  "blank_window i = \<lparr>win_id = i, win_title = [], win_x = 0, win_y = 0, win_w = 100, win_h = 100, win_open = False,
     win_minimized = False, win_fullscreen = False, win_color = 0, win_content = replicate 2048 (CHR 0x00), win_cursor = 0\<rparr>"

lemma blank_window_ok: "win_ok (blank_window i)"
  by (simp add: win_ok_def blank_window_def)

theorem drive_scan_bounds_witness:
  "win_ok (fst (run_state (scan_pci_drives (ref28_hw 0) (blank_window 4)) (ref28_machine (\<lambda>_. []))))"
  using drive_scan_bounds [of "ref28_machine (\<lambda>_. [])" "blank_window 4" "ref28_hw 0"] blank_window_ok
  by (simp add: case_prod_beta ref28_machine_def)

text \<open>The wait of \<open>ahci_identify\<close> has no bound: a controller that keeps the command pending holds it for ever.\<close>

lemma identify_wait_never:
  assumes "\<And>m d. \<exists>v d'. hw_read32 hw (port + P_CI) (m, d) = (v, (m, d')) \<and> bit v 0"
    and "\<And>m d. \<exists>v d'. hw_read32 hw (port + P_IS) (m, d) = (v, (m, d')) \<and> \<not> bit v 30"
  shows "fst (run_state (identify_wait hw port n) s) = None"
proof (induction n arbitrary: s)
  case (Suc n)
  obtain v d where ci: "hw_read32 hw (port + P_CI) (ram s, dev s) = (v, (ram s, d))" "bit v 0" using assms(1) by blast
  obtain v' d' where isr: "hw_read32 hw (port + P_IS) (ram s, d) = (v', (ram s, d'))" "\<not> bit v' 30" using assms(2) by blast
  show ?case
    using run_read32 [OF ci(1)] run_read32 [of hw "port + P_IS" "s\<lparr>ram := ram s, dev := d\<rparr>" v' "ram s" d'] isr ci(2) Suc
    by simp
qed simp

end
