(* ===== verification/Os2_Desk.thy ===== *)
theory Os2_Desk
  imports Os2_Disk
begin

text \<open>
  The input side of the second kernel (\<open>kernel_main.cpp\<close>): the PS/2 controller, the mouse and
  its packets, the clock, and what the main loop does to the windows when the mouse moves or
  clicks.
\<close>

subsection \<open>State\<close>

text \<open>The globals of the input engine and of the window manager, in the order of the file.\<close>

record 'd desk = "'d os2_disk" +
  save_step :: int
  save_filename :: string
  save_name_idx :: nat
  new_folder_name :: string
  folder_name_idx :: nat
  rtc_h :: nat
  rtc_m :: nat
  rtc_day :: nat
  rtc_mon :: nat
  rtc_year :: nat
  mouse_x :: int
  mouse_y :: int
  mouse_down :: bool
  mouse_just_pressed :: bool
  mouse_sub_x :: int
  mouse_sub_y :: int
  m_packet :: "u8 list"
  m_ptr :: nat
  input_cooldown :: int
  click_consumed :: bool
  win_z :: "nat list"
  windows :: "window list"
  drag_win :: int
  drag_off_x :: int
  drag_off_y :: int
  resize_win :: int
  z_blocked :: bool
  sys_selected_item :: int
  last_window_click :: u64
  cmd_input_buf :: string
  cmd_input_idx :: nat

definition mouse_sens :: int where "mouse_sens = 75"

subsection \<open>The PS/2 controller and the clock\<close>

text \<open>\<open>mouse_wait\<close>: \<open>while (t--)\<close> with 100000 tries; a full wait and an early return look the same to the caller.\<close>

definition mouse_wait :: "'d hw \<Rightarrow> u8 \<Rightarrow> ('d, 'z, unit) op" where
  "mouse_wait hw typ = do {
     _ \<leftarrow> poll_for (do {
       a \<leftarrow> (if typ = 0 then do { b \<leftarrow> inb hw 0x64; State_Monad.return (b AND 1 \<noteq> 0) } else State_Monad.return False);
       if a then State_Monad.return True
       else if typ = 1 then do { b \<leftarrow> inb hw 0x64; State_Monad.return (b AND 2 = 0) }
       else State_Monad.return False
     }) 100000;
     skip
   }"

definition mouse_write :: "'d hw \<Rightarrow> u8 \<Rightarrow> ('d, 'z, unit) op" where
  "mouse_write hw w = do { mouse_wait hw 1; outb hw 0x64 0xD4; mouse_wait hw 1; outb hw 0x60 w }"

definition mouse_read :: "'d hw \<Rightarrow> ('d, 'z, u8) op" where
  "mouse_read hw = do { mouse_wait hw 0; inb hw 0x60 }"

definition init_mouse :: "'d hw \<Rightarrow> ('d, 'z, unit) op" where
  "init_mouse hw = do {
     mouse_wait hw 1; outb hw 0x64 0xA8;
     mouse_wait hw 1; outb hw 0x64 0x20;
     mouse_wait hw 0; b \<leftarrow> inb hw 0x60;
     let s = b OR 2;
     mouse_wait hw 1; outb hw 0x64 0x60;
     mouse_wait hw 1; outb hw 0x60 s;
     mouse_write hw 0xF6; _ \<leftarrow> mouse_read hw;
     mouse_write hw 0xF4; _ \<leftarrow> mouse_read hw;
     skip
   }"

definition cmos :: "'d hw \<Rightarrow> u8 \<Rightarrow> ('d, 'z, nat) op" where
  "cmos hw r = do { outb hw 0x70 r; b \<leftarrow> inb hw 0x71; State_Monad.return (unat (bcd2bin b)) }"

definition read_rtc :: "'d hw \<Rightarrow> (('d, 'z) desk_scheme, unit) state" where
  "read_rtc hw = do {
     h \<leftarrow> cmos hw 4; modify (\<lambda>s. s\<lparr>rtc_h := h\<rparr>);
     mi \<leftarrow> cmos hw 2; modify (\<lambda>s. s\<lparr>rtc_m := mi\<rparr>);
     d \<leftarrow> cmos hw 7; modify (\<lambda>s. s\<lparr>rtc_day := d\<rparr>);
     mo \<leftarrow> cmos hw 8; modify (\<lambda>s. s\<lparr>rtc_mon := mo\<rparr>);
     y \<leftarrow> cmos hw 9; modify (\<lambda>s. s\<lparr>rtc_year := y\<rparr>);
     modify (\<lambda>s. s\<lparr>rtc_h := (rtc_h s + 1) mod 24\<rparr>)
   }"

subsection \<open>The mouse\<close>

definition signed_char :: "int \<Rightarrow> int" where
  "signed_char v = sint (word_of_int v :: u8)"

text \<open>One axis of \<open>update_mouse_position\<close>: the pixel and the sub-pixel account, clamped to \<open>0..hi\<close>.\<close>

definition move_axis :: "int \<Rightarrow> int \<Rightarrow> int \<Rightarrow> int \<times> int" where
  "move_axis hi sub d = (let sub = sub + signed_char d * mouse_sens; new = c_div sub 100;
     (new, sub) = (if new < 0 then (0, 0) else (new, sub))
   in if hi < new then (hi, hi * 100) else (new, sub))"

definition update_mouse_position :: "int \<Rightarrow> int \<Rightarrow> int \<Rightarrow> ('d, 'z) desk_scheme \<Rightarrow> ('d, 'z) desk_scheme" where
  "update_mouse_position dx dy btn s =
     (let (x, sx) = move_axis 799 (mouse_sub_x s) dx;
          (y, sy) = move_axis 599 (mouse_sub_y s) dy;
          left = odd btn
      in s\<lparr>mouse_sub_x := sx, mouse_sub_y := sy, mouse_x := x, mouse_y := y,
           mouse_just_pressed := left \<and> \<not> mouse_down s, mouse_down := left\<rparr>)"

text \<open>Three bytes of a packet: 9-bit two's complement movements, y upwards.\<close>

definition packet_delta :: "u8 \<Rightarrow> bool \<Rightarrow> int" where
  "packet_delta b neg = (if neg then uint b - 256 else uint b)"

definition eval_packet :: "u8 list \<Rightarrow> ('d, 'z) desk_scheme \<Rightarrow> ('d, 'z) desk_scheme" where
  "eval_packet p s = update_mouse_position (packet_delta (p ! 1) (bit (p ! 0) 4))
     (- packet_delta (p ! 2) (bit (p ! 0) 5)) (uint (p ! 0 AND 7)) s"

definition mouse_byte :: "u8 \<Rightarrow> ('d, 'z) desk_scheme \<Rightarrow> ('d, 'z) desk_scheme" where
  "mouse_byte d s =
     (let s = s\<lparr>m_packet := (m_packet s)[m_ptr s := d]\<rparr> in
      if m_ptr s = 0 \<and> \<not> bit d 3 then s
      else (let s = s\<lparr>m_ptr := m_ptr s + 1\<rparr> in
        if m_ptr s = 3 then (let s = s\<lparr>m_ptr := 0\<rparr> in eval_packet (m_packet s) s) else s))"

fun input_loop :: "'d hw \<Rightarrow> nat \<Rightarrow> (('d, 'z) desk_scheme, unit) state" where
  "input_loop hw 0 = skip"
| "input_loop hw (Suc n) = do {
     st \<leftarrow> inb hw 0x64;
     if \<not> bit st 0 then skip
     else do {
       d \<leftarrow> inb hw 0x60;
       modify (if bit st 5 then mouse_byte d else (\<lambda>s. s\<lparr>key_scancode := d, key_ready := True\<rparr>));
       input_loop hw n
     }
   }"

definition handle_input :: "'d hw \<Rightarrow> (('d, 'z) desk_scheme, unit) state" where
  "handle_input hw = do { modify (\<lambda>s. s\<lparr>mouse_just_pressed := False\<rparr>); input_loop hw 32 }"

subsection \<open>The windows\<close>

definition upd_window :: "nat \<Rightarrow> (window \<Rightarrow> window) \<Rightarrow> ('d, 'z) desk_scheme \<Rightarrow> ('d, 'z) desk_scheme" where
  "upd_window k f s = s\<lparr>windows := (windows s)[k := f (windows s ! k)]\<rparr>"

definition toggle_app :: "nat \<Rightarrow> ('d, 'z) desk_scheme \<Rightarrow> ('d, 'z) desk_scheme" where
  "toggle_app i s = (let w = windows s ! i in
     if win_open w \<and> \<not> win_minimized w \<and> win_z s ! 12 = win_id w
     then upd_window i (\<lambda>w. w\<lparr>win_minimized := True\<rparr>) s
     else (upd_window i (\<lambda>w. w\<lparr>win_open := True, win_minimized := False\<rparr>) s)\<lparr>win_z := focus_window (win_id w) (win_z s)\<rparr>)"

text \<open>The rectangle a window occupies, and whether the pointer is in it.\<close>

definition win_rect :: "window \<Rightarrow> int \<times> int \<times> int \<times> int" where
  "win_rect w = (if win_fullscreen w then (0, 0, 800, 600) else (win_x w, win_y w, win_w w, win_h w))"

definition pointer_in :: "int \<Rightarrow> int \<Rightarrow> window \<Rightarrow> bool" where
  "pointer_in mx my w = (let (wx, wy, ww, wh) = win_rect w in
     win_open w \<and> \<not> win_minimized w \<and> wx \<le> mx \<and> mx \<le> wx + ww \<and> wy \<le> my \<and> my \<le> wy + wh)"

text \<open>A button of the title bar acts at most once in 250 ticks.\<close>

definition debounced :: "nat \<Rightarrow> (window \<Rightarrow> window) \<Rightarrow> ('d, 'z) desk_scheme \<Rightarrow> ('d, 'z) desk_scheme" where
  "debounced k f s = (if system_ticks s - last_window_click s > 250
     then (upd_window k f s)\<lparr>last_window_click := system_ticks s\<rparr> else s)"

definition press_window :: "nat \<Rightarrow> ('d, 'z) desk_scheme \<Rightarrow> ('d, 'z) desk_scheme" where
  "press_window k s =
     (let (wx, wy, ww, wh) = win_rect (windows s ! k);
          bx = wx + c_div ww 2;
          s = s\<lparr>click_consumed := True, win_z := focus_window k (win_z s)\<rparr>;
          s = (if mouse_y s < wy + 40 then
                 if bx - 70 < mouse_x s \<and> mouse_x s < bx - 30 then debounced k (\<lambda>w. w\<lparr>win_minimized := True\<rparr>) s
                 else if bx - 20 < mouse_x s \<and> mouse_x s < bx + 40
                   then debounced k (\<lambda>w. w\<lparr>win_fullscreen := \<not> win_fullscreen w\<rparr>) s
                 else if bx + 45 < mouse_x s \<and> mouse_x s < bx + 70 then debounced k (\<lambda>w. w\<lparr>win_open := False\<rparr>) s
                 else s\<lparr>drag_win := int k, drag_off_x := mouse_x s - wx, drag_off_y := mouse_y s - wy\<rparr>
               else s)
      in if wx + ww - 20 < mouse_x s \<and> wy + wh - 20 < mouse_y s then s\<lparr>resize_win := int k\<rparr> else s)"

fun hit_loop :: "nat list \<Rightarrow> ('d, 'z) desk_scheme \<Rightarrow> ('d, 'z) desk_scheme" where
  "hit_loop [] s = s"
| "hit_loop (k # ks) s =
     (if pointer_in (mouse_x s) (mouse_y s) (windows s ! k)
      then (let s = s\<lparr>z_blocked := True\<rparr> in if mouse_just_pressed s then press_window k s else s)
      else hit_loop ks s)"

text \<open>Dragging and resizing; the flag says whether the mouse has been dealt with.\<close>

definition drag_step :: "('d, 'z) desk_scheme \<Rightarrow> bool \<times> ('d, 'z) desk_scheme" where
  "drag_step s =
     (if mouse_down s then
        if drag_win s \<noteq> - 1 then
          (True, (upd_window (nat (drag_win s)) (\<lambda>w. w\<lparr>win_x := mouse_x s - drag_off_x s, win_y := mouse_y s - drag_off_y s\<rparr>) s)
             \<lparr>click_consumed := True\<rparr>)
        else if resize_win s \<noteq> - 1 then
          (let k = nat (resize_win s); nw = mouse_x s - win_x (windows s ! k); nh = mouse_y s - win_y (windows s ! k) in
           (True, (upd_window k (\<lambda>w. let w = (if 100 < nw then w\<lparr>win_w := nw\<rparr> else w)
              in if 100 < nh then w\<lparr>win_h := nh\<rparr> else w) s)\<lparr>click_consumed := True\<rparr>))
        else (False, s)
      else (False, s\<lparr>drag_win := - 1, resize_win := - 1\<rparr>))"

definition window_step :: "('d, 'z) desk_scheme \<Rightarrow> ('d, 'z) desk_scheme" where
  "window_step s = (let (handled, s) = drag_step s in if handled then s else hit_loop (rev (win_z s)) s)"

subsection \<open>What every step keeps\<close>

text \<open>The pointer is on the screen, with sub-pixel accounts that belong to it.\<close>

definition mouse_ok :: "('d, 'z) desk_scheme \<Rightarrow> bool" where
  "mouse_ok s \<longleftrightarrow> 0 \<le> mouse_x s \<and> mouse_x s \<le> 799 \<and> 0 \<le> mouse_y s \<and> mouse_y s \<le> 599
     \<and> - 100 < mouse_sub_x s \<and> mouse_sub_x s < 80000 \<and> - 100 < mouse_sub_y s \<and> mouse_sub_y s < 60000
     \<and> length (m_packet s) = 3 \<and> m_ptr s < 3"

definition wins_ok :: "('d, 'z) desk_scheme \<Rightarrow> bool" where
  "wins_ok s \<longleftrightarrow> z_ok (win_z s) \<and> length (windows s) = 13
     \<and> (\<forall>i < 13. win_id (windows s ! i) = i \<and> win_ok (windows s ! i))
     \<and> - 1 \<le> drag_win s \<and> drag_win s < 13 \<and> - 1 \<le> resize_win s \<and> resize_win s < 13"

definition bufs_ok :: "('d, 'z) desk_scheme \<Rightarrow> bool" where
  "bufs_ok s \<longleftrightarrow> length (cmd_input_buf s) = 64 \<and> cmd_input_idx s \<le> 60
     \<and> length (save_filename s) = 32 \<and> save_name_idx s \<le> 10
     \<and> length (new_folder_name s) = 32 \<and> folder_name_idx s \<le> 10
     \<and> 0 \<le> sys_selected_item s \<and> sys_selected_item s \<le> 4"

definition desk_ok :: "('d, 'z) desk_scheme \<Rightarrow> bool" where
  "desk_ok s \<longleftrightarrow> mouse_ok s \<and> wins_ok s \<and> bufs_ok s"

lemma signed_char_range: "- 128 \<le> signed_char v" "signed_char v \<le> 127"
proof -
  have "- (2 ^ (LENGTH(8) - 1)) \<le> sint (word_of_int v :: u8)" by (rule sint_ge)
  then show "- 128 \<le> signed_char v" by (simp add: signed_char_def)
  have "sint (word_of_int v :: u8) < 2 ^ (LENGTH(8) - 1)" by (rule sint_lt)
  then show "signed_char v \<le> 127" by (simp add: signed_char_def)
qed

lemma c_div_100: "c_div x 100 = (if x < 0 then - ((- x) div 100) else x div 100)"
  by (simp add: c_div_def sgn_if)

lemma move_axis_range:
  assumes "- 100 < sub" "sub < (hi + 1) * 100" "0 \<le> hi"
  shows "case move_axis hi sub d of (x, sub') \<Rightarrow> 0 \<le> x \<and> x \<le> hi \<and> - 100 < sub' \<and> sub' < (hi + 1) * 100"
proof -
  let ?sub = "sub + signed_char d * 75"
  have q: "c_div ?sub 100 = (if ?sub < 0 then - ((- ?sub) div 100) else ?sub div 100)" by (rule c_div_100)
  consider "?sub \<le> - 100" | "- 100 < ?sub" "?sub < (hi + 1) * 100" | "(hi + 1) * 100 \<le> ?sub" by linarith
  then show ?thesis
  proof cases
    case 1
    then have "c_div ?sub 100 < 0" unfolding q by auto
    then show ?thesis using assms(3) by (simp add: move_axis_def mouse_sens_def Let_def)
  next
    case 2
    then have "0 \<le> c_div ?sub 100 \<and> c_div ?sub 100 \<le> hi" unfolding q using assms(3) by auto
    then show ?thesis using 2 by (simp add: move_axis_def mouse_sens_def Let_def)
  next
    case 3
    then have "hi < c_div ?sub 100" unfolding q using assms(3) by auto
    then show ?thesis using assms(3) by (simp add: move_axis_def mouse_sens_def Let_def)
  qed
qed

lemma update_mouse_ok: "mouse_ok s \<Longrightarrow> mouse_ok (update_mouse_position dx dy btn s)"
  using move_axis_range [of "mouse_sub_x s" 799 dx] move_axis_range [of "mouse_sub_y s" 599 dy]
  by (auto simp: mouse_ok_def update_mouse_position_def Let_def split: prod.splits)

lemma mouse_byte_ok: "mouse_ok s \<Longrightarrow> mouse_ok (mouse_byte d s)"
  by (auto simp: mouse_byte_def Let_def eval_packet_def intro!: update_mouse_ok) (auto simp: mouse_ok_def)

lemma update_mouse_other [simp]:
  "wins_ok (update_mouse_position dx dy b s) = wins_ok s" "bufs_ok (update_mouse_position dx dy b s) = bufs_ok s"
  by (simp_all add: update_mouse_position_def wins_ok_def bufs_ok_def Let_def split: prod.splits)

lemma mouse_byte_keeps: "desk_ok s \<Longrightarrow> desk_ok (mouse_byte d s)"
proof -
  assume ok: "desk_ok s"
  have "wins_ok (mouse_byte d s) = wins_ok s" "bufs_ok (mouse_byte d s) = bufs_ok s"
    by (simp_all add: mouse_byte_def Let_def eval_packet_def) (simp_all add: wins_ok_def bufs_ok_def)
  then show ?thesis using ok by (simp add: desk_ok_def mouse_byte_ok)
qed

lemma desk_ok_key [simp]: "desk_ok (s\<lparr>key_scancode := k, key_ready := b\<rparr>) = desk_ok s"
  "desk_ok (s\<lparr>mouse_just_pressed := p\<rparr>) = desk_ok s"
  by (simp_all add: desk_ok_def mouse_ok_def wins_ok_def bufs_ok_def)

lemma desk_ok_hw: "desk_ok s \<Longrightarrow> desk_ok (s\<lparr>ram := m, dev := d\<rparr>)"
  by (simp add: desk_ok_def mouse_ok_def wins_ok_def bufs_ok_def)

lemma touches_preserve: "touches_hw c \<Longrightarrow> preserves desk_ok c"
  by (erule preserves_hw) (rule desk_ok_hw)

lemma touches_ps2 [hw_only]: "touches_hw (mouse_wait hw t)" "touches_hw (mouse_write hw w)" "touches_hw (mouse_read hw)"
  "touches_hw (init_mouse hw)" "touches_hw (cmos hw r)"
proof -
  show w: "touches_hw (mouse_wait hw t)" for t :: u8 unfolding mouse_wait_def by (intro hw_only)
  show "touches_hw (mouse_write hw w)" for w unfolding mouse_write_def by (intro hw_only w)
  show r: "touches_hw (mouse_read hw)" unfolding mouse_read_def by (intro hw_only w)
  show "touches_hw (init_mouse hw)" unfolding init_mouse_def mouse_write_def mouse_read_def by (intro hw_only w)
  show "touches_hw (cmos hw r)" unfolding cmos_def by (intro hw_only)
qed

lemma input_loop_keeps: "preserves desk_ok (input_loop hw n)"
proof (induction n)
  case (Suc n)
  show ?case unfolding input_loop.simps
    by (intro preserving Suc touches_preserve hw_only) (auto simp: mouse_byte_keeps)
qed (simp add: preserves_return)

lemma handle_input_keeps: "preserves desk_ok (handle_input hw)"
  unfolding handle_input_def by (intro preserving input_loop_keeps) simp

lemma read_rtc_keeps: "preserves desk_ok (read_rtc hw)"
  unfolding read_rtc_def
  by (intro preserving touches_preserve hw_only) (simp_all add: desk_ok_def mouse_ok_def wins_ok_def bufs_ok_def)

text \<open>A change of a window that keeps it in order and leaves its number alone, and of the stacking order.\<close>

lemma upd_window_keeps:
  assumes "desk_ok s" "\<And>w. win_ok w \<Longrightarrow> win_id (f w) = win_id w \<and> win_ok (f w)"
  shows "desk_ok (upd_window k f s)"
proof -
  have "win_id ((windows s)[k := f (windows s ! k)] ! i) = i \<and> win_ok ((windows s)[k := f (windows s ! k)] ! i)"
    if "i < 13" for i
    using that assms by (cases "i = k") (simp_all add: desk_ok_def wins_ok_def)
  then have "wins_ok (upd_window k f s)"
    using assms(1) by (simp add: upd_window_def desk_ok_def wins_ok_def)
  then show ?thesis using assms(1) by (simp add: desk_ok_def mouse_ok_def bufs_ok_def upd_window_def)
qed

lemma desk_ok_z: "desk_ok s \<Longrightarrow> desk_ok (s\<lparr>win_z := focus_window k (win_z s)\<rparr>)"
  using focus_window_keeps by (auto simp: desk_ok_def wins_ok_def mouse_ok_def bufs_ok_def)

lemma desk_ok_marks [simp]:
  "desk_ok (s\<lparr>click_consumed := b\<rparr>) = desk_ok s" "desk_ok (s\<lparr>z_blocked := b\<rparr>) = desk_ok s"
  "desk_ok (s\<lparr>last_window_click := t\<rparr>) = desk_ok s"
  by (simp_all add: desk_ok_def mouse_ok_def wins_ok_def bufs_ok_def)

lemma desk_ok_grab:
  "desk_ok s \<Longrightarrow> - 1 \<le> k \<Longrightarrow> k < 13 \<Longrightarrow> desk_ok (s\<lparr>drag_win := k, drag_off_x := x, drag_off_y := y\<rparr>)"
  "desk_ok s \<Longrightarrow> - 1 \<le> k \<Longrightarrow> k < 13 \<Longrightarrow> desk_ok (s\<lparr>resize_win := k\<rparr>)"
  "desk_ok s \<Longrightarrow> desk_ok (s\<lparr>drag_win := - 1, resize_win := - 1\<rparr>)"
  by (simp_all add: desk_ok_def mouse_ok_def wins_ok_def bufs_ok_def)

lemma toggle_app_keeps: "desk_ok s \<Longrightarrow> desk_ok (toggle_app i s)"
proof -
  assume ok: "desk_ok s"
  have 1: "desk_ok (upd_window i (\<lambda>w. w\<lparr>win_minimized := True\<rparr>) s)" by (rule upd_window_keeps [OF ok]) (simp add: win_ok_def)
  have "desk_ok (upd_window i (\<lambda>w. w\<lparr>win_open := True, win_minimized := False\<rparr>) s)" by (rule upd_window_keeps [OF ok]) (simp add: win_ok_def)
  then show ?thesis using desk_ok_z [of _ "win_id (windows s ! i)"] 1
    by (fastforce simp: toggle_app_def Let_def upd_window_def)
qed

lemma debounced_keeps:
  assumes "desk_ok s" "\<And>w. win_ok w \<Longrightarrow> win_id (f w) = win_id w \<and> win_ok (f w)"
  shows "desk_ok (debounced k f s)"
  using upd_window_keeps [OF assms] assms(1) by (simp add: debounced_def)

lemma press_window_keeps:
  assumes "desk_ok s" "k < 13"
  shows "desk_ok (press_window k s)"
proof -
  let ?s = "s\<lparr>click_consumed := True, win_z := focus_window k (win_z s)\<rparr>"
  have ok: "desk_ok ?s" using desk_ok_z [OF assms(1), of k] by (simp add: desk_ok_def mouse_ok_def wins_ok_def bufs_ok_def)
  have deb: "desk_ok (debounced k f ?s)"
    if "\<And>w. win_ok w \<Longrightarrow> win_id (f w) = win_id w \<and> win_ok (f w)" for f
    using debounced_keeps [OF ok that] .
  have m: "- 1 \<le> int k" "int k < 13" using assms(2) by simp_all
  note drag = desk_ok_grab(1) [OF ok m]
  obtain wx wy ww wh where r: "win_rect (windows s ! k) = (wx, wy, ww, wh)" by (cases "win_rect (windows s ! k)") auto
  show ?thesis
    unfolding press_window_def r Let_def case_prod_conv
    by (auto intro!: desk_ok_grab(2) [OF _ m] deb drag ok simp: win_ok_def)
qed

lemma hit_loop_keeps: "desk_ok s \<Longrightarrow> \<forall>k \<in> set ks. k < 13 \<Longrightarrow> desk_ok (hit_loop ks s)"
  by (induction ks) (auto simp: Let_def intro!: press_window_keeps)

lemma drag_step_keeps: "desk_ok s \<Longrightarrow> desk_ok (snd (drag_step s))"
proof -
  assume ok: "desk_ok s"
  have "desk_ok (upd_window k (\<lambda>w. let w = (if 100 < nw then w\<lparr>win_w := nw\<rparr> else w)
      in if 100 < nh then w\<lparr>win_h := nh\<rparr> else w) s)" for k nw nh
    by (rule upd_window_keeps [OF ok]) (simp add: Let_def win_ok_def)
  moreover have "desk_ok (upd_window k (\<lambda>w. w\<lparr>win_x := x, win_y := y\<rparr>) s)" for k x y
    by (rule upd_window_keeps [OF ok]) (simp add: win_ok_def)
  ultimately show ?thesis using ok desk_ok_grab(3) by (auto simp: drag_step_def Let_def)
qed

lemma window_step_keeps: "desk_ok s \<Longrightarrow> desk_ok (window_step s)"
proof -
  assume ok: "desk_ok s"
  obtain h t where d: "drag_step s = (h, t)" by fastforce
  then have t: "desk_ok t" using drag_step_keeps [OF ok] by simp
  then have "\<forall>k \<in> set (rev (win_z t)). k < 13" by (auto simp: desk_ok_def wins_ok_def z_ok_def)
  then show ?thesis using d t hit_loop_keeps [OF t] by (simp add: window_step_def)
qed

lemma rtc_hour_range: "rtc_h (snd (run_state (read_rtc hw) s)) < 24"
  by (simp add: read_rtc_def split: prod.splits)

subsection \<open>Clicks\<close>

text \<open>No window is being dragged or resized while the button is down.\<close>

definition not_grabbed :: "('d, 'z) desk_scheme \<Rightarrow> bool" where
  "not_grabbed s \<longleftrightarrow> mouse_down s \<longrightarrow> drag_win s = - 1 \<and> resize_win s = - 1"

lemma drag_step_free:
  "not_grabbed s \<Longrightarrow> drag_step s = (False, if mouse_down s then s else s\<lparr>drag_win := - 1, resize_win := - 1\<rparr>)"
  by (auto simp: drag_step_def not_grabbed_def)

lemma hit_loop_find:
  "hit_loop ks s = (case find (\<lambda>k. pointer_in (mouse_x s) (mouse_y s) (windows s ! k)) ks of
     None \<Rightarrow> s
   | Some k \<Rightarrow> if mouse_just_pressed s then press_window k (s\<lparr>z_blocked := True\<rparr>) else s\<lparr>z_blocked := True\<rparr>)"
  by (induction ks) auto

lemma press_window_effect:
  "win_z (press_window k s) = focus_window k (win_z s)" "click_consumed (press_window k s)"
  "j \<noteq> k \<Longrightarrow> windows (press_window k s) ! j = windows s ! j"
  "z_blocked (press_window k s) = z_blocked s"
  by (simp_all add: press_window_def debounced_def upd_window_def Let_def split: prod.splits)

text \<open>The window a click goes to: the first one from the front that is visible under the pointer.\<close>

definition window_under_pointer :: "('d, 'z) desk_scheme \<Rightarrow> nat option" where
  "window_under_pointer s = find (\<lambda>k. pointer_in (mouse_x s) (mouse_y s) (windows s ! k)) (rev (win_z s))"

text \<open>
  Property C33. A click, when no window is held by the mouse: the frontmost visible window under
  the pointer is brought to the front and takes the click, every other window stays as it is and
  keeps its place in the order of the rest; without such a window nothing happens to any window
  and the click is left to the desktop behind them.
\<close>

theorem click_goes_to_front_window:
  assumes "desk_ok s" "not_grabbed s" "mouse_just_pressed s"
  shows "case window_under_pointer s of
      None \<Rightarrow> win_z (window_step s) = win_z s \<and> windows (window_step s) = windows s
        \<and> click_consumed (window_step s) = click_consumed s \<and> z_blocked (window_step s) = z_blocked s
    | Some k \<Rightarrow> k < 13 \<and> win_z (window_step s) = filter (\<lambda>w. w \<noteq> k) (win_z s) @ [k]
        \<and> click_consumed (window_step s) \<and> z_blocked (window_step s)
        \<and> (\<forall>j. j \<noteq> k \<longrightarrow> windows (window_step s) ! j = windows s ! j)"
proof -
  let ?t = "if mouse_down s then s else s\<lparr>drag_win := - 1, resize_win := - 1\<rparr>"
  have t: "mouse_x ?t = mouse_x s" "mouse_y ?t = mouse_y s" "windows ?t = windows s" "win_z ?t = win_z s"
    "mouse_just_pressed ?t" "click_consumed ?t = click_consumed s" "z_blocked ?t = z_blocked s"
    using assms(3) by simp_all
  have step: "window_step s = (case window_under_pointer s of None \<Rightarrow> ?t | Some k \<Rightarrow> press_window k (?t\<lparr>z_blocked := True\<rparr>))"
    unfolding window_step_def drag_step_free [OF assms(2)] case_prod_conv Let_def hit_loop_find t window_under_pointer_def
    using assms(3) by (simp split: option.split)
  have z: "z_ok (win_z s)" using assms(1) by (simp add: desk_ok_def wins_ok_def)
  show ?thesis
  proof (cases "window_under_pointer s")
    case None
    then show ?thesis using step t by simp
  next
    case (Some k)
    then have "k \<in> set (win_z s)" by (auto simp: window_under_pointer_def find_Some_iff set_conv_nth [of "rev (win_z s)", symmetric])
      (metis nth_mem set_rev length_rev)
    then have k: "k < 13" using z by (auto simp: z_ok_def)
    have "win_z (window_step s) = focus_window k (win_z s)"
      using step Some t by (simp add: press_window_effect)
    then show ?thesis
      using step Some t k focus_window_lemma(1) [OF z, of k] by (simp add: press_window_effect)
  qed
qed

text \<open>A desktop with the windows 2 and 7 open and overlapping, 7 in front, pressed at (120, 150).\<close>

definition some_window :: "nat \<Rightarrow> window" where
  "some_window i = (blank_window i)\<lparr>win_x := 100, win_y := 100, win_w := 200, win_h := 100, win_open := i \<in> {2, 7}\<rparr>"

definition start_desk :: "ref_disk desk" where
  "start_desk = os2_disk.extend (ref28_machine (\<lambda>_. []))
     (desk.fields 0 (replicate 32 (CHR 0x00)) 0 (replicate 32 (CHR 0x00)) 0 0 0 1 1 24 120 150 True True 12000 15000
        [0, 0, 0] 0 0 False [0..<13] (map some_window [0..<13]) (- 1) 0 0 (- 1) False 0 0 (replicate 64 (CHR 0x00)) 0)"

lemmas start_desk_defs = start_desk_def ref28_machine_def os2_disk.defs desk.defs

lemma start_desk_sel:
  "mouse_x start_desk = 120" "mouse_y start_desk = 150" "mouse_just_pressed start_desk" "mouse_down start_desk"
  "drag_win start_desk = - 1" "resize_win start_desk = - 1" "win_z start_desk = [0..<13]"
  "windows start_desk = map some_window [0..<13]"
  by (simp_all add: start_desk_defs del: upt_rec_numeral)

lemma start_desk_ok: "desk_ok start_desk"
  unfolding desk_ok_def
proof (intro conjI)
  show "mouse_ok start_desk" by (simp add: mouse_ok_def start_desk_defs del: upt_rec_numeral)
  show "bufs_ok start_desk" by (simp add: bufs_ok_def start_desk_defs del: upt_rec_numeral)
  show "wins_ok start_desk"
    by (simp add: wins_ok_def start_desk_sel z_ok_def some_window_def blank_window_def win_ok_def del: upt_rec_numeral)
qed

theorem click_goes_to_front_window_witness:
  "win_z (window_step start_desk) = [0, 1, 2, 3, 4, 5, 6, 8, 9, 10, 11, 12, 7]"
proof -
  have "window_under_pointer start_desk = Some 7"
    by (simp add: window_under_pointer_def start_desk_sel pointer_in_def win_rect_def some_window_def blank_window_def upt_rec)
  then show ?thesis
    using click_goes_to_front_window [OF start_desk_ok] start_desk_sel
    by (simp add: not_grabbed_def upt_rec)
qed

text \<open>
  The sign bits of a mouse packet are without effect: only the buttons of its first
  byte and the two movement bytes, read as signed bytes, decide, so a movement of 128 or more
  counts between two reports is taken for one in the opposite direction.
\<close>

theorem packet_sign_bits_ignored:
  "eval_packet [b, x, y] s = eval_packet [b AND 7, x, y] s \<and> signed_char (packet_delta x neg) = sint x"
proof
  have "b AND 7 AND 7 = b AND 7" by (simp add: and.assoc)
  have w: "word_of_int (packet_delta v n) = v" for v n
  proof -
    have "(word_of_int 256 :: u8) = 0" by (simp add: word_of_int_eq_iff)
    then show ?thesis by (simp add: packet_delta_def)
  qed
  then show "signed_char (packet_delta x neg) = sint x" by (simp add: signed_char_def)
  moreover have "signed_char (- packet_delta v n) = sint (- v)" for v n by (simp add: signed_char_def w)
  moreover have "signed_char (packet_delta v n) = sint v" for v n by (simp add: signed_char_def w)
  ultimately show "eval_packet [b, x, y] s = eval_packet [b AND 7, x, y] s"
    by (simp add: eval_packet_def update_mouse_position_def move_axis_def)
qed

end
