(* ===== verification/Os2_Shell.thy ===== *)
theory Os2_Shell
  imports Os2_Desk Partition
begin

text \<open>
  The command line of the second kernel (\<open>process_cmd\<close>, kernel_main.cpp:1259) and the processor
  name it prints. A command prints into a window, changes the directory on the disk, starts a
  task or asks the hardware.
\<close>

subsection \<open>State\<close>

record os2_file =
  of_exists :: u8
  of_name :: string
  of_size :: u16
  of_start_lba :: u16
  of_is_folder :: u8
  of_parent_idx :: u8

record 'd shell = "'d desk" +
  cfs_files :: "os2_file list"
  cpu_brand :: string
  os2_part_starts :: "u64 list"
  os2_part_count :: nat

text \<open>What a command line needs to know of the linked program: segments in use and entry addresses.\<close>

record os2_image =
  im_cs :: u64
  im_ss :: u64
  im_worker :: u64
  im_app_bin :: u64

subsection \<open>The processor name\<close>

text \<open>
  \<open>get_cpu_brand\<close>; the instruction \<open>cpuid\<close> is a parameter that maps EAX to EAX, EBX, ECX, EDX.
  The clean-up loop writes the array it reads, at places it has already passed.
\<close>

type_synonym cpuid = "u32 \<Rightarrow> u32 \<times> u32 \<times> u32 \<times> u32"

definition le_chars :: "u32 \<Rightarrow> string" where
  "le_chars v = map chr_of [ucast v, ucast (drop_bit 8 v), ucast (drop_bit 16 v), ucast (drop_bit 24 v)]"

definition brand_chars :: "cpuid \<Rightarrow> string" where
  "brand_chars cpuid = concat (map (\<lambda>i. case cpuid i of (a, b, c, d) \<Rightarrow>
     le_chars a @ le_chars b @ le_chars c @ le_chars d) [0x80000002, 0x80000003, 0x80000004])"

definition up_char :: "char \<Rightarrow> char" where
  "up_char c = (if of_char c \<ge> (97 :: nat) \<and> of_char c \<le> (122 :: nat) then char_of (of_char c - (32 :: nat)) else c)"

definition plain_char :: "char \<Rightarrow> bool" where
  "plain_char c \<longleftrightarrow> (of_char c \<ge> (65 :: nat) \<and> of_char c \<le> (90 :: nat))
     \<or> (of_char c \<ge> (48 :: nat) \<and> of_char c \<le> (57 :: nat)) \<or> c = CHR ''.'' \<or> c = CHR ''-''"

function brand_loop :: "string \<Rightarrow> nat \<Rightarrow> nat \<Rightarrow> nat \<Rightarrow> string \<times> nat" where
  "brand_loop s i write_idx space_count =
     (if 48 \<le> i \<or> s ! i = CHR 0x00 then (s, write_idx)
      else (let ch = up_char (s ! i) in
        if plain_char ch then brand_loop (s[write_idx := ch]) (i + 1) (write_idx + 1) 0
        else if ch = CHR '' '' \<or> ch = CHR ''@'' then
          (if space_count = 0 \<and> 0 < write_idx
           then brand_loop (s[write_idx := CHR '' '']) (i + 1) (write_idx + 1) (space_count + 1)
           else brand_loop s (i + 1) write_idx (space_count + 1))
        else brand_loop s (i + 1) write_idx space_count))"
  by auto
termination by (relation "measure (\<lambda>(s, i, w, n). 48 - i)") auto

definition get_cpu_brand :: "cpuid \<Rightarrow> (('d, 'z) shell_scheme, unit) state" where
  "get_cpu_brand cpuid = modify (\<lambda>s.
     if fst (cpuid 0x80000000) < 0x80000004 then s\<lparr>cpu_brand := ''GENERIC X86'' @ [CHR 0x00]\<rparr>
     else (case brand_loop (brand_chars cpuid @ [CHR 0x00]) 0 0 0 of (t, w) \<Rightarrow> s\<lparr>cpu_brand := t[w := CHR 0x00]\<rparr>))"

text \<open>The reference: what the loop leaves in front, as a function of the name.\<close>

fun clean_brand :: "string \<Rightarrow> bool \<Rightarrow> nat \<Rightarrow> string" where
  "clean_brand [] started spaces = []"
| "clean_brand (c # cs) started spaces =
     (if c = CHR 0x00 then []
      else (let ch = up_char c in
        if plain_char ch then ch # clean_brand cs True 0
        else if ch = CHR '' '' \<or> ch = CHR ''@'' then
          (if spaces = 0 \<and> started then CHR '' '' # clean_brand cs True (spaces + 1)
           else clean_brand cs started (spaces + 1))
        else clean_brand cs started spaces))"

declare brand_loop.simps [simp del]

lemma up_char_not_nul: "c \<noteq> CHR 0x00 \<Longrightarrow> up_char c \<noteq> CHR 0x00"
proof
  assume c: "c \<noteq> CHR 0x00" and u: "up_char c = CHR 0x00"
  then have r: "97 \<le> (of_char c :: nat)" "(of_char c :: nat) \<le> 122" by (auto simp: up_char_def split: if_splits)
  then have "char_of (of_char c - 32 :: nat) = CHR 0x00" using u by (simp add: up_char_def)
  then have "(of_char (char_of (of_char c - 32 :: nat)) :: nat) = 0" by simp
  then show False using r by (simp only: of_char_of) simp
qed

text \<open>
  Property C53. The clean-up of the processor name in its own array is the function \<open>clean_brand\<close>
  of the name as read: capitals, digits, points, dashes and single inner spaces up to the NUL.
\<close>

lemma brand_loop_clean:
  assumes "length s = 49" "w \<le> i" "i \<le> 48"
  shows "case brand_loop s i w n of (t, w') \<Rightarrow> w \<le> w' \<and> w' \<le> 48 \<and> length t = 49
    \<and> take w' t = take w s @ clean_brand (take (48 - i) (drop i s)) (0 < w) n"
  using assms
proof (induction s i w n rule: brand_loop.induct)
  case (1 s i w n)
  show ?case
  proof (cases "48 \<le> i \<or> s ! i = CHR 0x00")
    case True
    then have "clean_brand (take (48 - i) (drop i s)) b n = []" for b
    proof
      assume z: "s ! i = CHR 0x00"
      show ?thesis
      proof (cases "i < 48")
        case True
        then have "take (48 - i) (drop i s) = s ! i # take (48 - Suc i) (drop (Suc i) s)"
          using 1(5) by (simp add: Cons_nth_drop_Suc [symmetric] Suc_diff_Suc take_Cons')
        then show ?thesis using z by simp
      qed simp
    qed simp
    then show ?thesis using True 1(5-7) by (subst brand_loop.simps) simp
  next
    case False
    then have i: "i < 48" "s ! i \<noteq> CHR 0x00" by auto
    have step: "take (48 - i) (drop i s) = s ! i # take (48 - Suc i) (drop (Suc i) s)"
      using 1(5) i by (simp add: Cons_nth_drop_Suc [symmetric] Suc_diff_Suc take_Cons')
    have same: "drop (Suc i) (s[w := x]) = drop (Suc i) s" for x using 1(6) by simp
    have grow: "take (Suc w) (s[w := x]) = take w s @ [x]" for x
      using 1(5,6) i by (simp add: take_Suc_conv_app_nth take_update_past)
    show ?thesis
      using 1(1) [OF False refl] 1(2,3) [OF False refl] 1(4) [OF False refl] 1(5-7) i
      by (subst brand_loop.simps) (auto simp: Let_def step same grow)
  qed
qed

subsection \<open>The commands\<close>

definition say :: "nat \<Rightarrow> string \<Rightarrow> (('d, 'z) shell_scheme, unit) state" where
  "say w t = modify (upd_window w (print_win t))"

definition cmd_cls :: "nat \<Rightarrow> (('d, 'z) shell_scheme, unit) state" where
  "cmd_cls w = modify (upd_window w (\<lambda>v. v\<lparr>win_cursor := 0, win_content := (win_content v)[0 := CHR 0x00]\<rparr>))"

definition cmd_dir :: "nat \<Rightarrow> (('d, 'z) shell_scheme, unit) state" where
  "cmd_dir w = do {
     say w ''--- CFS DIRECTORY ---\<newline>'';
     files \<leftarrow> gets (\<lambda>s. filter (\<lambda>f. of_exists f \<noteq> 0) (cfs_files s));
     for_m files (\<lambda>f. do { say w (c_str (of_name f)); say w ''   [FILE]\<newline>'' });
     when_m (files = []) (say w ''NO FILES FOUND (MOUNT DRIVE FIRST)\<newline>'')
   }"

definition cmd_sysinfo :: "nat \<Rightarrow> (('d, 'z) shell_scheme, unit) state" where
  "cmd_sysinfo w = do {
     say w ''OS: COSMOS V2 (32-BIT PROTECTED MODE)\<newline>CPU: '';
     brand \<leftarrow> gets cpu_brand;
     say w (c_str brand);
     say w ''\<newline>''
   }"

definition cmd_mem :: "nat \<Rightarrow> (('d, 'z) shell_scheme, unit) state" where
  "cmd_mem w = do {
     say w ''RAM  : 8192 MB TOTAL\<newline>'';
     say w ''USED : 14 MB (KERNEL)\<newline>'';
     say w ''FREE : 8178 MB AVAILABLE\<newline>''
   }"

text \<open>
  The partition scan works on the disk driver's part of the state; \<open>part_view\<close> cuts it out and
  \<open>part_back\<close> puts back what the scan changes: memory, devices and the list of partitions.
\<close>

definition part_view :: "('d, 'z) shell_scheme \<Rightarrow> 'd part_state" where
  "part_view s = disks.extend (disks.truncate s) (part_state.fields (os2_part_starts s) (os2_part_count s))"

definition part_back :: "'d part_state \<Rightarrow> ('d, 'z) shell_scheme \<Rightarrow> ('d, 'z) shell_scheme" where
  "part_back t s = s\<lparr>ram := ram t, dev := dev t, os2_part_starts := gpt_partition_starts t, os2_part_count := gpt_partition_count t\<rparr>"

definition on_disks :: "('d part_state, 'a) state \<Rightarrow> (('d, 'z) shell_scheme, 'a) state" where
  "on_disks c = State (\<lambda>s. case run_state c (part_view s) of (x, t) \<Rightarrow> (x, part_back t s))"

definition lba_text :: "u64 \<Rightarrow> string" where
  "lba_text v = concat (map (\<lambda>k. byte_to_hex (ucast (drop_bit k v AND 0xFF))) [24, 16, 8, 0])"

definition cmd_part_port :: "'d hw \<Rightarrow> nat \<Rightarrow> nat \<Rightarrow> (('d, 'z) shell_scheme, nat) state" where
  "cmd_part_port hw w port = do {
     on_disks (scan_partitions hw (word_of_nat port));
     n \<leftarrow> gets os2_part_count;
     when_m (0 < n) (do {
       say w ''--------------------------------\<newline>'';
       say w ''DRIVE FOUND ON SATA PORT '';
       say w (int_str (int port));
       say w ''\<newline>'';
       for_m [0..<n] (\<lambda>p. do {
         say w ''-> PART '';
         say w (int_str (int p + 1));
         say w '' | START LBA: '';
         lba \<leftarrow> gets (\<lambda>s. os2_part_starts s ! p);
         say w (lba_text lba);
         say w ''\<newline>''
       })
     });
     State_Monad.return n
   }"

fun cmd_part_ports :: "'d hw \<Rightarrow> nat \<Rightarrow> nat list \<Rightarrow> nat \<Rightarrow> (('d, 'z) shell_scheme, nat) state" where
  "cmd_part_ports hw w [] total_found = State_Monad.return total_found"
| "cmd_part_ports hw w (p # ps) total_found = do { n \<leftarrow> cmd_part_port hw w p; cmd_part_ports hw w ps (total_found + n) }"

definition cmd_part :: "'d hw \<Rightarrow> nat \<Rightarrow> (('d, 'z) shell_scheme, unit) state" where
  "cmd_part hw w = do {
     say w ''SCANNING ALL SATA PORTS (0-5)...\<newline>'';
     n \<leftarrow> cmd_part_ports hw w [0..<6] 0;
     say w (if n = 0 then ''ERR: NO PARTITIONS FOUND ON ANY PORT.\<newline>'' else ''--------------------------------\<newline>'')
   }"

definition cmd_net :: "'d hw \<Rightarrow> nat \<Rightarrow> (('d, 'z) shell_scheme, unit) state" where
  "cmd_net hw w = do {
     say w ''ETH0 : INTEL PRO/1000 E1000\<newline>'';
     mac \<leftarrow> read_mac_address hw;
     say w ''MAC  : '';
     say w mac;
     say w ''\<newline>'';
     say w ''STAT : WAITING FOR LINK...\<newline>''
   }"

definition word_text :: "u16 \<Rightarrow> string" where
  "word_text v = byte_to_hex (ucast (drop_bit 8 v)) @ byte_to_hex (ucast (v AND 0xFF))"

definition cmd_net_scan :: "'d hw \<Rightarrow> nat \<Rightarrow> (('d, 'z) shell_scheme, unit) state" where
  "cmd_net_scan hw w = do {
     bar \<leftarrow> gets os2_net_bar0;
     when_m (bar = 0) (do { say w ''SCANNING PCI BUS...\<newline>''; os2_smart_scan hw });
     bar \<leftarrow> gets os2_net_bar0;
     v \<leftarrow> gets os2_net_vendor;
     d \<leftarrow> gets os2_net_device;
     if bar = 0 then say w ''ERR  : NO NETWORK CONTROLLER FOUND!\<newline>''
     else do {
       say w ''NIC  : ID '';
       say w (word_text v); say w ''-''; say w (word_text d);
       say w ''\<newline>'';
       if v = 0x8086 \<and> d = 0x100E then do {
         say w ''TYPE : INTEL E1000 (LEGACY)\<newline>'';
         say w ''MAC  : READING DISABLED (TRIPLE FAULT PREVENTION)\<newline>'' }
       else if v = 0x10EC then say w ''TYPE : REALTEK CHIPSET\<newline>''
       else if v = 0x8086 then say w ''TYPE : MODERN INTEL CHIPSET\<newline>''
       else say w ''TYPE : UNKNOWN ADAPTER\<newline>''
     }
   }"

definition cmd_dhcp :: "nat \<Rightarrow> (('d, 'z) shell_scheme, unit) state" where
  "cmd_dhcp w = do {
     bar \<leftarrow> gets os2_net_bar0;
     if bar \<noteq> 0 then do {
       say w ''SENDING DHCP DISCOVER BROADCAST...\<newline>'';
       say w ''WAITING FOR DHCP OFFER...\<newline>'' }
     else say w (''ERR: RUN '' @ [CHR 0x27] @ ''NET'' @ [CHR 0x27] @ '' COMMAND FIRST\<newline>'')
   }"

definition cmd_ip :: "nat \<Rightarrow> (('d, 'z) shell_scheme, unit) state" where
  "cmd_ip w = do {
     say w ''INTERFACE : ETH0\<newline>'';
     say w ''IPv4 ADDR : OFFLINE (TRIPLE FAULT PREVENTION)\<newline>'';
     say w ''SUBNET    : OFFLINE\<newline>'';
     say w ''GATEWAY   : OFFLINE\<newline>'';
     say w ''DNS       : 8.8.8.8\<newline>''
   }"

definition cmd_help :: "string \<Rightarrow> nat \<Rightarrow> (('d, 'z) shell_scheme, unit) state" where
  "cmd_help line w = do {
     say w ''AVAILABLE COMMANDS:\<newline>'';
     say w line;
     say w '' MKDIR [NAME], ECHO [TEXT]\<newline>'';
     say w '' START, RUNAPP, REBOOT\<newline>''
   }"

text \<open>
  A directory entry of 18 bytes, as \<open>MKDIR\<close> fills it; \<open>parent_idx\<close> (byte 16) is left as it is. The
  two calls \<open>sleep_ms(50)\<close> only wait.
\<close>

definition dir_buf :: nat where "dir_buf = 0x00901000"

definition folder_name :: "string \<Rightarrow> string" where
  "folder_name t = takeWhile (\<lambda>c. c \<noteq> CHR 0x00 \<and> c \<noteq> CHR 0x0A \<and> c \<noteq> CHR 0x0D) (take 10 t)"

definition put_folder :: "nat \<Rightarrow> string \<Rightarrow> mem \<Rightarrow> mem" where
  "put_folder e name m =
     wr_bytes (e + 1) (bytes_of (folder_name name))
       (zero_fill (e + 1) 11 (wr16 (e + 12) 0 (wr16 (e + 14) 0 (m(e := 2)))))"

definition cmd_mkdir :: "'d hw \<Rightarrow> nat \<Rightarrow> string \<Rightarrow> (('d, 'z) shell_scheme, unit) state" where
  "cmd_mkdir hw w name = do {
     say w ''SPINNING UP SATA DRIVE...\<newline>'';
     _ \<leftarrow> os2_read_sectors hw 1002 (word_of_nat dir_buf);
     slot \<leftarrow> peek (\<lambda>m. first_slot (\<lambda>i. m (dir_buf + 18 * i) = 0) [0..<8]);
     case slot of
       None \<Rightarrow> say w ''ERROR: SATA ROOT DIR FULL!\<newline>''
     | Some i \<Rightarrow> do {
         poke (put_folder (dir_buf + 18 * i) name);
         _ \<leftarrow> os2_write_sectors hw 1002 (word_of_nat dir_buf);
         say w ''HDD WRITE OK: '';
         shown \<leftarrow> peek (\<lambda>m. cstr 11 m (dir_buf + 18 * i + 1));
         say w shown;
         say w ''\<newline>''
       }
   }"

definition cmd_start :: "os2_image \<Rightarrow> nat \<Rightarrow> (('d, 'z) shell_scheme, unit) state" where
  "cmd_start I w = do {
     n \<leftarrow> gets num_tasks;
     if n < max_tasks then do {
       create_task (im_cs I) (im_ss I) (im_worker I);
       say w ''BACKGROUND TASK SPAWNED.\<newline>'' }
     else say w ''ERROR: TASK LIMIT REACHED (4/4).\<newline>''
   }"

definition cmd_runapp :: "os2_image \<Rightarrow> nat \<Rightarrow> (('d, 'z) shell_scheme, unit) state" where
  "cmd_runapp I w = do {
     n \<leftarrow> gets num_tasks;
     if n < max_tasks then do {
       create_task (im_cs I) (im_ss I) (im_app_bin I);
       say w ''LOADING APP DIRECTLY FROM KERNEL RAM...\<newline>'' }
     else say w ''ERROR: TASK LIMIT REACHED.\<newline>''
   }"

definition system_reboot :: "'d hw \<Rightarrow> ('d, 'z, unit) op" where
  "system_reboot hw = outb hw 0x64 0xFE"

definition process_cmd :: "'d hw \<Rightarrow> os2_image \<Rightarrow> string \<Rightarrow> nat \<Rightarrow> (('d, 'z) shell_scheme, unit) state" where
  "process_cmd hw I input w = do {
     say w (''C:'' @ [CHR 0x5C] @ ''> ''); say w input; say w ''\<newline>'';
     if input = ''CLS'' then cmd_cls w
     else if starts_with input ''ECHO '' then do { say w (drop 5 input); say w ''\<newline>'' }
     else if input = ''DIR'' then cmd_dir w
     else if input = ''SYSINFO'' then cmd_sysinfo w
     else if input = ''MEM'' then cmd_mem w
     else if input = ''PART'' then cmd_part hw w
     else if input = ''NET'' then cmd_net hw w
     else if input = ''NET'' then cmd_net_scan hw w
     else if input = ''DHCP'' then cmd_dhcp w
     else if input = ''IP'' then cmd_ip w
     else if input = ''HELP'' then cmd_help '' SYSINFO, MEM, NET, IP, DIR, CLS\<newline>'' w
     else if input = ''HELP'' then cmd_help '' SYSINFO, MEM, NET, DIR, CLS\<newline>'' w
     else if starts_with input ''MKDIR '' then cmd_mkdir hw w (drop 6 input)
     else if input = ''START'' then cmd_start I w
     else if input = ''RUNAPP'' then cmd_runapp I w
     else if input = ''REBOOT'' then system_reboot hw
     else when_m (input \<noteq> []) (say w ''UNKNOWN COMMAND OR BAD SYNTAX.\<newline>'')
   }"

subsection \<open>What a command keeps\<close>

text \<open>
  A property of the globals that the commands other than CLS and the printing ones leave alone:
  it depends neither on memory and devices nor on the tasks, the status or the partition list.
\<close>

definition shell_frame :: "(('d, 'z) shell_scheme \<Rightarrow> bool) \<Rightarrow> bool" where
  "shell_frame P \<longleftrightarrow> (\<forall>s m d. P s \<longrightarrow> P (s\<lparr>ram := m, dev := d\<rparr>))
     \<and> (\<forall>s ts n c i. P s \<longrightarrow> P (s\<lparr>tasks := ts, num_tasks := n, current_task := c, os2_irqs := i\<rparr>))
     \<and> (\<forall>s a b. P s \<longrightarrow> P (s\<lparr>os2_part_starts := a, os2_part_count := b\<rparr>))
     \<and> (\<forall>s w t. P s \<longrightarrow> P (upd_window w (print_win t) s))
     \<and> (\<forall>s w. P s \<longrightarrow> P (upd_window w (\<lambda>v. v\<lparr>win_cursor := 0, win_content := (win_content v)[0 := CHR 0x00]\<rparr>) s))"

lemma frame_hw: "shell_frame P \<Longrightarrow> touches_hw c \<Longrightarrow> preserves P c"
  by (rule preserves_hw) (simp_all add: shell_frame_def)

lemma frame_say: "shell_frame P \<Longrightarrow> preserves P (say w t)"
  unfolding say_def by (rule preserves_modify) (simp add: shell_frame_def)

lemma frame_create_task:
  assumes P: "shell_frame P"
  shows "preserves P (create_task cs ss e)"
proof -
  have t: "P (s\<lparr>os2_irqs := b\<rparr>)" if "P s" for s b
  proof -
    have "P (s\<lparr>tasks := tasks s, num_tasks := num_tasks s, current_task := current_task s, os2_irqs := b\<rparr>)"
      using P that unfolding shell_frame_def by blast
    then show ?thesis by simp
  qed
  have u: "P (s\<lparr>tasks := ts, num_tasks := n\<rparr>)" if "P s" for s ts n
  proof -
    have "P (s\<lparr>tasks := ts, num_tasks := n, current_task := current_task s, os2_irqs := os2_irqs s\<rparr>)"
      using P that unfolding shell_frame_def by blast
    then show ?thesis by simp
  qed
  show ?thesis unfolding create_task_def cli_def sti_def
    by (intro preserving frame_hw [OF P] hw_only t u)
qed

lemma frame_on_disks: "shell_frame P \<Longrightarrow> preserves P (on_disks c)"
  unfolding preserves_def
proof (intro allI impI)
  fix s
  assume P: "shell_frame P" "P s"
  obtain x t where r: "run_state c (part_view s) = (x, t)" by fastforce
  have "P (s\<lparr>ram := ram t, dev := dev t\<rparr>)" using P unfolding shell_frame_def by blast
  then have "P (s\<lparr>ram := ram t, dev := dev t\<rparr>\<lparr>os2_part_starts := gpt_partition_starts t, os2_part_count := gpt_partition_count t\<rparr>)"
    using P(1) unfolding shell_frame_def by blast
  then show "P (snd (run_state (on_disks c) s))" by (simp add: on_disks_def r part_back_def)
qed

lemma touches_rw [hw_only]: "touches_hw (ahci_rw hw lba buf w)" "touches_hw (os2_read_sectors hw lba buf)"
  "touches_hw (os2_write_sectors hw lba buf)" "touches_hw (read_mac_address hw)"
proof -
  show r: "touches_hw (ahci_rw hw lba buf w)" for lba buf w
    unfolding ahci_rw_def Let_def by (intro hw_only touches_wait_command)
  show "touches_hw (os2_read_sectors hw lba buf)" "touches_hw (os2_write_sectors hw lba buf)"
    unfolding os2_read_sectors_def os2_write_sectors_def by (rule r)+
  show "touches_hw (read_mac_address hw)" unfolding read_mac_address_def by (intro hw_only)
qed

lemma frame_part_ports: "shell_frame P \<Longrightarrow> preserves P (cmd_part_ports hw w ps n)"
proof (induction ps arbitrary: n)
  case (Cons p ps)
  then show ?case unfolding cmd_part_ports.simps cmd_part_port_def
    by (intro preserving frame_say frame_on_disks) (simp_all add: preserves_return)
qed (simp add: preserves_return)

lemma frame_cmds:
  assumes P: "shell_frame P"
  shows "preserves P (cmd_cls w)" "preserves P (cmd_dir w)" "preserves P (cmd_sysinfo w)" "preserves P (cmd_mem w)"
    "preserves P (cmd_part hw w)" "preserves P (cmd_net hw w)" "preserves P (cmd_dhcp w)" "preserves P (cmd_ip w)"
    "preserves P (cmd_help l w)" "preserves P (cmd_mkdir hw w t)" "preserves P (cmd_start I w)" "preserves P (cmd_runapp I w)"
proof -
  note say = frame_say [OF P] and hw = frame_hw [OF P] and task = frame_create_task [OF P] and part = frame_part_ports [OF P]
  show "preserves P (cmd_cls w)" unfolding cmd_cls_def
    by (rule preserves_modify) (use P in \<open>simp add: shell_frame_def\<close>)
  show "preserves P (cmd_dir w)" unfolding cmd_dir_def by (intro preserving say)
  show "preserves P (cmd_sysinfo w)" unfolding cmd_sysinfo_def by (intro preserving say)
  show "preserves P (cmd_mem w)" unfolding cmd_mem_def by (intro preserving say)
  show "preserves P (cmd_part hw w)" unfolding cmd_part_def by (intro preserving say part)
  show "preserves P (cmd_net hw w)" unfolding cmd_net_def by (intro preserving say hw hw_only)
  show "preserves P (cmd_dhcp w)" unfolding cmd_dhcp_def by (intro preserving say)
  show "preserves P (cmd_ip w)" unfolding cmd_ip_def by (intro preserving say)
  show "preserves P (cmd_help l w)" unfolding cmd_help_def by (intro preserving say)
  show "preserves P (cmd_mkdir hw w t)" unfolding cmd_mkdir_def
    by (intro preserving say hw [OF touches_rw(2)] hw [OF touches_rw(3)] hw [OF touches_peek] hw [OF touches_poke])
  show "preserves P (cmd_start I w)" unfolding cmd_start_def by (intro preserving say task)
  show "preserves P (cmd_runapp I w)" unfolding cmd_runapp_def by (intro preserving say task)
qed

lemma frame_process_cmd: "shell_frame P \<Longrightarrow> preserves P (process_cmd hw I input w)"
  unfolding process_cmd_def
  by (intro preserving frame_cmds frame_say frame_hw [OF _ touches_ports(4), folded system_reboot_def]; assumption?)
    (simp_all add: system_reboot_def frame_hw touches_ports)

lemma frame_commands: "shell_frame P \<Longrightarrow> preserves P (for_m inputs (\<lambda>i. process_cmd hw I i w))"
  by (intro preserving frame_process_cmd)

lemma frame_net_bar: "shell_frame (\<lambda>s. os2_net_bar0 s = 0)"
  by (simp add: shell_frame_def upd_window_def)

lemma frame_desk: "shell_frame desk_ok"
proof -
  have "desk_ok (upd_window w (print_win t) s)" if "desk_ok s" for w t and s :: "('a, 'b) shell_scheme"
  proof -
    have "win_id ((windows s)[w := print_win t (windows s ! w)] ! i) = i \<and> win_ok ((windows s)[w := print_win t (windows s ! w)] ! i)"
      if "i < 13" for i
      using that \<open>desk_ok s\<close> by (cases "i = w") (simp_all add: desk_ok_def wins_ok_def print_win_keeps)
    then show ?thesis using that by (simp add: desk_ok_def wins_ok_def mouse_ok_def bufs_ok_def upd_window_def)
  qed
  moreover have "desk_ok (upd_window w (\<lambda>v. v\<lparr>win_cursor := 0, win_content := (win_content v)[0 := CHR 0x00]\<rparr>) s)"
    if "desk_ok s" for w and s :: "('a, 'b) shell_scheme"
  proof -
    let ?f = "\<lambda>v. v\<lparr>win_cursor := 0, win_content := (win_content v)[0 := CHR 0x00]\<rparr>"
    have "win_id ((windows s)[w := ?f (windows s ! w)] ! i) = i \<and> win_ok ((windows s)[w := ?f (windows s ! w)] ! i)"
      if "i < 13" for i
      using that \<open>desk_ok s\<close> by (cases "i = w") (simp_all add: desk_ok_def wins_ok_def win_ok_def)
    then show ?thesis using that by (simp add: desk_ok_def wins_ok_def mouse_ok_def bufs_ok_def upd_window_def)
  qed
  ultimately show ?thesis by (simp add: shell_frame_def desk_ok_def wins_ok_def mouse_ok_def bufs_ok_def)
qed

subsection \<open>Directory entries\<close>

lemma folder_name_length: "length (folder_name t) \<le> 10"
  unfolding folder_name_def by (rule le_trans [OF length_takeWhile_le]) simp

lemma folder_name_no_nul: "CHR 0x00 \<notin> set (folder_name t)"
  by (auto simp: folder_name_def dest: set_takeWhileD)

lemma put_folder_at:
  "put_folder e t m e = 2"
  "k < length (folder_name t) \<Longrightarrow> put_folder e t m (e + 1 + k) = byte_of (folder_name t ! k)"
  "length (folder_name t) \<le> k \<Longrightarrow> k < 11 \<Longrightarrow> put_folder e t m (e + 1 + k) = 0"
  "j < e \<or> e + 16 \<le> j \<Longrightarrow> put_folder e t m j = m j"
proof -
  note len = folder_name_length [of t]
  show "put_folder e t m e = 2"
    by (simp add: put_folder_def wr_bytes_other zero_fill_other wr16_def)
  show "k < length (folder_name t) \<Longrightarrow> put_folder e t m (e + 1 + k) = byte_of (folder_name t ! k)"
    using wr_bytes_at [of k "bytes_of (folder_name t)" "e + 1"] by (simp add: put_folder_def bytes_of_def)
  show "length (folder_name t) \<le> k \<Longrightarrow> k < 11 \<Longrightarrow> put_folder e t m (e + 1 + k) = 0"
    by (simp add: put_folder_def wr_bytes_other zero_fill_in)
  show "j < e \<or> e + 16 \<le> j \<Longrightarrow> put_folder e t m j = m j"
    using len by (auto simp: put_folder_def wr_bytes_other zero_fill_other wr16_def)
qed

text \<open>The entry at slot \<open>i\<close> of a directory sector is the folder \<open>name\<close>, every other byte is as before.\<close>

definition folder_added :: "u8 list \<Rightarrow> nat \<Rightarrow> string \<Rightarrow> u8 list \<Rightarrow> bool" where
  "folder_added old i name new \<longleftrightarrow> length new = 512 \<and> new ! (18 * i) = 2
     \<and> (\<forall>k < length (folder_name name). new ! (18 * i + 1 + k) = byte_of (folder_name name ! k))
     \<and> new ! (18 * i + 1 + length (folder_name name)) = 0
     \<and> (\<forall>j < 512. j < 18 * i \<or> 18 * i + 16 \<le> j \<longrightarrow> new ! j = old ! j)"

lemma folder_added_put:
  assumes "rd_bytes m a 512 = old" "i < 8"
  shows "folder_added old i name (rd_bytes (put_folder (a + 18 * i) name m) a 512)"
proof -
  let ?m = "put_folder (a + 18 * i) name m"
  have n: "rd_bytes x a 512 ! j = x (a + j)" if "j < 512" for x j using that by (simp add: rd_bytes_def)
  have len: "length (folder_name name) \<le> 10" by (rule folder_name_length)
  have "rd_bytes ?m a 512 ! (18 * i) = 2" using n [of "18 * i" ?m] put_folder_at(1) assms(2) by simp
  moreover have "rd_bytes ?m a 512 ! (18 * i + 1 + k) = byte_of (folder_name name ! k)" if "k < length (folder_name name)" for k
    using n [of "18 * i + 1 + k" ?m] put_folder_at(2) [OF that, of "a + 18 * i" m] that len assms(2) by (simp add: add.assoc)
  moreover have "rd_bytes ?m a 512 ! (18 * i + 1 + length (folder_name name)) = 0"
    using n [of "18 * i + 1 + length (folder_name name)" ?m]
      put_folder_at(3) [of name "length (folder_name name)" "a + 18 * i" m] len assms(2) by (simp add: add.assoc)
  moreover have "rd_bytes ?m a 512 ! j = old ! j" if "j < 512" "j < 18 * i \<or> 18 * i + 16 \<le> j" for j
    using n [OF that(1), of ?m] n [OF that(1), of m] put_folder_at(4) [of "a + j" "a + 18 * i" name m] that assms(1) by auto
  ultimately show ?thesis by (simp add: folder_added_def)
qed

lemma rw_ready_say: "rw_ready hw V L hdr tbl (upd_window w f s) = rw_ready hw V L hdr tbl s"
  by (simp add: rw_ready_def upd_window_def)

lemma run_say: "run_state (say w t) s = ((), upd_window w (print_win t) s)"
  by (simp add: say_def)

lemma upd_window_dev [simp]: "dev (upd_window w f s) = dev s" "ram (upd_window w f s) = ram s"
  by (simp_all add: upd_window_def)

lemma clear_priv_both:
  assumes "clear_of (sata_priv hdr tbl) a n" "0 < n"
  shows "\<forall>i \<in> sata_priv hdr tbl. i < a \<or> a + n \<le> i"
  using clear_ofD [OF assms(1)] by blast

lemma rw_ready_folder:
  assumes "rw_ready hw V L hdr tbl s" "clear_of (sata_priv hdr tbl) a 512" "i < 8"
  shows "rw_ready hw V L hdr tbl (s\<lparr>ram := put_folder (a + 18 * i) t (ram s)\<rparr>)"
proof -
  have "a + 512 \<le> hdr \<or> hdr + 32 \<le> a" using clear_of_priv [OF assms(2)] by simp
  then have "rd64 (put_folder (a + 18 * i) t (ram s)) (hdr + 8) = rd64 (ram s) (hdr + 8)"
    using assms(3) by (intro rd64_cong put_folder_at(4)) auto
  then show ?thesis using assms(1) by (simp add: rw_ready_def)
qed

lemma first_slot_cong: "(\<And>x. x \<in> set xs \<Longrightarrow> P x = Q x) \<Longrightarrow> first_slot P xs = first_slot Q xs"
  by (induction xs) auto

text \<open>
  \<open>MKDIR\<close> on a working drive: the lowest of the eight entries that is free becomes a
  folder of the given name (at most ten characters) in the directory sector 1002, every other
  byte of the sector and every other sector stays as it was, the parent index of the entry
  included; without a free entry the disk does not change.
\<close>

theorem mkdir_on_disk:
  fixes s :: "('d, 'z) shell_scheme"
  assumes rdy: "rw_ready hw V L hdr tbl s" and buf: "clear_of (sata_priv hdr tbl) dir_buf 512"
  shows "let s' = snd (run_state (cmd_mkdir hw w name) s) in case first_slot (\<lambda>i. s_sect V (dev s) 1002 ! (18 * i) = 0) [0..<8] of
      None \<Rightarrow> s_sect V (dev s') = s_sect V (dev s)
    | Some i \<Rightarrow> \<exists>new. s_sect V (dev s') = (s_sect V (dev s))(1002 := new)
        \<and> folder_added (s_sect V (dev s) 1002) i name new"
proof -
  define s' where "s' = snd (run_state (cmd_mkdir hw w name) s)"
  let ?old = "s_sect V (dev s) 1002"
  let ?s0 = "upd_window w (print_win ''SPINNING UP SATA DRIVE...\<newline>'') s"
  have ua: "unat (word_of_nat dir_buf :: u64) = dir_buf" by (simp add: dir_buf_def)
  have tb: "take_bit 28 (1002 :: u32) = 1002" by simp
  have r0: "rw_ready hw V L hdr tbl ?s0" using rdy by (simp add: rw_ready_say)
  obtain m d where rd: "run_state (os2_read_sectors hw 1002 (word_of_nat dir_buf)) ?s0 = (True, ?s0\<lparr>ram := m, dev := d\<rparr>)"
    and r1: "rw_ready hw V L hdr tbl (?s0\<lparr>ram := m, dev := d\<rparr>)"
    and d: "s_sect V d = s_sect V (dev s)" and m: "rd_bytes m dir_buf 512 = ?old"
    using os2_read_run [OF r0, of "word_of_nat dir_buf" 1002] buf unfolding ua tb by auto
  have cells: "m (dir_buf + 18 * i) = ?old ! (18 * i)" if "i < 8" for i
  proof -
    have "rd_bytes m dir_buf 512 ! (18 * i) = m (dir_buf + 18 * i)" using that by (simp add: rd_bytes_def)
    then show ?thesis using m by simp
  qed
  have "first_slot (\<lambda>i. m (dir_buf + 18 * i) = 0) [0..<8] = first_slot (\<lambda>i. ?old ! (18 * i) = 0) [0..<8]"
    (is "?fm = ?fo")
    by (rule first_slot_cong) (auto simp: cells simp del: upt_rec_numeral)
  note slot = this
  show ?thesis
    unfolding Let_def s'_def [symmetric]
  proof (cases ?fo)
    case None
    then have "dev s' = d" using slot rd by (simp add: s'_def cmd_mkdir_def run_say del: upt_rec_numeral)
    then show "case ?fo of None \<Rightarrow> s_sect V (dev s') = s_sect V (dev s)
      | Some i \<Rightarrow> \<exists>new. s_sect V (dev s') = (s_sect V (dev s))(1002 := new) \<and> folder_added ?old i name new"
      using None d by simp
  next
    case (Some i)
    then have i: "i < 8" using first_slot_less by fastforce
    have at: "[0..<8] ! i = i" using i by simp
    let ?s1 = "?s0\<lparr>ram := put_folder (dir_buf + 18 * i) name m, dev := d\<rparr>"
    have r2: "rw_ready hw V L hdr tbl ?s1" using rw_ready_folder [OF r1 buf i] by simp
    obtain m' d' where wr: "run_state (os2_write_sectors hw 1002 (word_of_nat dir_buf)) ?s1 = (True, ?s1\<lparr>ram := m', dev := d'\<rparr>)"
      and d': "s_sect V d' = (s_sect V d)(1002 := rd_bytes (put_folder (dir_buf + 18 * i) name m) dir_buf 512)"
      using os2_write_run [OF r2, of "word_of_nat dir_buf" 1002] buf unfolding ua tb by auto
    have "dev s' = d'" using slot Some rd wr by (simp add: s'_def cmd_mkdir_def run_say del: upt_rec_numeral)
    then show "case ?fo of None \<Rightarrow> s_sect V (dev s') = s_sect V (dev s)
      | Some i \<Rightarrow> \<exists>new. s_sect V (dev s') = (s_sect V (dev s))(1002 := new) \<and> folder_added ?old i name new"
      using Some d d' folder_added_put [OF m i, of name] by auto
  qed
qed

definition start_shell :: "ref_disk shell" where
  "start_shell = desk.extend start_desk (shell.fields [] ''INTEL'' (replicate 16 0) 0)"

lemmas start_shell_defs = start_shell_def start_desk_defs shell.defs

lemma start_shell_ready: "rw_ready (ref28_hw 0xFEBF1100) ref_view 3 0x800000 0x801000 start_shell"
proof -
  have "hba_ports 0xFEBF1000 0 = 0xFEBF1100" by (simp add: hba_ports_def)
  then show ?thesis using ref28_spec [of "0xFEBF1100"]
    by (simp add: rw_ready_def start_shell_defs ref_view_def del: upt_rec_numeral)
qed

theorem mkdir_on_disk_witness:
  "\<exists>new. ref_sect (dev (snd (run_state (cmd_mkdir (ref28_hw 0xFEBF1100) 5 ''GAMES'') start_shell))) 1002 = new \<and> new ! 0 = 2"
proof -
  have "ref_sect (dev start_shell) 1002 = replicate 512 0"
    by (simp add: ref_sect_def start_shell_defs del: upt_rec_numeral)
  then have "first_slot (\<lambda>i. s_sect ref_view (dev start_shell) 1002 ! (18 * i) = 0) [0..<8] = Some 0"
    by (intro first_slot_eqI) (simp_all add: ref_view_def)
  then show ?thesis
    using mkdir_on_disk [OF start_shell_ready, of 5 "''GAMES''"]
    by (auto simp: Let_def clear_of_def sata_priv_def dir_buf_def folder_added_def ref_view_def)
qed

text \<open>
  \<open>MKDIR\<close> does not look at the outcome of its disk accesses: without a controller it
  finds a free entry in whatever the buffer holds and reports that the disk was written.
\<close>

lemma ahci_rw_none: "active_ahci_bar5 s = 0 \<Longrightarrow> run_state (ahci_rw hw lba a b) s = (False, s)"
  by (simp add: ahci_rw_def)

lemma cstr_at:
  assumes "length xs = n" "\<And>i. i < n \<Longrightarrow> m (a + i) = byte_of (xs ! i)" "m (a + n) = 0" "CHR 0x00 \<notin> set xs"
  shows "cstr (n + Suc j) m a = xs"
  using assms
proof (induction xs arbitrary: n a)
  case (Cons x xs)
  have "byte_of (CHR 0x00) = 0" by (simp add: byte_of_def)
  moreover have "byte_of x \<noteq> byte_of (CHR 0x00)" using Cons.prems(4) by auto
  ultimately have nz: "byte_of x \<noteq> 0" by simp
  obtain n' where n: "n = Suc n'" using Cons.prems(1) by (cases n) auto
  have "cstr (n' + Suc j) m (a + 1) = xs"
  proof (rule Cons.IH)
    show "m (a + 1 + i) = byte_of (xs ! i)" if "i < n'" for i
      using Cons.prems(2) [of "Suc i"] that n by simp
  qed (use Cons.prems n in auto)
  moreover have "m a = byte_of x" using Cons.prems(2) [of 0] n by simp
  ultimately show ?case using n nz by simp
qed simp

lemma cstr_folder:
  assumes "length (folder_name t) \<le> k" "k \<le> 10"
  shows "cstr (Suc k) (put_folder e t m) (e + 1) = folder_name t"
proof -
  let ?n = "length (folder_name t)"
  have "cstr (?n + Suc (k - ?n)) (put_folder e t m) (e + 1) = folder_name t"
    by (rule cstr_at) (use put_folder_at [where e = e and t = t and m = m] folder_name_no_nul assms in auto)
  then show ?thesis using assms by simp
qed

theorem mkdir_claims_success:
  assumes "active_ahci_bar5 s = 0" "ram s dir_buf = 0"
  shows "run_state (cmd_mkdir hw w name) s =
    ((), foldl (\<lambda>s t. upd_window w (print_win t) s) (s\<lparr>ram := put_folder dir_buf name (ram s)\<rparr>)
      [''SPINNING UP SATA DRIVE...\<newline>'', ''HDD WRITE OK: '', folder_name name, ''\<newline>''])"
proof -
  have slot: "first_slot (\<lambda>i. ram s (dir_buf + 18 * i) = 0) [0..<8] = Some 0"
    by (rule first_slot_eqI) (use assms(2) in simp_all)
  have shown: "cstr 11 (put_folder dir_buf name m) (dir_buf + 1) = folder_name name" for m
    using cstr_folder [of name 10 dir_buf m] folder_name_length [of name] by simp
  have apart: "active_ahci_bar5 (upd_window w f t) = active_ahci_bar5 t" "ram (upd_window w f t) = ram t"
    "(upd_window w f t)\<lparr>ram := m\<rparr> = upd_window w f (t\<lparr>ram := m\<rparr>)" for f m and t :: "('a, 'b) shell_scheme"
    by (simp_all add: upd_window_def)
  show ?thesis
    using slot shown assms(1)
    by (simp add: cmd_mkdir_def run_say os2_read_sectors_def os2_write_sectors_def ahci_rw_none apart
        del: upt_rec_numeral)
qed

theorem mkdir_claims_success_witness:
  "ram (snd (run_state (cmd_mkdir (ref28_hw 0) 5 ''A'') (start_shell\<lparr>active_ahci_bar5 := 0\<rparr>))) dir_buf = 2"
  using mkdir_claims_success [of "start_shell\<lparr>active_ahci_bar5 := 0\<rparr>" "ref28_hw 0" 5 "''A''"]
  by (simp add: start_shell_defs put_folder_at wr64_other dir_buf_def upd_window_def del: upt_rec_numeral)

text \<open>
  No sequence of commands makes the network usable: the scan that finds the card
  stands in a second branch for \<open>NET\<close>, behind the first, so after any commands \<open>DHCP\<close> still asks
  for \<open>NET\<close> first, and the mark of a found card is never set.
\<close>

theorem dhcp_needs_net_for_ever:
  assumes "os2_net_bar0 s = 0"
  shows "let s' = snd (run_state (for_m inputs (\<lambda>i. process_cmd hw I i w)) s) in os2_net_bar0 s' = 0
    \<and> run_state (cmd_dhcp w) s' = run_state (say w (''ERR: RUN '' @ [CHR 0x27] @ ''NET'' @ [CHR 0x27] @ '' COMMAND FIRST\<newline>'')) s'"
  using preservesD [OF frame_commands [OF frame_net_bar] assms, of inputs hw I w]
  by (simp add: Let_def cmd_dhcp_def)

definition some_image :: os2_image where
  "some_image = \<lparr>im_cs = 8, im_ss = 16, im_worker = 0x4000, im_app_bin = 0x5000\<rparr>"

theorem dhcp_needs_net_for_ever_witness:
  "os2_net_bar0 (snd (run_state (for_m [''NET'', ''DHCP''] (\<lambda>i. process_cmd (ref28_hw 0) some_image i 5)) start_shell)) = 0"
  using dhcp_needs_net_for_ever [of start_shell "[''NET'', ''DHCP'']" "ref28_hw 0" some_image 5]
  by (simp add: Let_def start_shell_defs del: upt_rec_numeral)

lemma c_str_until: "\<lbrakk>CHR 0x00 \<notin> set (take w t); w < length t\<rbrakk> \<Longrightarrow> c_str (t[w := CHR 0x00]) = take w t"
proof -
  assume a: "CHR 0x00 \<notin> set (take w t)" "w < length t"
  have "t[w := CHR 0x00] = take w t @ CHR 0x00 # drop (Suc w) t" using a(2) by (rule upd_conv_take_nth_drop)
  moreover have "\<forall>c \<in> set (take w t). c \<noteq> CHR 0x00" using a(1) by blast
  ultimately show ?thesis by (simp add: c_str_def takeWhile_append2)
qed

lemma clean_brand_no_nul: "CHR 0x00 \<notin> set (clean_brand xs b n)"
  by (induction xs b n rule: clean_brand.induct) (auto simp: Let_def dest: up_char_not_nul [THEN not_sym])

lemma clean_brand_within: "length (clean_brand xs b n) \<le> length xs"
  by (induction xs b n rule: clean_brand.induct) (auto simp: Let_def)

lemma brand_chars_length: "length (brand_chars cpuid) = 48"
  by (simp add: brand_chars_def le_chars_def split: prod.split)

text \<open>
  The processor name: unless the processor has none, the text shown is the cleaned
  form of the 48 characters it reports, within the 49 characters of its buffer.
\<close>

theorem cpu_brand_cleaned:
  "let b = c_str (cpu_brand (snd (run_state (get_cpu_brand cpuid) s))) in length b \<le> 48
    \<and> b = (if fst (cpuid 0x80000000) < 0x80000004 then ''GENERIC X86'' else clean_brand (brand_chars cpuid) False 0)"
proof (cases "fst (cpuid 0x80000000) < 0x80000004")
  case True
  then show ?thesis by (simp add: get_cpu_brand_def c_str_def)
next
  case False
  let ?x = "brand_chars cpuid @ [CHR 0x00]"
  obtain t w where l: "brand_loop ?x 0 0 0 = (t, w)" by fastforce
  have t: "w \<le> 48" "length t = 49" "take w t = clean_brand (brand_chars cpuid) False 0"
    using brand_loop_clean [of ?x 0 0 0] l by (simp_all add: brand_chars_length)
  have "c_str (t[w := CHR 0x00]) = clean_brand (brand_chars cpuid) False 0"
    using c_str_until [of w t] t clean_brand_no_nul by simp
  then show ?thesis
    using False l clean_brand_within [of "brand_chars cpuid" False 0] by (simp add: get_cpu_brand_def brand_chars_length)
qed

end
