(* ===== verification/Os2_Files.thy ===== *)
theory Os2_Files
  imports Os2_Shell
begin

text \<open>
  The file system of the second kernel as its windows use it (\<open>kernel_main.cpp\<close>, DISK MGR, NOTEPAD
  and SAVE AS): formatting and mounting a drive, opening, copying and pasting entries, saving a
  text, creating folders, and the reader of NTFS volumes. Every handler is what a click on its
  button does; \<open>Desktop\<close> has the windows around them.
\<close>

subsection \<open>State\<close>

record 'd files = "'d shell" +
  active_file_lba :: u32
  active_file_idx :: nat
  current_folder_id :: u8
  dsk_mgr_opened :: bool
  drive_total_gb :: u32
  drive_used_kb :: u32
  is_mounted :: bool
  is_ntfs_drive :: bool
  need_ui_refresh :: bool
  current_page_offset :: nat
  active_ntfs_folder_lba :: u32
  clipboard_active :: bool
  clipboard_name :: string
  clipboard_is_folder :: bool

text \<open>The fixed buffers: boot sector, text to be saved, text to be shown, clipboard, MFT records.\<close>

definition mbr_buf :: nat where "mbr_buf = 0x00900000"
definition text_buf :: nat where "text_buf = 0x09000000"
definition show_buf :: nat where "show_buf = 0x03000000"
definition mft_cache :: nat where "mft_cache = 0x0A000000"

definition dir_entry :: "nat \<Rightarrow> nat" where "dir_entry i = dir_buf + 18 * i"

definition free_entry :: "mem \<Rightarrow> nat option" where
  "free_entry m = first_slot (\<lambda>i. m (dir_entry i) = 0) [0..<28]"

text \<open>\<open>str_cpy\<close> into an array: the text, a NUL, and what was behind it.\<close>

definition put_str :: "string \<Rightarrow> string \<Rightarrow> string" where
  "put_str t old = t @ [CHR 0x00] @ drop (length t + 1) old"

definition put_chars :: "nat \<Rightarrow> string \<Rightarrow> mem \<Rightarrow> mem" where
  "put_chars a t m = wr_bytes a (bytes_of (t @ [CHR 0x00])) m"

definition upd_file :: "nat \<Rightarrow> (os2_file \<Rightarrow> os2_file) \<Rightarrow> ('d, 'z) files_scheme \<Rightarrow> ('d, 'z) files_scheme" where
  "upd_file i f s = s\<lparr>cfs_files := (cfs_files s)[i := f (cfs_files s ! i)]\<rparr>"

definition set_title :: "nat \<Rightarrow> string \<Rightarrow> (('d, 'z) files_scheme, unit) state" where
  "set_title w t = modify (upd_window w (\<lambda>v. v\<lparr>win_title := t\<rparr>))"

definition cooldown :: "int \<Rightarrow> (('d, 'z) files_scheme, unit) state" where
  "cooldown n = modify (\<lambda>s. s\<lparr>input_cooldown := n\<rparr>)"

definition raise_window :: "nat \<Rightarrow> (('d, 'z) files_scheme, unit) state" where
  "raise_window i = modify (\<lambda>s. (upd_window i (\<lambda>v. v\<lparr>win_open := True, win_minimized := False\<rparr>) s)
     \<lparr>win_z := focus_window i (win_z s)\<rparr>)"

subsection \<open>Saving\<close>

text \<open>The entry written by SAVE AS and by NEW FOLDER; the order of the stores is the code's.\<close>

definition save_entry :: "nat \<Rightarrow> u8 \<Rightarrow> string \<Rightarrow> u16 \<Rightarrow> u16 \<Rightarrow> u8 \<Rightarrow> mem \<Rightarrow> mem" where
  "save_entry e kind name sz lba parent m =
     (wr16 (e + 12) lba (wr16 (e + 14) sz (put_chars (e + 1) name (zero_fill (e + 1) 11 (m(e := kind))))))
       (e + 16 := parent)"

definition file_saved :: "u8 \<Rightarrow> u8 \<Rightarrow> string \<Rightarrow> u16 \<Rightarrow> u16 \<Rightarrow> os2_file \<Rightarrow> os2_file" where
  "file_saved folder parent name sz lba f =
     f\<lparr>of_exists := 1, of_is_folder := folder, of_parent_idx := parent, of_name := put_str name (of_name f),
       of_size := sz, of_start_lba := lba\<rparr>"

definition stage_text :: "('d, 'z) files_scheme \<Rightarrow> mem \<Rightarrow> mem" where
  "stage_text s m = wr_bytes text_buf (bytes_of (win_text (windows s ! 0))) m"

definition save_as_file :: "'d hw \<Rightarrow> (('d, 'z) files_scheme, unit) state" where
  "save_as_file hw = do {
     poke (zero_fill text_buf 5120);
     modify (\<lambda>s. s\<lparr>ram := stage_text s (ram s)\<rparr>);
     _ \<leftarrow> disk_read_auto hw 1002 (word_of_nat dir_buf);
     slot \<leftarrow> peek free_entry;
     (case slot of
       None \<Rightarrow> set_title 0 ''ERR: ROOT FULL!''
     | Some i \<Rightarrow> do {
         let target_sec = 4000 + i;
         _ \<leftarrow> disk_write_auto hw (word_of_nat target_sec) (word_of_nat text_buf);
         name \<leftarrow> gets (\<lambda>s. c_str (save_filename s));
         parent \<leftarrow> gets current_folder_id;
         poke (save_entry (dir_entry i) 1 name 5120 (word_of_nat target_sec) parent);
         _ \<leftarrow> disk_write_auto hw 1002 (word_of_nat dir_buf);
         modify (upd_file i (file_saved 0 parent name 5120 (word_of_nat target_sec)));
         modify (\<lambda>s. s\<lparr>active_file_lba := word_of_nat target_sec, active_file_idx := i\<rparr>);
         set_title 0 ''SAVED SUCCESS!''
       });
     modify (upd_window 2 (\<lambda>v. v\<lparr>win_open := False\<rparr>));
     cooldown 25
   }"

definition create_folder :: "'d hw \<Rightarrow> (('d, 'z) files_scheme, unit) state" where
  "create_folder hw = do {
     _ \<leftarrow> disk_read_auto hw 1002 (word_of_nat dir_buf);
     slot \<leftarrow> peek free_entry;
     (case slot of
       None \<Rightarrow> set_title 0 ''ERR: ROOT FULL!''
     | Some i \<Rightarrow> do {
         name \<leftarrow> gets (\<lambda>s. c_str (new_folder_name s));
         parent \<leftarrow> gets current_folder_id;
         poke (save_entry (dir_entry i) 2 name 0 0 parent);
         _ \<leftarrow> disk_write_auto hw 1002 (word_of_nat dir_buf);
         modify (upd_file i (file_saved 1 parent name 0 0));
         set_title 0 ''FOLDER CREATED!''
       });
     modify (upd_window 2 (\<lambda>v. v\<lparr>win_open := False\<rparr>));
     cooldown 25
   }"

text \<open>The SAVE button of the notepad: one sector, the file last opened or saved, or sector 500.\<close>

definition notepad_save :: "'d hw \<Rightarrow> (('d, 'z) files_scheme, unit) state" where
  "notepad_save hw = do {
     set_title 0 ''SAVING...'';
     poke (zero_fill text_buf 512);
     modify (\<lambda>s. s\<lparr>ram := stage_text s (ram s)\<rparr>);
     test_lba \<leftarrow> gets (\<lambda>s. if 0 < active_file_lba s then active_file_lba s else 500);
     ok \<leftarrow> disk_write_auto hw test_lba (word_of_nat text_buf);
     set_title 0 (if ok then ''NOTEPAD - SAVED!'' else ''NOTEPAD - WRITE ERROR!'');
     cooldown 25
   }"

definition open_save_as :: "(('d, 'z) files_scheme, unit) state" where
  "open_save_as = do { raise_window 2; modify (\<lambda>s. s\<lparr>save_step := 0\<rparr>); cooldown 25 }"

definition choose_step :: "int \<Rightarrow> (('d, 'z) files_scheme, unit) state" where
  "choose_step n = do { modify (\<lambda>s. s\<lparr>save_step := n\<rparr>); cooldown 25 }"

text \<open>The \<open>+ FILE\<close> button: an entry APP.BIN at sector 10000; \<open>parent_idx\<close> is left as it is.\<close>

definition app_entry :: "nat \<Rightarrow> mem \<Rightarrow> mem" where
  "app_entry e m = put_chars (e + 1) ''APP.BIN'' (zero_fill (e + 1) 11 (wr16 (e + 12) 10000 (wr16 (e + 14) 5120 (m(e := 1)))))"

definition new_app_file :: "'d hw \<Rightarrow> (('d, 'z) files_scheme, unit) state" where
  "new_app_file hw = do {
     poke (zero_fill dir_buf 512);
     sel \<leftarrow> gets selected_drive_idx;
     when_m (sel \<noteq> 99) (do {
       modify (\<lambda>s. s\<lparr>active_sata_port := detected_ports s ! nat sel\<rparr>);
       _ \<leftarrow> os2_read_sectors hw 1002 (word_of_nat dir_buf);
       slot \<leftarrow> peek free_entry;
       (case slot of
         None \<Rightarrow> skip
       | Some i \<Rightarrow> do {
           poke (app_entry (dir_entry i));
           _ \<leftarrow> os2_write_sectors hw 1002 (word_of_nat dir_buf);
           modify (upd_file i (\<lambda>f. f\<lparr>of_exists := 1, of_name := ''APP.BIN'' @ replicate 4 (CHR 0x00) @ drop 11 (of_name f),
             of_size := 5120, of_start_lba := 10000, of_is_folder := 0\<rparr>))
         })
     });
     cooldown 15
   }"

subsection \<open>The clipboard\<close>

definition copy_entry :: "'d hw \<Rightarrow> nat \<Rightarrow> nat \<Rightarrow> (('d, 'z) files_scheme, unit) state" where
  "copy_entry hw w i = do {
     set_title w ''READING...'';
     say w ''\<newline>[SYS] COPY TO RAM CLIPBOARD...\<newline>'';
     f \<leftarrow> gets (\<lambda>s. cfs_files s ! i);
     modify (\<lambda>s. s\<lparr>clipboard_is_folder := of_is_folder f \<noteq> 0\<rparr>);
     when_m (of_is_folder f = 0) (do {
       poke (zero_fill text_buf 5120);
       for_m [0..<10] (\<lambda>k. do {
         _ \<leftarrow> disk_read_auto hw (ucast (of_start_lba f) + word_of_nat k) (word_of_nat (text_buf + k * 512));
         skip })
     });
     modify (\<lambda>s. s\<lparr>clipboard_name := put_str (c_str (of_name f)) (clipboard_name s), clipboard_active := True\<rparr>);
     set_title w ''IN CLIPBOARD'';
     say w ''[OK] READY TO PASTE.\<newline>'';
     cooldown 25
   }"

text \<open>
  The entry PASTE writes. The name is stored last, and an eleven-character name with its NUL
  reaches the byte behind the field, the low byte of \<open>start_lba\<close>.
\<close>

definition paste_entry :: "nat \<Rightarrow> u8 \<Rightarrow> string \<Rightarrow> u16 \<Rightarrow> u16 \<Rightarrow> u8 \<Rightarrow> mem \<Rightarrow> mem" where
  "paste_entry e kind name sz lba parent m =
     put_chars (e + 1) name (zero_fill (e + 1) 11 ((wr16 (e + 12) lba (wr16 (e + 14) sz (m(e := kind))))(e + 16 := parent)))"

definition paste_clipboard :: "'d hw \<Rightarrow> nat \<Rightarrow> (('d, 'z) files_scheme, unit) state" where
  "paste_clipboard hw w = do {
     ntfs \<leftarrow> gets is_ntfs_drive;
     (if ntfs then say w ''\<newline>[ERR] PASTE ONLY ON CFS NOW.\<newline>''
      else do {
        poke (zero_fill dir_buf 512);
        _ \<leftarrow> disk_read_auto hw 1002 (word_of_nat dir_buf);
        slot \<leftarrow> peek free_entry;
        (case slot of
          None \<Rightarrow> say w ''\<newline>[ERR] FOLDER IS FULL.\<newline>''
        | Some i \<Rightarrow> do {
            let target_lba = 4000 + i * 10;
            folder \<leftarrow> gets clipboard_is_folder;
            when_m (\<not> folder) (for_m [0..<10] (\<lambda>k. do {
              _ \<leftarrow> disk_write_auto hw (word_of_nat (target_lba + k)) (word_of_nat (text_buf + k * 512));
              skip }));
            name \<leftarrow> gets (\<lambda>s. c_str (clipboard_name s));
            parent \<leftarrow> gets current_folder_id;
            poke (if folder then paste_entry (dir_entry i) 2 name 0 0 parent
              else paste_entry (dir_entry i) 1 name 5120 (word_of_nat target_lba) parent);
            _ \<leftarrow> disk_write_auto hw 1002 (word_of_nat dir_buf);
            say w ''\<newline>[OK] PASTED FROM CLIPBOARD.\<newline>'';
            modify (\<lambda>s. s\<lparr>need_ui_refresh := True, clipboard_active := False\<rparr>)
          })
      });
     cooldown 25
   }"

subsection \<open>Opening\<close>

definition is_bin_name :: "string \<Rightarrow> bool" where
  "is_bin_name n = list_ex (\<lambda>c. n ! c = CHR ''B'' \<and> n ! (c + 1) = CHR ''I'' \<and> n ! (c + 2) = CHR ''N'') [0..<11]"

definition printable :: "char \<Rightarrow> bool" where
  "printable c \<longleftrightarrow> 32 \<le> (of_char c :: nat) \<and> (of_char c :: nat) \<le> 126"

definition shown_text :: "nat \<Rightarrow> mem \<Rightarrow> string" where
  "shown_text limit m = filter (\<lambda>c. printable c \<or> c = CHR 0x0A) (cstr limit m show_buf)"

definition text_limit :: "u16 \<Rightarrow> nat" where
  "text_limit sz = (let limit = min (unat sz) 2000 in if limit = 0 then 512 else limit)"

text \<open>One sector is read, whatever the size; the buffer is the head of the kernel's heap.\<close>

definition open_text :: "'d hw \<Rightarrow> nat \<Rightarrow> nat \<Rightarrow> (('d, 'z) files_scheme, unit) state" where
  "open_text hw w i = do {
     say w ''\<newline>[SYS] OPENING IN NOTEPAD...\<newline>'';
     raise_window 0;
     f \<leftarrow> gets (\<lambda>s. cfs_files s ! i);
     modify (\<lambda>s. s\<lparr>active_file_lba := ucast (of_start_lba f), active_file_idx := i\<rparr>);
     set_title 0 (c_str (of_name f));
     poke (zero_fill show_buf 2000);
     _ \<leftarrow> disk_read_auto hw (ucast (of_start_lba f)) (word_of_nat show_buf);
     t \<leftarrow> peek (shown_text (text_limit (of_size f)));
     modify (upd_window 0 (\<lambda>v. v\<lparr>win_content := put_str t (win_content v), win_cursor := length t\<rparr>))
   }"

definition open_entry :: "'d hw \<Rightarrow> os2_image \<Rightarrow> nat \<Rightarrow> nat \<Rightarrow> (('d, 'z) files_scheme, unit) state" where
  "open_entry hw I w i = do {
     f \<leftarrow> gets (\<lambda>s. cfs_files s ! i);
     (if of_is_folder f \<noteq> 0 then do {
        say w ''\<newline>[SYS] ENTERING FOLDER...\<newline>'';
        modify (\<lambda>s. s\<lparr>active_ntfs_folder_lba := ucast (of_start_lba f), current_folder_id := word_of_nat i,
          current_page_offset := 0, need_ui_refresh := True\<rparr>)
      }
      else do {
        sel \<leftarrow> gets selected_drive_idx;
        when_m (sel \<noteq> 99) (do {
          modify (\<lambda>s. s\<lparr>active_sata_port := detected_ports s ! nat sel\<rparr>);
          _ \<leftarrow> os2_read_sectors hw 1002 (word_of_nat dir_buf);
          skip });
        if is_bin_name (of_name f) then do {
          say w ''\<newline>[SYS] LOADING BINARY APP...\<newline>'';
          ok \<leftarrow> load_and_run_bin (im_cs I) (im_ss I) (ucast (of_start_lba f)) 10;
          (if ok then say w ''[SYS] TASK SPAWNED!\<newline>''
           else do {
             say w ''[ERR] LOAD FAILED!\<newline>GRUND: '';
             t \<leftarrow> gets cmd_status;
             say w t;
             say w ''\<newline>''
           })
        }
        else open_text hw w i
      });
     cooldown 25
   }"

text \<open>The buttons that move through folders and pages.\<close>

definition folder_back :: "(('d, 'z) files_scheme, unit) state" where
  "folder_back = modify (\<lambda>s. s\<lparr>current_folder_id := 255, current_page_offset := 0, need_ui_refresh := True,
     input_cooldown := 15, active_ntfs_folder_lba := 5\<rparr>)"

definition page_prev :: "(('d, 'z) files_scheme, unit) state" where
  "page_prev = modify (\<lambda>s. s\<lparr>current_page_offset := (if 8 \<le> current_page_offset s then current_page_offset s - 8 else current_page_offset s),
     need_ui_refresh := True, input_cooldown := 15\<rparr>)"

definition page_next :: "(('d, 'z) files_scheme, unit) state" where
  "page_next = modify (\<lambda>s. s\<lparr>current_page_offset := current_page_offset s + 8, need_ui_refresh := True, input_cooldown := 15\<rparr>)"

definition page_refresh :: "(('d, 'z) files_scheme, unit) state" where
  "page_refresh = modify (\<lambda>s. s\<lparr>need_ui_refresh := True, input_cooldown := 15\<rparr>)"

definition close_drive :: "(('d, 'z) files_scheme, unit) state" where
  "close_drive = modify (\<lambda>s. s\<lparr>dsk_mgr_opened := False, input_cooldown := 15\<rparr>)"

subsection \<open>Formatting and mounting\<close>

definition select_drive :: "'d hw \<Rightarrow> nat \<Rightarrow> (('d, 'z) files_scheme, unit) state" where
  "select_drive hw i = do {
     p \<leftarrow> gets (\<lambda>s. detected_ports s ! i);
     modify (\<lambda>s. s\<lparr>selected_drive_idx := int i, active_sata_port := p, is_mounted := False\<rparr>);
     bar \<leftarrow> gets active_ahci_bar5;
     ahci_init_port hw (hba_ports bar p) p;
     cooldown 15
   }"

definition boot_sector :: "mem \<Rightarrow> mem" where
  "boot_sector m = (zero_fill mbr_buf 512 m)
     (mbr_buf + 3 := byte_of CHR ''C'', mbr_buf + 4 := byte_of CHR ''F'', mbr_buf + 5 := byte_of CHR ''S'',
      mbr_buf + 510 := 0x55, mbr_buf + 511 := 0xAA)"

definition format_cfs :: "'d hw \<Rightarrow> nat \<Rightarrow> (('d, 'z) files_scheme, unit) state" where
  "format_cfs hw w = do {
     modify (upd_window w (\<lambda>v. v\<lparr>win_cursor := 0\<rparr>));
     poke boot_sector;
     _ \<leftarrow> disk_write_auto hw 0 (word_of_nat mbr_buf);
     poke (zero_fill dir_buf 512);
     _ \<leftarrow> disk_write_auto hw 1002 (word_of_nat dir_buf);
     modify (\<lambda>s. s\<lparr>cfs_files := map (\<lambda>f. f\<lparr>of_exists := 0, of_is_folder := 0, of_parent_idx := 255\<rparr>) (cfs_files s)\<rparr>);
     modify (\<lambda>s. s\<lparr>is_mounted := False, current_folder_id := 255\<rparr>);
     say w ''\<newline>[OK] OS2-CFS V2 FORMATTED.\<newline>'';
     cooldown 15
   }"

text \<open>One directory entry as the drive list shows it, and the whole directory with the space it uses.\<close>

definition file_of_entry :: "mem \<Rightarrow> nat \<Rightarrow> os2_file \<Rightarrow> os2_file" where
  "file_of_entry m e f = f\<lparr>of_exists := 1, of_is_folder := (if m e = 2 then 1 else 0), of_parent_idx := m (e + 16),
     of_name := map (\<lambda>k. let c = chr_of (m (e + 1 + k)) in if printable c then c else CHR 0x00) [0..<11] @ [CHR 0x00],
     of_size := rd16 m (e + 14), of_start_lba := rd16 m (e + 12)\<rparr>"

definition load_entry :: "mem \<Rightarrow> nat \<Rightarrow> os2_file list \<times> u32 \<Rightarrow> os2_file list \<times> u32" where
  "load_entry m i = (\<lambda>(fs, kb). if m (dir_entry i) = 0 then (fs, kb)
     else (fs[i := file_of_entry m (dir_entry i) (fs ! i)], kb + ucast (rd16 m (dir_entry i + 14))))"

definition load_cfs :: "'d hw \<Rightarrow> nat \<Rightarrow> (('d, 'z) files_scheme, unit) state" where
  "load_cfs hw w = do {
     modify (\<lambda>s. s\<lparr>is_ntfs_drive := False\<rparr>);
     poke (zero_fill dir_buf 512);
     _ \<leftarrow> os2_read_sectors hw 1002 (word_of_nat dir_buf);
     modify (\<lambda>s. case fold (load_entry (ram s)) [0..<28] (cfs_files s, drive_used_kb s) of
       (fs, kb) \<Rightarrow> s\<lparr>cfs_files := fs, drive_used_kb := kb\<rparr>);
     say w ''\<newline>[OK] OS2 CFS V2 MOUNTED.\<newline>''
   }"

text \<open>The start of an NTFS volume, from a GPT or from the first entry of an MBR; 0 for none.\<close>

definition gpt_ntfs :: "'d hw \<Rightarrow> nat \<Rightarrow> (('d, 'z) files_scheme, u32) state" where
  "gpt_ntfs hw w = do {
     say w ''\<newline>[OK] GPT DRIVE DETECTED.\<newline>'';
     _ \<leftarrow> os2_read_sectors hw 1 (word_of_nat dir_buf);
     table_lba \<leftarrow> peek (\<lambda>m. rd64 m (dir_buf + 72));
     _ \<leftarrow> os2_read_sectors hw (ucast table_lba) (word_of_nat dir_buf);
     r \<leftarrow> find_m [0..<4] (\<lambda>p. do {
       slba \<leftarrow> peek (\<lambda>m. rd64 m (dir_buf + p * 128 + 32));
       if slba = 0 then State_Monad.return None
       else do {
         _ \<leftarrow> os2_read_sectors hw (ucast slba) (word_of_nat mbr_buf);
         nt \<leftarrow> peek (\<lambda>m. bytes_are m (mbr_buf + 3) ''NT'');
         State_Monad.return (if nt then Some (ucast slba) else None)
       }
     });
     State_Monad.return (case r of None \<Rightarrow> 0 | Some l \<Rightarrow> l)
   }"

definition ntfs_target :: "'d hw \<Rightarrow> nat \<Rightarrow> (('d, 'z) files_scheme, u32) state" where
  "ntfs_target hw w = do {
     part_type \<leftarrow> peek (\<lambda>m. m (mbr_buf + 450));
     signed \<leftarrow> peek (\<lambda>m. m (mbr_buf + 510) = 0x55 \<and> m (mbr_buf + 511) = 0xAA);
     nt \<leftarrow> peek (\<lambda>m. bytes_are m (mbr_buf + 3) ''NT'');
     if \<not> signed then State_Monad.return 0
     else if part_type = 0xEE then gpt_ntfs hw w
     else if part_type = 0x07 \<or> nt then peek (\<lambda>m. rd32 m (mbr_buf + 454))
     else State_Monad.return 0
   }"

definition cache_record :: "'d hw \<Rightarrow> u64 \<Rightarrow> nat \<Rightarrow> (('d, 'z) files_scheme, unit) state" where
  "cache_record hw mft_lba rec = do {
     let record_lba = mft_lba + word_of_nat (rec * 2);
     let ram_target = (word_of_nat (mft_cache + rec * 1024) :: u64);
     _ \<leftarrow> os2_read_sectors hw (ucast record_lba) ram_target;
     _ \<leftarrow> os2_read_sectors hw (ucast (record_lba + 1)) (ram_target + 512);
     skip
   }"

definition load_ntfs :: "'d hw \<Rightarrow> nat \<Rightarrow> (('d, 'z) files_scheme, unit) state" where
  "load_ntfs hw w = do {
     modify (\<lambda>s. s\<lparr>cfs_files := map (\<lambda>f. f\<lparr>of_exists := 0\<rparr>) (cfs_files s)\<rparr>);
     target_ntfs_lba \<leftarrow> ntfs_target hw w;
     if sint target_ntfs_lba > 0 then do {
       say w ''\<newline>[OK] NTFS VOLUME FOUND!\<newline>'';
       modify (\<lambda>s. s\<lparr>is_ntfs_drive := True\<rparr>);
       _ \<leftarrow> os2_read_sectors hw target_ntfs_lba (word_of_nat dir_buf);
       sec_per_cluster \<leftarrow> peek (\<lambda>m. m (dir_buf + 13));
       mft_cluster \<leftarrow> peek (\<lambda>m. rd64 m (dir_buf + 48));
       let mft_lba = ucast target_ntfs_lba + mft_cluster * ucast sec_per_cluster;
       say w ''[SYS] CACHING 50,000 MFT RECORDS...\<newline>'';
       for_m [0..<50000] (cache_record hw mft_lba);
       say w ''[OK] CACHE READY! RAM SPEED UNLOCKED.\<newline>'';
       modify (\<lambda>s. s\<lparr>need_ui_refresh := True\<rparr>)
     }
     else say w ''\<newline>[ERR] NO VALID NTFS MFT FOUND.\<newline>''
   }"

text \<open>
  OPEN in the main view. \<open>ahci_identify\<close> waits without a bound: the result is false when the
  fuel has run out and the handler still waits.
\<close>

definition mount_drive :: "nat \<Rightarrow> 'd hw \<Rightarrow> nat \<Rightarrow> (('d, 'z) files_scheme, bool) state" where
  "mount_drive fuel hw w = do {
     modify (upd_window w (\<lambda>v. v\<lparr>win_cursor := 0\<rparr>));
     modify (\<lambda>s. s\<lparr>active_sata_port := detected_ports s ! nat (selected_drive_idx s)\<rparr>);
     r \<leftarrow> ahci_identify fuel hw (word_of_nat mbr_buf);
     (case r of None \<Rightarrow> State_Monad.return False
      | Some _ \<Rightarrow> do {
          lba_low \<leftarrow> peek (\<lambda>m. rd32 m (mbr_buf + 200));
          let gb = lba_low div 2097152;
          modify (\<lambda>s. s\<lparr>drive_total_gb := (if gb = 0 then 1 else gb)\<rparr>);
          poke (zero_fill mbr_buf 512);
          _ \<leftarrow> os2_read_sectors hw 0 (word_of_nat mbr_buf);
          modify (\<lambda>s. s\<lparr>cfs_files := map (\<lambda>f. f\<lparr>of_exists := 0, of_parent_idx := 255, of_is_folder := 0\<rparr>) (cfs_files s)\<rparr>);
          modify (\<lambda>s. s\<lparr>is_mounted := True, drive_used_kb := 0\<rparr>);
          cfs \<leftarrow> peek (\<lambda>m. bytes_are m (mbr_buf + 3) ''CFS'');
          apk \<leftarrow> peek (\<lambda>m. m mbr_buf = 0x50 \<and> m (mbr_buf + 1) = 0x4B \<and> m (mbr_buf + 2) = 3 \<and> m (mbr_buf + 3) = 4);
          (if cfs then load_cfs hw w
           else if apk then say w ''\<newline>[OK] ANDROID APK DETECTED.\<newline>''
           else load_ntfs hw w);
          modify (\<lambda>s. s\<lparr>current_folder_id := 255, dsk_mgr_opened := True, input_cooldown := 15\<rparr>);
          State_Monad.return True
        })
   }"

subsection \<open>Browsing NTFS\<close>

text \<open>
  The attributes of an MFT record in the cache: the offset of the first file name (type 0x30,
  resident, not a DOS name) whose parent is \<open>target\<close>. Positions are C integers; a length that
  leads backwards may never end, then there is no result.
\<close>

definition name_at :: "mem \<Rightarrow> nat \<Rightarrow> u32 \<Rightarrow> nat \<Rightarrow> nat option" where
  "name_at m r target p =
     (if rd32 m (r + p) = 0x30 \<and> m (r + p + 8) = 0
      then (let fn_base = p + unat (rd16 m (r + p + 20)) in
        if 1024 \<le> fn_base + 80 \<or> rd32 m (r + fn_base) \<noteq> target \<or> m (r + fn_base + 65) = 2 then None else Some fn_base)
      else None)"

partial_function (option) mft_attr :: "mem \<Rightarrow> nat \<Rightarrow> u32 \<Rightarrow> u32 \<Rightarrow> nat option option" where
  "mft_attr m r target pos =
     (if \<not> (0 < unat pos \<and> unat pos < 1000) then Some None
      else let p = unat pos; attr_len = rd32 m (r + p + 4) in
        if rd32 m (r + p) = 0xFFFFFFFF \<or> attr_len = 0 then Some None
        else case name_at m r target p of
          Some b \<Rightarrow> Some (Some b)
        | None \<Rightarrow> mft_attr m r target (pos + attr_len))"

definition mft_used :: "mem \<Rightarrow> nat \<Rightarrow> bool" where
  "mft_used m r \<longleftrightarrow> bytes_are m r ''FILE'' \<and> bit (rd16 m (r + 22)) 0"

definition ntfs_char :: "char \<Rightarrow> char" where
  "ntfs_char c = (let ch = up_char c in
     if plain_char ch \<or> ch = CHR ''_'' \<or> ch = CHR '' '' then ch else CHR ''_'')"

definition ntfs_file :: "mem \<Rightarrow> nat \<Rightarrow> nat \<Rightarrow> nat \<Rightarrow> u8 \<Rightarrow> os2_file \<Rightarrow> os2_file" where
  "ntfs_file m r b rec parent f =
     (let n = min 11 (unat (m (r + b + 64))) in
      f\<lparr>of_exists := 1, of_parent_idx := parent, of_is_folder := (if bit (rd16 m (r + 22)) 1 then 1 else 0),
        of_size := ucast (rd32 m (r + b + 48)), of_start_lba := word_of_nat rec,
        of_name := put_str (map (\<lambda>c. ntfs_char (chr_of (m (r + b + 66 + c * 2)))) [0..<n]) (of_name f)\<rparr>)"

fun mft_loop :: "mem \<Rightarrow> u32 \<Rightarrow> nat \<Rightarrow> u8 \<Rightarrow> nat list \<Rightarrow> nat \<Rightarrow> nat \<Rightarrow> os2_file list \<Rightarrow> os2_file list option" where
  "mft_loop m target offset parent [] file_idx skipped fs = Some fs"
| "mft_loop m target offset parent (rec # recs) file_idx skipped fs =
     (if 8 \<le> file_idx then Some fs
      else let r = mft_cache + rec * 1024 in
        if \<not> mft_used m r then mft_loop m target offset parent recs file_idx skipped fs
        else case mft_attr m r target (ucast (rd16 m (r + 20))) of
          None \<Rightarrow> None
        | Some None \<Rightarrow> mft_loop m target offset parent recs file_idx skipped fs
        | Some (Some b) \<Rightarrow>
            if skipped < offset then mft_loop m target offset parent recs file_idx (skipped + 1) fs
            else mft_loop m target offset parent recs (file_idx + 1) skipped
              (fs[file_idx := ntfs_file m r b rec parent (fs ! file_idx)]))"

definition browse_ntfs :: "('d, 'z) files_scheme \<Rightarrow> ('d, 'z) files_scheme option" where
  "browse_ntfs s =
     (if \<not> (is_ntfs_drive s \<and> need_ui_refresh s) then Some s
      else let target = (if current_folder_id s = 255 then 5 else active_ntfs_folder_lba s);
          fs = map (\<lambda>f. f\<lparr>of_exists := 0, of_name := (of_name f)[0 := CHR 0x00]\<rparr>) (cfs_files s)
        in map_option (\<lambda>fs. s\<lparr>cfs_files := fs, need_ui_refresh := False\<rparr>)
          (mft_loop (ram s) target (current_page_offset s) (current_folder_id s) [16..<50000] 0 0 fs))"

subsection \<open>What the handlers leave in a directory\<close>

text \<open>Every store of an entry works byte by byte: a byte is set, or it is what it was.\<close>

lemma c_str_put_str: "CHR 0x00 \<notin> set t \<Longrightarrow> c_str (put_str t old) = t"
proof -
  assume "CHR 0x00 \<notin> set t"
  then have "takeWhile (\<lambda>c. c \<noteq> CHR 0x00) (t @ CHR 0x00 # drop (length t + 1) old) = t @ takeWhile (\<lambda>c. c \<noteq> CHR 0x00) (CHR 0x00 # drop (length t + 1) old)"
    by (intro takeWhile_append2) auto
  then show ?thesis by (simp add: c_str_def put_str_def)
qed

lemma c_str_no_nul: "CHR 0x00 \<notin> set (c_str t)"
  by (auto simp: c_str_def dest: set_takeWhileD)

lemma put_chars_cong: "m a = m' a \<Longrightarrow> put_chars p t m a = put_chars p t m' a"
  by (simp add: put_chars_def wr_bytes_def)

lemma save_entry_cong: "m a = m' a \<Longrightarrow> save_entry e k t sz lba p m a = save_entry e k t sz lba p m' a"
  by (simp add: save_entry_def wr16_def put_chars_def wr_bytes_def zero_fill_def)

lemma paste_entry_cong: "m a = m' a \<Longrightarrow> paste_entry e k t sz lba p m a = paste_entry e k t sz lba p m' a"
  by (simp add: paste_entry_def wr16_def put_chars_def wr_bytes_def zero_fill_def)

lemma rd_bytes_cong: "(\<And>k. k < n \<Longrightarrow> m (a + k) = m' (b + k)) \<Longrightarrow> rd_bytes m a n = rd_bytes m' b n"
  by (simp add: rd_bytes_def)

lemma rd_bytes_nth: "k < n \<Longrightarrow> rd_bytes m a n ! k = m (a + k)"
  by (simp add: rd_bytes_def)

text \<open>The directory sector as memory at its buffer.\<close>

definition dir_mem :: "u8 list \<Rightarrow> mem" where
  "dir_mem bs = wr_bytes dir_buf bs (\<lambda>_. 0)"

lemma dir_mem_rd: "rd_bytes m dir_buf 512 = bs \<Longrightarrow> k < 512 \<Longrightarrow> m (dir_buf + k) = dir_mem bs (dir_buf + k)"
  by (auto simp: dir_mem_def wr_bytes_at rd_bytes_nth)

lemma free_entry_dir:
  assumes "rd_bytes m dir_buf 512 = bs"
  shows "free_entry m = first_slot (\<lambda>i. bs ! (18 * i) = 0) [0..<28]"
  unfolding free_entry_def dir_entry_def
  by (rule first_slot_cong) (use assms in \<open>auto simp: rd_bytes_nth\<close>)

lemma save_entry_dir:
  assumes "rd_bytes m dir_buf 512 = bs"
  shows "rd_bytes (save_entry e k t sz lba p m) dir_buf 512 = rd_bytes (save_entry e k t sz lba p (dir_mem bs)) dir_buf 512"
  by (rule rd_bytes_cong) (rule save_entry_cong, rule dir_mem_rd [OF assms])

lemma paste_entry_dir:
  assumes "rd_bytes m dir_buf 512 = bs"
  shows "rd_bytes (paste_entry e k t sz lba p m) dir_buf 512 = rd_bytes (paste_entry e k t sz lba p (dir_mem bs)) dir_buf 512"
  by (rule rd_bytes_cong) (rule paste_entry_cong, rule dir_mem_rd [OF assms])

lemma save_entry_at:
  assumes "length t \<le> 10"
  shows "save_entry e k t sz lba p m e = k" "save_entry e k t sz lba p m (e + 16) = p"
    "rd16 (save_entry e k t sz lba p m) (e + 12) = lba" "rd16 (save_entry e k t sz lba p m) (e + 14) = sz"
    "j < length t \<Longrightarrow> save_entry e k t sz lba p m (e + 1 + j) = byte_of (t ! j)"
    "length t \<le> j \<Longrightarrow> j < 11 \<Longrightarrow> save_entry e k t sz lba p m (e + 1 + j) = 0"
    "a < e \<or> e + 17 \<le> a \<Longrightarrow> save_entry e k t sz lba p m a = m a"
proof -
  have nul: "byte_of (CHR 0x00) = 0" by (simp add: byte_of_def)
  let ?m = "save_entry e k t sz lba p m"
  let ?n = "put_chars (e + 1) t (zero_fill (e + 1) 11 (m(e := k)))"
  have m: "?m = (wr16 (e + 12) lba (wr16 (e + 14) sz ?n))(e + 16 := p)" by (simp add: save_entry_def)
  have n: "?n a = (m(e := k)) a" if "a < e + 1 \<or> e + 12 \<le> a" for a
    using that assms by (auto simp: put_chars_def wr_bytes_other zero_fill_other)
  show "?m e = k" using n [of e] by (simp add: m wr16_other)
  show "?m (e + 16) = p" by (simp add: m)
  show "rd16 ?m (e + 12) = lba"
  proof -
    have "rd16 ?m (e + 12) = rd16 (wr16 (e + 12) lba (wr16 (e + 14) sz ?n)) (e + 12)" by (simp add: m rd16_def)
    then show ?thesis by simp
  qed
  show "rd16 ?m (e + 14) = sz"
  proof -
    have "rd16 ?m (e + 14) = rd16 (wr16 (e + 14) sz ?n) (e + 14)" by (simp add: m rd16_def wr16_other)
    then show ?thesis by simp
  qed
  have name: "?m (e + 1 + j) = ?n (e + 1 + j)" if "j < 11" for j
    using that by (simp add: m wr16_other)
  show "j < length t \<Longrightarrow> ?m (e + 1 + j) = byte_of (t ! j)"
    using name [of j] assms wr_bytes_at [of j "bytes_of (t @ [CHR 0x00])" "e + 1"]
    by (simp add: put_chars_def bytes_of_def nth_append)
  show "length t \<le> j \<Longrightarrow> j < 11 \<Longrightarrow> ?m (e + 1 + j) = 0"
    using name [of j] wr_bytes_at [of j "bytes_of (t @ [CHR 0x00])" "e + 1"] nul
    by (cases "j = length t") (simp_all add: put_chars_def bytes_of_def wr_bytes_other zero_fill_in nth_append)
  show "a < e \<or> e + 17 \<le> a \<Longrightarrow> ?m a = m a" using n [of a] by (auto simp: m wr16_other)
qed

end
