(* ===== verification/Os2_Store.thy ===== *)
theory Os2_Store
  imports Os2_Files
begin

text \<open>
  What the file system of the second kernel achieves on a drive that works: a saved text opens
  again, a saved entry is what the next mount shows, and where it does not do what it means to.
\<close>

subsection \<open>The driver between the steps of a handler\<close>

lemma rw_ready_ram:
  assumes "rw_ready hw V L hdr tbl s" "\<And>i. i \<in> sata_priv hdr tbl \<Longrightarrow> m i = ram s i"
  shows "rw_ready hw V L hdr tbl (s\<lparr>ram := m\<rparr>)"
proof -
  have "rd64 m (hdr + 8) = rd64 (ram s) (hdr + 8)"
    by (rule rd64_cong) (rule assms(2), simp add: sata_priv_def)
  then show ?thesis using assms(1) by (simp add: rw_ready_def)
qed

lemma rw_ready_fields [simp]:
  "rw_ready hw V L hdr tbl (s\<lparr>cfs_files := a\<rparr>) = rw_ready hw V L hdr tbl s"
  "rw_ready hw V L hdr tbl (s\<lparr>windows := b\<rparr>) = rw_ready hw V L hdr tbl s"
  "rw_ready hw V L hdr tbl (s\<lparr>win_z := c\<rparr>) = rw_ready hw V L hdr tbl s"
  "rw_ready hw V L hdr tbl (s\<lparr>input_cooldown := d\<rparr>) = rw_ready hw V L hdr tbl s"
  "rw_ready hw V L hdr tbl (t\<lparr>active_file_lba := e, active_file_idx := f\<rparr>) = rw_ready hw V L hdr tbl t"
  "rw_ready hw V L hdr tbl (t\<lparr>is_ntfs_drive := g\<rparr>) = rw_ready hw V L hdr tbl t"
  by (simp_all add: rw_ready_def)

text \<open>The buffers of the handlers lie outside the driver's own memory.\<close>

definition bufs_clear :: "nat \<Rightarrow> nat \<Rightarrow> bool" where
  "bufs_clear hdr tbl \<longleftrightarrow> clear_of (sata_priv hdr tbl) dir_buf 512 \<and> clear_of (sata_priv hdr tbl) text_buf 5120
     \<and> clear_of (sata_priv hdr tbl) show_buf 2000"

lemma bufs_clearD:
  assumes "bufs_clear hdr tbl"
  shows "clear_of (sata_priv hdr tbl) (unat (word_of_nat dir_buf :: u64)) 512"
    "clear_of (sata_priv hdr tbl) (unat (word_of_nat show_buf :: u64)) 512"
    "k < 10 \<Longrightarrow> clear_of (sata_priv hdr tbl) (unat (word_of_nat (text_buf + k * 512) :: u64)) 512"
    "i \<in> sata_priv hdr tbl \<Longrightarrow> i < dir_buf \<or> dir_buf + 512 \<le> i"
    "i \<in> sata_priv hdr tbl \<Longrightarrow> i < text_buf \<or> text_buf + 5120 \<le> i"
    "i \<in> sata_priv hdr tbl \<Longrightarrow> i < show_buf \<or> show_buf + 2000 \<le> i"
proof -
  note c = assms [unfolded bufs_clear_def]
  have u: "unat (word_of_nat dir_buf :: u64) = dir_buf" "unat (word_of_nat show_buf :: u64) = show_buf"
    by (simp_all add: dir_buf_def show_buf_def)
  show "clear_of (sata_priv hdr tbl) (unat (word_of_nat dir_buf :: u64)) 512" using c u by simp
  show "clear_of (sata_priv hdr tbl) (unat (word_of_nat show_buf :: u64)) 512"
    using c u by (auto intro: clear_of_sub)
  show "k < 10 \<Longrightarrow> clear_of (sata_priv hdr tbl) (unat (word_of_nat (text_buf + k * 512) :: u64)) 512"
  proof -
    assume k: "k < 10"
    then have "unat (word_of_nat (text_buf + k * 512) :: u64) = text_buf + k * 512"
      by (intro unat_word_of_nat) (simp add: text_buf_def)
    then show ?thesis using c k by (auto intro: clear_of_sub)
  qed
qed (use assms in \<open>auto simp: bufs_clear_def dest: clear_ofD\<close>)

lemma buf_addrs:
  "unat (word_of_nat dir_buf :: u64) = dir_buf" "unat (word_of_nat show_buf :: u64) = show_buf"
  "unat (word_of_nat text_buf :: u64) = text_buf"
  by (simp_all add: dir_buf_def show_buf_def text_buf_def)

lemma sector_1002: "take_bit 28 (1002 :: u32) = 1002"
  by simp

lemma sector_not_dir: "n \<le> 5000 \<Longrightarrow> n \<noteq> 1002 \<Longrightarrow> (word_of_nat n :: u32) \<noteq> 1002"
proof
  assume n: "n \<le> 5000" "n \<noteq> 1002" "(word_of_nat n :: u32) = 1002"
  then have "unat (word_of_nat n :: u32) = 1002" by simp
  moreover have "unat (word_of_nat n :: u32) = n" using n(1) by (intro unat_word_of_nat) simp
  ultimately show False using n(2) by simp
qed

lemma wide_nat:
  assumes "n < 65536"
  shows "ucast (word_of_nat n :: u16) = (word_of_nat n :: u32)"
proof -
  have "unat (word_of_nat n :: u16) = n" "unat (word_of_nat n :: u32) = n" using assms by (simp_all add: unat_word_of_nat)
  moreover have "unat (ucast (word_of_nat n :: u16) :: u32) = unat (word_of_nat n :: u16)"
    using assms by (simp add: unsigned_ucast_eq take_bit_nat_eq_self unat_word_of_nat)
  ultimately show ?thesis by (metis word_unat_eq_iff)
qed

lemma sector_4000:
  assumes "n \<le> 5000"
  shows "take_bit 28 (word_of_nat n :: u32) = word_of_nat n" "unat (word_of_nat n :: u32) = n"
proof -
  show u: "unat (word_of_nat n :: u32) = n" using assms by (intro unat_word_of_nat) simp
  then have "unat (take_bit 28 (word_of_nat n :: u32)) = n"
    using assms by (simp add: unsigned_take_bit_eq take_bit_nat_eq_self)
  then show "take_bit 28 (word_of_nat n :: u32) = word_of_nat n" using u by (metis word_unat_eq_iff)
qed

subsection \<open>Saving a text\<close>

text \<open>The sector a text is stored in: its first 512 characters, filled up with zeros.\<close>

definition text_sector :: "string \<Rightarrow> u8 list" where
  "text_sector t = take 512 (bytes_of t @ replicate 512 0)"

lemma text_staged_at:
  assumes "k < 5120"
  shows "wr_bytes text_buf (bytes_of t) (zero_fill text_buf 5120 m) (text_buf + k) = (if k < length t then byte_of (t ! k) else 0)"
  using assms by (simp add: wr_bytes_def zero_fill_def bytes_of_def)

lemma text_staged_other:
  assumes "length t \<le> 5120" "a < text_buf \<or> text_buf + 5120 \<le> a"
  shows "wr_bytes text_buf (bytes_of t) (zero_fill text_buf 5120 m) a = m a"
  using assms by (auto simp: wr_bytes_def zero_fill_def)

lemma text_staged_sector:
  "rd_bytes (wr_bytes text_buf (bytes_of t) (zero_fill text_buf 5120 m)) text_buf 512 = text_sector t"
proof (rule nth_equalityI)
  fix k
  assume "k < length (rd_bytes (wr_bytes text_buf (bytes_of t) (zero_fill text_buf 5120 m)) text_buf 512)"
  then have k: "k < 512" by simp
  then show "rd_bytes (wr_bytes text_buf (bytes_of t) (zero_fill text_buf 5120 m)) text_buf 512 ! k = text_sector t ! k"
    using text_staged_at [of k t m] by (simp add: rd_bytes_nth text_sector_def nth_append bytes_of_def)
qed (simp add: text_sector_def)

definition saved_dir :: "u8 list \<Rightarrow> nat \<Rightarrow> u8 \<Rightarrow> string \<Rightarrow> u16 \<Rightarrow> u16 \<Rightarrow> u8 \<Rightarrow> u8 list" where
  "saved_dir dir i kind name sz lba parent = rd_bytes (save_entry (dir_entry i) kind name sz lba parent (dir_mem dir)) dir_buf 512"

definition after_save :: "nat \<Rightarrow> ('d, 'z) files_scheme \<Rightarrow> ('d, 'z) files_scheme" where
  "after_save i s = (upd_window 2 (\<lambda>v. v\<lparr>win_open := False\<rparr>) (upd_window 0 (\<lambda>v. v\<lparr>win_title := ''SAVED SUCCESS!''\<rparr>)
     ((upd_file i (file_saved 0 (current_folder_id s) (c_str (save_filename s)) 5120 (word_of_nat (4000 + i))) s)
       \<lparr>active_file_lba := word_of_nat (4000 + i), active_file_idx := i\<rparr>)))\<lparr>input_cooldown := 25\<rparr>"

lemma save_as_run:
  fixes s :: "('d, 'z) files_scheme"
  assumes rdy: "rw_ready hw V L hdr tbl s" and sel: "selected_drive_idx s \<noteq> 99" and bufs: "bufs_clear hdr tbl"
    and len: "length (win_text (windows s ! 0)) \<le> 2000" and nm: "length (c_str (save_filename s)) \<le> 10"
    and slot: "first_slot (\<lambda>i. s_sect V (dev s) 1002 ! (18 * i) = 0) [0..<28] = Some i"
  shows "\<exists>m d. run_state (save_as_file hw) s = ((), after_save i (s\<lparr>ram := m, dev := d\<rparr>))
    \<and> rw_ready hw V L hdr tbl (s\<lparr>ram := m, dev := d\<rparr>)
    \<and> s_sect V d = (s_sect V (dev s))(word_of_nat (4000 + i) := text_sector (win_text (windows s ! 0)),
        1002 := saved_dir (s_sect V (dev s) 1002) i 1 (c_str (save_filename s)) 5120 (word_of_nat (4000 + i)) (current_folder_id s))"
proof -
  let ?t = "win_text (windows s ! 0)" and ?name = "c_str (save_filename s)" and ?par = "current_folder_id s"
  let ?dir = "s_sect V (dev s) 1002"
  let ?lba = "word_of_nat (4000 + i) :: u16"
  define m0 where "m0 = wr_bytes text_buf (bytes_of ?t) (zero_fill text_buf 5120 (ram s))"
  let ?s0 = "s\<lparr>ram := m0\<rparr>"
  note b = bufs_clearD [OF bufs]
  have i: "i < 28" using first_slot_less [OF slot] by simp
  have r0: "rw_ready hw V L hdr tbl ?s0"
  proof (rule rw_ready_ram [OF rdy])
    show "m0 a = ram s a" if "a \<in> sata_priv hdr tbl" for a
      using text_staged_other [of ?t a] b(5) [OF that] len by (simp add: m0_def)
  qed
  have s0: "selected_drive_idx ?s0 \<noteq> 99" using sel by simp
  obtain m1 d1 where rd: "run_state (disk_read_auto hw 1002 (word_of_nat dir_buf)) ?s0 = (True, ?s0\<lparr>ram := m1, dev := d1\<rparr>)"
    and r1: "rw_ready hw V L hdr tbl (?s0\<lparr>ram := m1, dev := d1\<rparr>)" and d1: "s_sect V d1 = s_sect V (dev s)"
    and dir: "rd_bytes m1 dir_buf 512 = ?dir"
    and o1: "\<forall>i. i \<notin> sata_priv hdr tbl \<longrightarrow> i < dir_buf \<or> dir_buf + 512 \<le> i \<longrightarrow> m1 i = m0 i"
    using disk_read_run [OF r0 s0 b(1), of 1002] unfolding buf_addrs sector_1002 by auto
  have f: "free_entry m1 = Some i" using free_entry_dir [OF dir] slot by simp
  have tx: "rd_bytes m1 text_buf 512 = text_sector ?t"
  proof -
    have c: "clear_of (sata_priv hdr tbl) text_buf 512"
      using bufs unfolding bufs_clear_def by (auto intro: clear_of_sub)
    have "m1 (text_buf + k) = m0 (text_buf + k)" if "k < 512" for k
      using o1 c that by (auto simp: clear_of_def text_buf_def dir_buf_def)
    then have "rd_bytes m1 text_buf 512 = rd_bytes m0 text_buf 512" by (intro rd_bytes_cong)
    then show ?thesis using text_staged_sector by (simp add: m0_def)
  qed
  have s1: "selected_drive_idx (?s0\<lparr>ram := m1, dev := d1\<rparr>) \<noteq> 99" using sel by simp
  have t4: "take_bit 28 (word_of_nat (4000 + i) :: u32) = word_of_nat (4000 + i)" using i by (intro sector_4000) simp
  obtain m2 d2 where w1: "run_state (disk_write_auto hw (word_of_nat (4000 + i)) (word_of_nat text_buf)) (?s0\<lparr>ram := m1, dev := d1\<rparr>)
      = (True, ?s0\<lparr>ram := m1, dev := d1\<rparr>\<lparr>ram := m2, dev := d2\<rparr>)"
    and r2: "rw_ready hw V L hdr tbl (?s0\<lparr>ram := m1, dev := d1\<rparr>\<lparr>ram := m2, dev := d2\<rparr>)"
    and d2: "s_sect V d2 = (s_sect V d1)(word_of_nat (4000 + i) := rd_bytes m1 text_buf 512)"
    and o2: "\<forall>i. i \<notin> sata_priv hdr tbl \<longrightarrow> m2 i = m1 i"
    using disk_write_run [OF r1 s1 b(3) [of 0, simplified], of "word_of_nat (4000 + i)"] unfolding t4 by (auto simp: buf_addrs)
  let ?m3 = "save_entry (dir_entry i) 1 ?name 5120 ?lba ?par m2"
  have dir2: "rd_bytes m2 dir_buf 512 = ?dir"
    using dir rd_bytes_clear [OF b(1) [unfolded buf_addrs] o2] by simp
  have r3: "rw_ready hw V L hdr tbl (s\<lparr>ram := ?m3, dev := d2\<rparr>)"
  proof -
    have "?m3 a = m2 a" if "a \<in> sata_priv hdr tbl" for a
      by (rule save_entry_at(7) [OF nm]) (use b(4) [OF that] i in \<open>auto simp: dir_entry_def\<close>)
    then show ?thesis using rw_ready_ram [OF r2, of ?m3] by simp
  qed
  have s3: "selected_drive_idx (s\<lparr>ram := ?m3, dev := d2\<rparr>) \<noteq> 99" using sel by simp
  obtain m4 d4 where w2: "run_state (disk_write_auto hw 1002 (word_of_nat dir_buf)) (s\<lparr>ram := ?m3, dev := d2\<rparr>)
      = (True, s\<lparr>ram := ?m3, dev := d2\<rparr>\<lparr>ram := m4, dev := d4\<rparr>)"
    and r4: "rw_ready hw V L hdr tbl (s\<lparr>ram := ?m3, dev := d2\<rparr>\<lparr>ram := m4, dev := d4\<rparr>)"
    and d4: "s_sect V d4 = (s_sect V d2)(1002 := rd_bytes ?m3 dir_buf 512)"
    using disk_write_run [OF r3 s3 b(1), of 1002] unfolding buf_addrs sector_1002 by auto
  have run: "run_state (save_as_file hw) s = ((), after_save i (s\<lparr>ram := m4, dev := d4\<rparr>))"
    using rd f w1 w2
    by (simp add: save_as_file_def stage_text_def m0_def [symmetric] set_title_def cooldown_def after_save_def upd_file_def upd_window_def)
  have disk: "s_sect V d4 = (s_sect V (dev s))(word_of_nat (4000 + i) := text_sector ?t, 1002 := saved_dir ?dir i 1 ?name 5120 ?lba ?par)"
    using d1 d2 d4 tx save_entry_dir [OF dir2, of "dir_entry i" 1 ?name 5120 ?lba ?par] by (simp add: saved_dir_def)
  have "rw_ready hw V L hdr tbl (s\<lparr>ram := m4, dev := d4\<rparr>)" using r4 by simp
  then show ?thesis using run disk by blast
qed

lemma rw_ready_saved: "rw_ready hw V L hdr tbl (after_save i s) = rw_ready hw V L hdr tbl s"
  by (simp add: after_save_def upd_window_def upd_file_def rw_ready_def)

lemma after_save_same [simp]:
  "selected_drive_idx (after_save i s) = selected_drive_idx s" "dev (after_save i s) = dev s" "ram (after_save i s) = ram s"
  "length (windows (after_save i s)) = length (windows s)" "length (cfs_files (after_save i s)) = length (cfs_files s)"
  by (simp_all add: after_save_def upd_window_def upd_file_def)

lemma after_save_file:
  "i < length (cfs_files s) \<Longrightarrow> cfs_files (after_save i s) ! i
    = file_saved 0 (current_folder_id s) (c_str (save_filename s)) 5120 (word_of_nat (4000 + i)) (cfs_files s ! i)"
  by (simp add: after_save_def upd_window_def upd_file_def)

subsection \<open>Opening a text\<close>

text \<open>The kernel before the sector of an opened text is read.\<close>

definition before_read :: "nat \<Rightarrow> nat \<Rightarrow> ('d, 'z) files_scheme \<Rightarrow> ('d, 'z) files_scheme" where
  "before_read w i s = (let f = cfs_files s ! i; s = upd_window w (print_win ''\<newline>[SYS] OPENING IN NOTEPAD...\<newline>'') s;
     s = (upd_window 0 (\<lambda>v. v\<lparr>win_open := True, win_minimized := False\<rparr>) s)\<lparr>win_z := focus_window 0 (win_z s)\<rparr>;
     s = s\<lparr>active_file_lba := ucast (of_start_lba f), active_file_idx := i\<rparr>
   in upd_window 0 (\<lambda>v. v\<lparr>win_title := c_str (of_name f)\<rparr>) s)"

lemma before_read_same:
  "rw_ready hw V L hdr tbl (before_read w i s) = rw_ready hw V L hdr tbl s"
  "rw_ready hw V L hdr tbl ((before_read w i s)\<lparr>ram := m\<rparr>) = rw_ready hw V L hdr tbl (s\<lparr>ram := m\<rparr>)"
  "selected_drive_idx (before_read w i s) = selected_drive_idx s" "dev (before_read w i s) = dev s" "ram (before_read w i s) = ram s"
  "length (windows (before_read w i s)) = length (windows s)"
  by (simp_all add: before_read_def upd_window_def rw_ready_def Let_def)

lemma open_text_run:
  "run_state (open_text hw w i) s =
    (let f = cfs_files s ! i; s3 = snd (run_state (disk_read_auto hw (ucast (of_start_lba f)) (word_of_nat show_buf))
        ((before_read w i s)\<lparr>ram := zero_fill show_buf 2000 (ram s)\<rparr>));
       t = shown_text (text_limit (of_size f)) (ram s3)
     in ((), upd_window 0 (\<lambda>v. v\<lparr>win_content := put_str t (win_content v), win_cursor := length t\<rparr>) s3))"
  by (simp add: open_text_def before_read_def run_say raise_window_def set_title_def Let_def upd_window_def split: prod.split)

lemma win_text_put: "win_text (v\<lparr>win_content := put_str t c, win_cursor := length t\<rparr>) = t"
  by (simp add: win_text_def put_str_def)

text \<open>What a sector with nothing but zeros behind it shows.\<close>

lemma shown_sector:
  assumes "rd_bytes m show_buf 512 = text_sector t" "\<And>k. 512 \<le> k \<Longrightarrow> k < 2000 \<Longrightarrow> m (show_buf + k) = 0"
    and "\<forall>c \<in> set t. printable c \<or> c = CHR 0x0A"
  shows "shown_text 2000 m = take 512 t"
proof -
  let ?t = "take 512 t"
  have no_nul: "CHR 0x00 \<notin> set ?t" using assms(3) by (auto simp: printable_def dest!: in_set_takeD)
  have at: "m (show_buf + k) = text_sector t ! k" if "k < 512" for k using assms(1) that rd_bytes_nth by metis
  have "cstr (length ?t + Suc (1999 - length ?t)) m show_buf = ?t"
  proof (rule cstr_at)
    show "m (show_buf + k) = byte_of (?t ! k)" if "k < length ?t" for k
      using that at [of k] by (simp add: text_sector_def nth_append bytes_of_def)
    show "m (show_buf + length ?t) = 0"
    proof (cases "length t < 512")
      case True
      then show ?thesis using at [of "length t"] by (simp add: text_sector_def nth_append bytes_of_def)
    next
      case False
      then show ?thesis using assms(2) [of 512] by simp
    qed
  qed (use no_nul in simp_all)
  then have "cstr 2000 m show_buf = ?t" by simp
  moreover have "filter (\<lambda>c. printable c \<or> c = CHR 0x0A) ?t = ?t"
    using assms(3) by (auto simp: filter_id_conv dest: in_set_takeD)
  ultimately show ?thesis by (simp add: shown_text_def)
qed

text \<open>
  Property C8. Saving and opening: SAVE AS puts the text of the notepad into the lowest free
  entry of the directory, and opening that entry shows the text again, but only its first 512
  characters. The rest of a longer text has not been written to the drive.
\<close>

theorem saved_text_opens:
  fixes s :: "('d, 'z) files_scheme"
  assumes rdy: "rw_ready hw V L hdr tbl s" and sel: "selected_drive_idx s \<noteq> 99" and bufs: "bufs_clear hdr tbl"
    and len: "length (win_text (windows s ! 0)) \<le> 2000" and plain: "\<forall>c \<in> set (win_text (windows s ! 0)). printable c \<or> c = CHR 0x0A"
    and nm: "length (c_str (save_filename s)) \<le> 10" and dims: "0 < length (windows s)" "length (cfs_files s) = 28"
    and slot: "first_slot (\<lambda>i. s_sect V (dev s) 1002 ! (18 * i) = 0) [0..<28] = Some i"
  shows "win_text (windows (snd (run_state (do { save_as_file hw; open_text hw w i }) s)) ! 0)
    = take 512 (win_text (windows s ! 0))"
proof -
  let ?t = "win_text (windows s ! 0)"
  have i: "i < 28" using first_slot_less [OF slot] by simp
  note b = bufs_clearD [OF bufs]
  obtain m d where run: "run_state (save_as_file hw) s = ((), after_save i (s\<lparr>ram := m, dev := d\<rparr>))"
    and r: "rw_ready hw V L hdr tbl (s\<lparr>ram := m, dev := d\<rparr>)"
    and disk: "s_sect V d (word_of_nat (4000 + i)) = text_sector ?t"
  proof -
    have "word_of_nat (4000 + i) \<noteq> (1002 :: u32)" using i by (intro sector_not_dir) simp_all
    then show ?thesis using save_as_run [OF rdy sel bufs len nm slot] that by auto
  qed
  let ?s1 = "after_save i (s\<lparr>ram := m, dev := d\<rparr>)"
  let ?s2 = "(before_read w i ?s1)\<lparr>ram := zero_fill show_buf 2000 m\<rparr>"
  have r2: "rw_ready hw V L hdr tbl ?s2"
  proof -
    have "rw_ready hw V L hdr tbl (?s1\<lparr>ram := zero_fill show_buf 2000 m\<rparr>)"
      using r b(6) by (intro rw_ready_ram) (auto simp: rw_ready_saved zero_fill_other)
    then show ?thesis by (simp add: before_read_same)
  qed
  have s2: "selected_drive_idx ?s2 \<noteq> 99" using sel by (simp add: before_read_same)
  have l: "ucast (word_of_nat (4000 + i) :: u16) = (word_of_nat (4000 + i) :: u32)"
    using i by (intro wide_nat) simp
  have t4: "take_bit 28 (word_of_nat (4000 + i) :: u32) = word_of_nat (4000 + i)" using i by (intro sector_4000) simp
  obtain m3 d3 where rd: "run_state (disk_read_auto hw (word_of_nat (4000 + i)) (word_of_nat show_buf)) ?s2 = (True, ?s2\<lparr>ram := m3, dev := d3\<rparr>)"
    and sec: "rd_bytes m3 show_buf 512 = text_sector ?t"
    and o3: "\<forall>a. a \<notin> sata_priv hdr tbl \<longrightarrow> a < show_buf \<or> show_buf + 512 \<le> a \<longrightarrow> m3 a = zero_fill show_buf 2000 m a"
    using disk_read_run [OF r2 s2 b(2), of "word_of_nat (4000 + i)"] disk unfolding buf_addrs t4 by (auto simp: before_read_same)
  have z: "m3 (show_buf + k) = 0" if "512 \<le> k" "k < 2000" for k
  proof -
    have "show_buf + k \<notin> sata_priv hdr tbl" using b(6) [of "show_buf + k"] that by auto
    then show ?thesis using o3 that by (simp add: zero_fill_in)
  qed
  have sh: "shown_text (text_limit 5120) m3 = take 512 ?t"
    using shown_sector [OF sec z plain] by (simp add: text_limit_def)
  have f: "cfs_files ?s1 ! i = file_saved 0 (current_folder_id s) (c_str (save_filename s)) 5120 (word_of_nat (4000 + i)) (cfs_files s ! i)"
    using after_save_file [of i "s\<lparr>ram := m, dev := d\<rparr>"] dims i by simp
  have "windows (snd (run_state (open_text hw w i) ?s1)) ! 0
      = (windows ?s2 ! 0)\<lparr>win_content := put_str (take 512 ?t) (win_content (windows ?s2 ! 0)), win_cursor := length (take 512 ?t)\<rparr>"
    using rd sh f dims l before_read_same(6) [of w i ?s1]
    by (simp add: open_text_run Let_def file_saved_def upd_window_def)
  then have "win_text (windows (snd (run_state (open_text hw w i) ?s1)) ! 0) = take 512 ?t" by (simp only: win_text_put)
  then show ?thesis using run by simp
qed

text \<open>A kernel with a drive whose directory is empty and a text in the notepad.\<close>

definition start_file :: os2_file where
  "start_file = \<lparr>of_exists = 0, of_name = replicate 12 (CHR 0x00), of_size = 0, of_start_lba = 0, of_is_folder = 0, of_parent_idx = 255\<rparr>"

definition start_files :: "string \<Rightarrow> ref_disk files" where
  "start_files t = shell.extend (start_shell\<lparr>cfs_files := replicate 28 start_file,
       save_filename := put_str ''NOTE'' (replicate 32 (CHR 0x00)),
       windows := (windows start_shell)[0 := (blank_window 0)\<lparr>win_content := put_str t (replicate 2048 (CHR 0x00)), win_cursor := length t\<rparr>]\<rparr>)
     (files.fields 0 0 255 True 1 0 True False False 0 5 False (replicate 12 (CHR 0x00)) False)"

lemmas start_files_defs = start_files_def start_shell_defs files.defs

lemma start_files_sel:
  "selected_drive_idx (start_files t) = 0" "length (windows (start_files t)) = 13" "win_text (windows (start_files t) ! 0) = t"
  "c_str (save_filename (start_files t)) = ''NOTE''" "cfs_files (start_files t) = replicate 28 start_file"
  "current_folder_id (start_files t) = 255" "s_sect ref_view (dev (start_files t)) l = replicate 512 0"
  by (simp_all add: start_files_defs win_text_def c_str_def put_str_def ref_view_def ref_sect_def del: upt_rec_numeral)

lemma start_files_ready: "rw_ready (ref28_hw 0xFEBF1100) ref_view 3 0x800000 0x801000 (start_files t)"
  using start_shell_ready by (simp add: rw_ready_def start_files_defs del: upt_rec_numeral)

lemma start_files_clear: "bufs_clear 0x800000 0x801000"
  by (auto simp: bufs_clear_def clear_of_def sata_priv_def dir_buf_def text_buf_def show_buf_def)

lemma start_files_slot:
  "first_slot (\<lambda>i. s_sect ref_view (dev (start_files t)) 1002 ! (18 * i) = 0) [0..<28] = Some 0"
  by (rule first_slot_eqI) (simp_all add: start_files_sel del: upt_rec_numeral)

theorem saved_text_opens_witness:
  "win_text (windows (snd (run_state (do { save_as_file (ref28_hw 0xFEBF1100); open_text (ref28_hw 0xFEBF1100) 4 0 })
     (start_files (replicate 700 (CHR ''A''))))) ! 0) = replicate 512 (CHR ''A'')"
  using saved_text_opens [OF start_files_ready _ start_files_clear _ _ _ _ _ start_files_slot, of "replicate 700 (CHR ''A'')" 4]
  by (simp add: start_files_sel printable_def)

subsection \<open>The directory as a map\<close>

text \<open>The abstract directory: a partial map from the 28 places to what an entry says.\<close>

record dir_item =
  di_folder :: bool
  di_name :: string
  di_size :: u16
  di_lba :: u16
  di_parent :: u8

definition entry_item :: "mem \<Rightarrow> nat \<Rightarrow> dir_item" where
  "entry_item m e = \<lparr>di_folder = (m e = 2),
     di_name = c_str (map (\<lambda>k. let c = chr_of (m (e + 1 + k)) in if printable c then c else CHR 0x00) [0..<11]),
     di_size = rd16 m (e + 14), di_lba = rd16 m (e + 12), di_parent = m (e + 16)\<rparr>"

definition dir_view :: "u8 list \<Rightarrow> nat \<Rightarrow> dir_item option" where
  "dir_view bs i = (if i < 28 \<and> dir_mem bs (dir_entry i) \<noteq> 0 then Some (entry_item (dir_mem bs) (dir_entry i)) else None)"

text \<open>The same reading of the list that the windows show.\<close>

definition shown_item :: "os2_file \<Rightarrow> dir_item option" where
  "shown_item f = (if of_exists f = 0 then None
     else Some \<lparr>di_folder = (of_is_folder f \<noteq> 0), di_name = c_str (of_name f), di_size = of_size f,
       di_lba = of_start_lba f, di_parent = of_parent_idx f\<rparr>)"

lemma c_str_append_nul: "c_str (t @ [CHR 0x00]) = c_str t"
  by (induction t) (simp_all add: c_str_def)

lemma shown_file_of_entry: "shown_item (file_of_entry m e f) = Some (entry_item m e)"
  by (simp add: shown_item_def file_of_entry_def entry_item_def c_str_append_nul del: upt_rec_numeral)

lemma entry_item_cong: "(\<And>k. k < 17 \<Longrightarrow> m (e + k) = m' (e + k)) \<Longrightarrow> entry_item m e = entry_item m' e"
proof -
  assume same: "\<And>k. k < 17 \<Longrightarrow> m (e + k) = m' (e + k)"
  have "map (\<lambda>k. let c = chr_of (m (e + 1 + k)) in if printable c then c else CHR 0x00) [0..<11]
      = map (\<lambda>k. let c = chr_of (m' (e + 1 + k)) in if printable c then c else CHR 0x00) [0..<11]"
    by (rule map_cong) (use same [of "1 + k" for k] in \<open>simp_all add: add.assoc del: upt_rec_numeral\<close>)
  moreover have "m e = m' e" "rd16 m (e + 14) = rd16 m' (e + 14)" "rd16 m (e + 12) = rd16 m' (e + 12)" "m (e + 16) = m' (e + 16)"
    using same [of 0] same [of 12] same [of 13] same [of 14] same [of 15] same [of 16] by (simp_all add: rd16_def ac_simps)
  ultimately show ?thesis unfolding entry_item_def by presburger
qed

lemma load_entry_pair:
  "load_entry m i (fs, kb) = (if m (dir_entry i) = 0 then (fs, kb)
     else (fs[i := file_of_entry m (dir_entry i) (fs ! i)], kb + ucast (rd16 m (dir_entry i + 14))))"
  by (simp add: load_entry_def)

lemma load_entries:
  "length (fst (fold (load_entry m) [0..<n] (fs, kb))) = length fs
   \<and> (\<forall>j < length fs. fst (fold (load_entry m) [0..<n] (fs, kb)) ! j
        = (if j < n \<and> m (dir_entry j) \<noteq> 0 then file_of_entry m (dir_entry j) (fs ! j) else fs ! j))"
proof (induction n)
  case (Suc n)
  obtain a b where ab: "fold (load_entry m) [0..<n] (fs, kb) = (a, b)" by fastforce
  show ?case using Suc unfolding ab by (auto simp: load_entry_pair ab nth_list_update less_Suc_eq)
qed simp

lemma mem_dir: "i < 28 \<Longrightarrow> k < 18 \<Longrightarrow> rd_bytes m dir_buf 512 = bs \<Longrightarrow> m (dir_entry i + k) = dir_mem bs (dir_entry i + k)"
  using dir_mem_rd [of m bs "18 * i + k"] by (simp add: dir_entry_def add.assoc)

lemma dir_view_rd:
  assumes "rd_bytes m dir_buf 512 = bs" "i < 28"
  shows "dir_view bs i = (if m (dir_entry i) \<noteq> 0 then Some (entry_item m (dir_entry i)) else None)"
proof -
  have "entry_item m (dir_entry i) = entry_item (dir_mem bs) (dir_entry i)"
    by (rule entry_item_cong) (use mem_dir [OF assms(2) _ assms(1)] in simp)
  then show ?thesis using mem_dir [OF assms(2) _ assms(1), of 0] assms(2) by (simp add: dir_view_def)
qed

lemma dir_view_update:
  assumes i: "i < 28" and old: "rd_bytes m dir_buf 512 = bs"
    and same: "\<And>a. a < dir_entry i \<or> dir_entry i + 17 \<le> a \<Longrightarrow> m' a = m a" and used: "m' (dir_entry i) \<noteq> 0"
  shows "dir_view (rd_bytes m' dir_buf 512) = (dir_view bs)(i \<mapsto> entry_item m' (dir_entry i))"
proof
  fix j
  show "dir_view (rd_bytes m' dir_buf 512) j = ((dir_view bs)(i \<mapsto> entry_item m' (dir_entry i))) j"
  proof (cases "j < 28 \<and> j \<noteq> i")
    case True
    then have eq: "m' (dir_entry j + k) = m (dir_entry j + k)" if "k < 17" for k
      using that by (intro same) (auto simp: dir_entry_def)
    then have "entry_item m' (dir_entry j) = entry_item m (dir_entry j)" by (rule entry_item_cong)
    then show ?thesis using True eq [of 0] dir_view_rd [OF refl, of j m'] dir_view_rd [OF old, of j] by simp
  next
    case False
    then show ?thesis using used i dir_view_rd [OF refl i, of m'] by (cases "j = i") (auto simp: dir_view_def)
  qed
qed

text \<open>A name field: the characters, then NULs, reads as the name.\<close>

lemma name_field:
  assumes "length t \<le> 11" "\<forall>c \<in> set t. printable c"
    and "\<And>k. k < length t \<Longrightarrow> m (a + k) = byte_of (t ! k)" "\<And>k. length t \<le> k \<Longrightarrow> k < 11 \<Longrightarrow> m (a + k) = 0"
  shows "c_str (map (\<lambda>k. let c = chr_of (m (a + k)) in if printable c then c else CHR 0x00) [0..<11]) = t"
proof -
  have "byte_of (CHR 0x00) = 0" by (simp add: byte_of_def)
  then have z: "chr_of 0 = CHR 0x00" "\<not> printable (CHR 0x00)"
    using chr_of_byte_of [of "CHR 0x00"] by (simp_all add: printable_def)
  let ?f = "\<lambda>k. let c = chr_of (m (a + k)) in if printable c then c else CHR 0x00"
  have "map ?f [0..<11] = t @ replicate (11 - length t) (CHR 0x00)"
  proof (rule nth_equalityI)
    fix k
    assume "k < length (map ?f [0..<11])"
    then have "k < 11" by simp
    then show "map ?f [0..<11] ! k = (t @ replicate (11 - length t) (CHR 0x00)) ! k"
      using assms(2) assms(3) [of k] assms(4) [of k] z
      by (cases "k < length t") (auto simp: nth_append Let_def simp del: upt_rec_numeral)
  qed (use assms(1) in simp)
  moreover have "takeWhile (\<lambda>c. c \<noteq> CHR 0x00) (t @ replicate n (CHR 0x00)) = t" for n
  proof -
    have "takeWhile (\<lambda>c. c \<noteq> CHR 0x00) (t @ replicate n (CHR 0x00)) = t @ takeWhile (\<lambda>c. c \<noteq> CHR 0x00) (replicate n (CHR 0x00))"
      using assms(2) z(2) by (intro takeWhile_append2) auto
    then show ?thesis by (cases n) simp_all
  qed
  ultimately show ?thesis by (simp only: c_str_def)
qed

lemma save_entry_item:
  assumes "length t \<le> 10" "\<forall>c \<in> set t. printable c"
  shows "entry_item (save_entry e k t sz lba p m) e = \<lparr>di_folder = (k = 2), di_name = t, di_size = sz, di_lba = lba, di_parent = p\<rparr>"
proof -
  note at = save_entry_at [OF assms(1), where e = e and k = k and sz = sz and lba = lba and p = p and m = m]
  show ?thesis
    unfolding entry_item_def using name_field [of t "save_entry e k t sz lba p m" "e + 1"] at assms by simp
qed

lemma saved_dir_view:
  assumes "length t \<le> 10" "\<forall>c \<in> set t. printable c" "i < 28" "k \<noteq> 0" "length dir = 512"
  shows "dir_view (saved_dir dir i k t sz lba p)
    = (dir_view dir)(i \<mapsto> \<lparr>di_folder = (k = 2), di_name = t, di_size = sz, di_lba = lba, di_parent = p\<rparr>)"
proof -
  have "rd_bytes (dir_mem dir) dir_buf 512 = dir"
    using rd_wr_bytes [of dir_buf dir] assms(5) by (simp add: dir_mem_def)
  from dir_view_update [OF assms(3) this, of "save_entry (dir_entry i) k t sz lba p (dir_mem dir)"]
  show ?thesis using save_entry_at(1,7) [OF assms(1)] assms(4) save_entry_item [OF assms(1,2)] by (simp add: saved_dir_def)
qed

text \<open>What the entry list shows after a save.\<close>

lemma shown_file_saved:
  "shown_item (file_saved folder parent (c_str t) sz lba f)
    = Some \<lparr>di_folder = (folder \<noteq> 0), di_name = c_str t, di_size = sz, di_lba = lba, di_parent = parent\<rparr>"
  by (simp add: shown_item_def file_saved_def c_str_put_str c_str_no_nul)

lemma save_as_full:
  fixes s :: "('d, 'z) files_scheme"
  assumes rdy: "rw_ready hw V L hdr tbl s" and sel: "selected_drive_idx s \<noteq> 99" and bufs: "bufs_clear hdr tbl"
    and len: "length (win_text (windows s ! 0)) \<le> 2000"
    and slot: "first_slot (\<lambda>i. s_sect V (dev s) 1002 ! (18 * i) = 0) [0..<28] = None"
  shows "s_sect V (dev (snd (run_state (save_as_file hw) s))) = s_sect V (dev s)
    \<and> cfs_files (snd (run_state (save_as_file hw) s)) = cfs_files s"
proof -
  let ?t = "win_text (windows s ! 0)"
  define m0 where "m0 = wr_bytes text_buf (bytes_of ?t) (zero_fill text_buf 5120 (ram s))"
  let ?s0 = "s\<lparr>ram := m0\<rparr>"
  note b = bufs_clearD [OF bufs]
  have r0: "rw_ready hw V L hdr tbl ?s0"
  proof (rule rw_ready_ram [OF rdy])
    show "m0 a = ram s a" if "a \<in> sata_priv hdr tbl" for a
      using text_staged_other [of ?t a] b(5) [OF that] len by (simp add: m0_def)
  qed
  have s0: "selected_drive_idx ?s0 \<noteq> 99" using sel by simp
  obtain m1 d1 where rd: "run_state (disk_read_auto hw 1002 (word_of_nat dir_buf)) ?s0 = (True, ?s0\<lparr>ram := m1, dev := d1\<rparr>)"
    and d1: "s_sect V d1 = s_sect V (dev s)" and dir: "rd_bytes m1 dir_buf 512 = s_sect V (dev s) 1002"
    using disk_read_run [OF r0 s0 b(1), of 1002] unfolding buf_addrs sector_1002 by auto
  have "free_entry m1 = None" using free_entry_dir [OF dir] slot by simp
  then show ?thesis using rd d1
    by (simp add: save_as_file_def stage_text_def m0_def [symmetric] set_title_def cooldown_def upd_window_def)
qed

text \<open>
  Property C7. SAVE AS refines the insertion into the abstract directory: the lowest free place
  gets an entry with the name, the size 5120, sector 4000 plus the place, and the current folder;
  the list in the window says the same, and no other sector than that one and the directory
  changes. With all 28 places taken neither the drive nor the list changes.
\<close>

theorem save_refines_directory:
  fixes s :: "('d, 'z) files_scheme"
  assumes rdy: "rw_ready hw V L hdr tbl s" and sel: "selected_drive_idx s \<noteq> 99" and bufs: "bufs_clear hdr tbl"
    and len: "length (win_text (windows s ! 0)) \<le> 2000" and nm: "length (c_str (save_filename s)) \<le> 10"
    and plain: "\<forall>c \<in> set (c_str (save_filename s)). printable c" and dims: "length (cfs_files s) = 28"
  shows "let s' = snd (run_state (save_as_file hw) s); disk = s_sect V (dev s); disk' = s_sect V (dev s') in
    case first_slot (\<lambda>i. disk 1002 ! (18 * i) = 0) [0..<28] of
      None \<Rightarrow> disk' = disk \<and> cfs_files s' = cfs_files s
    | Some i \<Rightarrow> let item = \<lparr>di_folder = False, di_name = c_str (save_filename s), di_size = 5120,
            di_lba = word_of_nat (4000 + i), di_parent = current_folder_id s\<rparr> in
        dir_view (disk' 1002) = (dir_view (disk 1002))(i \<mapsto> item) \<and> shown_item (cfs_files s' ! i) = Some item
        \<and> (\<forall>l. l \<noteq> 1002 \<longrightarrow> l \<noteq> word_of_nat (4000 + i) \<longrightarrow> disk' l = disk l)"
proof (cases "first_slot (\<lambda>i. s_sect V (dev s) 1002 ! (18 * i) = 0) [0..<28]")
  case None
  then show ?thesis using save_as_full [OF rdy sel bufs len None] by (simp add: Let_def)
next
  case (Some i)
  have i: "i < 28" using first_slot_less [OF Some] by simp
  have l: "length (s_sect V (dev s) 1002) = 512" using rdy by (simp add: rw_ready_def sata28_spec_def)
  have u: "CHR 0x00 \<notin> set (c_str (save_filename s))" by (rule c_str_no_nul)
  show ?thesis
    using save_as_run [OF rdy sel bufs len nm Some] saved_dir_view [OF nm plain i _ l, of 1] i dims
    by (auto simp: Some Let_def after_save_file shown_file_saved)
qed

theorem save_refines_directory_witness:
  "dir_view (ref_sect (dev (snd (run_state (save_as_file (ref28_hw 0xFEBF1100)) (start_files ''HELLO'')))) 1002)
    = (dir_view (replicate 512 0))(0 \<mapsto> \<lparr>di_folder = False, di_name = ''NOTE'', di_size = 5120, di_lba = 4000, di_parent = 255\<rparr>)"
  using save_refines_directory [OF start_files_ready _ start_files_clear, of "''HELLO''"] start_files_slot [of "''HELLO''"]
  by (simp add: start_files_sel printable_def Let_def del: upt_rec_numeral) (simp add: ref_view_def)

subsection \<open>Mounting and formatting\<close>

lemma dir_poke_ready:
  assumes "rw_ready hw V L hdr tbl s" "bufs_clear hdr tbl"
  shows "rw_ready hw V L hdr tbl (s\<lparr>ram := zero_fill dir_buf 512 (ram s)\<rparr>)"
  using assms bufs_clearD(4) [OF assms(2)] by (intro rw_ready_ram) (auto simp: zero_fill_other)

text \<open>
  Property C26. Mounting a CFS drive: from a list that has been cleared, each of its 28 places
  then shows exactly what the directory on the drive says, and the drive is not changed.
\<close>

theorem mount_shows_directory:
  fixes s :: "('d, 'z) files_scheme"
  assumes rdy: "rw_ready hw V L hdr tbl s" and bufs: "bufs_clear hdr tbl"
    and empty: "\<forall>f \<in> set (cfs_files s). of_exists f = 0" and dims: "length (cfs_files s) = 28"
  shows "let s' = snd (run_state (load_cfs hw w) s) in s_sect V (dev s') = s_sect V (dev s) \<and> \<not> is_ntfs_drive s'
    \<and> length (cfs_files s') = 28 \<and> (\<forall>i < 28. shown_item (cfs_files s' ! i) = dir_view (s_sect V (dev s) 1002) i)"
proof -
  let ?s0 = "s\<lparr>is_ntfs_drive := False, ram := zero_fill dir_buf 512 (ram s)\<rparr>"
  note b = bufs_clearD [OF bufs]
  have r0: "rw_ready hw V L hdr tbl ?s0" using dir_poke_ready [OF rdy bufs] by (simp add: rw_ready_def)
  obtain m d where rd: "run_state (os2_read_sectors hw 1002 (word_of_nat dir_buf)) ?s0 = (True, ?s0\<lparr>ram := m, dev := d\<rparr>)"
    and d: "s_sect V d = s_sect V (dev s)" and dir: "rd_bytes m dir_buf 512 = s_sect V (dev s) 1002"
    using os2_read_run [OF r0 b(1), of 1002] unfolding buf_addrs sector_1002 by auto
  obtain fs kb where ld: "fold (load_entry m) [0..<28] (cfs_files s, drive_used_kb s) = (fs, kb)" by fastforce
  have fs: "length fs = 28" "\<And>i. i < 28 \<Longrightarrow> fs ! i = (if m (dir_entry i) \<noteq> 0 then file_of_entry m (dir_entry i) (cfs_files s ! i) else cfs_files s ! i)"
    using load_entries [of m 28 "cfs_files s" "drive_used_kb s"] dims by (simp_all add: ld)
  have "shown_item (fs ! i) = dir_view (s_sect V (dev s) 1002) i" if "i < 28" for i
    using fs(2) [OF that] dir_view_rd [OF dir that] empty that dims shown_file_of_entry by (simp add: shown_item_def [of "cfs_files s ! i"])
  then show ?thesis
    using rd ld d fs(1) by (simp add: load_cfs_def Let_def run_say upd_window_def del: upt_rec_numeral)
qed

theorem mount_shows_directory_witness:
  "shown_item (cfs_files (snd (run_state (load_cfs (ref28_hw 0xFEBF1100) 4) (start_files []))) ! 3) = dir_view (replicate 512 0) 3"
  using mount_shows_directory [OF start_files_ready start_files_clear, of "[]" 4]
  by (simp add: start_files_sel start_file_def Let_def del: upt_rec_numeral)

text \<open>
  Property C27. Formatting: the boot sector gets the signature that mounting looks for, the
  directory is empty, no other sector changes, and the list in the window shows nothing.
\<close>

theorem format_empties_drive:
  fixes s :: "('d, 'z) files_scheme"
  assumes rdy: "rw_ready hw V L hdr tbl s" and sel: "selected_drive_idx s \<noteq> 99" and bufs: "bufs_clear hdr tbl"
    and mbr: "clear_of (sata_priv hdr tbl) mbr_buf 512"
  shows "let s' = snd (run_state (format_cfs hw w) s); disk = s_sect V (dev s); disk' = s_sect V (dev s') in
    bytes_are (\<lambda>k. disk' 0 ! k) 3 ''CFS'' \<and> disk' 0 ! 510 = 0x55 \<and> disk' 0 ! 511 = 0xAA
    \<and> dir_view (disk' 1002) = (\<lambda>_. None) \<and> (\<forall>l. l \<noteq> 0 \<longrightarrow> l \<noteq> 1002 \<longrightarrow> disk' l = disk l)
    \<and> (\<forall>f \<in> set (cfs_files s'). shown_item f = None)"
proof -
  note b = bufs_clearD [OF bufs]
  let ?m0 = "boot_sector (ram s)"
  let ?s0 = "(upd_window w (\<lambda>v. v\<lparr>win_cursor := 0\<rparr>) s)\<lparr>ram := ?m0\<rparr>"
  have um: "unat (word_of_nat mbr_buf :: u64) = mbr_buf" by (simp add: mbr_buf_def)
  have other: "?m0 a = ram s a" if "a < mbr_buf \<or> mbr_buf + 512 \<le> a" for a
    using that by (auto simp: boot_sector_def zero_fill_other)
  have r0: "rw_ready hw V L hdr tbl ?s0"
  proof -
    have "rw_ready hw V L hdr tbl (s\<lparr>ram := ?m0\<rparr>)"
    proof (rule rw_ready_ram [OF rdy])
      show "?m0 a = ram s a" if "a \<in> sata_priv hdr tbl" for a using clear_ofD [OF mbr that] by (rule other)
    qed
    then show ?thesis by (simp add: rw_ready_def upd_window_def)
  qed
  have s0: "selected_drive_idx ?s0 \<noteq> 99" using sel by (simp add: upd_window_def)
  obtain m1 d1 where w1: "run_state (disk_write_auto hw 0 (word_of_nat mbr_buf)) ?s0 = (True, ?s0\<lparr>ram := m1, dev := d1\<rparr>)"
    and r1: "rw_ready hw V L hdr tbl (?s0\<lparr>ram := m1, dev := d1\<rparr>)"
    and d1: "s_sect V d1 = (s_sect V (dev s))(0 := rd_bytes ?m0 mbr_buf 512)"
    using disk_write_run [OF r0 s0, of "word_of_nat mbr_buf" 0] mbr unfolding um by auto
  let ?s1 = "?s0\<lparr>ram := zero_fill dir_buf 512 m1, dev := d1\<rparr>"
  have r2: "rw_ready hw V L hdr tbl ?s1" using dir_poke_ready [OF r1 bufs] by simp
  have s1: "selected_drive_idx ?s1 \<noteq> 99" using sel by (simp add: upd_window_def)
  obtain m2 d2 where w2: "run_state (disk_write_auto hw 1002 (word_of_nat dir_buf)) ?s1 = (True, ?s1\<lparr>ram := m2, dev := d2\<rparr>)"
    and d2: "s_sect V d2 = (s_sect V d1)(1002 := rd_bytes (zero_fill dir_buf 512 m1) dir_buf 512)"
    using disk_write_run [OF r2 s1 b(1), of 1002] unfolding buf_addrs sector_1002 by auto
  define s' where "s' = snd (run_state (format_cfs hw w) s)"
  have s': "dev s' = d2" "cfs_files s' = map (\<lambda>f. f\<lparr>of_exists := 0, of_is_folder := 0, of_parent_idx := 255\<rparr>) (cfs_files s)"
    using w1 w2 by (simp_all add: s'_def format_cfs_def run_say cooldown_def upd_window_def)
  have "dir_view (rd_bytes (zero_fill dir_buf 512 m1) dir_buf 512) i = None" for i
    using dir_view_rd [OF refl, of i "zero_fill dir_buf 512 m1"] by (cases "i < 28") (auto simp: dir_entry_def zero_fill_in dir_view_def)
  moreover have "bytes_are (\<lambda>k. rd_bytes ?m0 mbr_buf 512 ! k) 3 ''CFS''" "rd_bytes ?m0 mbr_buf 512 ! 510 = 0x55"
    "rd_bytes ?m0 mbr_buf 512 ! 511 = 0xAA"
    by (simp_all add: bytes_are_def rd_bytes_nth boot_sector_def bytes_of_def rd_bytes_def [of _ 3] upt_rec)
  ultimately show ?thesis unfolding s'_def [symmetric] Let_def s' using d1 d2 by (auto simp: shown_item_def)
qed

theorem format_empties_drive_witness:
  "dir_view (ref_sect (dev (snd (run_state (format_cfs (ref28_hw 0xFEBF1100) 4) (start_files [])))) 1002) = (\<lambda>_. None)"
  using format_empties_drive [OF start_files_ready _ start_files_clear, of "[]" 4]
  by (simp add: start_files_sel Let_def clear_of_def sata_priv_def mbr_buf_def) (auto simp: ref_view_def)

end
