(* ===== verification/Line_Editor.thy ===== *)
theory Line_Editor
  imports CStrings
begin

text \<open>
  Lines of input. Both kernels keep a typed line as a character array and the number of its
  characters, and change it key by key: a key erases the last character, or it adds one while
  there is room. The locale states what such a line promises, whatever its keys, its array and
  its limit are; the input lines of the windows are its interpretations.
\<close>

subsection \<open>The two changes\<close>

definition del_char :: "string \<times> nat \<Rightarrow> string \<times> nat" where
  "del_char = (\<lambda>(buf, i). if 0 < i then (buf[i - 1 := CHR 0x00], i - 1) else (buf, i))"

definition add_char :: "nat \<Rightarrow> char \<Rightarrow> string \<times> nat \<Rightarrow> string \<times> nat" where
  "add_char limit c = (\<lambda>(buf, i). if i < limit then (buf[i := c, Suc i := CHR 0x00], Suc i) else (buf, i))"

subsection \<open>Lines in order\<close>

definition line_text :: "string \<times> nat \<Rightarrow> string" where
  "line_text l = take (snd l) (fst l)"

definition line_ok :: "nat \<Rightarrow> nat \<Rightarrow> string \<times> nat \<Rightarrow> bool" where
  "line_ok cap limit l \<longleftrightarrow> length (fst l) = cap \<and> snd l \<le> limit \<and> limit < cap
     \<and> fst l ! snd l = CHR 0x00 \<and> CHR 0x00 \<notin> set (line_text l)"

text \<open>The reference: editing a text that has room for \<open>limit\<close> characters.\<close>

definition typed :: "nat \<Rightarrow> bool \<Rightarrow> char option \<Rightarrow> string \<Rightarrow> string" where
  "typed limit erase c t = (if erase then butlast t
     else case c of None \<Rightarrow> t | Some c \<Rightarrow> if length t < limit then t @ [c] else t)"

lemma line_length: "line_ok cap limit l \<Longrightarrow> length (line_text l) = snd l"
  by (auto simp: line_ok_def line_text_def)

lemma line_c_str: "line_ok cap limit l \<Longrightarrow> c_str (fst l) = line_text l"
proof -
  assume ok: "line_ok cap limit l"
  then have "fst l = line_text l @ CHR 0x00 # drop (Suc (snd l)) (fst l)"
    unfolding line_text_def line_ok_def by (metis id_take_nth_drop le_less_trans)
  moreover have "takeWhile (\<lambda>c. c \<noteq> CHR 0x00) (line_text l @ CHR 0x00 # rest) = line_text l" for rest
    using ok by (subst takeWhile_append2) (auto simp: line_ok_def)
  ultimately show ?thesis unfolding c_str_def by metis
qed

lemma del_char_line:
  assumes "line_ok cap limit l"
  shows "line_ok cap limit (del_char l) \<and> line_text (del_char l) = butlast (line_text l)"
proof -
  obtain buf i where l: "l = (buf, i)" by fastforce
  show ?thesis
  proof (cases i)
    case (Suc k)
    have "take k (buf[k := CHR 0x00]) = take k buf" by simp
    moreover have "butlast (take (Suc k) buf) = take k buf" using assms l Suc by (simp add: line_ok_def butlast_take)
    moreover have "CHR 0x00 \<notin> set (take k buf)"
      using assms l Suc set_take_subset_set_take [of k "Suc k" buf] by (auto simp: line_ok_def line_text_def)
    ultimately show ?thesis using assms l Suc by (simp add: line_ok_def line_text_def del_char_def)
  qed (use assms l in \<open>simp add: del_char_def line_ok_def line_text_def\<close>)
qed

lemma add_char_line:
  assumes "line_ok cap limit l" "c \<noteq> CHR 0x00"
  shows "line_ok cap limit (add_char limit c l) \<and> line_text (add_char limit c l) = typed limit False (Some c) (line_text l)"
proof -
  obtain buf i where l: "l = (buf, i)" by fastforce
  have n: "length (line_text l) = i" using line_length [OF assms(1)] l by simp
  show ?thesis
  proof (cases "i < limit")
    case True
    then have "take (Suc i) (buf[i := c, Suc i := CHR 0x00]) = take i buf @ [c]"
      using assms(1) l by (simp add: line_ok_def take_Suc_conv_app_nth)
    then show ?thesis using assms l True n by (auto simp: line_ok_def line_text_def add_char_def typed_def)
  next
    case False
    then show ?thesis using assms l n by (simp add: add_char_def typed_def)
  qed
qed

subsection \<open>The contract of an input line\<close>

locale line_editor =
  fixes press :: "'k \<Rightarrow> string \<times> nat \<Rightarrow> string \<times> nat"
    and erases :: "'k \<Rightarrow> bool"
    and reads :: "'k \<Rightarrow> char option"
    and cap limit :: nat
  assumes press_ok: "line_ok cap limit l \<Longrightarrow> line_ok cap limit (press k l)"
    and press_text: "line_ok cap limit l \<Longrightarrow> line_text (press k l) = typed limit (erases k) (reads k) (line_text l)"
begin

lemma presses_ok: "line_ok cap limit l \<Longrightarrow> line_ok cap limit (fold press ks l)"
  by (induction ks arbitrary: l) (simp_all add: press_ok)

lemma presses_text:
  "line_ok cap limit l \<Longrightarrow> line_text (fold press ks l) = fold (\<lambda>k. typed limit (erases k) (reads k)) ks (line_text l)"
  by (induction ks arbitrary: l) (simp_all add: press_ok press_text)

text \<open>What the array holds as a C string is the text, and the NUL behind it is inside the array.\<close>

lemma presses_string:
  assumes "line_ok cap limit l"
  shows "c_str (fst (fold press ks l)) = fold (\<lambda>k. typed limit (erases k) (reads k)) ks (c_str (fst l))"
  using line_c_str [OF presses_ok [OF assms]] presses_text [OF assms] line_c_str [OF assms] by simp

lemma presses_room:
  assumes "line_ok cap limit l"
  shows "snd (fold press ks l) < length (fst (fold press ks l))"
  using presses_ok [OF assms, of ks] by (auto simp: line_ok_def)

text \<open>Erasing as often as there are characters empties the line.\<close>

lemma erase_all:
  assumes "line_ok cap limit l" "erases k"
  shows "line_text (fold press (replicate (snd l) k) l) = []"
proof -
  have "fold (\<lambda>k. typed limit (erases k) (reads k)) (replicate n k) t = take (length t - n) t" for n t
    using assms(2) by (induction n arbitrary: t) (simp_all add: typed_def butlast_conv_take min_def)
  from this [of "snd l" "line_text l"] show ?thesis
    using presses_text [OF assms(1), of "replicate (snd l) k"] line_length [OF assms(1)] by (simp del: fold_replicate)
qed

end

text \<open>
  Every line of the program is built from the two changes in one of these ways, so the laws of
  the locale follow once for all of them.
\<close>

lemma line_press:
  assumes ok: "line_ok cap limit l" and c: "c \<noteq> Some (CHR 0x00)"
    and p: "p l = (if e then del_char l else case c of None \<Rightarrow> l | Some c \<Rightarrow> add_char limit c l)"
  shows "line_ok cap limit (p l) \<and> line_text (p l) = typed limit e c (line_text l)"
proof (cases e)
  case True
  then show ?thesis using del_char_line [OF ok] p by (simp add: typed_def)
next
  case False
  then show ?thesis using add_char_line [OF ok] ok c p by (cases c) (simp_all add: typed_def)
qed

end
