(* ===== verification/Canvas.thy ===== *)
theory Canvas
  imports CStrings
begin

text \<open>
  The graphics engine of both kernels: the back buffer of 800 by 600 pixels at a fixed address,
  and the routines that draw into it (kernel.cpp section 5; kernel_main.cpp has a second copy
  with small differences, which are named here). A routine is a function on memory. Coordinates
  are C integers and may lie anywhere; every routine checks them before it touches a pixel.
\<close>

subsection \<open>Pixels\<close>

definition back_buf :: nat where "back_buf = 0x02000000"

definition pixel :: "int \<Rightarrow> int \<Rightarrow> nat" where
  "pixel x y = back_buf + 4 * nat (y * 800 + x)"

definition off_screen :: "int \<Rightarrow> int \<Rightarrow> bool" where
  "off_screen x y \<longleftrightarrow> x < 0 \<or> 800 \<le> x \<or> y < 0 \<or> 600 \<le> y"

definition Put :: "int \<Rightarrow> int \<Rightarrow> u32 \<Rightarrow> mem \<Rightarrow> mem" where
  "Put x y c m = (if off_screen x y then m else wr32 (pixel x y) c m)"

text \<open>The mean of two colours, channel by channel, without the lowest bits.\<close>

definition half_mix :: "u32 \<Rightarrow> u32 \<Rightarrow> u32" where
  "half_mix c bg = drop_bit 1 (c AND 0xFEFEFE) + drop_bit 1 (bg AND 0xFEFEFE)"

definition PutAlpha :: "int \<Rightarrow> int \<Rightarrow> u32 \<Rightarrow> mem \<Rightarrow> mem" where
  "PutAlpha x y c m = (if off_screen x y then m
     else (let bg = rd32 m (pixel x y) in wr32 (pixel x y) (half_mix (half_mix c bg) bg) m))"

definition Clear :: "mem \<Rightarrow> mem" where
  "Clear m = fold (\<lambda>i. wr32 (back_buf + 4 * i) 0) [0..<480000] m"

text \<open>\<open>for (y = ...) for (x = ...) body\<close>, and the channels of a colour.\<close>

definition for_xy :: "int list \<Rightarrow> int list \<Rightarrow> (int \<Rightarrow> int \<Rightarrow> mem \<Rightarrow> mem) \<Rightarrow> mem \<Rightarrow> mem" where
  "for_xy ys xs f = fold (\<lambda>y. fold (\<lambda>x. f x y) xs) ys"

definition chan_r :: "u32 \<Rightarrow> int" where "chan_r c = uint (drop_bit 16 c AND 0xFF)"
definition chan_g :: "u32 \<Rightarrow> int" where "chan_g c = uint (drop_bit 8 c AND 0xFF)"
definition chan_b :: "u32 \<Rightarrow> int" where "chan_b c = uint (c AND 0xFF)"

text \<open>\<open>(r << 16) | (g << 8) | b\<close> on C integers, converted to a colour.\<close>

definition rgb :: "int \<Rightarrow> int \<Rightarrow> int \<Rightarrow> u32" where
  "rgb r g b = push_bit 16 (word_of_int r) OR push_bit 8 (word_of_int g) OR word_of_int b"

subsection \<open>The sine table\<close>

text \<open>The array has 256 places and the initialiser 230 values, so the last 26 are zero.\<close>

definition sin_lut :: "int list" where
  "sin_lut =
    [1, 2, 4, 7, 9, 12, 14, 17, 19, 21, 24, 26, 28, 30, 33, 35, 37, 39, 41, 43, 45, 47, 49, 51, 53, 55, 56,
     58, 60, 61, 63, 64, 66, 67, 68, 70, 71, 72, 73, 74, 75, 76, 77, 78, 79, 79, 80, 81, 81, 82, 82, 83, 83,
     83, 84, 84, 84, 84, 84, 84, 84, 83, 83, 83, 82, 82, 81, 81, 80, 79, 79, 78, 77, 76, 75, 74, 73, 72, 71,
     70, 68, 67, 66, 64, 63, 61, 60, 58, 56, 55, 53, 51, 49, 47, 45, 43, 41, 39, 37, 35, 33, 30, 28, 26, 24,
     21, 19, 17, 14, 12, 9, 7, 4, 2, 1, -1, -2, -4, -7, -9, -12, -14, -17, -19, -21, -24, -26, -28, -30, -33,
     -35, -37, -39, -41, -43, -45, -47, -49, -51, -53, -55, -56, -58, -60, -61, -63, -64, -66, -67, -68, -70,
     -71, -72, -73, -74, -75, -76, -77, -78, -79, -79, -80, -81, -81, -82, -82, -83, -83, -83, -84, -84, -84,
     -84, -84, -84, -84, -83, -83, -83, -82, -82, -81, -81, -80, -79, -79, -78, -77, -76, -75, -74, -73, -72,
     -71, -70, -68, -67, -66, -64, -63, -61, -60, -58, -56, -55, -53, -51, -49, -47, -45, -43, -41, -39, -37,
     -35, -33, -30, -28, -26, -24, -21, -19, -17, -14, -12, -9, -7, -4, -2, -1]
    @ replicate 26 0"

definition Cos :: "int \<Rightarrow> int" where "Cos a = sin_lut ! nat ((a + 64) mod 256)"
definition Sin :: "int \<Rightarrow> int" where "Sin a = sin_lut ! nat (a mod 256)"

subsection \<open>Rectangles and discs\<close>

text \<open>Is the place cut off by one of the four round corners?\<close>

definition in_corner :: "int \<Rightarrow> int \<Rightarrow> int \<Rightarrow> int \<Rightarrow> int \<Rightarrow> bool" where
  "in_corner rw rh r ix iy \<longleftrightarrow>
     (ix < r \<and> iy < r \<and> (r - ix) * (r - ix) + (r - iy) * (r - iy) > r * r)
     \<or> (ix > rw - r \<and> iy < r \<and> (ix - (rw - r)) * (ix - (rw - r)) + (r - iy) * (r - iy) > r * r)
     \<or> (ix < r \<and> iy > rh - r \<and> (r - ix) * (r - ix) + (iy - (rh - r)) * (iy - (rh - r)) > r * r)
     \<or> (ix > rw - r \<and> iy > rh - r \<and> (ix - (rw - r)) * (ix - (rw - r)) + (iy - (rh - r)) * (iy - (rh - r)) > r * r)"

definition DrawRoundedRect :: "int \<Rightarrow> int \<Rightarrow> int \<Rightarrow> int \<Rightarrow> int \<Rightarrow> u32 \<Rightarrow> mem \<Rightarrow> mem" where
  "DrawRoundedRect x y rw rh r c = for_xy [0..rh - 1] [0..rw - 1]
     (\<lambda>ix iy m. if in_corner rw rh r ix iy then m else Put (x + ix) (y + iy) c m)"

text \<open>The glass of a window: the mean of its colour and what is behind it.\<close>

definition glass :: "u32 \<Rightarrow> u32 \<Rightarrow> u32" where
  "glass c bg = rgb ((chan_r bg + chan_r c) div 2) ((chan_g bg + chan_g c) div 2) ((chan_b bg + chan_b c) div 2)"

definition DrawGlassRect :: "int \<Rightarrow> int \<Rightarrow> int \<Rightarrow> int \<Rightarrow> int \<Rightarrow> u32 \<Rightarrow> mem \<Rightarrow> mem" where
  "DrawGlassRect x y rw rh r c = for_xy [0..rh - 1] [0..rw - 1]
     (\<lambda>ix iy m. if in_corner rw rh r ix iy \<or> off_screen (x + ix) (y + iy) then m
       else wr32 (pixel (x + ix) (y + iy)) (glass c (rd32 m (pixel (x + ix) (y + iy)))) m)"

definition DrawRoundWindow :: "int \<Rightarrow> int \<Rightarrow> int \<Rightarrow> u32 \<Rightarrow> mem \<Rightarrow> mem" where
  "DrawRoundWindow cx cy r c = for_xy [- r..r] [- r..r]
     (\<lambda>x y m. if x * x + y * y \<le> r * r then Put (cx + x) (cy + y) c m else m)"

definition DrawIcon :: "int \<Rightarrow> int \<Rightarrow> u32 \<Rightarrow> mem \<Rightarrow> mem" where
  "DrawIcon x y c m = for_xy [5..24] [5..14] (\<lambda>j i. Put (x + i) (y + j) 0xFFFFFF)
     (for_xy [0..29] [0..39] (\<lambda>j i. Put (x + i) (y + j) c) m)"

definition DrawTriangle :: "int \<Rightarrow> int \<Rightarrow> int \<Rightarrow> int \<Rightarrow> int \<Rightarrow> int \<Rightarrow> u32 \<Rightarrow> mem \<Rightarrow> mem" where
  "DrawTriangle x1 y1 x2 y2 x3 y3 c =
     for_xy [min y1 (min y2 y3)..max y1 (max y2 y3)] [min x1 (min x2 x3)..max x1 (max x2 x3)]
       (\<lambda>x y m. let w1 = (x2 - x1) * (y - y1) - (y2 - y1) * (x - x1);
           w2 = (x3 - x2) * (y - y2) - (y3 - y2) * (x - x2);
           w3 = (x1 - x3) * (y - y3) - (y1 - y3) * (x - x3)
         in if (0 \<le> w1 \<and> 0 \<le> w2 \<and> 0 \<le> w3) \<or> (w1 \<le> 0 \<and> w2 \<le> 0 \<and> w3 \<le> 0) then Put x y c m else m)"

definition clip :: "int \<Rightarrow> int \<Rightarrow> int \<Rightarrow> int" where
  "clip lo hi v = (let v = (if hi < v then hi else v) in if v < lo then lo else v)"

definition DrawFace :: "int \<Rightarrow> int \<Rightarrow> int \<Rightarrow> int \<Rightarrow> mem \<Rightarrow> mem" where
  "DrawFace x y mx my m =
     (let m = DrawRoundWindow x y 60 0x555555 m; ex1 = x - 20; ey = y - 10; ex2 = x + 20;
          ox = clip (- 5) 5 (c_div (mx - x) 20); oy = clip (- 5) 5 (c_div (my - y) 20);
          m = DrawRoundedRect (ex2 - 8) (ey - 5) 16 10 2 0xFFFFFF (DrawRoundedRect (ex1 - 8) (ey - 5) 16 10 2 0xFFFFFF m);
          m = Put (ex1 + ox + 1) (ey + oy) 0 (Put (ex1 + ox) (ey + oy) 0 m);
          m = Put (ex2 + ox + 1) (ey + oy) 0 (Put (ex2 + ox) (ey + oy) 0 m)
      in DrawRoundedRect (x - 15) (y + 25) 30 2 0 0 m)"

subsection \<open>Characters\<close>

definition f_u :: "u8 list" where
  "f_u = [0x7E, 0x11, 0x11, 0x11, 0x7E, 0x7F, 0x49, 0x49, 0x49, 0x36, 0x3E, 0x41, 0x41, 0x41, 0x22, 0x7F, 0x41,
     0x41, 0x22, 0x7C, 0x7F, 0x49, 0x49, 0x49, 0x41, 0x7F, 0x09, 0x09, 0x09, 0x01, 0x3E, 0x41, 0x49, 0x49,
     0x7A, 0x7F, 0x08, 0x08, 0x08, 0x7F, 0x00, 0x41, 0x7F, 0x41, 0x00, 0x20, 0x40, 0x41, 0x3F, 0x01, 0x7F,
     0x08, 0x14, 0x22, 0x41, 0x7F, 0x40, 0x40, 0x40, 0x40, 0x7F, 0x02, 0x0C, 0x02, 0x7F, 0x7F, 0x04, 0x08,
     0x10, 0x7F, 0x3E, 0x41, 0x41, 0x41, 0x3E, 0x7F, 0x09, 0x09, 0x09, 0x06, 0x3E, 0x41, 0x51, 0x21, 0x5E,
     0x7F, 0x09, 0x19, 0x29, 0x46, 0x46, 0x49, 0x49, 0x49, 0x31, 0x01, 0x01, 0x7F, 0x01, 0x01, 0x3F, 0x40,
     0x40, 0x40, 0x3F, 0x1F, 0x20, 0x40, 0x20, 0x1F, 0x3F, 0x40, 0x38, 0x40, 0x3F, 0x63, 0x14, 0x08, 0x14,
     0x63, 0x07, 0x08, 0x70, 0x08, 0x07, 0x61, 0x51, 0x49, 0x45, 0x43]"

definition f_l :: "u8 list" where
  "f_l = [0x20, 0x54, 0x54, 0x54, 0x78, 0x7F, 0x48, 0x44, 0x44, 0x38, 0x38, 0x44, 0x44, 0x44, 0x20, 0x38, 0x44,
     0x44, 0x48, 0x7F, 0x38, 0x54, 0x54, 0x54, 0x18, 0x08, 0x7E, 0x09, 0x01, 0x02, 0x0C, 0x52, 0x52, 0x52,
     0x3E, 0x7F, 0x08, 0x04, 0x04, 0x78, 0x00, 0x44, 0x7D, 0x40, 0x00, 0x20, 0x40, 0x44, 0x3D, 0x00, 0x7F,
     0x10, 0x28, 0x44, 0x00, 0x00, 0x41, 0x7F, 0x40, 0x00, 0x7C, 0x04, 0x18, 0x04, 0x78, 0x7C, 0x08, 0x04,
     0x04, 0x78, 0x38, 0x44, 0x44, 0x44, 0x38, 0x7C, 0x14, 0x14, 0x14, 0x08, 0x08, 0x14, 0x14, 0x18, 0x7C,
     0x7C, 0x08, 0x04, 0x04, 0x08, 0x48, 0x54, 0x54, 0x54, 0x20, 0x04, 0x3F, 0x44, 0x40, 0x20, 0x3C, 0x40,
     0x40, 0x20, 0x7C, 0x1C, 0x20, 0x40, 0x20, 0x1C, 0x3C, 0x40, 0x30, 0x40, 0x3C, 0x44, 0x28, 0x10, 0x28,
     0x44, 0x0C, 0x50, 0x50, 0x50, 0x3C, 0x44, 0x64, 0x54, 0x4C, 0x44]"

definition f_n :: "u8 list" where
  "f_n = [0x3E, 0x51, 0x49, 0x45, 0x3E, 0x00, 0x42, 0x7F, 0x40, 0x00, 0x42, 0x61, 0x51, 0x49, 0x46, 0x21, 0x41,
     0x45, 0x4B, 0x31, 0x18, 0x14, 0x12, 0x7F, 0x10, 0x27, 0x45, 0x45, 0x45, 0x39, 0x3C, 0x4A, 0x49, 0x49,
     0x30, 0x01, 0x71, 0x09, 0x05, 0x03, 0x36, 0x49, 0x49, 0x49, 0x36, 0x06, 0x49, 0x49, 0x29, 0x1E]"

definition table_glyph :: "u8 list \<Rightarrow> char \<Rightarrow> char \<Rightarrow> u8 list" where
  "table_glyph f first c = take 5 (drop (5 * (of_char c - of_char first)) f)"

definition between :: "char \<Rightarrow> char \<Rightarrow> char \<Rightarrow> bool" where
  "between a b c \<longleftrightarrow> (of_char a :: nat) \<le> of_char c \<and> (of_char c :: nat) \<le> of_char b"

text \<open>The columns of a character; the second kernel has capitals, digits, colon and dot only.\<close>

definition glyph :: "char \<Rightarrow> u8 list option" where
  "glyph c =
     (if between (CHR ''A'') (CHR ''Z'') c then Some (table_glyph f_u (CHR ''A'') c)
      else if between (CHR ''a'') (CHR ''z'') c then Some (table_glyph f_l (CHR ''a'') c)
      else if between (CHR ''0'') (CHR ''9'') c then Some (table_glyph f_n (CHR ''0'') c)
      else map_of
       [(CHR '':'', [0, 0x36, 0x36, 0, 0]), (CHR ''.'', [0, 0x60, 0x60, 0, 0]), (CHR ''-'', [0x08, 0x08, 0x08, 0x08, 0x08]),
        (CHR ''!'', [0, 0, 0x5F, 0, 0]), (CHR ''_'', [0x40, 0x40, 0x40, 0x40, 0x40]), (CHR ''('', [0x1C, 0x22, 0x41, 0, 0]),
        (CHR '')'', [0, 0, 0x41, 0x22, 0x1C]), (CHR ''/'', [0x20, 0x10, 0x08, 0x04, 0x02]), (CHR ''='', [0x14, 0x14, 0x14, 0x14, 0x14]),
        (CHR ''?'', [0x02, 0x01, 0x59, 0x05, 0x02]), (CHR 0x22, [0, 0x03, 0, 0x03, 0]), (CHR '','', [0, 0x50, 0x30, 0, 0]),
        (CHR ''|'', [0x7F, 0, 0, 0, 0])] c)"

definition os2_glyph :: "char \<Rightarrow> u8 list option" where
  "os2_glyph c =
     (if between (CHR ''A'') (CHR ''Z'') c then Some (table_glyph f_u (CHR ''A'') c)
      else if between (CHR ''0'') (CHR ''9'') c then Some (table_glyph f_n (CHR ''0'') c)
      else map_of [(CHR '':'', [0, 0x36, 0x36, 0, 0]), (CHR ''.'', [0, 0x60, 0x60, 0, 0])] c)"

text \<open>The glow around a set pixel, in the order of the code.\<close>

definition glow_at :: "int \<Rightarrow> int \<Rightarrow> u32 \<Rightarrow> bool \<Rightarrow> mem \<Rightarrow> mem" where
  "glow_at px py g bold m =
     (let m = fold (\<lambda>(dx, dy). PutAlpha (px + dx) (py + dy) g)
        [(- 1, - 1), (0, - 1), (1, - 1), (- 1, 0), (1, 0), (- 1, 1), (0, 1), (1, 1)] m
      in if bold then PutAlpha (px + 2) py g m else m)"

definition draw_columns :: "u8 list \<Rightarrow> int \<Rightarrow> int \<Rightarrow> u32 \<Rightarrow> bool \<Rightarrow> mem \<Rightarrow> mem" where
  "draw_columns cols x y col bold m =
     (let glow_col = (if col < 0x555555 then 0xFFFFFF else 0);
          m = for_xy [0..4] [0..6] (\<lambda>n k m. if bit (cols ! nat k) (nat n) then glow_at (x + k) (y + n) glow_col bold m else m) m
      in for_xy [0..4] [0..6] (\<lambda>n k m. if bit (cols ! nat k) (nat n)
           then (let m = Put (x + k) (y + n) col m in if bold then Put (x + k + 1) (y + n) col m else m) else m) m)"

definition DrawChar :: "int \<Rightarrow> int \<Rightarrow> char \<Rightarrow> u32 \<Rightarrow> bool \<Rightarrow> mem \<Rightarrow> mem" where
  "DrawChar x y c col bold m = (case glyph c of None \<Rightarrow> m | Some cols \<Rightarrow> draw_columns cols x y col bold m)"

definition os2_DrawChar :: "int \<Rightarrow> int \<Rightarrow> char \<Rightarrow> u32 \<Rightarrow> bool \<Rightarrow> mem \<Rightarrow> mem" where
  "os2_DrawChar x y c col bold m = (case os2_glyph c of None \<Rightarrow> m | Some cols \<Rightarrow> draw_columns cols x y col bold m)"

definition char_step :: "bool \<Rightarrow> int" where "char_step bold = (if bold then 7 else 6)"

fun Text :: "int \<Rightarrow> int \<Rightarrow> string \<Rightarrow> u32 \<Rightarrow> bool \<Rightarrow> mem \<Rightarrow> mem" where
  "Text x y [] col bold m = m"
| "Text x y (c # cs) col bold m = Text (x + char_step bold) y cs col bold (DrawChar x y c col bold m)"

text \<open>The second kernel starts a new line at a newline; \<open>ox\<close> is where lines start.\<close>

fun os2_lines :: "int \<Rightarrow> int \<Rightarrow> int \<Rightarrow> string \<Rightarrow> u32 \<Rightarrow> bool \<Rightarrow> mem \<Rightarrow> mem" where
  "os2_lines ox x y [] col bold m = m"
| "os2_lines ox x y (c # cs) col bold m =
     (if c = CHR 0x0A then os2_lines ox ox (y + 15) cs col bold m
      else os2_lines ox (x + char_step bold) y cs col bold (os2_DrawChar x y c col bold m))"

definition os2_Text :: "int \<Rightarrow> int \<Rightarrow> string \<Rightarrow> u32 \<Rightarrow> bool \<Rightarrow> mem \<Rightarrow> mem" where
  "os2_Text x y = os2_lines x x y"

definition TextC :: "int \<Rightarrow> int \<Rightarrow> string \<Rightarrow> u32 \<Rightarrow> bool \<Rightarrow> mem \<Rightarrow> mem" where
  "TextC cp y t = (\<lambda>col bold. Text (cp - int (length t) * char_step bold div 2) y t col bold)"

definition os2_TextC :: "int \<Rightarrow> int \<Rightarrow> string \<Rightarrow> u32 \<Rightarrow> bool \<Rightarrow> mem \<Rightarrow> mem" where
  "os2_TextC cp y t = (\<lambda>col bold. os2_Text (cp - int (length t) * char_step bold div 2) y t col bold)"

subsection \<open>The pointer\<close>

definition c_map :: "string list" where
  "c_map = [''*'', ''**'', ''*.*'', ''*..*'', ''*...*'', ''*....*'', ''*.....*'', ''*......*'',
     ''*.......*'', ''*........*'', ''*.........*'', ''*......****'', ''*...*..*'',
     ''*..* *..*'', ''*.* *..*'', ''** *..*'', ''        **'']"

definition DrawAeroCursor :: "int \<Rightarrow> int \<Rightarrow> mem \<Rightarrow> mem" where
  "DrawAeroCursor mx my m =
     (let m = fold (\<lambda>y. fold (\<lambda>x m. if c_map ! y ! x \<noteq> CHR '' '' then PutAlpha (mx + int x + 3) (my + int y + 4) 0 m else m)
        [0..<length (c_map ! y)]) [0..<17] m
      in fold (\<lambda>y. fold (\<lambda>x m. if c_map ! y ! x = CHR ''*'' then Put (mx + int x) (my + int y) 0 m
           else if c_map ! y ! x = CHR ''.'' then Put (mx + int x) (my + int y) 0xFFFFFF m else m)
        [0..<length (c_map ! y)]) [0..<17] m)"

subsection \<open>The galaxy\<close>

text \<open>
  One of the 8000 particles: the distance, angle and brightness that the random numbers give,
  then the pixel. \<open>fr4\<close> and \<open>fr3\<close> are what the frame counter contributes to the two kinds of
  particles: \<open>frame / 4\<close> and \<open>frame / 3\<close> in kernel.cpp, \<open>frame\<close> in kernel_main.cpp; the sums
  with them are unsigned.
\<close>

record particle =
  pa_d :: int
  pa_px :: int
  pa_py :: int
  pa_rand2 :: int
  pa_mod :: int

definition particle_angle :: "u32 \<Rightarrow> int \<Rightarrow> int" where
  "particle_angle fr v = uint ((word_of_int v - fr + 256) mod 256)"

definition particle_place :: "u32 \<Rightarrow> u32 \<Rightarrow> int \<Rightarrow> int \<Rightarrow> int \<Rightarrow> nat \<Rightarrow> u32 \<times> u32 \<times> u32 \<times> u32 \<Rightarrow> particle" where
  "particle_place fr4 fr3 cx cy max_radius i = (\<lambda>(s1, s2, s3, s4).
     let d = uint s1 mod max_radius; rand_val2 = uint s2 mod 30; rand_val3 = uint s3 mod 256;
         scatter_x = uint s3 mod 7 - 3; scatter_y = uint s4 mod 7 - 3;
         (d, angle, intensity_mod) =
           (if i mod 3 = 0 then (60 + c_div d 50 * 50 + (rand_val2 - 15), particle_angle fr4 rand_val3, 2)
            else (let d = c_div (d * d) max_radius; d = (if d < 50 then 50 + uint s4 mod 20 else d)
              in (d, particle_angle fr3 (int (i mod 2) * 128 + c_div d 2), 1)));
         final_d = d + (rand_val2 - 15);
         final_a = (angle + uint s4 mod 10 - 5 + 256) mod 256
     in \<lparr>pa_d = d, pa_px = cx + c_div (Cos final_a * final_d) 84 + scatter_x,
         pa_py = cy + c_div (c_div (Sin final_a * final_d * 3) 4) 84 + scatter_y,
         pa_rand2 = rand_val2, pa_mod = intensity_mod\<rparr>)"

definition particle_colour :: "int \<Rightarrow> int \<times> int \<times> int" where
  "particle_colour d = (if d < 100 then (255, 180 - d, 60) else if d < 180 then (160 - (d - 100), 50, 255)
     else (20, 30, 255 - (d - 180)))"

definition particle_pixel :: "nat \<Rightarrow> particle \<Rightarrow> u32 \<Rightarrow> u32" where
  "particle_pixel i p bg =
     (let (r, g, b) = particle_colour (pa_d p);
          intensity = 255 - int_sqrt (pa_rand2 p * pa_rand2 p) * 8;
          intensity = c_div ((if intensity < 0 then 0 else intensity) * pa_mod p) 2;
          (r, g, b, intensity) = (if i mod 100 = 0 then (255, 255, 255, 255) else (r, g, b, intensity));
          mix = (\<lambda>bg c. let f = bg + c_div (c * intensity) 256 in if 255 < f then 255 else f)
      in rgb (mix (chan_r bg) r) (mix (chan_g bg) g) (mix (chan_b bg) b))"

text \<open>The fourth random number is drawn only for the particles that are not too near.\<close>

definition galaxy_step :: "u32 \<Rightarrow> u32 \<Rightarrow> int \<Rightarrow> int \<Rightarrow> int \<Rightarrow> nat \<Rightarrow> u32 \<times> mem \<Rightarrow> u32 \<times> mem" where
  "galaxy_step fr4 fr3 cx cy max_radius i = (\<lambda>(seed, m).
     let s1 = random_step seed; s2 = random_step s1; s3 = random_step s2 in
     if uint s1 mod max_radius < 50 then (s3, m)
     else (let s4 = random_step s3; p = particle_place fr4 fr3 cx cy max_radius i (s1, s2, s3, s4) in
       (s4, if off_screen (pa_px p) (pa_py p) then m
            else wr32 (pixel (pa_px p) (pa_py p)) (particle_pixel i p (rd32 m (pixel (pa_px p) (pa_py p)))) m)))"

definition galaxy :: "u32 \<Rightarrow> u32 \<Rightarrow> int \<Rightarrow> int \<Rightarrow> int \<Rightarrow> mem \<Rightarrow> mem" where
  "galaxy fr4 fr3 cx cy expn m = (if expn \<le> 5 then m
     else snd (fold (galaxy_step fr4 fr3 cx cy (c_div (400 * expn) 320)) [0..<8000] (123456, m)))"

definition DrawDenseGalaxy :: "u32 \<Rightarrow> int \<Rightarrow> int \<Rightarrow> int \<Rightarrow> mem \<Rightarrow> mem" where
  "DrawDenseGalaxy frame = galaxy (frame div 4) (frame div 3)"

definition os2_DrawDenseGalaxy :: "u32 \<Rightarrow> int \<Rightarrow> int \<Rightarrow> int \<Rightarrow> mem \<Rightarrow> mem" where
  "os2_DrawDenseGalaxy frame = galaxy frame frame"

subsection \<open>The sun and the planets\<close>

definition blend :: "int \<Rightarrow> int \<Rightarrow> int \<Rightarrow> int" where
  "blend alpha c bg = c_div (c * alpha + bg * (255 - alpha)) 255"

text \<open>The glow outside a disc: squared fall-off, blended with what is behind.\<close>

definition glow_alpha :: "int \<Rightarrow> int \<Rightarrow> int \<Rightarrow> int" where
  "glow_alpha radius glow_radius dist_sq =
     (let alpha = 255 - c_div ((int_sqrt dist_sq - radius) * 255) (glow_radius - radius) in c_div (alpha * alpha) 255)"

definition glow_pixel :: "int \<times> int \<times> int \<Rightarrow> int \<Rightarrow> u32 \<Rightarrow> u32" where
  "glow_pixel = (\<lambda>(r, g, b) alpha bg. rgb (blend alpha r (chan_r bg)) (blend alpha g (chan_g bg)) (blend alpha b (chan_b bg)))"

text \<open>A shaded disc with its glow; \<open>inner\<close> is the colour of a point of the disc.\<close>

definition shaded_disc :: "int \<Rightarrow> int \<Rightarrow> int \<Rightarrow> int \<Rightarrow> (int \<Rightarrow> int \<Rightarrow> u32) \<Rightarrow> int \<times> int \<times> int \<Rightarrow> mem \<Rightarrow> mem" where
  "shaded_disc cx cy radius glow inner glow_col =
     for_xy [- (radius + glow)..radius + glow] [- (radius + glow)..radius + glow] (\<lambda>x y m.
       if off_screen (cx + x) (cy + y) then m
       else if x * x + y * y \<le> radius * radius then wr32 (pixel (cx + x) (cy + y)) (inner x y) m
       else if x * x + y * y \<le> (radius + glow) * (radius + glow) then
         (let alpha = glow_alpha radius (radius + glow) (x * x + y * y) in
          if 0 < alpha then wr32 (pixel (cx + x) (cy + y)) (glow_pixel glow_col alpha (rd32 m (pixel (cx + x) (cy + y)))) m else m)
       else m)"

definition cap255 :: "int \<Rightarrow> int" where "cap255 v = (if 255 < v then 255 else v)"

definition sun_colour :: "int \<Rightarrow> int \<Rightarrow> int \<Rightarrow> u32" where
  "sun_colour radius x y =
     (let nz = c_div (int_sqrt (radius * radius - (x * x + y * y)) * 255) radius;
          hx = x + c_div radius 3; hy = y + c_div radius 3; h_dist = int_sqrt (hx * hx + hy * hy);
          highlight = (if h_dist < radius then (let h = 255 - c_div (h_dist * 255) radius in c_div (h * h) 255) else 0)
      in rgb (cap255 (c_div (nz * 255) 255 + highlight)) (cap255 (c_div (nz * 170) 255 + highlight))
           (cap255 (c_div (nz * 20) 255 + c_div highlight 2)))"

definition DrawGoldenSun :: "int \<Rightarrow> int \<Rightarrow> int \<Rightarrow> mem \<Rightarrow> mem" where
  "DrawGoldenSun cx cy radius = shaded_disc cx cy radius 15 (sun_colour radius) (255, 120, 0)"

definition planet_channel :: "int \<Rightarrow> int \<Rightarrow> int \<Rightarrow> int \<Rightarrow> int \<Rightarrow> int" where
  "planet_channel nz diffuse rim tint base =
     cap255 (c_div ((c_div (base * nz) 255 + c_div (diffuse * base) 256 + c_div (rim * base) 512) * tint) 256)"

definition planet_colour :: "int \<Rightarrow> u32 \<Rightarrow> int \<Rightarrow> int \<Rightarrow> u32" where
  "planet_colour radius base x y =
     (let r2 = radius * radius; nz = c_div (int_sqrt (r2 - (x * x + y * y)) * 255) radius; edge_dist = 255 - nz;
          light_x = x + c_div radius 2; light_y = y + c_div radius 2; l_dist_sq = light_x * light_x + light_y * light_y;
          diffuse = (if l_dist_sq < r2 then 255 - c_div (int_sqrt l_dist_sq * 255) radius else 0);
          noise = ((x + radius) * 17 + (y + radius) * 31) mod 20;
          banding = c_div (Sin (c_div ((y + radius) * 100) radius) + 64) 8;
          rim = c_div (edge_dist * edge_dist) 255;
          chan = planet_channel nz diffuse rim (220 + noise + banding)
      in rgb (chan (chan_r base)) (chan (chan_g base)) (chan (chan_b base)))"

definition DrawOrganicPlanet :: "int \<Rightarrow> int \<Rightarrow> int \<Rightarrow> u32 \<Rightarrow> mem \<Rightarrow> mem" where
  "DrawOrganicPlanet cx cy radius base =
     shaded_disc cx cy radius 8 (planet_colour radius base) (chan_r base, chan_g base, chan_b base)"

subsection \<open>The sound wave, the logo and the panic screen\<close>

text \<open>\<open>rand() % 10 > 7\<close> adds a second random number; the seed is threaded through.\<close>

definition wave_step :: "int \<Rightarrow> int \<Rightarrow> int \<Rightarrow> nat \<Rightarrow> u32 \<times> mem \<Rightarrow> u32 \<times> mem" where
  "wave_step x y f k = (\<lambda>(seed, m).
     let i = 2 * int k; h = c_div (Sin (i * 5 + f * 10)) 4; s1 = random_step seed;
         (h, seed) = (if s1 mod 10 > 7 then (h + (uint (random_step s1 mod 10) - 5), random_step s1) else (h, s1))
     in (seed, Put (x + i) (y + 20 + h) 0 m))"

definition DrawWaveform :: "int \<Rightarrow> int \<Rightarrow> int \<Rightarrow> int \<Rightarrow> u32 \<times> mem \<Rightarrow> u32 \<times> mem" where
  "DrawWaveform x y w f sm = fold (wave_step x y f) [0..<nat ((w + 1) div 2)] sm"

definition boot_logo :: "mem \<Rightarrow> mem" where
  "boot_logo m =
     (let c = 400; y = 200; g = 0xFFD700;
          m = TextC c y ''#####################################'' g True m;
          m = TextC c (y + 20) (''         cosmOS SYSTEM'' @ [CHR 0x09] @ ''        '') 0xFFFFFF True m;
          m = TextC c (y + 40) '' ID-HASHING: ACTIVE | NET: RX/TX '' 0xAAAAAA False m;
          m = TextC c (y + 80) '' >> SYSTEM READY << '' g True m
      in TextC c (y + 100) ''#####################################'' g True m)"

text \<open>What \<open>kernel_panic\<close> shows before it stops for ever; the sizes are unsigned globals.\<close>

definition panic_screen :: "u32 \<Rightarrow> u32 \<Rightarrow> string \<Rightarrow> mem \<Rightarrow> mem" where
  "panic_screen screen_w screen_h error_msg m =
     (let m = fold (\<lambda>i. wr32 (back_buf + 4 * i) 0x0000FF) [0..<unat (screen_w * screen_h)] m;
          center_x = uint (screen_w div 2);
          m = TextC center_x (uint (screen_h div 3)) ''COSMOS OS - CRITICAL ERROR'' 0xFFFFFF True m;
          m = TextC center_x (uint (screen_h div 3 + 50)) error_msg 0xFFFFFF False m;
          m = TextC center_x (uint (screen_h div 2 + 50)) ''SYSTEM STOPPED TO PROTECT HARDWARE.'' 0xAAAAAA False m
      in TextC center_x (uint (screen_h - 50)) ''YOU NOOB!'' 0xFF0000 True m)"

subsection \<open>Showing the picture\<close>

text \<open>
  \<open>Swap\<close> of the first kernel: while \<open>shake_timer\<close> runs the picture is shown at a random offset,
  and what leaves the screen is not copied. \<open>pitch\<close> is the length of a line in bytes.
\<close>

definition shake :: "int \<Rightarrow> u32 \<Rightarrow> int \<times> int \<times> int \<times> u32" where
  "shake timer seed = (if 0 < timer
     then (let s1 = random_step seed; s2 = random_step s1 in (uint (s1 mod 10) - 5, uint (s2 mod 10) - 5, timer - 1, s2))
     else (0, 0, timer, seed))"

definition swap_at :: "nat \<Rightarrow> nat \<Rightarrow> int \<Rightarrow> int \<Rightarrow> mem \<Rightarrow> mem" where
  "swap_at fb pitch sx_off sy_off =
     for_xy [0..599] [0..799] (\<lambda>x y m. let tx = x + sx_off; ty = y + sy_off in
       if 0 \<le> ty \<and> ty < 600 \<and> 0 \<le> tx \<and> tx < 800 then wr32 (fb + nat ty * pitch + 4 * nat tx) (rd32 m (pixel x y)) m else m)"

definition Swap :: "nat \<Rightarrow> nat \<Rightarrow> int \<times> u32 \<Rightarrow> mem \<Rightarrow> (int \<times> u32) \<times> mem" where
  "Swap fb pitch = (\<lambda>(timer, seed) m. case shake timer seed of (sx_off, sy_off, timer, seed) \<Rightarrow>
     ((timer, seed), swap_at fb pitch sx_off sy_off m))"

definition os2_Swap :: "nat \<Rightarrow> mem \<Rightarrow> mem" where
  "os2_Swap fb m = fold (\<lambda>i m. wr32 (fb + 4 * i) (rd32 m (back_buf + 4 * i)) m) [0..<480000] m"

subsection \<open>Drawing stays in the back buffer\<close>

text \<open>
  \<open>m'\<close> differs from \<open>m\<close> in the back buffer only. The collection \<open>on_screen\<close> goes through the
  structure of a routine down to the single pixels.
\<close>

named_theorems on_screen \<open>what a drawing routine leaves alone\<close>

definition screen_end :: nat where "screen_end = back_buf + 1920000"

definition drawn :: "mem \<Rightarrow> mem \<Rightarrow> bool" where
  "drawn m m' \<longleftrightarrow> (\<forall>i. i < back_buf \<or> screen_end \<le> i \<longrightarrow> m' i = m i)"

lemma pixel_range:
  assumes "\<not> off_screen x y"
  shows "back_buf \<le> pixel x y" "pixel x y + 4 \<le> screen_end"
proof -
  have "0 \<le> y * 800 + x" "y * 800 + x \<le> 479999" using assms by (simp_all add: off_screen_def)
  then show "back_buf \<le> pixel x y" "pixel x y + 4 \<le> screen_end" by (simp_all add: pixel_def screen_end_def)
qed

lemma drawn_refl [on_screen, simp]: "drawn m m"
  by (simp add: drawn_def)

lemma drawn_trans: "drawn m m' \<Longrightarrow> drawn m' m'' \<Longrightarrow> drawn m m''"
  by (simp add: drawn_def)

lemma drawn_word: "drawn m m' \<Longrightarrow> back_buf \<le> a \<Longrightarrow> a + 4 \<le> screen_end \<Longrightarrow> drawn m (wr32 a v m')"
  by (auto simp: drawn_def wr32_other)

lemma drawn_pixel [on_screen]: "drawn m m' \<Longrightarrow> \<not> off_screen x y \<Longrightarrow> drawn m (wr32 (pixel x y) c m')"
  using pixel_range by (blast intro: drawn_word)

lemma drawn_put [on_screen]: "drawn m m' \<Longrightarrow> drawn m (Put x y c m')" "drawn m m' \<Longrightarrow> drawn m (PutAlpha x y c m')"
  by (simp_all add: Put_def PutAlpha_def Let_def drawn_pixel)

lemma drawn_if [on_screen]: "(b \<Longrightarrow> drawn m m1) \<Longrightarrow> (\<not> b \<Longrightarrow> drawn m m2) \<Longrightarrow> drawn m (if b then m1 else m2)"
  by simp

lemma drawn_fold [on_screen]:
  "drawn m m' \<Longrightarrow> (\<And>x m'. x \<in> set xs \<Longrightarrow> drawn m m' \<Longrightarrow> drawn m (f x m')) \<Longrightarrow> drawn m (fold f xs m')"
  by (induction xs arbitrary: m') auto

lemma drawn_for_xy [on_screen]:
  "drawn m m' \<Longrightarrow> (\<And>x y m'. drawn m m' \<Longrightarrow> drawn m (f x y m')) \<Longrightarrow> drawn m (for_xy ys xs f m')"
  unfolding for_xy_def by (intro on_screen)

lemma drawn_fold_seed:
  assumes "\<And>x s m'. drawn m m' \<Longrightarrow> drawn m (snd (f x (s, m')))" "drawn m (snd sm)"
  shows "drawn m (snd (fold f xs sm))"
  using assms(2)
proof (induction xs arbitrary: sm)
  case (Cons x xs)
  then show ?case using assms(1) [of "snd sm" x "fst sm"] by simp
qed simp

lemma drawn_shapes [on_screen]:
  "drawn m m' \<Longrightarrow> drawn m (DrawRoundedRect x y rw rh r c m')"
  "drawn m m' \<Longrightarrow> drawn m (DrawGlassRect x y rw rh r c m')"
  "drawn m m' \<Longrightarrow> drawn m (DrawRoundWindow x y r c m')"
  "drawn m m' \<Longrightarrow> drawn m (DrawIcon x y c m')"
  "drawn m m' \<Longrightarrow> drawn m (DrawTriangle x1 y1 x2 y2 x3 y3 c m')"
  unfolding DrawRoundedRect_def DrawGlassRect_def DrawRoundWindow_def DrawIcon_def DrawTriangle_def Let_def
  by (intro on_screen; simp)+

lemma drawn_face [on_screen]: "drawn m m' \<Longrightarrow> drawn m (DrawFace x y mx my m')"
  unfolding DrawFace_def Let_def by (intro on_screen)

lemma drawn_columns [on_screen]: "drawn m m' \<Longrightarrow> drawn m (draw_columns cols x y col bold m')"
  unfolding draw_columns_def glow_at_def Let_def by (intro on_screen) (auto intro!: on_screen)

lemma drawn_char [on_screen]:
  "drawn m m' \<Longrightarrow> drawn m (DrawChar x y c col bold m')" "drawn m m' \<Longrightarrow> drawn m (os2_DrawChar x y c col bold m')"
  unfolding DrawChar_def os2_DrawChar_def by (auto split: option.split intro: on_screen)

lemma drawn_text [on_screen]:
  "drawn m m' \<Longrightarrow> drawn m (Text x y t col bold m')" "drawn m m' \<Longrightarrow> drawn m (os2_lines ox x y t col bold m')"
  by (induction t arbitrary: x y m') (simp_all add: on_screen)

lemma drawn_texts [on_screen]:
  "drawn m m' \<Longrightarrow> drawn m (os2_Text x y t col bold m')" "drawn m m' \<Longrightarrow> drawn m (TextC x y t col bold m')"
  "drawn m m' \<Longrightarrow> drawn m (os2_TextC x y t col bold m')"
  unfolding os2_Text_def TextC_def os2_TextC_def by (intro on_screen; assumption)+

lemma drawn_cursor [on_screen]: "drawn m m' \<Longrightarrow> drawn m (DrawAeroCursor x y m')"
  unfolding DrawAeroCursor_def Let_def by (intro on_screen)

lemma drawn_galaxy [on_screen]: "drawn m m' \<Longrightarrow> drawn m (galaxy fr4 fr3 cx cy e m')"
proof -
  assume d: "drawn m m'"
  have "drawn m (snd (galaxy_step fr4 fr3 cx cy r i (s, m')))" if "drawn m m'" for r i s m'
    using that by (simp add: galaxy_step_def Let_def on_screen)
  from drawn_fold_seed [of m "galaxy_step fr4 fr3 cx cy (c_div (400 * e) 320)", OF this]
  show ?thesis using d by (simp add: galaxy_def)
qed

lemma drawn_scene [on_screen]:
  "drawn m m' \<Longrightarrow> drawn m (DrawDenseGalaxy frame cx cy e m')" "drawn m m' \<Longrightarrow> drawn m (os2_DrawDenseGalaxy frame cx cy e m')"
  "drawn m m' \<Longrightarrow> drawn m (shaded_disc cx cy r gl inner gc m')"
  "drawn m m' \<Longrightarrow> drawn m (DrawGoldenSun cx cy r m')" "drawn m m' \<Longrightarrow> drawn m (DrawOrganicPlanet cx cy r base m')"
proof -
  show s: "drawn m m' \<Longrightarrow> drawn m (shaded_disc cx cy r gl inner gc m')" for r gl inner gc
    unfolding shaded_disc_def Let_def by (intro on_screen; assumption?)
  show "drawn m m' \<Longrightarrow> drawn m (DrawGoldenSun cx cy r m')" "drawn m m' \<Longrightarrow> drawn m (DrawOrganicPlanet cx cy r base m')"
    unfolding DrawGoldenSun_def DrawOrganicPlanet_def by (rule s, assumption)+
qed (simp_all add: DrawDenseGalaxy_def os2_DrawDenseGalaxy_def drawn_galaxy)

lemma drawn_wave: "drawn m (snd sm) \<Longrightarrow> drawn m (snd (DrawWaveform x y w f sm))"
  unfolding DrawWaveform_def by (rule drawn_fold_seed) (simp_all add: wave_step_def Let_def on_screen)

subsection \<open>Rectangles are exact\<close>

lemma pixel_apart:
  assumes "\<not> off_screen x y" "\<not> off_screen u v" "(x, y) \<noteq> (u, v)"
  shows "pixel x y + 4 \<le> pixel u v \<or> pixel u v + 4 \<le> pixel x y"
proof -
  have "y * 800 + x \<noteq> v * 800 + u"
  proof
    assume eq: "y * 800 + x = v * 800 + u"
    then have "(y * 800 + x) mod 800 = (v * 800 + u) mod 800" by simp
    then have "x = u" using assms(1,2) by (simp add: off_screen_def)
    then show False using eq assms(3) by simp
  qed
  moreover have "0 \<le> y * 800 + x" "0 \<le> v * 800 + u" using assms(1,2) by (simp_all add: off_screen_def)
  ultimately have "nat (y * 800 + x) \<noteq> nat (v * 800 + u)" by simp
  then show ?thesis by (simp add: pixel_def) linarith
qed

lemma rd_pixel:
  assumes "\<not> off_screen x y" "\<not> off_screen u v"
  shows "rd32 (wr32 (pixel x y) c m) (pixel u v) = (if (x, y) = (u, v) then c else rd32 m (pixel u v))"
proof (cases "(x, y) = (u, v)")
  case False
  then show ?thesis using pixel_apart [OF assms] by (auto simp: rd32_wr32_other)
qed simp

text \<open>A shape: one place of a rectangle after the other, some of them left out, each seen once.\<close>

definition shade :: "int \<Rightarrow> int \<Rightarrow> (int \<Rightarrow> int \<Rightarrow> bool) \<Rightarrow> (u32 \<Rightarrow> u32) \<Rightarrow> int \<Rightarrow> int \<Rightarrow> mem \<Rightarrow> mem" where
  "shade x y out g ix iy m = (if out ix iy \<or> off_screen (x + ix) (y + iy) then m
     else wr32 (pixel (x + ix) (y + iy)) (g (rd32 m (pixel (x + ix) (y + iy)))) m)"

lemma shade_at:
  assumes "\<not> off_screen u v"
  shows "rd32 (shade x y out g ix iy m) (pixel u v)
    = (if u - x = ix \<and> v - y = iy \<and> \<not> out ix iy then g (rd32 m (pixel u v)) else rd32 m (pixel u v))"
  using assms by (auto simp: shade_def rd_pixel)

lemma shade_row:
  assumes "\<not> off_screen u v" "distinct xs"
  shows "rd32 (fold (\<lambda>ix. shade x y out g ix iy) xs m) (pixel u v)
    = (if u - x \<in> set xs \<and> v - y = iy \<and> \<not> out (u - x) iy then g (rd32 m (pixel u v)) else rd32 m (pixel u v))"
  using assms(2) by (induction xs arbitrary: m) (auto simp: shade_at [OF assms(1)])

lemma shade_all:
  assumes "\<not> off_screen u v" "distinct xs" "distinct ys"
  shows "rd32 (for_xy ys xs (shade x y out g) m) (pixel u v)
    = (if u - x \<in> set xs \<and> v - y \<in> set ys \<and> \<not> out (u - x) (v - y) then g (rd32 m (pixel u v)) else rd32 m (pixel u v))"
  using assms(3) unfolding for_xy_def by (induction ys arbitrary: m) (auto simp: shade_row [OF assms(1,2)])

lemma rect_shade:
  "DrawRoundedRect x y rw rh r c = for_xy [0..rh - 1] [0..rw - 1] (shade x y (in_corner rw rh r) (\<lambda>_. c))"
  "DrawGlassRect x y rw rh r c = for_xy [0..rh - 1] [0..rw - 1] (shade x y (in_corner rw rh r) (glass c))"
  unfolding DrawRoundedRect_def DrawGlassRect_def
  by (rule arg_cong [where f = "for_xy _ _"]; auto simp: shade_def Put_def fun_eq_iff)+

text \<open>The channels of a glass pixel are the means of the two colours.\<close>

lemma chan_range: "0 \<le> chan_r c" "chan_r c \<le> 255" "0 \<le> chan_g c" "chan_g c \<le> 255" "0 \<le> chan_b c" "chan_b c \<le> 255"
proof -
  have "uint (w AND 0xFF) \<le> 255" for w :: u32 using uint_and [of w "0xFF"] AND_upper2 [of 255 "uint w"] by (simp add: uint_and)
  then show "chan_r c \<le> 255" "chan_g c \<le> 255" "chan_b c \<le> 255" by (simp_all add: chan_r_def chan_g_def chan_b_def)
qed (simp_all add: chan_r_def chan_g_def chan_b_def)

lemma byte_bits:
  assumes "0 \<le> (v :: int)" "v \<le> 255"
  shows "bit v k \<Longrightarrow> k < 8"
proof -
  assume b: "bit v k"
  have "v = take_bit 8 v" using assms by (simp add: take_bit_int_eq_self)
  then have "bit (take_bit 8 v) k" using b by simp
  then show "k < 8" by (simp add: bit_take_bit_iff)
qed

lemma chan_rgb:
  assumes "0 \<le> r" "r \<le> 255" "0 \<le> g" "g \<le> 255" "0 \<le> b" "b \<le> 255"
  shows "chan_r (rgb r g b) = r" "chan_g (rgb r g b) = g" "chan_b (rgb r g b) = b"
proof -
  note bs = byte_bits [OF assms(1,2)] byte_bits [OF assms(3,4)] byte_bits [OF assms(5,6)]
  have u: "uint (word_of_int v :: u32) = v" if "0 \<le> v" "v \<le> 255" for v
    using that by (simp add: unsigned_of_int take_bit_int_eq_self)
  have "drop_bit 16 (rgb r g b) AND 0xFF = word_of_int r" "drop_bit 8 (rgb r g b) AND 0xFF = word_of_int g"
    "rgb r g b AND 0xFF = word_of_int b"
    unfolding byte_masks(1) rgb_def by (rule bit_word_eqI; auto simp: bit_simps dest: bs)+
  then show "chan_r (rgb r g b) = r" "chan_g (rgb r g b) = g" "chan_b (rgb r g b) = b"
    using u assms by (simp_all add: chan_r_def chan_g_def chan_b_def)
qed

lemma glass_channels:
  "chan_r (glass c bg) = (chan_r bg + chan_r c) div 2 \<and> chan_g (glass c bg) = (chan_g bg + chan_g c) div 2
   \<and> chan_b (glass c bg) = (chan_b bg + chan_b c) div 2"
  unfolding glass_def using chan_range [of c] chan_range [of bg] by (intro conjI chan_rgb) auto

subsection \<open>What is proved of the engine\<close>

text \<open>Every routine that draws, as a call.\<close>

datatype drawing =
    Dot int int u32 | Shadow int int u32
  | Rect int int int int int u32 | Glass int int int int int u32 | Disc int int int u32
  | Icon int int u32 | Triangle int int int int int int u32 | Face int int int int
  | Letter int int char u32 bool | Words int int string u32 bool | Centred int int string u32 bool
  | Os2_Letter int int char u32 bool | Os2_Words int int string u32 bool | Os2_Centred int int string u32 bool
  | Pointer int int | Galaxy u32 int int int | Os2_Galaxy u32 int int int | Sun int int int | Planet int int int u32

fun draw :: "drawing \<Rightarrow> mem \<Rightarrow> mem" where
  "draw (Dot x y c) = Put x y c"
| "draw (Shadow x y c) = PutAlpha x y c"
| "draw (Rect x y w h r c) = DrawRoundedRect x y w h r c"
| "draw (Glass x y w h r c) = DrawGlassRect x y w h r c"
| "draw (Disc x y r c) = DrawRoundWindow x y r c"
| "draw (Icon x y c) = DrawIcon x y c"
| "draw (Triangle x1 y1 x2 y2 x3 y3 c) = DrawTriangle x1 y1 x2 y2 x3 y3 c"
| "draw (Face x y mx my) = DrawFace x y mx my"
| "draw (Letter x y ch c b) = DrawChar x y ch c b"
| "draw (Words x y t c b) = Text x y t c b"
| "draw (Centred x y t c b) = TextC x y t c b"
| "draw (Os2_Letter x y ch c b) = os2_DrawChar x y ch c b"
| "draw (Os2_Words x y t c b) = os2_Text x y t c b"
| "draw (Os2_Centred x y t c b) = os2_TextC x y t c b"
| "draw (Pointer x y) = DrawAeroCursor x y"
| "draw (Galaxy f x y e) = DrawDenseGalaxy f x y e"
| "draw (Os2_Galaxy f x y e) = os2_DrawDenseGalaxy f x y e"
| "draw (Sun x y r) = DrawGoldenSun x y r"
| "draw (Planet x y r c) = DrawOrganicPlanet x y r c"

text \<open>
  Property C14. Whatever is drawn, at whatever coordinates and sizes, only the 1920000 bytes of
  the back buffer change.
\<close>

theorem drawing_stays_on_screen: "drawn m (fold draw ds m)"
proof -
  have "drawn m (draw d m')" if "drawn m m'" for d m'
    using that by (cases d) (simp_all add: on_screen)
  then show ?thesis by (intro drawn_fold drawn_refl)
qed



text \<open>The blue of the outermost particles is negative when the galaxy of the second kernel is fully open.\<close>

lemma galaxy_rim_colour:
  "particle_pixel 105 \<lparr>pa_d = 445, pa_px = 725, pa_py = 236, pa_rand2 = 0, pa_mod = 2\<rparr> 0 = 0xFFFFFFF7"
  by (simp add: particle_pixel_def particle_colour_def int_sqrt_def chan_r_def chan_g_def chan_b_def rgb_def c_div_def Let_def)

lemma sine_table_short: "length sin_lut = 256" "230 \<le> a \<Longrightarrow> a < 256 \<Longrightarrow> Sin a = 0"
proof -
  show "length sin_lut = 256" by (simp add: sin_lut_def)
  assume "230 \<le> a" "a < 256"
  then show "Sin a = 0" by (simp add: Sin_def sin_lut_def nth_append nat_diff_distrib del: nth_Cons_numeral)
qed

subsection \<open>The frame buffer shows the picture\<close>

text \<open>The address of a place on the monitor.\<close>

definition shown_at :: "nat \<Rightarrow> nat \<Rightarrow> int \<Rightarrow> int \<Rightarrow> nat" where
  "shown_at fb pitch x y = fb + nat y * pitch + 4 * nat x"

definition same_picture :: "mem \<Rightarrow> mem \<Rightarrow> bool" where
  "same_picture m m' \<longleftrightarrow> (\<forall>i. back_buf \<le> i \<and> i < screen_end \<longrightarrow> m' i = m i)"

definition apart_from_screen :: "nat \<Rightarrow> nat \<Rightarrow> bool" where
  "apart_from_screen fb pitch \<longleftrightarrow> 3200 \<le> pitch \<and> (fb + 600 * pitch \<le> back_buf \<or> screen_end \<le> fb)"

lemma shown_range:
  assumes "3200 \<le> pitch" "\<not> off_screen x y"
  shows "fb \<le> shown_at fb pitch x y" "shown_at fb pitch x y + 4 \<le> fb + 600 * pitch"
proof -
  have x: "nat x \<le> 799" "nat y \<le> 599" using assms(2) by (auto simp: off_screen_def)
  then have "nat y * pitch \<le> 599 * pitch" by (intro mult_right_mono) simp_all
  moreover have "4 * nat x + 4 \<le> pitch" using x(1) assms(1) by linarith
  ultimately show "fb \<le> shown_at fb pitch x y" "shown_at fb pitch x y + 4 \<le> fb + 600 * pitch"
    unfolding shown_at_def by linarith+
qed

lemma shown_apart:
  assumes "3200 \<le> pitch" "\<not> off_screen x y" "\<not> off_screen u v" "(x, y) \<noteq> (u, v)"
  shows "shown_at fb pitch x y + 4 \<le> shown_at fb pitch u v \<or> shown_at fb pitch u v + 4 \<le> shown_at fb pitch x y"
proof -
  have less: "shown_at fb pitch x y + 4 \<le> shown_at fb pitch u v" if "nat y < nat v" "nat x \<le> 799" for x y u v
  proof -
    have "nat y + 1 \<le> nat v" using that(1) by linarith
    then have "(nat y + 1) * pitch \<le> nat v * pitch" by (rule mult_right_mono) simp
    then show ?thesis using that(2) assms(1) by (simp add: shown_at_def)
  qed
  have n: "nat x \<le> 799" "nat u \<le> 799" "0 \<le> x" "0 \<le> u" "0 \<le> y" "0 \<le> v" using assms(2,3) by (auto simp: off_screen_def)
  consider "nat y < nat v" | "nat v < nat y" | "y = v" using n by linarith
  then show ?thesis
  proof cases
    case 3
    then have "nat x \<noteq> nat u" using assms(4) n by auto
    then show ?thesis using 3 by (simp add: shown_at_def) linarith
  qed (use less n in blast)+
qed

definition swap_pixel :: "nat \<Rightarrow> nat \<Rightarrow> int \<Rightarrow> int \<Rightarrow> int \<Rightarrow> int \<Rightarrow> mem \<Rightarrow> mem" where
  "swap_pixel fb pitch sx sy x y m = (if off_screen (x + sx) (y + sy) then m
     else wr32 (shown_at fb pitch (x + sx) (y + sy)) (rd32 m (pixel x y)) m)"

lemma swap_pixels: "swap_at fb pitch sx sy = for_xy [0..599] [0..799] (swap_pixel fb pitch sx sy)"
  unfolding swap_at_def
  by (rule arg_cong [where f = "for_xy _ _"]) (auto simp: swap_pixel_def shown_at_def off_screen_def Let_def fun_eq_iff)

lemma swap_pixel_step:
  assumes ap: "apart_from_screen fb pitch" and m: "same_picture m0 m" and src: "\<not> off_screen x y"
  shows "same_picture m0 (swap_pixel fb pitch sx sy x y m)"
    "\<not> off_screen u v \<Longrightarrow> rd32 (swap_pixel fb pitch sx sy x y m) (shown_at fb pitch u v)
      = (if u - sx = x \<and> v - sy = y then rd32 m0 (pixel x y) else rd32 m (shown_at fb pitch u v))"
    "i < fb \<or> fb + 600 * pitch \<le> i \<Longrightarrow> swap_pixel fb pitch sx sy x y m i = m i"
proof -
  have p: "3200 \<le> pitch" using ap by (simp add: apart_from_screen_def)
  have out: "wr32 (shown_at fb pitch (x + sx) (y + sy)) w m i = m i"
    if "\<not> off_screen (x + sx) (y + sy)" "i < fb \<or> fb + 600 * pitch \<le> i" for w i
    using shown_range [OF p that(1), of fb] that(2) by (intro wr32_other) auto
  then show "i < fb \<or> fb + 600 * pitch \<le> i \<Longrightarrow> swap_pixel fb pitch sx sy x y m i = m i"
    by (simp add: swap_pixel_def)
  have bb: "i < fb \<or> fb + 600 * pitch \<le> i" if "back_buf \<le> i" "i < screen_end" for i
    using ap that by (auto simp: apart_from_screen_def)
  then show "same_picture m0 (swap_pixel fb pitch sx sy x y m)"
    using m out by (simp add: same_picture_def swap_pixel_def)
  have "rd32 m (pixel x y) = rd32 m0 (pixel x y)"
    using m pixel_range [OF src] by (intro rd32_cong) (simp add: same_picture_def)
  moreover assume uv: "\<not> off_screen u v"
  ultimately show "rd32 (swap_pixel fb pitch sx sy x y m) (shown_at fb pitch u v)
      = (if u - sx = x \<and> v - sy = y then rd32 m0 (pixel x y) else rd32 m (shown_at fb pitch u v))"
    using shown_apart [OF p, of "x + sx" "y + sy" u v fb] by (auto simp: swap_pixel_def rd32_wr32_other)
qed

lemma swap_row:
  assumes ap: "apart_from_screen fb pitch" and y: "0 \<le> y" "y < 600" and "\<forall>x \<in> set xs. 0 \<le> x \<and> x < 800" "distinct xs"
    and m: "same_picture m0 m"
  shows "same_picture m0 (fold (\<lambda>x. swap_pixel fb pitch sx sy x y) xs m)
    \<and> (\<not> off_screen u v \<longrightarrow> rd32 (fold (\<lambda>x. swap_pixel fb pitch sx sy x y) xs m) (shown_at fb pitch u v)
      = (if u - sx \<in> set xs \<and> v - sy = y then rd32 m0 (pixel (u - sx) (v - sy)) else rd32 m (shown_at fb pitch u v)))
    \<and> (\<forall>i. i < fb \<or> fb + 600 * pitch \<le> i \<longrightarrow> fold (\<lambda>x. swap_pixel fb pitch sx sy x y) xs m i = m i)"
  using assms(4-6)
proof (induction xs arbitrary: m)
  case (Cons x xs)
  have src: "\<not> off_screen x y" using Cons.prems(1) y by (simp add: off_screen_def)
  note st = swap_pixel_step [OF ap Cons.prems(3) src, where sx = sx and sy = sy]
  show ?case using Cons.IH [OF _ _ st(1)] Cons.prems st(2) [where u = u and v = v] st(3) by auto
qed simp

lemma swap_rows:
  assumes ap: "apart_from_screen fb pitch" and "\<forall>y \<in> set ys. 0 \<le> y \<and> y < 600" "distinct ys"
    and "\<forall>x \<in> set xs. 0 \<le> x \<and> x < 800" "distinct xs" and m: "same_picture m0 m"
  shows "same_picture m0 (for_xy ys xs (swap_pixel fb pitch sx sy) m)
    \<and> (\<not> off_screen u v \<longrightarrow> rd32 (for_xy ys xs (swap_pixel fb pitch sx sy) m) (shown_at fb pitch u v)
      = (if u - sx \<in> set xs \<and> v - sy \<in> set ys then rd32 m0 (pixel (u - sx) (v - sy)) else rd32 m (shown_at fb pitch u v)))
    \<and> (\<forall>i. i < fb \<or> fb + 600 * pitch \<le> i \<longrightarrow> for_xy ys xs (swap_pixel fb pitch sx sy) m i = m i)"
  using assms(2,3,6) unfolding for_xy_def
proof (induction ys arbitrary: m)
  case (Cons y ys)
  have y: "0 \<le> y" "y < 600" using Cons.prems(1) by simp_all
  note row = swap_row [OF ap y assms(4,5) Cons.prems(3), where sx = sx and sy = sy and u = u and v = v]
  show ?case using Cons.IH [OF _ _ conjunct1 [OF row]] Cons.prems row by auto
qed simp

text \<open>
  Swap shows the picture: with a frame buffer apart from the back buffer, every place
  of the monitor shows the pixel that is shifted onto it by the shake, a place without such a
  pixel keeps what it showed, and nothing else in memory changes.
\<close>

theorem swap_shows_picture:
  assumes "apart_from_screen fb pitch"
  shows "let m' = snd (Swap fb pitch (timer, seed) m); (sx, sy, _) = shake timer seed in
    (\<forall>u v. off_screen u v \<or> rd32 m' (shown_at fb pitch u v)
       = (if off_screen (u - sx) (v - sy) then rd32 m (shown_at fb pitch u v) else rd32 m (pixel (u - sx) (v - sy))))
    \<and> (\<forall>i. (fb \<le> i \<and> i < fb + 600 * pitch) \<or> m' i = m i)"
proof -
  obtain sx sy t2 s2 where sh: "shake timer seed = (sx, sy, t2, s2)" by (cases "shake timer seed") auto
  have "same_picture m m" by (simp add: same_picture_def)
  from swap_rows [OF assms _ _ _ _ this, of "[0..599]" "[0..799]" sx sy]
  have new: "(\<not> off_screen u v \<longrightarrow> rd32 (swap_at fb pitch sx sy m) (shown_at fb pitch u v)
      = (if off_screen (u - sx) (v - sy) then rd32 m (shown_at fb pitch u v) else rd32 m (pixel (u - sx) (v - sy))))
    \<and> (\<forall>i. i < fb \<or> fb + 600 * pitch \<le> i \<longrightarrow> swap_at fb pitch sx sy m i = m i)" for u v
    unfolding swap_pixels by (auto simp: off_screen_def)
  have "\<forall>u v. off_screen u v \<or> rd32 (swap_at fb pitch sx sy m) (shown_at fb pitch u v)
      = (if off_screen (u - sx) (v - sy) then rd32 m (shown_at fb pitch u v) else rd32 m (pixel (u - sx) (v - sy)))"
    using new by blast
  moreover have "\<forall>i. (fb \<le> i \<and> i < fb + 600 * pitch) \<or> swap_at fb pitch sx sy m i = m i"
    using new [of 0 0] not_le by blast
  ultimately show ?thesis by (simp add: Swap_def sh)
qed

theorem swap_shows_picture_witness:
  "rd32 (snd (Swap 0xE0000000 3200 (0, 1) (Put 5 7 0xABCDEF (\<lambda>_. 0)))) (shown_at 0xE0000000 3200 5 7) = 0xABCDEF"
proof -
  let ?m = "Put 5 7 0xABCDEF (\<lambda>_. 0)"
  have on: "\<not> off_screen 5 7" by (simp add: off_screen_def)
  have "\<forall>u v. off_screen u v \<or> rd32 (snd (Swap 0xE0000000 3200 (0, 1) ?m)) (shown_at 0xE0000000 3200 u v)
      = (if off_screen (u - 0) (v - 0) then rd32 ?m (shown_at 0xE0000000 3200 u v) else rd32 ?m (pixel (u - 0) (v - 0)))"
    using swap_shows_picture [where fb = "0xE0000000" and pitch = 3200 and timer = 0 and seed = 1 and m = ?m]
    by (simp add: apart_from_screen_def screen_end_def back_buf_def shake_def Let_def)
  from this [rule_format, of 5 7] show ?thesis using on by (simp add: Put_def)
qed

end
