(* ===== verification/Os2_Keys.thy ===== *)
theory Os2_Keys
  imports Os2_Store Line_Editor Canvas Pci
begin

text \<open>
  The keyboard of the second kernel and the part of its main loop that reads the input devices
  (\<open>kernel_main.cpp\<close>): keys that open windows, the four input lines, the hardware list of the
  SYSTEM window, the system calls of applications, and the windows at the start.
\<close>

subsection \<open>State\<close>

text \<open>An entry of the hardware list (\<open>MirrorEntry\<close>), and the globals of this part.\<close>

record mirror_entry =
  me_bus :: nat
  me_dev :: nat
  me_func :: nat
  me_vendor :: u32
  me_device :: u32
  me_bar0 :: u64
  me_name :: string

record 'd keys = "'d files" +
  mirror_list :: "mirror_entry list"
  mirror_count :: nat
  show_oracle :: bool
  os2_hw_storage :: string
  os2_hw_net :: string
  os2_hw_gpu :: string
  last_app_key :: char
  key_new :: bool
  frame :: u32
  app_window_active :: bool

subsection \<open>The input lines\<close>

text \<open>The character of a key, in capitals; the table is read inside its bounds.\<close>

definition key_char :: "u8 \<Rightarrow> char" where
  "key_char sc = (case get_ascii_qwertz sc of None \<Rightarrow> CHR 0x00 | Some c \<Rightarrow> up_char c)"

definition notepad_press :: "u8 \<Rightarrow> string \<times> nat \<Rightarrow> string \<times> nat" where
  "notepad_press sc l =
     (if sc = 0x0E then del_char l
      else if sc = 0x1C then add_char 2000 (CHR 0x0A) l
      else (let c = key_char sc in if c \<noteq> CHR 0x00 then add_char 2000 c l else l))"

definition cmd_press :: "u8 \<Rightarrow> string \<times> nat \<Rightarrow> string \<times> nat" where
  "cmd_press sc l =
     (if sc = 0x0E then del_char l
      else (let c = key_char sc in if c \<noteq> CHR 0x00 then add_char 60 c l else l))"

text \<open>Both lines of the SAVE AS window; 32 is the first printing character.\<close>

definition name_press :: "u8 \<Rightarrow> string \<times> nat \<Rightarrow> string \<times> nat" where
  "name_press sc l =
     (if sc = 0x0E then del_char l
      else (let c = key_char sc in if (32 :: nat) \<le> of_char c then add_char 10 c l else l))"

definition win_edit :: "(string \<times> nat \<Rightarrow> string \<times> nat) \<Rightarrow> window \<Rightarrow> window" where
  "win_edit f w = (case f (win_content w, win_cursor w) of (t, i) \<Rightarrow> w\<lparr>win_content := t, win_cursor := i\<rparr>)"

definition cmd_edit :: "(string \<times> nat \<Rightarrow> string \<times> nat) \<Rightarrow> ('d, 'z) desk_scheme \<Rightarrow> ('d, 'z) desk_scheme" where
  "cmd_edit f s = (case f (cmd_input_buf s, cmd_input_idx s) of (t, i) \<Rightarrow> s\<lparr>cmd_input_buf := t, cmd_input_idx := i\<rparr>)"

definition save_as_key :: "u8 \<Rightarrow> ('d, 'z) desk_scheme \<Rightarrow> ('d, 'z) desk_scheme" where
  "save_as_key sc s =
     (if save_step s = 1 then (case name_press sc (save_filename s, save_name_idx s) of
        (t, i) \<Rightarrow> s\<lparr>save_filename := t, save_name_idx := i\<rparr>)
      else if save_step s = 2 then (case name_press sc (new_folder_name s, folder_name_idx s) of
        (t, i) \<Rightarrow> s\<lparr>new_folder_name := t, folder_name_idx := i\<rparr>)
      else s)"

subsection \<open>The SYSTEM window\<close>

definition mirror_name :: "u32 \<Rightarrow> string" where
  "mirror_name class_rev = (let cls = drop_bit 24 class_rev AND 0xFF; sub = drop_bit 16 class_rev AND 0xFF in
     if cls = 0x0C \<and> sub = 0x03 then ''USB 3.0 (xHCI)''
     else if cls = 0x01 \<and> sub = 0x06 then ''SATA (AHCI)''
     else if cls = 0x02 then ''NETWORK'' else if cls = 0x03 then ''GRAPHICS'' else ''SYSTEM DEVICE'')"

definition mirror_bar :: "u32 \<Rightarrow> u32 \<Rightarrow> u64" where
  "mirror_bar lo hi = (if lo AND 0x06 = 0x04 then push_bit 32 (ucast hi) OR ucast (lo AND 0xFFFFFFF0)
     else ucast (lo AND 0xFFFFFFF0))"

definition mirror_probe :: "'d hw \<Rightarrow> nat \<times> nat \<times> nat \<Rightarrow> (('d, 'z) keys_scheme, unit) state" where
  "mirror_probe hw = (\<lambda>(b, d, f). do {
     ident \<leftarrow> os2_pci_read hw b d f 0;
     n \<leftarrow> gets mirror_count;
     when_m (ident AND 0xFFFF \<noteq> 0xFFFF \<and> ident \<noteq> 0 \<and> n < 30) (do {
       bar0_l \<leftarrow> os2_pci_read hw b d f 0x10;
       bar0_h \<leftarrow> os2_pci_read hw b d f 0x14;
       class_rev \<leftarrow> os2_pci_read hw b d f 8;
       modify (\<lambda>s. s\<lparr>mirror_list := (mirror_list s)[n := \<lparr>me_bus = b, me_dev = d, me_func = f,
           me_vendor = ident AND 0xFFFF, me_device = drop_bit 16 ident, me_bar0 = mirror_bar bar0_l bar0_h,
           me_name = mirror_name class_rev\<rparr>],
         mirror_count := n + 1\<rparr>)
     })
   })"

definition oracle_scan :: "'d hw \<Rightarrow> (('d, 'z) keys_scheme, unit) state" where
  "oracle_scan hw = do {
     modify (\<lambda>s. s\<lparr>mirror_count := 0\<rparr>);
     for_m (pci_places 28) (mirror_probe hw);
     modify (\<lambda>s. s\<lparr>show_oracle := True\<rparr>)
   }"

definition system_enter :: "'d hw \<Rightarrow> int \<Rightarrow> (('d, 'z) keys_scheme, unit) state" where
  "system_enter hw item =
     (if item = 0 then oracle_scan hw
      else if item = 1 then do { t \<leftarrow> scan_pci_class hw 0x01 ''CTRL''; modify (\<lambda>s. s\<lparr>os2_hw_storage := t\<rparr>) }
      else if item = 2 then do { t \<leftarrow> scan_pci_class hw 0x02 ''NIC''; modify (\<lambda>s. s\<lparr>os2_hw_net := t\<rparr>) }
      else if item = 3 then do { t \<leftarrow> scan_pci_class hw 0x03 ''GPU''; modify (\<lambda>s. s\<lparr>os2_hw_gpu := t\<rparr>) }
      else if item = 4 then system_init_usb hw
      else skip)"

definition select_item :: "int \<Rightarrow> ('d, 'z) desk_scheme \<Rightarrow> ('d, 'z) desk_scheme" where
  "select_item d s = s\<lparr>sys_selected_item := sys_selected_item s + d\<rparr>"

definition system_key :: "'d hw \<Rightarrow> u8 \<Rightarrow> (('d, 'z) keys_scheme, unit) state" where
  "system_key hw sc = do {
     when_m (sc = 0x50) (modify (\<lambda>s. if sys_selected_item s < 4 then select_item 1 s else s));
     when_m (sc = 0x48) (modify (\<lambda>s. if sys_selected_item s > 0 then select_item (- 1) s else s));
     when_m (sc = 0x1C) (do { item \<leftarrow> gets sys_selected_item; system_enter hw item })
   }"

subsection \<open>The dispatch of a key\<close>

definition hotkey :: "u8 \<Rightarrow> nat option" where
  "hotkey sc = map_of [(0x3B, 0), (0x3C, 1), (0x3D, 3), (0x3E, 4), (0x3F, 5)] sc"

definition cmd_key :: "'d hw \<Rightarrow> os2_image \<Rightarrow> u8 \<Rightarrow> nat \<Rightarrow> (('d, 'z) keys_scheme, unit) state" where
  "cmd_key hw I sc fw =
     (if sc = 0x1C then do {
        input \<leftarrow> gets (\<lambda>s. c_str (cmd_input_buf s));
        process_cmd hw I input fw;
        modify (\<lambda>s. s\<lparr>cmd_input_idx := 0, cmd_input_buf := (cmd_input_buf s)[0 := CHR 0x00]\<rparr>)
      } else modify (cmd_edit (cmd_press sc)))"

definition press_key :: "'d hw \<Rightarrow> os2_image \<Rightarrow> u8 \<Rightarrow> (('d, 'z) keys_scheme, unit) state" where
  "press_key hw I sc = do {
     set_status (''KEY: '' @ byte_to_hex sc);
     modify (\<lambda>s. case hotkey sc of None \<Rightarrow> s | Some i \<Rightarrow> toggle_app i s);
     fw \<leftarrow> gets (\<lambda>s. win_z s ! 12);
     w \<leftarrow> gets (\<lambda>s. windows s ! fw);
     when_m (win_open w \<and> \<not> win_minimized w) (do {
       when_m (win_id w = 3) (system_key hw sc);
       when_m (win_id w = 0) (modify (upd_window fw (win_edit (notepad_press sc))));
       when_m (win_id w = 5) (cmd_key hw I sc fw)
     });
     when_m (win_id w = 2) (modify (save_as_key sc))
   }"

text \<open>Only make codes count; the release of a key has bit 7 set.\<close>

definition key_step :: "'d hw \<Rightarrow> os2_image \<Rightarrow> (('d, 'z) keys_scheme, unit) state" where
  "key_step hw I = do {
     ready \<leftarrow> gets key_ready;
     when_m ready (do {
       modify (\<lambda>s. s\<lparr>key_ready := False\<rparr>);
       sc \<leftarrow> gets key_scancode;
       when_m (sc AND 0x80 = 0) (press_key hw I sc)
     })
   }"

subsection \<open>The input half of the main loop\<close>

definition dhcp_key :: "'d hw \<Rightarrow> net_layout \<Rightarrow> (('d, 'z) keys_scheme, unit) state" where
  "dhcp_key hw N = do {
     c \<leftarrow> gets last_app_key;
     w \<leftarrow> gets input_cooldown;
     when_m ((c = CHR ''d'' \<or> c = CHR ''D'') \<and> w = 0) (do {
       send_dhcp_discover hw N;
       modify (\<lambda>s. s\<lparr>last_app_key := CHR 0x00, input_cooldown := 25\<rparr>)
     })
   }"

definition input_part :: "'d hw \<Rightarrow> net_layout \<Rightarrow> os2_image \<Rightarrow> (('d, 'z) keys_scheme, unit) state" where
  "input_part hw N I = do {
     handle_input hw;
     modify (\<lambda>s. if input_cooldown s > 0 then s\<lparr>input_cooldown := input_cooldown s - 1\<rparr> else s);
     modify (\<lambda>s. s\<lparr>click_consumed := False, z_blocked := False\<rparr>);
     dhcp_key hw N;
     fr \<leftarrow> gets frame;
     when_m (fr mod 10 = 0) (check_incoming hw N);
     key_step hw I;
     when_m (fr mod 100 = 0) (read_rtc hw);
     modify window_step
   }"

text \<open>A frame without its drawing half, which the theories \<open>Scene\<close> and \<open>Desktop\<close> add.\<close>

definition input_frame :: "'d hw \<Rightarrow> net_layout \<Rightarrow> os2_image \<Rightarrow> (('d, 'z) keys_scheme, unit) state" where
  "input_frame hw N I = do { input_part hw N I; modify (\<lambda>s. s\<lparr>frame := frame s + 1\<rparr>) }"

subsection \<open>System calls\<close>

text \<open>
  \<open>syscall_dispatcher\<close>: 0 yields, 1 prints a string into the command window (\<open>print_win\<close> takes
  at most 2000 characters), 2 takes the last key, 3 sets a pixel, 4 opens the application window
  and returns the address of its buffer, which is a parameter.
\<close>

definition syscall_dispatcher :: "u64 \<Rightarrow> u64 \<Rightarrow> u64 \<Rightarrow> u64 \<Rightarrow> u64 \<Rightarrow> (('d, 'z) keys_scheme, u64) state" where
  "syscall_dispatcher app_window_buffer sys_num arg1 arg2 arg3 =
     (if sys_num = 0 then do { yield; State_Monad.return 0 }
      else if sys_num = 1 then do {
        t \<leftarrow> peek (\<lambda>m. cstr 2001 m (unat arg1));
        say 5 t;
        State_Monad.return 0
      }
      else if sys_num = 2 then do {
        key \<leftarrow> gets last_app_key;
        modify (\<lambda>s. s\<lparr>last_app_key := CHR 0x00\<rparr>);
        State_Monad.return (scast (byte_of key))
      }
      else if sys_num = 3 then do {
        poke (Put (sint (ucast arg1 :: u32)) (sint (ucast arg2 :: u32)) (ucast arg3));
        State_Monad.return 0
      }
      else if sys_num = 4 then do {
        modify (\<lambda>s. s\<lparr>app_window_active := True\<rparr>);
        State_Monad.return app_window_buffer
      }
      else State_Monad.return 0)"

subsection \<open>The windows at the start\<close>

text \<open>Title, position, size and colour of the thirteen windows.\<close>

definition window_table :: "(string \<times> int \<times> int \<times> int \<times> int \<times> u32) list" where
  "window_table =
    [(''NOTEPAD'', 100, 100, 400, 300, 0xEEEEEE), (''APPS'', 150, 150, 350, 250, 0xDDDDDD),
     (''SAVE AS...'', 200, 150, 300, 200, 0xDDDDDD), (''SYSTEM'', 200, 50, 350, 480, 0xFFD700),
     (''DISK MGR'', 250, 200, 450, 350, 0x888888), (''CMD'', 100, 300, 450, 250, 0x111111),
     (''GENESIS DB'', 150, 100, 500, 400, 0x222222), (''WIFI MGR'', 200, 150, 300, 300, 0x004488),
     (''ACCESS'', 300, 100, 250, 300, 0x44AAAA), (''SENSES'', 400, 100, 300, 350, 0x222222),
     (''GERAETE MGR'', 100, 80, 600, 450, 0x111111), (''ARCADE: PONG'', 200, 150, 450, 300, 0x112211),
     (''ARCADE: BLOBBY'', 250, 100, 450, 300, 0x4488FF)]"

definition init_window :: "nat \<Rightarrow> window" where
  "init_window i = (case window_table ! i of (t, x, y, w, h, c) \<Rightarrow>
     \<lparr>win_id = i, win_title = t, win_x = x, win_y = y, win_w = w, win_h = h, win_open = False, win_minimized = False,
      win_fullscreen = False, win_color = c, win_content = replicate 2048 (CHR 0x00), win_cursor = 0\<rparr>)"

definition init_windows :: "window list" where
  "init_windows = map init_window [0..<13]"

subsection \<open>The lines keep their contract\<close>

definition cmd_reads :: "u8 \<Rightarrow> char option" where
  "cmd_reads sc = (if key_char sc = CHR 0x00 then None else Some (key_char sc))"

definition notepad_reads :: "u8 \<Rightarrow> char option" where
  "notepad_reads sc = (if sc = 0x1C then Some (CHR 0x0A) else cmd_reads sc)"

definition name_reads :: "u8 \<Rightarrow> char option" where
  "name_reads sc = (if (of_char (key_char sc) :: nat) < 32 then None else Some (key_char sc))"

interpretation notepad_line: line_editor notepad_press "\<lambda>sc. sc = 0x0E" notepad_reads 2048 2000
proof
  fix l k assume "line_ok 2048 2000 l"
  from line_press [OF this, of "notepad_reads k" "notepad_press k" "k = 0x0E"]
  show "line_ok 2048 2000 (notepad_press k l)"
    and "line_text (notepad_press k l) = typed 2000 (k = 0x0E) (notepad_reads k) (line_text l)"
    by (auto simp: notepad_press_def notepad_reads_def cmd_reads_def Let_def)
qed

interpretation cmd_line: line_editor cmd_press "\<lambda>sc. sc = 0x0E" cmd_reads 64 60
proof
  fix l k assume "line_ok 64 60 l"
  from line_press [OF this, of "cmd_reads k" "cmd_press k" "k = 0x0E"]
  show "line_ok 64 60 (cmd_press k l)" and "line_text (cmd_press k l) = typed 60 (k = 0x0E) (cmd_reads k) (line_text l)"
    by (auto simp: cmd_press_def cmd_reads_def Let_def)
qed

interpretation name_line: line_editor name_press "\<lambda>sc. sc = 0x0E" name_reads 32 10
proof
  fix l k assume "line_ok 32 10 l"
  moreover have "name_reads k \<noteq> Some (CHR 0x00)" by (auto simp: name_reads_def)
  ultimately have "line_ok 32 10 (name_press k l) \<and> line_text (name_press k l) = typed 10 (k = 0x0E) (name_reads k) (line_text l)"
    by (intro line_press) (auto simp: name_press_def name_reads_def Let_def)
  then show "line_ok 32 10 (name_press k l)" and "line_text (name_press k l) = typed 10 (k = 0x0E) (name_reads k) (line_text l)"
    by simp_all
qed

subsection \<open>What a frame of input keeps\<close>

definition lines_ok :: "('d, 'z) desk_scheme \<Rightarrow> bool" where
  "lines_ok s \<longleftrightarrow> line_ok 64 60 (cmd_input_buf s, cmd_input_idx s) \<and> line_ok 32 10 (save_filename s, save_name_idx s)
     \<and> line_ok 32 10 (new_folder_name s, folder_name_idx s)"

definition mirror_ok :: "('d, 'z) keys_scheme \<Rightarrow> bool" where
  "mirror_ok s \<longleftrightarrow> length (mirror_list s) = 32 \<and> mirror_count s \<le> 30"

definition keys_ok :: "('d, 'z) keys_scheme \<Rightarrow> bool" where
  "keys_ok s \<longleftrightarrow> desk_ok s \<and> lines_ok s \<and> mirror_ok s"

lemma preserves_conj: "preserves P c \<Longrightarrow> preserves Q c \<Longrightarrow> preserves (\<lambda>s. P s \<and> Q s) c"
  by (simp add: preserves_def)

lemma lines_ok_upd [simp]:
  "lines_ok (s\<lparr>ram := m, dev := d\<rparr>) = lines_ok s" "lines_ok (upd_window w f s) = lines_ok s"
  "lines_ok (s\<lparr>key_scancode := k, key_ready := b\<rparr>) = lines_ok s" "lines_ok (s\<lparr>mouse_just_pressed := p\<rparr>) = lines_ok s"
  "lines_ok (s\<lparr>win_z := z\<rparr>) = lines_ok s" "lines_ok (mouse_byte y s) = lines_ok s"
  by (simp_all add: lines_ok_def upd_window_def mouse_byte_def eval_packet_def update_mouse_position_def Let_def split: prod.split)

lemma mirror_ok_upd [simp]:
  "mirror_ok (s\<lparr>ram := m, dev := d\<rparr>) = mirror_ok s" "mirror_ok (upd_window w f s) = mirror_ok s"
  "mirror_ok (s\<lparr>key_scancode := k, key_ready := b\<rparr>) = mirror_ok s" "mirror_ok (s\<lparr>mouse_just_pressed := p\<rparr>) = mirror_ok s"
  "mirror_ok (s\<lparr>win_z := z\<rparr>) = mirror_ok s" "mirror_ok (mouse_byte y s) = mirror_ok s"
  by (simp_all add: mirror_ok_def upd_window_def mouse_byte_def eval_packet_def update_mouse_position_def Let_def split: prod.split)

lemma frame_keys: "shell_frame keys_ok"
  using frame_desk unfolding shell_frame_def keys_ok_def
  by (auto simp: lines_ok_def mirror_ok_def upd_window_def)

lemma net_frame_keys: "net_frame keys_ok"
  by (simp add: net_frame_def keys_ok_def desk_ok_def mouse_ok_def wins_ok_def bufs_ok_def lines_ok_def mirror_ok_def set_info_def)

lemma keys_hw: "touches_hw c \<Longrightarrow> preserves keys_ok c"
  by (rule frame_hw [OF frame_keys])

lemma keys_ok_status [simp]: "keys_ok (s\<lparr>cmd_status := t\<rparr>) = keys_ok s" "keys_ok (s\<lparr>hw_usb := t\<rparr>) = keys_ok s"
  "keys_ok (s\<lparr>click_consumed := b, z_blocked := b'\<rparr>) = keys_ok s" "keys_ok (s\<lparr>input_cooldown := n\<rparr>) = keys_ok s"
  "keys_ok (s\<lparr>last_app_key := c, input_cooldown := n\<rparr>) = keys_ok s" "keys_ok (s\<lparr>frame := f\<rparr>) = keys_ok s"
  "keys_ok (s\<lparr>key_ready := b\<rparr>) = keys_ok s" "keys_ok (s\<lparr>show_oracle := b\<rparr>) = keys_ok s"
  "keys_ok (s\<lparr>os2_hw_storage := t\<rparr>) = keys_ok s" "keys_ok (s\<lparr>os2_hw_net := t\<rparr>) = keys_ok s"
  "keys_ok (s\<lparr>os2_hw_gpu := t\<rparr>) = keys_ok s" "keys_ok (s\<lparr>last_app_key := c\<rparr>) = keys_ok s"
  "keys_ok (s\<lparr>app_window_active := b\<rparr>) = keys_ok s"
  by (simp_all add: keys_ok_def desk_ok_def mouse_ok_def wins_ok_def bufs_ok_def lines_ok_def mirror_ok_def)

lemma handle_input_keys: "preserves keys_ok (handle_input hw)"
proof -
  have loop: "preserves (\<lambda>s. lines_ok s \<and> mirror_ok s) (input_loop hw n)" for n
  proof (induction n)
    case (Suc n)
    show ?case unfolding input_loop.simps
      by (intro preserving Suc; (rule preserves_hw, intro hw_only)?; auto)
  qed (simp add: preserving)
  have "preserves (\<lambda>s. lines_ok s \<and> mirror_ok s) (handle_input hw)"
    unfolding handle_input_def by (intro preserving loop) simp
  then have "preserves (\<lambda>s. desk_ok s \<and> (lines_ok s \<and> mirror_ok s)) (handle_input hw)"
    by (rule preserves_conj [OF handle_input_keeps])
  then show ?thesis by (simp add: keys_ok_def [abs_def])
qed

lemma read_rtc_keys: "preserves keys_ok (read_rtc hw)"
  unfolding read_rtc_def
  by (intro preserving keys_hw hw_only)
    (simp_all add: keys_ok_def desk_ok_def mouse_ok_def wins_ok_def bufs_ok_def lines_ok_def mirror_ok_def)

lemma toggle_app_keys: "keys_ok s \<Longrightarrow> keys_ok (toggle_app i s)"
  using toggle_app_keeps [of s i] by (simp add: keys_ok_def toggle_app_def Let_def)

lemma grab_lines [simp]:
  "lines_ok (s\<lparr>click_consumed := b\<rparr>) = lines_ok s" "mirror_ok (t\<lparr>click_consumed := b\<rparr>) = mirror_ok t"
  "lines_ok (s\<lparr>z_blocked := b\<rparr>) = lines_ok s" "mirror_ok (t\<lparr>z_blocked := b\<rparr>) = mirror_ok t"
  "lines_ok (s\<lparr>drag_win := k, drag_off_x := x, drag_off_y := y\<rparr>) = lines_ok s"
  "mirror_ok (t\<lparr>drag_win := k, drag_off_x := x, drag_off_y := y\<rparr>) = mirror_ok t"
  "lines_ok (s\<lparr>resize_win := k\<rparr>) = lines_ok s" "mirror_ok (t\<lparr>resize_win := k\<rparr>) = mirror_ok t"
  "lines_ok (debounced j f s) = lines_ok s" "mirror_ok (debounced j f t) = mirror_ok t"
  by (simp_all add: lines_ok_def mirror_ok_def debounced_def upd_window_def)

lemma press_window_lines [simp]:
  "lines_ok (press_window k s) = lines_ok s" "mirror_ok (press_window k t) = mirror_ok t"
proof -
  have front: "lines_ok (s\<lparr>click_consumed := b, win_z := z\<rparr>) = lines_ok s" "mirror_ok (t\<lparr>click_consumed := b, win_z := z\<rparr>) = mirror_ok t"
    for b z by (simp_all add: lines_ok_def mirror_ok_def)
  show "lines_ok (press_window k s) = lines_ok s" "mirror_ok (press_window k t) = mirror_ok t"
    unfolding press_window_def Let_def by (auto simp: front split: prod.split)
qed

lemma hit_loop_lines [simp]: "lines_ok (hit_loop ks s) = lines_ok s" "mirror_ok (hit_loop ks t) = mirror_ok t"
  by (induction ks) (simp_all add: Let_def)

lemma window_step_keys: "keys_ok s \<Longrightarrow> keys_ok (window_step s)"
proof -
  assume ok: "keys_ok s"
  have "lines_ok (snd (drag_step s)) = lines_ok s" "mirror_ok (snd (drag_step s)) = mirror_ok s"
    by (simp_all add: drag_step_def lines_ok_def mirror_ok_def upd_window_def Let_def)
  then show ?thesis using ok window_step_keeps [of s]
    by (auto simp: keys_ok_def window_step_def split: prod.split)
qed

lemma line_ok_pair:
  "line_ok cap limit (t, i) \<Longrightarrow> length t = cap \<and> i \<le> limit"
  by (simp add: line_ok_def)

lemma win_edit_ok:
  assumes "win_ok w"
  shows "win_ok (win_edit (notepad_press sc) w) \<and> win_id (win_edit (notepad_press sc) w) = win_id w"
  using assms by (auto simp: win_ok_def win_edit_def notepad_press_def del_char_def add_char_def Let_def)

lemma upd_window_ok:
  assumes "keys_ok s" "\<And>w. win_ok w \<Longrightarrow> win_ok (f w) \<and> win_id (f w) = win_id w"
  shows "keys_ok (upd_window k f s)"
proof -
  have "win_id ((windows s)[k := f (windows s ! k)] ! i) = i \<and> win_ok ((windows s)[k := f (windows s ! k)] ! i)"
    if "i < 13" for i
    using that assms by (cases "i = k") (simp_all add: keys_ok_def desk_ok_def wins_ok_def)
  then have "wins_ok (upd_window k f s)" using assms(1) by (simp add: upd_window_def keys_ok_def desk_ok_def wins_ok_def)
  then show ?thesis using assms(1) by (simp add: keys_ok_def desk_ok_def mouse_ok_def bufs_ok_def upd_window_def lines_ok_def mirror_ok_def)
qed

lemma save_as_key_ok: "keys_ok s \<Longrightarrow> keys_ok (save_as_key sc s)"
proof -
  assume ok: "keys_ok s"
  obtain t i where a: "name_press sc (save_filename s, save_name_idx s) = (t, i)" by fastforce
  obtain u j where b: "name_press sc (new_folder_name s, folder_name_idx s) = (u, j)" by fastforce
  have "line_ok 32 10 (t, i)" "line_ok 32 10 (u, j)"
    using name_line.press_ok [of "(save_filename s, save_name_idx s)" sc] name_line.press_ok [of "(new_folder_name s, folder_name_idx s)" sc]
      ok a b by (simp_all add: keys_ok_def lines_ok_def)
  then show ?thesis using ok line_ok_pair a b
    by (auto simp: save_as_key_def keys_ok_def desk_ok_def mouse_ok_def wins_ok_def bufs_ok_def lines_ok_def mirror_ok_def)
qed

lemma cmd_edit_ok: "keys_ok s \<Longrightarrow> keys_ok (cmd_edit (cmd_press sc) s)"
proof -
  assume ok: "keys_ok s"
  obtain t i where a: "cmd_press sc (cmd_input_buf s, cmd_input_idx s) = (t, i)" by fastforce
  then have "line_ok 64 60 (t, i)"
    using cmd_line.press_ok [of "(cmd_input_buf s, cmd_input_idx s)" sc] ok by (simp add: keys_ok_def lines_ok_def)
  then show ?thesis using ok line_ok_pair a
    by (auto simp: cmd_edit_def keys_ok_def desk_ok_def mouse_ok_def wins_ok_def bufs_ok_def lines_ok_def mirror_ok_def)
qed

lemma cmd_clear_ok: "keys_ok s \<Longrightarrow> keys_ok (s\<lparr>cmd_input_idx := 0, cmd_input_buf := (cmd_input_buf s)[0 := CHR 0x00]\<rparr>)"
  by (auto simp: keys_ok_def desk_ok_def mouse_ok_def wins_ok_def bufs_ok_def lines_ok_def mirror_ok_def line_ok_def line_text_def)

lemma select_item_ok:
  "keys_ok s \<Longrightarrow> 0 \<le> sys_selected_item s + d \<Longrightarrow> sys_selected_item s + d \<le> 4 \<Longrightarrow> keys_ok (select_item d s)"
  by (simp add: select_item_def keys_ok_def desk_ok_def mouse_ok_def wins_ok_def bufs_ok_def lines_ok_def mirror_ok_def)

lemma mirror_ok_add: "keys_ok s \<Longrightarrow> n < 30 \<Longrightarrow> keys_ok (s\<lparr>mirror_list := (mirror_list s)[n := e], mirror_count := Suc n\<rparr>)"
  "keys_ok s \<Longrightarrow> keys_ok (s\<lparr>mirror_count := 0\<rparr>)"
  by (simp_all add: keys_ok_def desk_ok_def mouse_ok_def wins_ok_def bufs_ok_def lines_ok_def mirror_ok_def)

lemma touches_pci_scans [hw_only]: "touches_hw (scan_pci_class hw c p)"
  unfolding scan_pci_class_def by (intro hw_only touches_os2_pci)

lemma mirror_probe_keys: "preserves keys_ok (mirror_probe hw p)"
proof -
  obtain b d f where p: "p = (b, d, f)" by (cases p) auto
  have "preserves keys_ok (os2_pci_read hw b d f off)" for off
    by (rule keys_hw) (simp add: touches_os2_pci)
  then show ?thesis unfolding mirror_probe_def p case_prod_conv
    by (intro preserving) (auto intro: mirror_ok_add)
qed

lemma system_init_usb_keys: "preserves keys_ok (system_init_usb hw)"
  unfolding system_init_usb_def set_hw_usb_def
  by (intro preserving keys_hw touches_find) (auto simp: is_xhci_def intro!: hw_only touches_pci)

lemma system_key_keys: "preserves keys_ok (system_key hw sc)"
proof -
  have range: "0 \<le> sys_selected_item s \<and> sys_selected_item s \<le> 4" if "keys_ok s" for s :: "('a, 'b) keys_scheme"
    using that by (simp add: keys_ok_def desk_ok_def bufs_ok_def)
  have "preserves keys_ok (oracle_scan hw)" unfolding oracle_scan_def
    by (intro preserving mirror_probe_keys) (auto intro: mirror_ok_add)
  then have "preserves keys_ok (system_enter hw i)" for i unfolding system_enter_def
    by (intro preserving system_init_usb_keys keys_hw [OF touches_pci_scans]) simp_all
  then show ?thesis unfolding system_key_def
    by (intro preserving; (auto intro!: select_item_ok dest: range)?)
qed

lemma press_key_keys: "preserves keys_ok (press_key hw I sc)"
proof -
  have "preserves keys_ok (cmd_key hw I sc fw)" for fw unfolding cmd_key_def
    by (intro preserving frame_process_cmd frame_keys) (simp_all add: cmd_clear_ok cmd_edit_ok)
  then show ?thesis unfolding press_key_def set_status_def
    by (intro preserving system_key_keys)
      (auto intro: toggle_app_keys save_as_key_ok intro!: upd_window_ok [OF _ win_edit_ok] split: option.split)
qed

lemma key_step_keys: "preserves keys_ok (key_step hw I)"
  unfolding key_step_def by (intro preserving press_key_keys) simp

lemma input_part_keys: "preserves keys_ok (input_part hw N I)"
  unfolding input_part_def dhcp_key_def
  by (intro preserving handle_input_keys key_step_keys read_rtc_keys net_frame_receive net_frame_send net_frame_keys)
    (auto intro: window_step_keys)

lemma input_frame_keys: "preserves keys_ok (input_frame hw N I)"
  unfolding input_frame_def by (intro preserving input_part_keys) simp

text \<open>The input half of a frame leaves everything alone that the kernel adds to this state.\<close>

lemma more_shell_frame: "shell_frame (\<lambda>s. keys.more s = x)"
  by (simp add: shell_frame_def upd_window_def)

lemma more_net_frame: "net_frame (\<lambda>s. keys.more s = x)"
  by (simp add: net_frame_def set_info_def)

lemma more_upd [simp]:
  "keys.more (upd_window w f s) = keys.more s" "keys.more (mouse_byte y s) = keys.more s" "keys.more (select_item d s) = keys.more s"
  "keys.more (save_as_key sc s) = keys.more s" "keys.more (cmd_edit g s) = keys.more s" "keys.more (toggle_app i s) = keys.more s"
  by (simp_all add: upd_window_def mouse_byte_def eval_packet_def update_mouse_position_def select_item_def save_as_key_def
      cmd_edit_def toggle_app_def Let_def split: prod.split)

lemma more_window_step [simp]:
  fixes s :: "('d, 'z) keys_scheme"
  shows "keys.more (window_step s) = keys.more s"
proof -
  have press: "keys.more (press_window k s) = keys.more s" for k and s :: "('d, 'z) keys_scheme"
    unfolding press_window_def Let_def by (auto simp: debounced_def split: prod.split)
  have "keys.more (hit_loop ks s) = keys.more s" for ks and s :: "('d, 'z) keys_scheme"
    by (induction ks) (simp_all add: Let_def press)
  moreover have "keys.more (snd (drag_step s)) = keys.more s" by (simp add: drag_step_def Let_def)
  moreover obtain c t where "drag_step s = (c, t)" by fastforce
  ultimately show ?thesis by (simp add: window_step_def)
qed

lemma input_part_more: "preserves (\<lambda>s. keys.more s = x) (input_part hw N I)"
proof -
  let ?P = "\<lambda>s. keys.more s = x"
  note hw = frame_hw [OF more_shell_frame]
  have loop: "preserves ?P (input_loop hw n)" for n
  proof (induction n)
    case (Suc n)
    show ?case unfolding input_loop.simps by (intro preserving Suc; (rule hw, intro hw_only)?; simp)
  qed (simp add: preserving)
  have "preserves ?P (handle_input hw)" unfolding handle_input_def by (intro preserving loop) simp
  moreover have "preserves ?P (read_rtc hw)" unfolding read_rtc_def by (intro preserving hw hw_only) simp_all
  moreover have "preserves ?P (press_key hw I sc)" for sc
  proof -
    have "preserves ?P (mirror_probe hw p)" for p
      unfolding mirror_probe_def by (cases p) (simp, intro preserving hw hw_only; simp add: touches_os2_pci)
    then have "preserves ?P (oracle_scan hw)" unfolding oracle_scan_def by (intro preserving) simp_all
    moreover have "preserves ?P (system_init_usb hw)" unfolding system_init_usb_def set_hw_usb_def
      by (intro preserving hw touches_find) (auto simp: is_xhci_def intro!: hw_only touches_pci)
    ultimately have "preserves ?P (system_enter hw i)" for i unfolding system_enter_def
      by (intro preserving hw [OF touches_pci_scans]) simp_all
    then have "preserves ?P (system_key hw sc)" unfolding system_key_def by (intro preserving; simp)
    moreover have "preserves ?P (cmd_key hw I sc fw)" for fw unfolding cmd_key_def
      by (intro preserving frame_process_cmd more_shell_frame) simp_all
    ultimately show ?thesis unfolding press_key_def set_status_def by (intro preserving) (auto split: option.split)
  qed
  ultimately show ?thesis unfolding input_part_def dhcp_key_def key_step_def
    by (intro preserving net_frame_receive net_frame_send more_net_frame) simp_all
qed

subsection \<open>A line of the command window\<close>

text \<open>A key that neither ends the line nor opens a window.\<close>

definition line_key :: "u8 \<Rightarrow> bool" where
  "line_key sc \<longleftrightarrow> sc \<noteq> 0x1C \<and> hotkey sc = None"

definition cmd_in_front :: "('d, 'z) desk_scheme \<Rightarrow> bool" where
  "cmd_in_front s \<longleftrightarrow> (let w = windows s ! (win_z s ! 12) in win_id w = 5 \<and> win_open w \<and> \<not> win_minimized w)"

lemma press_line_key:
  assumes "cmd_in_front s" "line_key sc"
  shows "run_state (press_key hw I sc) s = ((), cmd_edit (cmd_press sc) (s\<lparr>cmd_status := ''KEY: '' @ byte_to_hex sc\<rparr>))"
  using assms by (simp add: press_key_def cmd_in_front_def line_key_def cmd_key_def Let_def)

lemma cmd_edit_line:
  "(cmd_input_buf (cmd_edit f s), cmd_input_idx (cmd_edit f s)) = f (cmd_input_buf s, cmd_input_idx s)"
  "windows (cmd_edit f s) = windows s" "win_z (cmd_edit f s) = win_z s" "dev (cmd_edit f s) = dev s" "ram (cmd_edit f s) = ram s"
  by (simp_all add: cmd_edit_def split: prod.split)

lemma press_line_keys:
  fixes s :: "('d, 'z) keys_scheme"
  assumes "cmd_in_front s" "\<forall>sc \<in> set scs. line_key sc"
  shows "let s' = snd (run_state (for_m scs (press_key hw I)) s) in
    (cmd_input_buf s', cmd_input_idx s') = fold cmd_press scs (cmd_input_buf s, cmd_input_idx s)
    \<and> windows s' = windows s \<and> win_z s' = win_z s \<and> dev s' = dev s \<and> ram s' = ram s"
  using assms
proof (induction scs arbitrary: s)
  case (Cons sc scs)
  let ?s = "cmd_edit (cmd_press sc) (s\<lparr>cmd_status := ''KEY: '' @ byte_to_hex sc\<rparr>)"
  have "run_state (press_key hw I sc) s = ((), ?s)" using Cons.prems by (intro press_line_key) simp_all
  moreover have "cmd_in_front ?s" using Cons.prems(1) by (simp add: cmd_in_front_def cmd_edit_line)
  ultimately show ?case
    using Cons.IH [of ?s] Cons.prems(2) cmd_edit_line(1) [of "cmd_press sc" "s\<lparr>cmd_status := ''KEY: '' @ byte_to_hex sc\<rparr>"]
    by (simp add: cmd_edit_line Let_def)
qed simp


text \<open>
  The windows, the pointer, the three input lines, the texts of the windows and the
  hardware list stay in order in every frame of the main loop: for any sequence of frames, any
  keys and mouse packets, any network packets and any hardware.
\<close>

theorem input_frames_keep_order:
  assumes "keys_ok s"
  shows "keys_ok (snd (run_state (for_m (replicate n ()) (\<lambda>_. input_frame hw N I)) s))"
proof -
  have "preserves keys_ok (for_m (replicate n ()) (\<lambda>_. input_frame hw N I))"
    by (intro preserving input_frame_keys)
  then show ?thesis using assms by (rule preservesD)
qed

text \<open>The kernel as its main loop starts, with the command window opened.\<close>

definition start_keys :: "ref_disk keys" where
  "start_keys = files.extend ((start_files [])\<lparr>windows := init_windows[5 := (init_window 5)\<lparr>win_open := True\<rparr>],
       win_z := [0, 1, 2, 3, 4, 6, 7, 8, 9, 10, 11, 12, 5],
       save_filename := put_str ''NEWFILE'' (replicate 32 (CHR 0x00)), save_name_idx := 7,
       new_folder_name := put_str ''NEWDIR'' (replicate 32 (CHR 0x00)), folder_name_idx := 6\<rparr>)
     (keys.fields (replicate 32 \<lparr>me_bus = 0, me_dev = 0, me_func = 0, me_vendor = 0, me_device = 0, me_bar0 = 0, me_name = []\<rparr>)
       0 False ''PRESS TO SCAN'' ''PRESS TO SCAN'' ''PRESS TO SCAN'' (CHR 0x00) False 0 False)"

lemmas start_keys_defs = start_keys_def start_files_defs keys.defs

lemma init_window_ok: "i < 13 \<Longrightarrow> win_id (init_window i) = i \<and> win_ok (init_window i)"
proof -
  assume "i < 13"
  then have "window_table ! i \<in> set window_table" by (intro nth_mem) (simp add: window_table_def)
  moreover have "\<forall>(t, x, y, w, h, c) \<in> set window_table. 100 \<le> w \<and> 100 \<le> h" by (simp add: window_table_def)
  ultimately show ?thesis by (auto simp: init_window_def win_ok_def split: prod.split)
qed

lemma start_keys_ok: "keys_ok start_keys"
  unfolding keys_ok_def desk_ok_def
proof (intro conjI)
  show "mouse_ok start_keys" by (simp add: mouse_ok_def start_keys_defs del: upt_rec_numeral)
  show "bufs_ok start_keys" by (simp add: bufs_ok_def start_keys_defs put_str_def del: upt_rec_numeral)
  have "win_id (init_windows[5 := (init_window 5)\<lparr>win_open := True\<rparr>] ! i) = i \<and> win_ok (init_windows[5 := (init_window 5)\<lparr>win_open := True\<rparr>] ! i)"
    if "i < 13" for i
    using that init_window_ok by (cases "i = 5") (simp_all add: init_windows_def win_ok_def)
  moreover have "z_ok [0, 1, 2, 3, 4, 6, 7, 8, 9, 10, 11, 12, 5]"
  proof -
    have "set [0, 1, 2, 3, 4, 6, 7, 8, 9, 10, 11, 12, 5 :: nat] = set [0, 1, 2, 3, 4, 5, 6, 7, 8, 9, 10, 11, 12]"
      by (simp add: insert_commute)
    also have "[0, 1, 2, 3, 4, 5, 6, 7, 8, 9, 10, 11, 12] = [0..<13]" by code_simp
    finally have "set [0, 1, 2, 3, 4, 6, 7, 8, 9, 10, 11, 12, 5 :: nat] = {0..<13}" by (simp only: set_upt)
    then show ?thesis unfolding z_ok_def by simp
  qed
  ultimately show "wins_ok start_keys"
    by (simp add: wins_ok_def start_keys_defs init_windows_def del: upt_rec_numeral)
  show "lines_ok start_keys" by (simp add: lines_ok_def line_ok_def line_text_def put_str_def start_keys_defs del: upt_rec_numeral)
  show "mirror_ok start_keys" by (simp add: mirror_ok_def start_keys_defs)
qed

lemma start_keys_front: "cmd_in_front start_keys" "c_str (cmd_input_buf start_keys) = []"
  by (simp_all add: cmd_in_front_def start_keys_defs init_windows_def init_window_def window_table_def c_str_def Let_def
      del: upt_rec_numeral)


theorem input_frames_keep_order_witness:
  "\<forall>N I. keys_ok (snd (run_state (for_m (replicate 100 ()) (\<lambda>_. input_frame (ref28_hw 0xFEBF1100) N I)) start_keys))"
  by (intro allI, rule input_frames_keep_order [OF start_keys_ok])

end
