(* ===== verification/Terminal.thy ===== *)
theory Terminal
  imports Os2_Keys
begin

text \<open>
  The text terminal of \<open>arcade.cpp\<close> (lines 101 to 242): a buffer of fifteen lines that scrolls,
  and the script interpreter that the command window feeds.
\<close>

subsection \<open>State\<close>

text \<open>The lines of the terminal and the number of lines in use.\<close>

record 'd terminal = "'d keys" +
  term_buffer :: "string list"
  term_line :: nat

subsection \<open>Printing\<close>

definition clear_screen :: "('d, 'z) terminal_scheme \<Rightarrow> ('d, 'z) terminal_scheme" where
  "clear_screen s = s\<lparr>term_buffer := fold (\<lambda>i b. b[i := (b ! i)[0 := CHR 0x00]]) [0..<15] (term_buffer s), term_line := 0\<rparr>"

text \<open>All lines one place up, in the order of the loop.\<close>

definition scroll_up :: "string list \<Rightarrow> string list" where
  "scroll_up b = fold (\<lambda>i b. b[i - 1 := put_str (c_str (b ! i)) (b ! (i - 1))]) [1..<15] b"

definition sys_print :: "string \<Rightarrow> ('d, 'z) terminal_scheme \<Rightarrow> ('d, 'z) terminal_scheme" where
  "sys_print t s =
     (let s = (if 15 \<le> term_line s then s\<lparr>term_buffer := scroll_up (term_buffer s), term_line := 14\<rparr> else s)
      in s\<lparr>term_buffer := (term_buffer s)[term_line s := put_str t (term_buffer s ! term_line s)],
           term_line := term_line s + 1\<rparr>)"

definition print_m :: "string \<Rightarrow> (('d, 'z) terminal_scheme, unit) state" where
  "print_m t = modify (sys_print t)"

subsection \<open>The commands of a script\<close>

text \<open>\<open>str_starts\<close> (arcade.cpp:7) on the characters of two arrays.\<close>

fun line_starts :: "string \<Rightarrow> string \<Rightarrow> bool" where
  "line_starts str [] = True"
| "line_starts [] (p # prefix) = False"
| "line_starts (c # str) (p # prefix) = (if c = CHR 0x00 \<or> c \<noteq> p then False else line_starts str prefix)"

text \<open>The directory entry of this file has 20 bytes: type, 11 characters, size and sector as 32 bits.\<close>

definition script_dir :: nat where "script_dir = 0x00901000"

definition script_entry :: "nat \<Rightarrow> nat" where "script_entry i = script_dir + 20 * i"

definition script_name :: "string \<Rightarrow> string" where
  "script_name line = takeWhile (\<lambda>c. c \<noteq> CHR 0x00 \<and> c \<noteq> CHR 0x0D) (take 10 (c_str (drop 6 line)))"

definition put_script_entry :: "nat \<Rightarrow> string \<Rightarrow> mem \<Rightarrow> mem" where
  "put_script_entry e name m =
     wr_bytes (e + 1) (bytes_of name) (zero_fill (e + 1) 11 (wr32 (e + 16) 0 (wr32 (e + 12) 0 (m(e := 2)))))"

text \<open>\<open>filename\<close> is read up to a NUL; 512 characters are more than any line holds.\<close>

definition script_file_name :: "nat \<Rightarrow> mem \<Rightarrow> string" where
  "script_file_name e m = cstr 512 m (e + 1)"

definition script_mkdir :: "'d hw \<Rightarrow> string \<Rightarrow> (('d, 'z) terminal_scheme, unit) state" where
  "script_mkdir hw line = do {
     print_m ''SPINNING UP SATA DRIVE...'';
     _ \<leftarrow> ahci_read_sectors hw 0 1002 1 (word_of_nat script_dir);
     slot \<leftarrow> peek (\<lambda>m. first_slot (\<lambda>i. m (script_entry i) = 0) [0..<8]);
     (case slot of
       None \<Rightarrow> print_m ''ERROR: SATA ROOT DIR FULL!''
     | Some i \<Rightarrow> do {
         poke (put_script_entry (script_entry i) (script_name line));
         _ \<leftarrow> ahci_write_sectors hw 0 1002 1 (word_of_nat script_dir);
         name \<leftarrow> peek (script_file_name (script_entry i));
         print_m (''HDD WRITE OK: '' @ name)
       })
   }"

definition script_dir_line :: "mem \<Rightarrow> nat \<Rightarrow> string" where
  "script_dir_line m i = (let e = script_entry i in
     (if m e = 1 then '' <FILE>  '' else if m e = 2 then '' <DIR>   '' else '' <?>     '') @ script_file_name e m)"

definition script_list :: "'d hw \<Rightarrow> (('d, 'z) terminal_scheme, unit) state" where
  "script_list hw = do {
     print_m ''READING PHYSICAL SATA DRIVE...'';
     _ \<leftarrow> ahci_read_sectors hw 0 1002 1 (word_of_nat script_dir);
     print_m ''VOLUME: HARD DISK 0 (CFS V2)'';
     print_m ''-------------------------'';
     used \<leftarrow> peek (\<lambda>m. filter (\<lambda>i. m (script_entry i) \<noteq> 0) [0..<8]);
     for_m used (\<lambda>i. do { t \<leftarrow> peek (\<lambda>m. script_dir_line m i); print_m t });
     when_m (used = []) (print_m '' DRIVE IS EMPTY.'');
     print_m ''-------------------------''
   }"

definition exec_line :: "'d hw \<Rightarrow> string \<Rightarrow> (('d, 'z) terminal_scheme, unit) state" where
  "exec_line hw line =
     (if line_starts line ''ECHO '' then print_m (c_str (drop 5 line))
      else if line_starts line ''CLS'' then modify clear_screen
      else if line_starts line ''TITLE '' then set_status (c_str (drop 6 line))
      else if line_starts line ''SYSINFO'' then
        for_m [''OS   : COSMOS V2.0 64-BIT'', ''ARCH : X86_64 BARE METAL'', ''BOOT : LEGACY BIOS / PXE''] print_m
      else if line_starts line ''MEM'' then
        for_m [''RAM  : 8192 MB TOTAL'', ''USED : 14 MB (KERNEL)'', ''FREE : 8178 MB AVAILABLE''] print_m
      else if line_starts line ''NET'' then
        for_m [''ETH0 : INTEL PRO/1000 E1000'', ''MAC  : B8:AE:ED:00:11:22'', ''STAT : TX=1 RX=0 (WAITING)''] print_m
      else if line_starts line ''HELP'' then
        for_m [''AVAILABLE COMMANDS:'', '' SYSINFO, MEM, NET, DIR, CLS'', '' MKDIR [NAME] (CREATE FOLDER)'',
          '' ECHO [TEXT]  (PRINT TEXT)''] print_m
      else if line_starts line ''MKDIR '' then script_mkdir hw line
      else if line_starts line ''DIR'' then script_list hw
      else if line ! 0 \<noteq> CHR 0x00 \<and> line ! 0 \<noteq> CHR 0x0D then print_m ''UNKNOWN COMMAND OR BAD SYNTAX.''
      else skip)"

text \<open>
  \<open>run_cosmos_script\<close>: \<open>current_line\<close> is an array of 128 characters on the stack, whose first
  content is a parameter. A character is put into it only at the end of the file.
\<close>

definition script_char :: "'d hw \<Rightarrow> string \<Rightarrow> nat \<Rightarrow> string \<times> nat \<Rightarrow> (('d, 'z) terminal_scheme, string \<times> nat) state" where
  "script_char hw file i = (\<lambda>(line, pos). let c = file ! i; end_of_file = (i = length file - 1) in
     if c = CHR 0x0A \<or> end_of_file then do {
       let (line, pos) = (if end_of_file \<and> c \<noteq> CHR 0x0A \<and> c \<noteq> CHR 0x0D \<and> pos < 127
         then (line[pos := c], pos + 1) else (line, pos));
       let line = line[pos := CHR 0x00];
       exec_line hw line;
       State_Monad.return (line, pos)
     } else State_Monad.return (line, pos))"

fun script_loop :: "'d hw \<Rightarrow> string \<Rightarrow> nat list \<Rightarrow> string \<times> nat \<Rightarrow> (('d, 'z) terminal_scheme, unit) state" where
  "script_loop hw file [] lp = skip"
| "script_loop hw file (i # is) lp = do { lp \<leftarrow> script_char hw file i lp; script_loop hw file is lp }"

definition run_cosmos_script :: "'d hw \<Rightarrow> string \<Rightarrow> string \<Rightarrow> (('d, 'z) terminal_scheme, unit) state" where
  "run_cosmos_script hw current_line file = do {
     set_status ''RUNNING SCRIPT...'';
     script_loop hw file [0..<length file] (current_line, 0)
   }"

subsection \<open>The terminal shows the last fifteen lines\<close>

text \<open>The lines in use, as texts, and the buffer's shape.\<close>

definition term_view :: "('d, 'z) terminal_scheme \<Rightarrow> string list" where
  "term_view s = map c_str (take (term_line s) (term_buffer s))"

definition term_ok :: "('d, 'z) terminal_scheme \<Rightarrow> bool" where
  "term_ok s \<longleftrightarrow> length (term_buffer s) = 15 \<and> (\<forall>b \<in> set (term_buffer s). length b = 64 \<and> CHR 0x00 \<in> set b) \<and> term_line s \<le> 15"

text \<open>The abstract terminal: a list of lines of which the oldest ones leave.\<close>

definition last_lines :: "'a list \<Rightarrow> 'a list" where
  "last_lines ts = drop (length ts - 15) ts"

definition plain_line :: "string \<Rightarrow> bool" where
  "plain_line t \<longleftrightarrow> length t < 64 \<and> CHR 0x00 \<notin> set t"

lemma last_lines_append: "last_lines (last_lines ts @ us) = last_lines (ts @ us)"
  by (cases "length ts \<le> 15") (simp_all add: last_lines_def add.commute)

lemma c_str_plain: "CHR 0x00 \<notin> set t \<Longrightarrow> c_str t = t"
  by (auto simp: c_str_def takeWhile_eq_all_conv)

lemma put_str_length: "length t < length old \<Longrightarrow> length (put_str t old) = length old"
  by (simp add: put_str_def)

text \<open>The scrolling loop moves every line by one place.\<close>

lemma scroll_from:
  assumes "k \<le> 14" "length b = 15"
  shows "length (fold (\<lambda>i b. b[i - 1 := put_str (c_str (b ! i)) (b ! (i - 1))]) [1..<Suc k] b) = 15
    \<and> (\<forall>j < 15. fold (\<lambda>i b. b[i - 1 := put_str (c_str (b ! i)) (b ! (i - 1))]) [1..<Suc k] b ! j
        = (if j < k then put_str (c_str (b ! Suc j)) (b ! j) else b ! j))"
  using assms(1)
proof (induction k)
  case (Suc k)
  let ?f = "\<lambda>i b. b[i - 1 := put_str (c_str (b ! i)) (b ! (i - 1))]"
  have "[1..<Suc (Suc k)] = [1..<Suc k] @ [Suc k]" by simp
  then show ?case using Suc assms(2) by (auto simp: nth_list_update less_Suc_eq simp del: upt_Suc)
qed (use assms in simp)

lemma scroll_up_nth:
  assumes "length b = 15"
  shows "length (scroll_up b) = 15" "j < 14 \<Longrightarrow> scroll_up b ! j = put_str (c_str (b ! Suc j)) (b ! j)"
    "scroll_up b ! 14 = b ! 14"
  using scroll_from [of 14 b] assms by (simp_all add: scroll_up_def del: upt_rec_numeral)

lemma c_str_short: "CHR 0x00 \<in> set b \<Longrightarrow> length (c_str b) < length b"
proof -
  assume "CHR 0x00 \<in> set b"
  then have "c_str b \<noteq> b" using c_str_no_nul [of b] by metis
  then show ?thesis unfolding c_str_def
    by (metis length_takeWhile_le le_neq_implies_less takeWhile_eq_take take_all_iff order_refl)
qed

text \<open>The buffer before the new line is copied, and its place.\<close>

lemma scrolled_buffer:
  assumes "term_ok s"
  shows "term_ok (s\<lparr>term_buffer := scroll_up (term_buffer s), term_line := 14\<rparr>)"
    "15 \<le> term_line s \<Longrightarrow> map c_str (take 14 (scroll_up (term_buffer s))) = tl (term_view s)"
proof -
  have len: "length (term_buffer s) = 15" using assms by (simp add: term_ok_def)
  have o: "length (term_buffer s ! j) = 64 \<and> CHR 0x00 \<in> set (term_buffer s ! j)" if "j < 15" for j
    using assms that len by (simp add: term_ok_def)
  have new: "length (scroll_up (term_buffer s) ! j) = 64 \<and> CHR 0x00 \<in> set (scroll_up (term_buffer s) ! j)" if "j < 15" for j
  proof (cases "j < 14")
    case True
    then show ?thesis using o [of j] o [of "Suc j"] c_str_short [of "term_buffer s ! Suc j"] scroll_up_nth(2) [OF len True]
      by (simp add: put_str_length) (simp add: put_str_def)
  next
    case False
    then have "j = 14" using that by simp
    then show ?thesis using o [of 14] scroll_up_nth(3) [OF len] by simp
  qed
  then show "term_ok (s\<lparr>term_buffer := scroll_up (term_buffer s), term_line := 14\<rparr>)"
    unfolding term_ok_def using scroll_up_nth(1) [OF len] by (simp add: all_set_conv_all_nth)
  assume "15 \<le> term_line s"
  then have v: "term_view s = map c_str (term_buffer s)" using len by (simp add: term_view_def)
  show "map c_str (take 14 (scroll_up (term_buffer s))) = tl (term_view s)"
  proof (rule nth_equalityI)
    fix j
    assume "j < length (map c_str (take 14 (scroll_up (term_buffer s))))"
    then have j: "j < 14" using scroll_up_nth(1) [OF len] by simp
    then show "map c_str (take 14 (scroll_up (term_buffer s))) ! j = tl (term_view s) ! j"
      using len scroll_up_nth(1,2) [OF len] v by (simp add: nth_tl c_str_put_str c_str_no_nul)
  qed (use len scroll_up_nth(1) [OF len] v in simp)
qed

lemma sys_print_room:
  assumes "term_ok s" "term_line s < 15" "plain_line t"
  shows "term_ok (sys_print t s) \<and> term_view (sys_print t s) = term_view s @ [t]"
proof -
  let ?b = "(term_buffer s)[term_line s := put_str t (term_buffer s ! term_line s)]"
  have len: "length (term_buffer s) = 15" using assms(1) by (simp add: term_ok_def)
  have "length (term_buffer s ! term_line s) = 64" using assms(1,2) len by (simp add: term_ok_def)
  then have new: "length (put_str t (term_buffer s ! term_line s)) = 64 \<and> CHR 0x00 \<in> set (put_str t (term_buffer s ! term_line s))"
    using assms(3) by (simp add: put_str_length plain_line_def) (simp add: put_str_def)
  then have "\<forall>b \<in> set ?b. length b = 64 \<and> CHR 0x00 \<in> set b"
    using assms(1) set_update_subset_insert [of "term_buffer s"] by (fastforce simp: term_ok_def)
  moreover have "take (Suc (term_line s)) ?b = take (term_line s) (term_buffer s) @ [put_str t (term_buffer s ! term_line s)]"
    using assms(2) len by (simp add: take_Suc_conv_app_nth take_update_past)
  moreover have "c_str (put_str t old) = t" for old using assms(3) by (simp add: c_str_put_str plain_line_def)
  ultimately show ?thesis using assms len by (simp add: sys_print_def term_ok_def term_view_def)
qed

lemma sys_print_view:
  assumes "term_ok s" "plain_line t"
  shows "term_ok (sys_print t s) \<and> term_view (sys_print t s) = last_lines (term_view s @ [t])"
proof (cases "15 \<le> term_line s")
  case True
  let ?s = "s\<lparr>term_buffer := scroll_up (term_buffer s), term_line := 14\<rparr>"
  have "sys_print t s = sys_print t ?s" using True by (simp add: sys_print_def)
  moreover have "term_view ?s = tl (term_view s)" using scrolled_buffer(2) [OF assms(1) True] by (simp add: term_view_def)
  moreover have "length (term_view s) = 15" using assms(1) True by (simp add: term_ok_def term_view_def)
  then have "last_lines (term_view s @ [t]) = tl (term_view s) @ [t]"
    by (cases "term_view s") (simp_all add: last_lines_def)
  ultimately show ?thesis using sys_print_room [of ?s t] scrolled_buffer(1) [OF assms(1)] assms(2) by simp
next
  case False
  then have "length (term_view s) < 15" by (simp add: term_view_def)
  then have "last_lines (term_view s @ [t]) = term_view s @ [t]" by (simp add: last_lines_def)
  then show ?thesis using sys_print_room [of s t] assms False by simp
qed

lemma clear_screen_view:
  assumes "term_ok s"
  shows "term_ok (clear_screen s) \<and> term_view (clear_screen s) = []"
proof -
  have "length (fold (\<lambda>i b. b[i := (b ! i)[0 := CHR 0x00]]) [0..<n] b) = length b \<and>
      (\<forall>j < length b. fold (\<lambda>i b. b[i := (b ! i)[0 := CHR 0x00]]) [0..<n] b ! j = (if j < n then (b ! j)[0 := CHR 0x00] else b ! j))"
    for n and b :: "string list"
    by (induction n) (auto simp: nth_list_update less_Suc_eq)
  from this [of 15 "term_buffer s"] show ?thesis
    using assms by (simp add: clear_screen_def term_ok_def term_view_def all_set_conv_all_nth set_update_memI del: upt_rec_numeral)
qed

text \<open>A kernel whose terminal has not been used, and one with any text in it.\<close>

definition start_terminal :: "ref_disk terminal" where
  "start_terminal = keys.extend start_keys
     (terminal.fields (replicate 15 (replicate 64 (CHR 0x00))) 0)"

lemmas start_terminal_defs = start_terminal_def start_keys_defs terminal.defs

lemma start_terminal_ok: "term_ok start_terminal" "term_view start_terminal = []"
  by (simp_all add: start_terminal_defs term_ok_def term_view_def)

text \<open>
  Property C21. The terminal refines a list of lines: whatever is printed after the screen has
  been cleared, line by line, the buffer shows the last fifteen of these lines and keeps its shape.
\<close>

theorem terminal_shows_last_lines:
  fixes s :: "('d, 'z) terminal_scheme"
  assumes "term_ok s" "\<forall>t \<in> set ts. plain_line t"
  shows "let s' = snd (run_state (do { modify clear_screen; for_m ts print_m }) s) in
    term_ok s' \<and> term_view s' = last_lines ts"
proof -
  have "term_ok (snd (run_state (for_m ts print_m) s)) \<and> term_view (snd (run_state (for_m ts print_m) s)) = last_lines (term_view s @ ts)"
    if "term_ok s" "\<forall>t \<in> set ts. plain_line t" "length (term_view s) \<le> 15" for s :: "('d, 'z) terminal_scheme" and ts
    using that
  proof (induction ts arbitrary: s)
    case Nil
    then show ?case by (simp add: last_lines_def)
  next
    case (Cons t ts)
    have "term_ok (sys_print t s)" "term_view (sys_print t s) = last_lines (term_view s @ [t])"
      using sys_print_view [of s t] Cons.prems by simp_all
    moreover from this have "length (term_view (sys_print t s)) \<le> 15" by (simp add: last_lines_def)
    ultimately show ?case
      using Cons.IH [of "sys_print t s"] Cons.prems(2) last_lines_append [of "term_view s @ [t]" ts] by (simp add: print_m_def)
  qed
  from this [of "clear_screen s" ts] show ?thesis using clear_screen_view [OF assms(1)] assms(2) by (simp add: Let_def)
qed

theorem terminal_shows_last_lines_witness:
  "term_view (snd (run_state (do { modify clear_screen; for_m (''FIRST'' # replicate 15 ''NEXT'') print_m }) start_terminal)) = replicate 15 ''NEXT''"
  using terminal_shows_last_lines [OF start_terminal_ok(1), of "''FIRST'' # replicate 15 ''NEXT''"]
  by (simp add: plain_line_def last_lines_def Let_def)

subsection \<open>A script never runs a command\<close>

text \<open>A line without characters, and one with a single character.\<close>

lemma line_starts_short:
  assumes "line ! 0 = CHR 0x00 \<or> line ! Suc 0 = CHR 0x00" "2 \<le> length line" "p1 \<noteq> CHR 0x00" "p2 \<noteq> CHR 0x00"
  shows "\<not> line_starts line (p1 # p2 # prefix)"
proof -
  obtain a b rest where "line = a # b # rest" using assms(2) by (metis Suc_le_length_iff numeral_2_eq_2)
  then show ?thesis using assms by auto
qed

lemma exec_short_line:
  assumes "line ! 0 = CHR 0x00 \<or> line ! Suc 0 = CHR 0x00" "2 \<le> length line"
  shows "exec_line hw line = (if line ! 0 \<noteq> CHR 0x00 \<and> line ! 0 \<noteq> CHR 0x0D then print_m ''UNKNOWN COMMAND OR BAD SYNTAX.'' else skip)"
  using line_starts_short [OF assms] by (simp add: exec_line_def)

lemma script_char_inner:
  assumes "i < length src - 1" "length line = 128"
  shows "\<exists>line'. length line' = 128 \<and> run_state (script_char hw src i (line, 0)) s = ((line', 0), s)"
proof (cases "src ! i = CHR 0x0A")
  case True
  then have "run_state (exec_line hw (line[0 := CHR 0x00])) s = ((), s)" using assms(2) by (simp add: exec_short_line)
  then show ?thesis using True assms by (simp add: script_char_def Let_def)
next
  case False
  then show ?thesis using assms by (simp add: script_char_def Let_def)
qed

text \<open>What a script does: its last character alone is taken for a command.\<close>

definition script_outcome :: "string \<Rightarrow> ('d, 'z) terminal_scheme \<Rightarrow> ('d, 'z) terminal_scheme" where
  "script_outcome src s = (if src = [] \<or> last src \<in> {CHR 0x0A, CHR 0x0D, CHR 0x00} then s
     else sys_print ''UNKNOWN COMMAND OR BAD SYNTAX.'' s)"

lemma script_char_final:
  assumes "src \<noteq> []" "length line = 128"
  shows "snd (run_state (script_char hw src (length src - 1) (line, 0)) s) = script_outcome src s"
proof -
  let ?c = "last src"
  have c: "src ! (length src - 1) = ?c" using assms(1) by (simp add: last_conv_nth)
  show ?thesis
  proof (cases "?c = CHR 0x0A \<or> ?c = CHR 0x0D")
    case True
    then have "run_state (exec_line hw (line[0 := CHR 0x00])) s = ((), s)" using assms(2) by (simp add: exec_short_line)
    then show ?thesis using True assms c by (auto simp: script_char_def script_outcome_def Let_def)
  next
    case False
    let ?l = "line[0 := ?c, Suc 0 := CHR 0x00]"
    have "run_state (exec_line hw ?l) s = ((), if ?c \<noteq> CHR 0x00 then sys_print ''UNKNOWN COMMAND OR BAD SYNTAX.'' s else s)"
      using assms(2) False by (simp add: exec_short_line print_m_def)
    then show ?thesis using False assms c by (simp add: script_char_def script_outcome_def print_m_def Let_def)
  qed
qed

lemma script_loop_outcome:
  assumes "k < length src" "length line = 128"
  shows "run_state (script_loop hw src [k..<length src] (line, 0)) s = ((), script_outcome src s)"
  using assms
proof (induction "length src - k" arbitrary: k line)
  case (Suc n)
  have up: "[k..<length src] = k # [Suc k..<length src]" using Suc.prems(1) by (simp add: upt_conv_Cons)
  show ?case
  proof (cases "k < length src - 1")
    case True
    then obtain line' where "length line' = 128" "run_state (script_char hw src k (line, 0)) s = ((line', 0), s)"
      using script_char_inner [OF True Suc.prems(2)] by blast
    then show ?thesis using Suc.hyps True up by simp
  next
    case False
    then have "k = length src - 1" "[Suc k..<length src] = []" "src \<noteq> []" using Suc.prems(1) by auto
    then show ?thesis using script_char_final [where src = src and line = line and hw = hw and s = s] Suc.prems up by (auto split: prod.splits)
  qed
qed simp

text \<open>
  Property C22. No script runs a command: the interpreter puts no character into its line except
  at the end of the file, so whatever a file contains, the disk, the directory and everything
  else stay as they are. At most the complaint about an unknown command is printed.
\<close>

theorem script_runs_no_command:
  fixes s :: "('d, 'z) terminal_scheme"
  assumes "length current_line = 128"
  shows "run_state (run_cosmos_script hw current_line src) s = ((), script_outcome src (s\<lparr>cmd_status := ''RUNNING SCRIPT...''\<rparr>))"
proof (cases "src = []")
  case False
  then show ?thesis using script_loop_outcome [where k = 0 and src = src and line = current_line and hw = hw] assms by (simp add: run_cosmos_script_def)
qed (simp add: run_cosmos_script_def script_outcome_def)

theorem script_runs_no_command_witness:
  "term_view (snd (run_state (run_cosmos_script (ref28_hw 0xFEBF1100) (replicate 128 (CHR ''?'')) ''CLS\<newline>ECHO HELLO\<newline>'') start_terminal)) = []"
  using script_runs_no_command [where current_line = "replicate 128 (CHR ''?'')" and hw = "ref28_hw 0xFEBF1100" and src = "''CLS\<newline>ECHO HELLO\<newline>''" and s = start_terminal] start_terminal_ok(2)
  by (simp add: script_outcome_def term_view_def)

end
