(* ===== verification/Pong.thy ===== *)
theory Pong
  imports CStrings
begin

text \<open>
  The rules of Pong (\<open>run_pong_engine\<close>, arcade.cpp:246): one frame of play as a function of the
  window, the mouse and the keyboard, with the sounds it makes. \<open>Arcade\<close> has the menu and the
  drawing around it.
\<close>

subsection \<open>State\<close>

text \<open>A tone that is switched on (\<open>play_freq\<close>), and one of a given duration (\<open>play_sound\<close>).\<close>

datatype sound = Freq u32 | Note u32 nat

text \<open>The globals of the game; the state is 0 in the menu, 1 in play, 2 at the end.\<close>

record pong =
  pong_state :: int
  pong_mode :: int
  pong_diff :: int
  pong_p1_y :: int
  pong_p2_y :: int
  pong_ball_x :: int
  pong_ball_y :: int
  pong_vel_x :: int
  pong_vel_y :: int
  pong_score1 :: int
  pong_score2 :: int

definition new_pong :: pong where
  "new_pong = \<lparr>pong_state = 0, pong_mode = 0, pong_diff = 1, pong_p1_y = 100, pong_p2_y = 100, pong_ball_x = 200,
     pong_ball_y = 150, pong_vel_x = 5, pong_vel_y = 3, pong_score1 = 0, pong_score2 = 0\<rparr>"

text \<open>A step that makes sounds, and the next one.\<close>

definition and_then :: "sound list \<times> 'a \<Rightarrow> ('a \<Rightarrow> sound list \<times> 'b) \<Rightarrow> sound list \<times> 'b" where
  "and_then r f = (fst r @ fst (f (snd r)), snd (f (snd r)))"

lemma and_then_snd [simp]: "snd (and_then r f) = snd (f (snd r))"
  by (simp add: and_then_def)

subsection \<open>One frame of play\<close>

text \<open>\<open>W\<close> is the width of the window and \<open>H\<close> its inner height.\<close>

definition pong_start :: "int \<Rightarrow> int \<Rightarrow> pong \<Rightarrow> pong" where
  "pong_start W H p = p\<lparr>pong_state := 1, pong_score1 := 0, pong_score2 := 0, pong_ball_x := c_div W 2,
     pong_ball_y := c_div H 2, pong_vel_x := 5, pong_vel_y := 3\<rparr>"

definition pong_move :: "int \<Rightarrow> pong \<Rightarrow> sound list \<times> pong" where
  "pong_move H p =
     (let p = p\<lparr>pong_ball_x := pong_ball_x p + pong_vel_x p, pong_ball_y := pong_ball_y p + pong_vel_y p\<rparr> in
      if pong_ball_y p \<le> 5 then ([Freq 800], p\<lparr>pong_ball_y := 5, pong_vel_y := - pong_vel_y p\<rparr>)
      else if pong_ball_y p \<ge> H - 25 then ([Freq 800], p\<lparr>pong_ball_y := H - 25, pong_vel_y := - pong_vel_y p\<rparr>)
      else ([Freq 0], p))"

definition pong_clamp :: "int \<Rightarrow> int \<Rightarrow> int" where
  "pong_clamp H y = (let y = (if y < 0 then 0 else y) in if y > H - 50 then H - 50 else y)"

definition pong_cpu :: "pong \<Rightarrow> int" where
  "pong_cpu p =
     (let speed = (if pong_diff p = 2 then 6 else if pong_diff p = 0 then 2 else 4); y = pong_p2_y p;
          y = (if pong_ball_y p > y + 20 then y + speed else y)
      in if pong_ball_y p < y + 20 then y - speed else y)"

definition pong_keys :: "u8 option \<Rightarrow> int \<Rightarrow> int" where
  "pong_keys key y = (case key of None \<Rightarrow> y
     | Some sc \<Rightarrow> if sc = 0x48 then y - 15 else if sc = 0x50 then y + 15 else y)"

definition pong_paddles :: "int \<Rightarrow> int \<Rightarrow> u8 option \<Rightarrow> pong \<Rightarrow> pong" where
  "pong_paddles H mouse key p =
     p\<lparr>pong_p1_y := pong_clamp H (mouse - 20),
       pong_p2_y := pong_clamp H (if pong_mode p = 0 then pong_cpu p else pong_keys key (pong_p2_y p))\<rparr>"

text \<open>Where the ball meets a paddle decides how its vertical speed changes.\<close>

definition pong_spin :: "int \<Rightarrow> int \<Rightarrow> int \<Rightarrow> int" where
  "pong_spin y paddle v = (if y < paddle + 12 then v - 2 else if y > paddle + 28 then v + 2 else v)"

definition pong_meets1 :: "pong \<Rightarrow> bool" where
  "pong_meets1 p \<longleftrightarrow>
     pong_ball_x p \<le> 30 \<and> pong_ball_y p + 10 \<ge> pong_p1_y p \<and> pong_ball_y p \<le> pong_p1_y p + 40 \<and> pong_vel_x p < 0"

definition pong_meets2 :: "int \<Rightarrow> pong \<Rightarrow> bool" where
  "pong_meets2 W p \<longleftrightarrow>
     pong_ball_x p \<ge> W - 40 \<and> pong_ball_y p + 10 \<ge> pong_p2_y p \<and> pong_ball_y p \<le> pong_p2_y p + 40 \<and> pong_vel_x p > 0"

definition pong_hit1 :: "pong \<Rightarrow> sound list \<times> pong" where
  "pong_hit1 p =
     (if pong_meets1 p
      then (let v = - pong_vel_x p in
        ([Note 1200 2], p\<lparr>pong_ball_x := 30, pong_vel_x := (if v < 14 then v + 1 else v),
           pong_vel_y := pong_spin (pong_ball_y p) (pong_p1_y p) (pong_vel_y p)\<rparr>))
      else ([], p))"

definition pong_hit2 :: "int \<Rightarrow> pong \<Rightarrow> sound list \<times> pong" where
  "pong_hit2 W p =
     (if pong_meets2 W p
      then (let v = - pong_vel_x p in
        ([Note 1200 2], p\<lparr>pong_ball_x := W - 40, pong_vel_x := (if v > - 14 then v - 1 else v),
           pong_vel_y := pong_spin (pong_ball_y p) (pong_p2_y p) (pong_vel_y p)\<rparr>))
      else ([], p))"

definition pong_serve :: "int \<Rightarrow> int \<Rightarrow> pong \<Rightarrow> pong" where
  "pong_serve W H p = p\<lparr>pong_ball_x := c_div W 2, pong_ball_y := c_div H 2\<rparr>"

definition pong_out1 :: "int \<Rightarrow> int \<Rightarrow> pong \<Rightarrow> sound list \<times> pong" where
  "pong_out1 W H p = (if pong_ball_x p < 0 \<or> pong_ball_x p > 2000
     then ([Note 200 20], pong_serve W H (p\<lparr>pong_score2 := pong_score2 p + 1\<rparr>)) else ([], p))"

definition pong_out2 :: "int \<Rightarrow> int \<Rightarrow> pong \<Rightarrow> sound list \<times> pong" where
  "pong_out2 W H p = (if pong_ball_x p > W
     then ([Note 200 20], pong_serve W H (p\<lparr>pong_score1 := pong_score1 p + 1\<rparr>)) else ([], p))"

definition pong_end :: "pong \<Rightarrow> pong" where
  "pong_end p = (if pong_score1 p \<ge> 10 \<or> pong_score2 p \<ge> 10 then p\<lparr>pong_state := 2\<rparr> else p)"

definition pong_frame :: "int \<Rightarrow> int \<Rightarrow> int \<Rightarrow> u8 option \<Rightarrow> pong \<Rightarrow> sound list \<times> pong" where
  "pong_frame W H mouse key p =
     and_then (and_then (and_then (and_then (pong_move H p)
       (\<lambda>p. pong_hit1 (pong_paddles H mouse key p))) (pong_hit2 W)) (pong_out1 W H))
       (\<lambda>p. (case pong_out2 W H p of (s, p) \<Rightarrow> (s, pong_end p)))"

subsection \<open>The rules hold\<close>

definition pong_speed :: "pong \<Rightarrow> bool" where
  "pong_speed p \<longleftrightarrow> 5 \<le> \<bar>pong_vel_x p\<bar> \<and> \<bar>pong_vel_x p\<bar> \<le> 14"

definition pong_rules :: "pong \<Rightarrow> bool" where
  "pong_rules p \<longleftrightarrow> pong_state p \<in> {0, 1, 2} \<and> pong_mode p \<in> {0, 1} \<and> pong_diff p \<in> {0, 1, 2} \<and> pong_speed p
     \<and> 0 \<le> pong_score1 p \<and> pong_score1 p \<le> 10 \<and> 0 \<le> pong_score2 p \<and> pong_score2 p \<le> 10"

definition pong_ok :: "pong \<Rightarrow> bool" where
  "pong_ok p \<longleftrightarrow> pong_rules p \<and> (pong_state p = 1 \<longrightarrow> pong_score1 p < 10 \<and> pong_score2 p < 10)
     \<and> (pong_state p = 2 \<longrightarrow> (pong_score1 p = 10) \<noteq> (pong_score2 p = 10))"

text \<open>In the frame in which ESC is pressed the state is already that of the menu.\<close>

definition pong_playable :: "pong \<Rightarrow> bool" where
  "pong_playable p \<longleftrightarrow> pong_rules p \<and> pong_score1 p < 10 \<and> pong_score2 p < 10 \<and> pong_state p \<noteq> 2"

definition in_field :: "int \<Rightarrow> int \<Rightarrow> pong \<Rightarrow> bool" where
  "in_field W H p \<longleftrightarrow> 0 \<le> pong_p1_y p \<and> pong_p1_y p \<le> H - 50 \<and> 0 \<le> pong_p2_y p \<and> pong_p2_y p \<le> H - 50
     \<and> 5 \<le> pong_ball_y p \<and> pong_ball_y p \<le> H - 25 \<and> 0 \<le> pong_ball_x p \<and> pong_ball_x p \<le> W"

text \<open>A frame in which the ball is hit or leaves the field.\<close>

definition pong_event :: "pong \<Rightarrow> pong \<Rightarrow> bool" where
  "pong_event p q \<longleftrightarrow> pong_vel_x q \<noteq> pong_vel_x p \<or> pong_score1 q \<noteq> pong_score1 p \<or> pong_score2 q \<noteq> pong_score2 p"

text \<open>The two halves of a frame: up to the hits, and the count.\<close>

definition moved :: "int \<Rightarrow> int \<Rightarrow> u8 option \<Rightarrow> pong \<Rightarrow> pong" where
  "moved H mouse key p = pong_paddles H mouse key (snd (pong_move H p))"

definition rally :: "int \<Rightarrow> int \<Rightarrow> int \<Rightarrow> u8 option \<Rightarrow> pong \<Rightarrow> pong" where
  "rally W H mouse key p = snd (pong_hit2 W (snd (pong_hit1 (moved H mouse key p))))"

definition count :: "int \<Rightarrow> int \<Rightarrow> pong \<Rightarrow> pong" where
  "count W H p = pong_end (snd (pong_out2 W H (snd (pong_out1 W H p))))"

lemma pong_frame_state: "snd (pong_frame W H mouse key p) = count W H (rally W H mouse key p)"
  by (simp add: pong_frame_def count_def rally_def moved_def split: prod.split)

lemma pong_clamp_range: "50 \<le> H \<Longrightarrow> 0 \<le> pong_clamp H y \<and> pong_clamp H y \<le> H - 50"
  by (simp add: pong_clamp_def)

text \<open>Moving, paddles and hits keep scores and settings.\<close>

lemma rally_keeps:
  "pong_state (rally W H mouse key p) = pong_state p" "pong_mode (rally W H mouse key p) = pong_mode p"
  "pong_diff (rally W H mouse key p) = pong_diff p" "pong_score1 (rally W H mouse key p) = pong_score1 p"
  "pong_score2 (rally W H mouse key p) = pong_score2 p"
  by (simp_all add: rally_def moved_def pong_hit1_def pong_hit2_def pong_paddles_def pong_move_def Let_def)

lemma moved_x:
  "pong_vel_x (moved H mouse key p) = pong_vel_x p" "pong_ball_x (moved H mouse key p) = pong_ball_x p + pong_vel_x p"
  by (simp_all add: moved_def pong_paddles_def pong_move_def Let_def)

lemma hits_keep_y:
  "pong_ball_y (snd (pong_hit1 p)) = pong_ball_y p" "pong_ball_y (snd (pong_hit2 W p)) = pong_ball_y p"
  "pong_p1_y (snd (pong_hit1 p)) = pong_p1_y p" "pong_p1_y (snd (pong_hit2 W p)) = pong_p1_y p"
  "pong_p2_y (snd (pong_hit1 p)) = pong_p2_y p" "pong_p2_y (snd (pong_hit2 W p)) = pong_p2_y p"
  by (simp_all add: pong_hit1_def pong_hit2_def Let_def)

lemma rally_ys:
  assumes "50 \<le> H"
  shows "5 \<le> pong_ball_y (rally W H mouse key p) \<and> pong_ball_y (rally W H mouse key p) \<le> H - 25"
    "0 \<le> pong_p1_y (rally W H mouse key p) \<and> pong_p1_y (rally W H mouse key p) \<le> H - 50"
    "0 \<le> pong_p2_y (rally W H mouse key p) \<and> pong_p2_y (rally W H mouse key p) \<le> H - 50"
  using assms pong_clamp_range [OF assms]
  by (simp_all add: rally_def hits_keep_y moved_def pong_paddles_def pong_move_def Let_def)

lemma hits_speed: "pong_speed p \<Longrightarrow> pong_speed (snd (pong_hit1 p))" "pong_speed p \<Longrightarrow> pong_speed (snd (pong_hit2 W p))"
  unfolding pong_speed_def pong_hit1_def pong_hit2_def pong_meets1_def pong_meets2_def Let_def by (simp_all, linarith+)

lemma rally_speed: "pong_speed p \<Longrightarrow> pong_speed (rally W H mouse key p)"
  unfolding rally_def by (intro hits_speed) (simp add: pong_speed_def moved_x)

lemma half_range: "0 \<le> W \<Longrightarrow> 0 \<le> c_div W 2 \<and> c_div W 2 \<le> W"
  by (cases "W = 0") (simp_all add: c_div_def)

lemma serve_height: "50 \<le> H \<Longrightarrow> 5 \<le> c_div H 2 \<and> c_div H 2 \<le> H - 25"
  by (simp add: c_div_def) presburger

text \<open>The count: nothing happens, or the ball comes back and one player has a point more.\<close>

lemma count_cases:
  assumes "0 \<le> W"
  obtains "0 \<le> pong_ball_x p" "pong_ball_x p \<le> W" "count W H p = pong_end p"
  | "count W H p = pong_end (pong_serve W H (p\<lparr>pong_score2 := pong_score2 p + 1\<rparr>))"
  | "count W H p = pong_end (pong_serve W H (p\<lparr>pong_score1 := pong_score1 p + 1\<rparr>))"
  using that half_range [OF assms] unfolding count_def pong_out1_def pong_out2_def
  by (cases "pong_ball_x p < 0 \<or> pong_ball_x p > 2000"; cases "pong_ball_x p > W") (simp_all add: pong_serve_def)

lemma pong_frame_field:
  assumes "50 \<le> H" "0 \<le> W"
  shows "in_field W H (snd (pong_frame W H mouse key p))"
  unfolding pong_frame_state
  by (rule count_cases [OF assms(2), of "rally W H mouse key p" H])
    (use rally_ys [OF assms(1)] half_range [OF assms(2)] serve_height [OF assms(1)] in
      \<open>simp_all add: in_field_def pong_end_def pong_serve_def\<close>)

lemma pong_end_ok:
  assumes "pong_rules p" "pong_state p \<noteq> 2" "pong_score1 p < 10 \<or> pong_score2 p < 10"
  shows "pong_ok (pong_end p)"
  using assms unfolding pong_ok_def pong_end_def pong_rules_def by (simp add: pong_speed_def) linarith

lemma pong_point_rules:
  assumes "pong_playable p"
  shows "pong_rules (pong_serve W H (p\<lparr>pong_score1 := pong_score1 p + 1\<rparr>))"
    "pong_rules (pong_serve W H (p\<lparr>pong_score2 := pong_score2 p + 1\<rparr>))"
  using assms by (auto simp: pong_playable_def pong_rules_def pong_speed_def pong_serve_def)

lemma count_scores:
  "pong_state (pong_serve W H q) = pong_state q" "pong_score1 (pong_serve W H q) = pong_score1 q"
  "pong_score2 (pong_serve W H q) = pong_score2 q" "pong_score1 (pong_end q) = pong_score1 q" "pong_score2 (pong_end q) = pong_score2 q"
  by (simp_all add: pong_serve_def pong_end_def)

lemma pong_frame_ok:
  assumes "pong_playable p" "0 \<le> W"
  shows "pong_ok (snd (pong_frame W H mouse key p))"
proof -
  let ?r = "rally W H mouse key p"
  have r: "pong_playable ?r"
    using assms(1) rally_speed [of p] by (auto simp: pong_playable_def pong_rules_def rally_keeps)
  then have "pong_score1 ?r < 10" "pong_score2 ?r < 10" "pong_state ?r \<noteq> 2" "pong_rules ?r"
    by (simp_all add: pong_playable_def)
  then show ?thesis unfolding pong_frame_state
    using pong_point_rules [OF r, of W H] by (cases rule: count_cases [OF assms(2), of ?r H]) (simp_all add: pong_end_ok count_scores)
qed

text \<open>Without a hit or a score the ball moves on by its speed, which is never 0.\<close>

lemma hit_turns:
  "pong_meets1 q \<Longrightarrow> pong_vel_x q < 0 \<and> pong_ball_x (snd (pong_hit1 q)) = 30 \<and> 0 < pong_vel_x (snd (pong_hit1 q))"
  "\<not> pong_meets1 q \<Longrightarrow> snd (pong_hit1 q) = q"
  "pong_meets2 W q \<Longrightarrow> 0 < pong_vel_x q \<and> pong_vel_x (snd (pong_hit2 W q)) < 0"
  "\<not> pong_meets2 W q \<Longrightarrow> snd (pong_hit2 W q) = q"
proof -
  show "\<not> pong_meets1 q \<Longrightarrow> snd (pong_hit1 q) = q" "\<not> pong_meets2 W q \<Longrightarrow> snd (pong_hit2 W q) = q"
    by (simp_all add: pong_hit1_def pong_hit2_def)
qed (simp_all add: pong_hit1_def pong_hit2_def pong_meets1_def pong_meets2_def Let_def)

lemma hits_same:
  assumes "100 \<le> W" "pong_vel_x (snd (pong_hit2 W (snd (pong_hit1 q)))) = pong_vel_x q"
  shows "snd (pong_hit2 W (snd (pong_hit1 q))) = q"
proof (cases "pong_meets1 q")
  case True
  then have "pong_vel_x q < 0" "\<not> pong_meets2 W (snd (pong_hit1 q))" "0 < pong_vel_x (snd (pong_hit1 q))"
    using hit_turns(1) [of q] assms(1) by (auto simp: pong_meets2_def)
  then show ?thesis using assms(2) by (simp add: hit_turns(4))
next
  case False
  then show ?thesis using assms(2) hit_turns(3) [of W q] by (cases "pong_meets2 W q") (simp_all add: hit_turns(2,4))
qed

lemma quiet_frame:
  assumes "100 \<le> W" "\<not> pong_event p (snd (pong_frame W H mouse key p))"
  shows "pong_ball_x (snd (pong_frame W H mouse key p)) = pong_ball_x p + pong_vel_x p"
proof -
  let ?r = "rally W H mouse key p" and ?q = "snd (pong_frame W H mouse key p)"
  have w: "0 \<le> W" using assms(1) by simp
  have "pong_vel_x ?r = pong_vel_x ?q"
    unfolding pong_frame_state by (simp add: count_def pong_end_def pong_out1_def pong_out2_def pong_serve_def)
  then have "?r = moved H mouse key p"
    using assms hits_same [of W "moved H mouse key p"] by (simp add: rally_def pong_event_def moved_x)
  moreover have "pong_score1 (count W H ?r) = pong_score1 ?r" "pong_score2 (count W H ?r) = pong_score2 ?r"
    using assms(2) by (simp_all add: pong_event_def pong_frame_state rally_keeps)
  then have "count W H ?r = pong_end ?r"
    by (cases rule: count_cases [OF w, of ?r H]) (simp_all add: count_scores)
  ultimately show ?thesis by (simp add: pong_frame_state pong_end_def moved_x)
qed

subsection \<open>Every rally ends\<close>

text \<open>The games after 0, 1, 2, ... frames, with the mouse and the keyboard of each frame.\<close>

fun pong_games :: "int \<Rightarrow> int \<Rightarrow> (int \<times> u8 option) list \<Rightarrow> pong \<Rightarrow> pong list" where
  "pong_games W H [] p = [p]"
| "pong_games W H (i # is) p = p # pong_games W H is (snd (pong_frame W H (fst i) (snd i) p))"

lemma quiet_games:
  assumes "100 \<le> W" "50 \<le> H" "0 \<le> pong_ball_x p" "pong_ball_x p \<le> W"
    "\<forall>i < length is. \<not> pong_event (pong_games W H is p ! i) (pong_games W H is p ! Suc i)"
  shows "0 \<le> pong_ball_x p + int (length is) * pong_vel_x p \<and> pong_ball_x p + int (length is) * pong_vel_x p \<le> W"
  using assms(3-5)
proof (induction "is" arbitrary: p)
  case (Cons i "is")
  let ?q = "snd (pong_frame W H (fst i) (snd i) p)"
  have first: "pong_games W H is q ! 0 = q" for q by (cases "is") simp_all
  have q: "\<not> pong_event p ?q" using Cons.prems(3) first by force
  then have x: "pong_ball_x ?q = pong_ball_x p + pong_vel_x p" using assms(1) by (rule quiet_frame [rotated])
  have v: "pong_vel_x ?q = pong_vel_x p" using q by (simp add: pong_event_def)
  have "in_field W H ?q" using assms(1,2) by (intro pong_frame_field) simp_all
  moreover have "\<forall>j < length is. \<not> pong_event (pong_games W H is ?q ! j) (pong_games W H is ?q ! Suc j)"
    using Cons.prems(3) by fastforce
  ultimately show ?case using Cons.IH [of ?q] x v by (simp add: in_field_def algebra_simps)
qed simp

text \<open>
  Property C20. Every rally ends: however the players move, in any run of more frames than a fifth
  of the width of the field there is a frame in which a paddle hits the ball or a point is made.
\<close>

theorem pong_rally_ends:
  assumes "100 \<le> W" "50 \<le> H" "pong_ok p" "in_field W H p" "W div 5 < int (length is)"
  shows "\<exists>i < length is. pong_event (pong_games W H is p ! i) (pong_games W H is p ! Suc i)"
proof (rule ccontr)
  assume "\<not> ?thesis"
  then have r: "0 \<le> pong_ball_x p + int (length is) * pong_vel_x p \<and> pong_ball_x p + int (length is) * pong_vel_x p \<le> W"
    using assms by (intro quiet_games [of W H]) (auto simp: in_field_def)
  have x: "0 \<le> pong_ball_x p" "pong_ball_x p \<le> W" using assms(4) by (simp_all add: in_field_def)
  have "W < 5 * int (length is)" using assms(5) by linarith
  moreover have "pong_vel_x p \<le> - 5 \<or> 5 \<le> pong_vel_x p" using assms(3) by (simp add: pong_ok_def pong_rules_def pong_speed_def) linarith
  then have "5 * int (length is) \<le> int (length is) * pong_vel_x p \<or> int (length is) * pong_vel_x p \<le> - 5 * int (length is)"
    using mult_left_mono [of 5 "pong_vel_x p" "int (length is)"] mult_left_mono [of "pong_vel_x p" "- 5" "int (length is)"]
    by (auto simp: algebra_simps)
  ultimately show False using r x by linarith
qed

theorem pong_rally_ends_witness:
  "\<exists>i < 100. pong_event (pong_games 450 260 (replicate 100 (0, None)) (pong_start 450 260 new_pong) ! i)
     (pong_games 450 260 (replicate 100 (0, None)) (pong_start 450 260 new_pong) ! Suc i)"
  using pong_rally_ends [of 450 260 "pong_start 450 260 new_pong" "replicate 100 (0, None)"]
  by (simp add: pong_start_def new_pong_def pong_ok_def pong_rules_def pong_speed_def in_field_def c_div_def)

end
