(* ===== verification/Blobby.thy ===== *)
theory Blobby
  imports Pong
begin

text \<open>
  The rules of Blobby Volley (\<open>run_blobby_engine\<close>, arcade.cpp:356): one frame of play, with the
  computer player, gravity, walls, net, hits and points. \<open>Arcade\<close> has the menu and the drawing.
\<close>

subsection \<open>State\<close>

record blobby =
  bv_state :: int
  bv_mode :: int
  bv_diff :: int
  bv_p1_x :: int
  bv_p1_y :: int
  bv_p1_vy :: int
  bv_p2_x :: int
  bv_p2_y :: int
  bv_p2_vy :: int
  bv_ball_x :: int
  bv_ball_y :: int
  bv_ball_vx :: int
  bv_ball_vy :: int
  bv_score1 :: int
  bv_score2 :: int
  bv_touches :: int
  bv_last_touch :: int

definition new_blobby :: blobby where
  "new_blobby = \<lparr>bv_state = 0, bv_mode = 0, bv_diff = 1, bv_p1_x = 50, bv_p1_y = 200, bv_p1_vy = 0, bv_p2_x = 350,
     bv_p2_y = 200, bv_p2_vy = 0, bv_ball_x = 100, bv_ball_y = 50, bv_ball_vx = 0, bv_ball_vy = 0, bv_score1 = 0,
     bv_score2 = 0, bv_touches = 0, bv_last_touch = 0\<rparr>"

subsection \<open>One frame of play\<close>

text \<open>The ball comes back above the middle of one half.\<close>

definition bv_serve :: "int \<Rightarrow> blobby \<Rightarrow> blobby" where
  "bv_serve x b = b\<lparr>bv_ball_x := x, bv_ball_y := 30, bv_ball_vx := 0, bv_ball_vy := 0, bv_touches := 0, bv_last_touch := 0\<rparr>"

definition bv_start :: "int \<Rightarrow> blobby \<Rightarrow> blobby" where
  "bv_start W b = bv_serve (c_div W 4) (b\<lparr>bv_state := 1, bv_score1 := 0, bv_score2 := 0\<rparr>)"

definition bv_fall :: "blobby \<Rightarrow> blobby" where
  "bv_fall b = (let vy = bv_ball_vy b + 1; vy = (if vy > 12 then 12 else vy) in
     b\<lparr>bv_ball_vy := vy, bv_ball_x := bv_ball_x b + bv_ball_vx b, bv_ball_y := bv_ball_y b + vy\<rparr>)"

text \<open>A player's height \<open>y\<close> and speed \<open>v\<close>: gravity, and the floor \<open>F\<close> under the feet.\<close>

definition bv_gravity :: "int \<Rightarrow> int \<times> int \<Rightarrow> int \<times> int" where
  "bv_gravity F = (\<lambda>(y, v). let v = v + 1; y = y + v in if y > F - 30 then (F - 30, 0) else (y, v))"

definition bv_player1 :: "int \<Rightarrow> int \<Rightarrow> int \<Rightarrow> bool \<Rightarrow> blobby \<Rightarrow> blobby" where
  "bv_player1 W F mouse click b =
     (let x = mouse - 20; x = (if x < 10 then 10 else x); x = (if x > c_div W 2 - 45 then c_div W 2 - 45 else x);
          v = (if click \<and> bv_p1_y b \<ge> F - 30 then - 14 else bv_p1_vy b);
          (y, v) = bv_gravity F (bv_p1_y b, v)
      in b\<lparr>bv_p1_x := x, bv_p1_y := y, bv_p1_vy := v\<rparr>)"

definition bv_target :: "int \<Rightarrow> int \<Rightarrow> blobby \<Rightarrow> int" where
  "bv_target W F b =
     (let t = (if bv_ball_x b > c_div W 2 then
                 (if bv_ball_vx b > 0 \<and> bv_ball_x b > bv_p2_x b then bv_ball_x b + 40
                  else (let dist_y = F - 30 - bv_ball_y b;
                            t = (if dist_y > 0 then bv_ball_x b + bv_ball_vx b * c_div dist_y 8 + (if bv_diff b = 2 then 20 else 15)
                                 else bv_ball_x b + 15)
                        in if t < bv_p2_x b - 20 then t - 20 else t))
               else c_div (W * 3) 4);
          t = (if t > W - 40 then W - 40 else t)
      in if t < c_div W 2 + 10 then c_div W 2 + 10 else t)"

definition bv_cpu_x :: "int \<Rightarrow> int \<Rightarrow> blobby \<Rightarrow> int" where
  "bv_cpu_x W F b =
     (let speed = (if bv_diff b = 2 then 9 else if bv_diff b = 1 then 6 else 4); t = bv_target W F b; x = bv_p2_x b;
          move_back = (if bv_diff b = 2 \<and> bv_ball_x b > x then 25 else speed);
          move_fwd = (if bv_diff b = 2 \<and> t < x - 20 then 20 else speed)
      in if x + 20 < t - 15 then x + move_back else if x + 20 > t + 15 then x - move_fwd else t - 20)"

definition bv_cpu_jumps :: "int \<Rightarrow> u32 \<Rightarrow> blobby \<Rightarrow> bool" where
  "bv_cpu_jumps F fr b \<longleftrightarrow> bv_ball_x b > bv_p2_x b - 20 \<and> bv_ball_x b < bv_p2_x b + 60
     \<and> bv_ball_y b > F - 120 \<and> bv_ball_y b < F - 40 \<and> bv_p2_y b \<ge> F - 30 \<and> bv_ball_vy b > 0
     \<and> (bv_diff b \<ge> 1 \<or> fr mod 2 = 0)"

definition bv_cpu :: "int \<Rightarrow> int \<Rightarrow> u32 \<Rightarrow> blobby \<Rightarrow> blobby" where
  "bv_cpu W F fr b = (let b = b\<lparr>bv_p2_x := bv_cpu_x W F b\<rparr> in if bv_cpu_jumps F fr b then b\<lparr>bv_p2_vy := - 14\<rparr> else b)"

definition bv_keys :: "int \<Rightarrow> u8 option \<Rightarrow> blobby \<Rightarrow> blobby" where
  "bv_keys F key b = (case key of None \<Rightarrow> b
     | Some sc \<Rightarrow> if sc = 0x4B then b\<lparr>bv_p2_x := bv_p2_x b - 15\<rparr> else if sc = 0x4D then b\<lparr>bv_p2_x := bv_p2_x b + 15\<rparr>
         else if sc = 0x48 \<and> bv_p2_y b \<ge> F - 30 then b\<lparr>bv_p2_vy := - 14\<rparr> else b)"

definition bv_decide :: "int \<Rightarrow> int \<Rightarrow> u32 \<Rightarrow> u8 option \<Rightarrow> blobby \<Rightarrow> blobby" where
  "bv_decide W F fr key b = (if bv_mode b = 0 then bv_cpu W F fr b else bv_keys F key b)"

definition bv_player2 :: "int \<Rightarrow> int \<Rightarrow> u32 \<Rightarrow> u8 option \<Rightarrow> blobby \<Rightarrow> blobby" where
  "bv_player2 W F fr key b =
     (let b = bv_decide W F fr key b; x = bv_p2_x b;
          x = (if x < c_div W 2 + 5 then c_div W 2 + 5 else x); x = (if x > W - 50 then W - 50 else x);
          (y, v) = bv_gravity F (bv_p2_y b, bv_p2_vy b)
      in b\<lparr>bv_p2_x := x, bv_p2_y := y, bv_p2_vy := v\<rparr>)"

definition bv_walls :: "int \<Rightarrow> blobby \<Rightarrow> sound list \<times> blobby" where
  "bv_walls W b =
     (let (s1, b) = (if bv_ball_x b < 15 then ([Freq 800], b\<lparr>bv_ball_x := 15, bv_ball_vx := - bv_ball_vx b\<rparr>) else ([], b));
          (s2, b) = (if bv_ball_x b > W - 15 then ([Freq 800], b\<lparr>bv_ball_x := W - 15, bv_ball_vx := - bv_ball_vx b\<rparr>) else ([], b))
      in (s1 @ s2, if bv_ball_y b < 15 then b\<lparr>bv_ball_y := 15, bv_ball_vy := 2\<rparr> else b))"

definition bv_net :: "int \<Rightarrow> int \<Rightarrow> blobby \<Rightarrow> sound list \<times> blobby" where
  "bv_net W F b =
     (if bv_ball_x b > c_div W 2 - 10 \<and> bv_ball_x b < c_div W 2 + 10 \<and> bv_ball_y b > F - 70
      then ([Freq 600], if bv_ball_y b < F - 65 \<and> bv_ball_vy b > 0 then b\<lparr>bv_ball_vy := - 8\<rparr>
        else b\<lparr>bv_ball_vx := - bv_ball_vx b, bv_ball_x := bv_ball_x b + - bv_ball_vx b * 2\<rparr>)
      else ([], b))"

definition bv_meets :: "int \<Rightarrow> int \<Rightarrow> blobby \<Rightarrow> bool" where
  "bv_meets x y b \<longleftrightarrow> bv_ball_y b + 10 > y \<and> bv_ball_y b - 10 < y + 30 \<and> bv_ball_x b > x - 10 \<and> bv_ball_x b < x + 50"

definition bv_touch :: "int \<Rightarrow> blobby \<Rightarrow> blobby" where
  "bv_touch who b = b\<lparr>bv_last_touch := who, bv_touches := (if bv_last_touch b \<noteq> who then 0 else bv_touches b) + 1\<rparr>"

definition bv_hit1 :: "int \<Rightarrow> blobby \<Rightarrow> sound list \<times> blobby" where
  "bv_hit1 W b =
     (if bv_meets (bv_p1_x b) (bv_p1_y b) b then
        (let b = bv_touch 1 (b\<lparr>bv_ball_vy := - 14, bv_ball_vx := c_div (bv_ball_x b - (bv_p1_x b + 20)) 3\<rparr>) in
         if bv_touches b > 3 then ([Note 200 20], bv_serve (c_div (W * 3) 4) (b\<lparr>bv_score2 := bv_score2 b + 1\<rparr>))
         else ([Note 1200 2], b))
      else ([], b))"

definition bv_return :: "int \<Rightarrow> int \<Rightarrow> int" where
  "bv_return d v = (if v \<ge> - 2 \<and> v \<le> 2 then
     (if d = 2 then - 10 else if d = 1 then - 7 else if d = 0 then - 4 else v) else v)"

definition bv_hit2 :: "int \<Rightarrow> blobby \<Rightarrow> sound list \<times> blobby" where
  "bv_hit2 W b =
     (if bv_meets (bv_p2_x b) (bv_p2_y b) b then
        (let b = bv_touch 2 (b\<lparr>bv_ball_vy := - 14,
               bv_ball_vx := bv_return (bv_diff b) (c_div (bv_ball_x b - (bv_p2_x b + 20)) 3)\<rparr>) in
         if bv_touches b > 3 then ([Note 200 20], bv_serve (c_div W 4) (b\<lparr>bv_score1 := bv_score1 b + 1\<rparr>))
         else ([Note 1200 2], b))
      else ([], b))"

definition bv_hits :: "int \<Rightarrow> blobby \<Rightarrow> sound list \<times> blobby" where
  "bv_hits W b = (if bv_ball_vy b > 0 then and_then (bv_hit1 W b) (bv_hit2 W) else ([], b))"

definition bv_point :: "int \<Rightarrow> int \<Rightarrow> blobby \<Rightarrow> sound list \<times> blobby" where
  "bv_point W F b =
     (if bv_ball_y b > F then ([Note 200 20],
        if bv_ball_x b < c_div W 2 then bv_serve (c_div W 4) (b\<lparr>bv_score2 := bv_score2 b + 1\<rparr>)
        else bv_serve (c_div (W * 3) 4) (b\<lparr>bv_score1 := bv_score1 b + 1\<rparr>))
      else ([], b))"

definition bv_end :: "blobby \<Rightarrow> sound list \<times> blobby" where
  "bv_end b = (if bv_score1 b \<ge> 10 \<or> bv_score2 b \<ge> 10 then ([], b\<lparr>bv_state := 2\<rparr>) else ([Freq 0], b))"

definition bv_frame :: "int \<Rightarrow> int \<Rightarrow> int \<Rightarrow> bool \<Rightarrow> u8 option \<Rightarrow> u32 \<Rightarrow> blobby \<Rightarrow> sound list \<times> blobby" where
  "bv_frame W F mouse click key fr b =
     and_then (and_then (and_then (and_then (bv_walls W (bv_player2 W F fr key (bv_player1 W F mouse click (bv_fall b))))
       (bv_net W F)) (bv_hits W)) (bv_point W F)) bv_end"

subsection \<open>The rules hold\<close>

text \<open>
  A player above the floor is on the curve of a jump: after a jump to the speed -14 the height can
  be at most \<open>(14 + v) * (13 - v) / 2\<close>, which is never more than 91.
\<close>

definition jumping :: "int \<Rightarrow> int \<times> int \<Rightarrow> bool" where
  "jumping F = (\<lambda>(y, v). y \<le> F - 30 \<and> - 14 \<le> v \<and> v \<le> 13 \<and> 2 * (F - 30 - y) \<le> (14 + v) * (13 - v))"

definition bv_body :: "blobby \<Rightarrow> bool" where
  "bv_body b \<longleftrightarrow> bv_state b \<in> {0, 1, 2} \<and> bv_mode b \<in> {0, 1} \<and> bv_diff b \<in> {0, 1, 2} \<and> \<bar>bv_ball_vx b\<bar> \<le> 10
     \<and> 0 \<le> bv_touches b \<and> bv_touches b \<le> 3 \<and> bv_last_touch b \<in> {0, 1, 2}"

definition bv_rules :: "blobby \<Rightarrow> bool" where
  "bv_rules b \<longleftrightarrow> bv_body b \<and> 0 \<le> bv_score1 b \<and> bv_score1 b \<le> 10 \<and> 0 \<le> bv_score2 b \<and> bv_score2 b \<le> 10"

definition bv_ok :: "blobby \<Rightarrow> bool" where
  "bv_ok b \<longleftrightarrow> bv_rules b \<and> (bv_state b = 1 \<longrightarrow> bv_score1 b < 10 \<and> bv_score2 b < 10)
     \<and> (bv_state b = 2 \<longrightarrow> (bv_score1 b = 10) \<noteq> (bv_score2 b = 10))"

definition bv_playable :: "blobby \<Rightarrow> bool" where
  "bv_playable b \<longleftrightarrow> bv_rules b \<and> bv_score1 b < 10 \<and> bv_score2 b < 10 \<and> bv_state b \<noteq> 2"

definition on_court :: "int \<Rightarrow> int \<Rightarrow> blobby \<Rightarrow> bool" where
  "on_court W F b \<longleftrightarrow> 15 \<le> bv_ball_x b \<and> bv_ball_x b \<le> W - 15 \<and> 15 \<le> bv_ball_y b \<and> bv_ball_y b \<le> F
     \<and> 10 \<le> bv_p1_x b \<and> bv_p1_x b \<le> c_div W 2 - 45 \<and> c_div W 2 + 5 \<le> bv_p2_x b \<and> bv_p2_x b \<le> W - 50
     \<and> bv_p1_y b \<le> F - 30 \<and> bv_p2_y b \<le> F - 30"

lemma gravity_floor: "fst (bv_gravity F yv) \<le> F - 30"
  by (simp add: bv_gravity_def Let_def split: prod.split)

lemma gravity_jumping:
  assumes "jumping F (y, v)"
  shows "jumping F (bv_gravity F (y, v))"
proof (cases "y + (v + 1) > F - 30")
  case False
  have v: "v \<le> 12"
  proof (rule ccontr)
    assume "\<not> v \<le> 12"
    then have "v = 13" using assms by (simp add: jumping_def)
    then show False using assms False by (simp add: jumping_def)
  qed
  have "2 * (F - 30 - (y + (v + 1))) \<le> (14 + v) * (13 - v) - 2 * (v + 1)" using assms by (simp add: jumping_def)
  also have "\<dots> = (14 + (v + 1)) * (13 - (v + 1))" by algebra
  finally show ?thesis using assms False v by (simp add: jumping_def bv_gravity_def Let_def)
qed (simp add: bv_gravity_def jumping_def)

lemma jump_start: "y \<le> F - 30 \<Longrightarrow> F - 30 \<le> y \<Longrightarrow> jumping F (y, - 14)"
  by (simp add: jumping_def)

lemma jumping_height: "jumping F (y, v) \<Longrightarrow> F - 30 - y \<le> 91"
proof -
  assume j: "jumping F (y, v)"
  have "(14 + v) * (13 - v) = 182 - v * (v + 1)" by algebra
  moreover have "0 \<le> v * (v + 1)" by (cases "0 \<le> v") (simp_all add: mult_nonpos_nonpos)
  ultimately show ?thesis using j by (simp add: jumping_def)
qed

subsection \<open>What each phase keeps\<close>

definition bv_core :: "blobby \<Rightarrow> (int \<times> int \<times> int) \<times> int \<times> int \<times> int \<times> int \<times> int" where
  "bv_core b = ((bv_state b, bv_mode b, bv_diff b), bv_ball_vx b, bv_touches b, bv_last_touch b, bv_score1 b, bv_score2 b)"

definition ball_in :: "int \<Rightarrow> blobby \<Rightarrow> bool" where
  "ball_in W b \<longleftrightarrow> 15 \<le> bv_ball_x b \<and> bv_ball_x b \<le> W - 15 \<and> 15 \<le> bv_ball_y b"

definition players_in :: "int \<Rightarrow> int \<Rightarrow> blobby \<Rightarrow> bool" where
  "players_in W F b \<longleftrightarrow> 10 \<le> bv_p1_x b \<and> bv_p1_x b \<le> c_div W 2 - 45 \<and> c_div W 2 + 5 \<le> bv_p2_x b \<and> bv_p2_x b \<le> W - 50
     \<and> bv_p1_y b \<le> F - 30 \<and> bv_p2_y b \<le> F - 30"

text \<open>Everything up to the players' moves, and everything after it.\<close>

definition bv_moves :: "int \<Rightarrow> int \<Rightarrow> int \<Rightarrow> bool \<Rightarrow> u8 option \<Rightarrow> u32 \<Rightarrow> blobby \<Rightarrow> blobby" where
  "bv_moves W F mouse click key fr b = bv_player2 W F fr key (bv_player1 W F mouse click (bv_fall b))"

definition bv_bounce :: "int \<Rightarrow> int \<Rightarrow> blobby \<Rightarrow> blobby" where
  "bv_bounce W F b = snd (bv_net W F (snd (bv_walls W b)))"

lemma bv_frame_state:
  "snd (bv_frame W F mouse click key fr b)
     = snd (bv_end (snd (bv_point W F (snd (bv_hits W (bv_bounce W F (bv_moves W F mouse click key fr b)))))))"
  by (simp add: bv_frame_def bv_moves_def bv_bounce_def)

lemma bv_decide_core:
  "bv_core (bv_decide W F fr key b) = bv_core b" "bv_p1_x (bv_decide W F fr key b) = bv_p1_x b"
  "bv_p1_y (bv_decide W F fr key b) = bv_p1_y b"
  by (simp_all add: bv_decide_def bv_cpu_def bv_keys_def bv_core_def Let_def split: option.split)

lemma bv_moves_core: "bv_core (bv_moves W F mouse click key fr b) = bv_core b"
proof -
  have "bv_core (bv_fall b) = bv_core b" for b by (simp add: bv_fall_def bv_core_def Let_def)
  moreover have "bv_core (bv_player1 W F mouse click b) = bv_core b" for b
    by (simp add: bv_player1_def bv_core_def Let_def split: prod.split)
  moreover have "bv_core (b\<lparr>bv_p2_x := x, bv_p2_y := y, bv_p2_vy := v\<rparr>) = bv_core b"
    "bv_core (b\<lparr>bv_p2_y := y, bv_p2_vy := v\<rparr>) = bv_core b" for b x y v by (simp_all add: bv_core_def)
  then have "bv_core (bv_player2 W F fr key b) = bv_core b" for b
    by (simp add: bv_player2_def bv_decide_core Let_def split: prod.split)
  ultimately show ?thesis by (simp add: bv_moves_def)
qed

lemma bv_core_fields:
  assumes "bv_core b = bv_core c"
  shows "bv_body b = bv_body c" "bv_score1 b = bv_score1 c" "bv_score2 b = bv_score2 c" "bv_state b = bv_state c"
  using assms by (simp_all add: bv_core_def bv_body_def)

lemma bv_moves_players:
  assumes "110 \<le> W"
  shows "players_in W F (bv_moves W F mouse click key fr b)"
proof -
  have w: "10 \<le> c_div W 2 - 45" "c_div W 2 + 5 \<le> W - 50" using assms by (simp_all add: c_div_def)
  have one: "10 \<le> bv_p1_x (bv_player1 W F mouse click b) \<and> bv_p1_x (bv_player1 W F mouse click b) \<le> c_div W 2 - 45
      \<and> bv_p1_y (bv_player1 W F mouse click b) \<le> F - 30" for b
  proof -
    obtain y v where g: "bv_gravity F (bv_p1_y b, if click \<and> F - 30 \<le> bv_p1_y b then - 14 else bv_p1_vy b) = (y, v)" by fastforce
    then have "y \<le> F - 30" using gravity_floor [of F "(bv_p1_y b, if click \<and> F - 30 \<le> bv_p1_y b then - 14 else bv_p1_vy b)"] by simp
    then show ?thesis using g w by (simp add: bv_player1_def Let_def)
  qed
  have keep: "bv_p1_x (bv_player2 W F fr key b) = bv_p1_x b \<and> bv_p1_y (bv_player2 W F fr key b) = bv_p1_y b" for b
    by (simp add: bv_player2_def bv_decide_core Let_def split: prod.split)
  have two: "c_div W 2 + 5 \<le> bv_p2_x (bv_player2 W F fr key b) \<and> bv_p2_x (bv_player2 W F fr key b) \<le> W - 50
      \<and> bv_p2_y (bv_player2 W F fr key b) \<le> F - 30" for b
  proof -
    let ?b = "bv_decide W F fr key b"
    obtain y v where g: "bv_gravity F (bv_p2_y ?b, bv_p2_vy ?b) = (y, v)" by fastforce
    then have "y \<le> F - 30" using gravity_floor [of F "(bv_p2_y ?b, bv_p2_vy ?b)"] by simp
    then show ?thesis using g w unfolding bv_player2_def Let_def by simp
  qed
  show ?thesis using one keep two by (simp add: players_in_def bv_moves_def)
qed

lemma bv_bounce_players: "players_in W F (bv_bounce W F b) = players_in W F b"
  by (simp add: bv_bounce_def bv_net_def bv_walls_def players_in_def Let_def)

lemma bv_bounce_body:
  "bv_body (bv_bounce W F b) = bv_body b" "bv_score1 (bv_bounce W F b) = bv_score1 b"
  "bv_score2 (bv_bounce W F b) = bv_score2 b" "bv_state (bv_bounce W F b) = bv_state b"
proof -
  have "bv_body (snd (bv_walls W b)) = bv_body b \<and> bv_score1 (snd (bv_walls W b)) = bv_score1 b
      \<and> bv_score2 (snd (bv_walls W b)) = bv_score2 b \<and> bv_state (snd (bv_walls W b)) = bv_state b" for b
    by (simp add: bv_walls_def bv_body_def Let_def)
  moreover have "bv_body (snd (bv_net W F b)) = bv_body b \<and> bv_score1 (snd (bv_net W F b)) = bv_score1 b
      \<and> bv_score2 (snd (bv_net W F b)) = bv_score2 b \<and> bv_state (snd (bv_net W F b)) = bv_state b" for b
    by (simp add: bv_net_def bv_body_def)
  ultimately show "bv_body (bv_bounce W F b) = bv_body b" "bv_score1 (bv_bounce W F b) = bv_score1 b"
    "bv_score2 (bv_bounce W F b) = bv_score2 b" "bv_state (bv_bounce W F b) = bv_state b"
    by (simp_all add: bv_bounce_def)
qed

lemma walls_in:
  assumes "110 \<le> W"
  shows "ball_in W (snd (bv_walls W b))"
  using assms by (simp add: bv_walls_def ball_in_def Let_def)

lemma bv_bounce_in:
  assumes "110 \<le> W" "bv_body b"
  shows "ball_in W (bv_bounce W F b)"
proof -
  let ?b = "snd (bv_walls W b)"
  have "\<bar>bv_ball_vx ?b\<bar> \<le> 10" using assms(2) by (simp add: bv_walls_def bv_body_def Let_def)
  then have "15 \<le> bv_ball_x ?b - bv_ball_vx ?b * 2 \<and> bv_ball_x ?b - bv_ball_vx ?b * 2 \<le> W - 15"
    if "c_div W 2 - 10 < bv_ball_x ?b" "bv_ball_x ?b < c_div W 2 + 10"
    using assms(1) that by (simp add: c_div_def) presburger
  then show ?thesis using walls_in [OF assms(1), of b] by (simp add: bv_bounce_def bv_net_def ball_in_def)
qed

lemma third: "- 30 < d \<Longrightarrow> d < 30 \<Longrightarrow> \<bar>c_div d 3\<bar> \<le> 9"
  by (cases "d = 0") (simp_all add: c_div_def abs_mult)

text \<open>A hit: a touch more, or a point for the other side.\<close>

lemma hit1_body: "bv_body b \<Longrightarrow> bv_body (snd (bv_hit1 W b))"
  using third [of "bv_ball_x b - (bv_p1_x b + 20)"]
  by (auto simp: bv_hit1_def bv_meets_def bv_touch_def bv_serve_def bv_body_def Let_def)

lemma hit2_body: "bv_body b \<Longrightarrow> bv_body (snd (bv_hit2 W b))"
  using third [of "bv_ball_x b - (bv_p2_x b + 20)"]
  by (auto simp: bv_hit2_def bv_meets_def bv_touch_def bv_serve_def bv_return_def bv_body_def Let_def)

definition point_for :: "blobby \<Rightarrow> blobby \<Rightarrow> bool" where
  "point_for b c \<longleftrightarrow> bv_state c = bv_state b \<and> ((bv_score1 c = bv_score1 b + 1 \<and> bv_score2 c = bv_score2 b)
     \<or> (bv_score1 c = bv_score1 b \<and> bv_score2 c = bv_score2 b + 1))"

definition no_point :: "blobby \<Rightarrow> blobby \<Rightarrow> bool" where
  "no_point b c \<longleftrightarrow> bv_state c = bv_state b \<and> bv_score1 c = bv_score1 b \<and> bv_score2 c = bv_score2 b"

lemma hit1_points:
  assumes "bv_body b"
  shows "no_point b (snd (bv_hit1 W b)) \<and> (snd (bv_hit1 W b) = b \<or> bv_last_touch (snd (bv_hit1 W b)) = 1)
    \<or> point_for b (snd (bv_hit1 W b)) \<and> bv_last_touch (snd (bv_hit1 W b)) = 0 \<and> bv_ball_y (snd (bv_hit1 W b)) = 30"
  by (simp add: bv_hit1_def bv_touch_def bv_serve_def point_for_def no_point_def Let_def)

lemma hit2_points:
  "no_point b (snd (bv_hit2 W b)) \<and> bv_ball_y (snd (bv_hit2 W b)) = bv_ball_y b
    \<or> bv_last_touch b = 2 \<and> point_for b (snd (bv_hit2 W b)) \<and> bv_ball_y (snd (bv_hit2 W b)) = 30"
  by (simp add: bv_hit2_def bv_touch_def bv_serve_def point_for_def no_point_def Let_def)

lemma hits_points:
  assumes "bv_body b"
  shows "no_point b (snd (bv_hits W b)) \<or> point_for b (snd (bv_hits W b)) \<and> bv_ball_y (snd (bv_hits W b)) = 30"
  using hit1_points [OF assms, of W] hit2_points [of "snd (bv_hit1 W b)" W]
  by (auto simp: bv_hits_def no_point_def point_for_def)

lemma hits_body: "bv_body b \<Longrightarrow> bv_body (snd (bv_hits W b))"
  by (simp add: bv_hits_def hit1_body hit2_body)

lemma hits_in:
  assumes "110 \<le> W" "ball_in W b"
  shows "ball_in W (snd (bv_hits W b))"
proof -
  have s: "ball_in W (bv_serve (c_div W 4) b)" "ball_in W (bv_serve (c_div (W * 3) 4) b)" for b
    using assms(1) by (simp_all add: ball_in_def bv_serve_def c_div_def) presburger+
  have h: "ball_in W b \<Longrightarrow> ball_in W (snd (bv_hit1 W b))" "ball_in W b \<Longrightarrow> ball_in W (snd (bv_hit2 W b))" for b
    using s by (simp_all add: bv_hit1_def bv_hit2_def Let_def) (simp_all add: ball_in_def bv_touch_def)
  show ?thesis using assms(2) by (simp add: bv_hits_def h)
qed

lemma point_points:
  "no_point b (snd (bv_point W F b)) \<or> F < bv_ball_y b \<and> point_for b (snd (bv_point W F b))"
  by (simp add: bv_point_def bv_serve_def no_point_def point_for_def)

lemma point_body: "bv_body b \<Longrightarrow> bv_body (snd (bv_point W F b))"
  by (simp add: bv_point_def bv_serve_def bv_body_def)

lemma point_in:
  assumes "110 \<le> W" "30 \<le> F" "ball_in W b"
  shows "ball_in W (snd (bv_point W F b)) \<and> bv_ball_y (snd (bv_point W F b)) \<le> F"
proof -
  have "15 \<le> c_div W 4 \<and> c_div W 4 \<le> W - 15" "15 \<le> c_div (W * 3) 4 \<and> c_div (W * 3) 4 \<le> W - 15"
    using assms(1) by (simp_all add: c_div_def) presburger+
  then show ?thesis using assms by (simp add: bv_point_def bv_serve_def ball_in_def)
qed

lemma after_moves_players:
  "players_in W F (snd (bv_point W F (snd (bv_hits W b)))) = players_in W F b"
proof -
  have "players_in W F (snd (bv_hit1 W b)) = players_in W F b" "players_in W F (snd (bv_hit2 W b)) = players_in W F b"
    "players_in W F (snd (bv_point W F b)) = players_in W F b" for b
    by (simp_all add: players_in_def bv_hit1_def bv_hit2_def bv_point_def bv_touch_def bv_serve_def Let_def)
  then show ?thesis by (simp add: bv_hits_def)
qed

lemma bv_end_parts:
  "ball_in W (snd (bv_end b)) = ball_in W b" "players_in W F (snd (bv_end b)) = players_in W F b"
  "bv_ball_y (snd (bv_end b)) = bv_ball_y b"
  by (simp_all add: bv_end_def ball_in_def players_in_def)

lemma bv_frame_court:
  assumes "110 \<le> W" "30 \<le> F" "bv_body b"
  shows "on_court W F (snd (bv_frame W F mouse click key fr b))"
proof -
  let ?m = "bv_moves W F mouse click key fr b"
  let ?h = "snd (bv_hits W (bv_bounce W F ?m))"
  have "bv_body ?m" using assms(3) bv_core_fields(1) [OF bv_moves_core] by simp
  then have "ball_in W ?h" using assms(1) by (intro hits_in bv_bounce_in)
  then have "ball_in W (snd (bv_point W F ?h)) \<and> bv_ball_y (snd (bv_point W F ?h)) \<le> F"
    using assms(1,2) by (intro point_in)
  moreover have "players_in W F (snd (bv_point W F ?h))"
    using bv_moves_players [OF assms(1)] by (simp add: after_moves_players bv_bounce_players)
  ultimately show ?thesis
    using bv_end_parts [where b = "snd (bv_point W F ?h)"]
    by (simp add: bv_frame_state on_court_def ball_in_def players_in_def)
qed

lemma bv_end_ok:
  assumes "bv_body c" "bv_playable b" "no_point b c \<or> point_for b c"
  shows "bv_ok (snd (bv_end c))"
proof -
  have b: "0 \<le> bv_score1 b" "0 \<le> bv_score2 b" "bv_score1 b < 10" "bv_score2 b < 10" "bv_state b \<noteq> 2"
    using assms(2) by (simp_all add: bv_playable_def bv_rules_def)
  have "bv_body (c\<lparr>bv_state := 2\<rparr>)" using assms(1) by (simp add: bv_body_def)
  moreover have "bv_state c \<noteq> 2" "0 \<le> bv_score1 c" "0 \<le> bv_score2 c" "bv_score1 c \<le> 10" "bv_score2 c \<le> 10"
    "bv_score1 c < 10 \<or> bv_score2 c < 10"
    using b assms(3) unfolding no_point_def point_for_def by linarith+
  ultimately show ?thesis using assms(1) by (auto simp: bv_end_def bv_ok_def bv_rules_def)
qed

lemma bv_frame_ok:
  assumes "30 \<le> F" "bv_playable b"
  shows "bv_ok (snd (bv_frame W F mouse click key fr b))"
proof -
  let ?n = "bv_bounce W F (bv_moves W F mouse click key fr b)"
  let ?h = "snd (bv_hits W ?n)"
  have n: "bv_body ?n" "no_point b ?n"
    using assms(2) bv_core_fields [OF bv_moves_core, of W F mouse click key fr b]
    by (simp_all add: bv_bounce_body no_point_def bv_playable_def bv_rules_def)
  then have "no_point b (snd (bv_point W F ?h)) \<or> point_for b (snd (bv_point W F ?h))"
    using hits_points [OF n(1), of W] point_points [of ?h W F] assms(1) by (auto simp: no_point_def point_for_def)
  then show ?thesis
    unfolding bv_frame_state using n(1) assms(2) by (intro bv_end_ok point_body hits_body)
qed

subsection \<open>Jumps\<close>

definition jumps_ok :: "int \<Rightarrow> blobby \<Rightarrow> bool" where
  "jumps_ok F b \<longleftrightarrow> jumping F (bv_p1_y b, bv_p1_vy b) \<and> jumping F (bv_p2_y b, bv_p2_vy b)"

lemma after_moves_jumps: "jumps_ok F (snd (bv_end (snd (bv_point W F' (snd (bv_hits W (bv_bounce W F' b))))))) = jumps_ok F b"
proof -
  have "jumps_ok F (snd (bv_hit1 W b)) = jumps_ok F b" "jumps_ok F (snd (bv_hit2 W b)) = jumps_ok F b"
    "jumps_ok F (snd (bv_point W F' b)) = jumps_ok F b" "jumps_ok F (snd (bv_end b)) = jumps_ok F b"
    "jumps_ok F (snd (bv_walls W b)) = jumps_ok F b" "jumps_ok F (snd (bv_net W F' b)) = jumps_ok F b" for b
    by (simp_all add: jumps_ok_def bv_hit1_def bv_hit2_def bv_point_def bv_end_def bv_walls_def bv_net_def bv_touch_def
        bv_serve_def Let_def)
  then show ?thesis by (simp add: bv_hits_def bv_bounce_def)
qed

lemma jump_if:
  assumes "jumping F (y, v)"
  shows "jumping F (bv_gravity F (y, if c \<and> F - 30 \<le> y then - 14 else v))"
  using assms by (intro gravity_jumping) (simp add: jumping_def)

lemma player1_jumps:
  assumes "jumps_ok F b"
  shows "jumps_ok F (bv_player1 W F mouse click b)"
proof -
  obtain y v where g: "bv_gravity F (bv_p1_y b, if click \<and> F - 30 \<le> bv_p1_y b then - 14 else bv_p1_vy b) = (y, v)" by fastforce
  then have "jumping F (y, v)" using jump_if [of F "bv_p1_y b" "bv_p1_vy b" click] assms by (simp add: jumps_ok_def)
  then show ?thesis using g assms by (simp add: bv_player1_def jumps_ok_def Let_def)
qed

lemma decide_jumps: "jumps_ok F b \<Longrightarrow> jumps_ok F (bv_decide W F fr key b)"
  by (auto simp: bv_decide_def bv_cpu_def bv_keys_def bv_cpu_jumps_def jumps_ok_def Let_def jumping_def split: option.split)

lemma player2_jumps:
  assumes "jumps_ok F b"
  shows "jumps_ok F (bv_player2 W F fr key b)"
proof -
  let ?b = "bv_decide W F fr key b"
  obtain y v where g: "bv_gravity F (bv_p2_y ?b, bv_p2_vy ?b) = (y, v)" by fastforce
  have b: "jumps_ok F ?b" using assms by (rule decide_jumps)
  then have "jumping F (y, v)" using gravity_jumping [of F "bv_p2_y ?b" "bv_p2_vy ?b"] g by (simp add: jumps_ok_def)
  then show ?thesis using g b by (simp add: bv_player2_def jumps_ok_def Let_def)
qed

lemma bv_frame_jumps:
  assumes "jumps_ok F b"
  shows "jumps_ok F (snd (bv_frame W F mouse click key fr b))"
proof -
  have "jumps_ok F (bv_fall b)" using assms by (simp add: bv_fall_def jumps_ok_def Let_def)
  then have 1: "jumps_ok F (bv_player1 W F mouse click (bv_fall b))" by (rule player1_jumps)
  then have "jumps_ok F (bv_moves W F mouse click key fr b)" unfolding bv_moves_def by (rule player2_jumps)
  then show ?thesis by (simp add: bv_frame_state after_moves_jumps)
qed

end
