(* ===== verification/Arcade.thy ===== *)
theory Arcade
  imports Terminal Blobby
begin

text \<open>
  The applications of \<open>arcade.cpp\<close> that run inside a window: the web browser with its network
  configurator, Pong and Blobby Volley, each as one call per frame with its drawing, buttons, keys
  and sounds; and the application launcher of \<open>kernel_main.cpp\<close> that opens them.
\<close>

subsection \<open>State\<close>

record 'd arcade = "'d terminal" +
  browser_view :: int
  browser_state :: int
  browser_url :: string
  browser_url_idx :: nat
  browser_content :: string
  netcfg_state :: int
  netcfg_ip :: string
  netcfg_ip_idx :: nat
  netcfg_content :: string
  pong_game :: pong
  blobby_game :: blobby

subsection \<open>Sound\<close>

text \<open>The speaker: timer 2 counts down from the divisor, port 0x61 connects it.\<close>

definition set_tone :: "'d hw \<Rightarrow> u32 \<Rightarrow> ('d, 'z, u8) op" where
  "set_tone hw f = do {
     let d = 1193180 div f;
     outb hw 0x43 0xB6;
     outb hw 0x42 (ucast d);
     outb hw 0x42 (ucast (drop_bit 8 d));
     t \<leftarrow> inb hw 0x61;
     when_m (t \<noteq> t OR 3) (outb hw 0x61 (t OR 3));
     State_Monad.return t
   }"

definition play_freq :: "'d hw \<Rightarrow> u32 \<Rightarrow> ('d, 'z, unit) op" where
  "play_freq hw f =
     (if f = 0 then do { t \<leftarrow> inb hw 0x61; outb hw 0x61 (t AND 0xFC) }
      else do { _ \<leftarrow> set_tone hw f; skip })"

definition play_sound :: "'d hw \<Rightarrow> u32 \<Rightarrow> ('d, 'z, unit) op" where
  "play_sound hw f = (if f = 0 then skip else do { t \<leftarrow> set_tone hw f; outb hw 0x61 (t AND 0xFC) })"

definition startup_melody :: "'d hw \<Rightarrow> ('d, 'z, unit) op" where
  "startup_melody hw = do { play_sound hw 523; play_sound hw 659; play_sound hw 784 }"

definition make_sounds :: "'d hw \<Rightarrow> sound list \<Rightarrow> ('d, 'z, unit) op" where
  "make_sounds hw ss = for_m ss (\<lambda>s. case s of Freq f \<Rightarrow> play_freq hw f | Note f _ \<Rightarrow> play_sound hw f)"

subsection \<open>Buttons and keys\<close>

definition over :: "int \<Rightarrow> int \<Rightarrow> int \<Rightarrow> int \<Rightarrow> ('d, 'z) desk_scheme \<Rightarrow> bool" where
  "over x y w h s \<longleftrightarrow> is_over_rect False (mouse_x s) (mouse_y s) x y w h"

definition pressed_on :: "int \<Rightarrow> int \<Rightarrow> int \<Rightarrow> int \<Rightarrow> ('d, 'z) desk_scheme \<Rightarrow> bool" where
  "pressed_on x y w h s \<longleftrightarrow> mouse_just_pressed s \<and> over x y w h s"

definition new_key :: "('d, 'z) keys_scheme \<Rightarrow> u8 option" where
  "new_key s = (if key_new s then Some (key_scancode s) else None)"

definition in_front :: "nat \<Rightarrow> ('d, 'z) desk_scheme \<Rightarrow> bool" where
  "in_front i s \<longleftrightarrow> win_z s ! 12 = i"

definition set_cooldown :: "int \<Rightarrow> (('d, 'z) desk_scheme, unit) state" where
  "set_cooldown n = modify (\<lambda>s. s\<lparr>input_cooldown := n\<rparr>)"

definition centred :: "int \<Rightarrow> int \<Rightarrow> string \<Rightarrow> u32 \<Rightarrow> ('d, 'z, unit) op" where
  "centred x y t c = poke (os2_TextC x y t c True)"

definition hover_button :: "int \<Rightarrow> int \<Rightarrow> int \<Rightarrow> int \<Rightarrow> string \<Rightarrow> u32 \<Rightarrow> u32 \<Rightarrow> (('d, 'z) desk_scheme, bool) state" where
  "hover_button x y w tx label hot cold = do {
     hov \<leftarrow> gets (over x y w 25);
     poke (DrawRoundedRect x y w 25 3 (if hov then hot else cold));
     poke (os2_Text tx (y + 8) label 0xFFFFFF True);
     State_Monad.return hov
   }"

subsection \<open>The browser\<close>

text \<open>The keys of the two input lines; \<open>\b\<close> is the character 8.\<close>

definition url_press :: "char \<Rightarrow> string \<times> nat \<Rightarrow> string \<times> nat" where
  "url_press c l = (if c = CHR 0x08 then del_char l
     else if (32 :: nat) \<le> of_char c \<and> of_char c \<le> (126 :: nat) then add_char 60 c l else l)"

definition ip_press :: "char \<Rightarrow> string \<times> nat \<Rightarrow> string \<times> nat" where
  "ip_press c l = (if c = CHR 0x08 then del_char l
     else if between (CHR ''0'') c (CHR ''9'') \<or> c = CHR ''.'' then add_char 15 c l else l)"

definition url_edit :: "('d, 'z) arcade_scheme \<Rightarrow> ('d, 'z) arcade_scheme" where
  "url_edit s = (case url_press (last_app_key s) (browser_url s, browser_url_idx s) of
     (t, i) \<Rightarrow> s\<lparr>browser_url := t, browser_url_idx := i\<rparr>)"

definition ip_edit :: "('d, 'z) arcade_scheme \<Rightarrow> ('d, 'z) arcade_scheme" where
  "ip_edit s = (case ip_press (last_app_key s) (netcfg_ip s, netcfg_ip_idx s) of
     (t, i) \<Rightarrow> s\<lparr>netcfg_ip := t, netcfg_ip_idx := i\<rparr>)"

definition set_content :: "string \<Rightarrow> (('d, 'z) arcade_scheme, unit) state" where
  "set_content t = modify (\<lambda>s. s\<lparr>browser_content := put_str t (browser_content s)\<rparr>)"

definition set_netcfg :: "string \<Rightarrow> (('d, 'z) arcade_scheme, unit) state" where
  "set_netcfg t = modify (\<lambda>s. s\<lparr>netcfg_content := put_str t (netcfg_content s)\<rparr>)"

text \<open>The line of input with its blinking cursor.\<close>

definition input_row :: "int \<Rightarrow> int \<Rightarrow> int \<Rightarrow> bool \<Rightarrow> string \<Rightarrow> nat \<Rightarrow> (('d, 'z) keys_scheme, unit) state" where
  "input_row wx py rw blocked t i = do {
     poke (DrawRoundedRect (wx + 10) py rw 25 3 0xEEEEEE);
     poke (os2_Text (wx + 15) (py + 8) t 0 True);
     fr \<leftarrow> gets frame;
     when_m (\<not> blocked \<and> (fr div 20) mod 2 = 0) (poke (os2_DrawChar (wx + 15 + int i * 7) (py + 8) (CHR ''_'') 0 True))
   }"

definition click_ready :: "bool \<Rightarrow> ('d, 'z) desk_scheme \<Rightarrow> bool" where
  "click_ready blocked s \<longleftrightarrow> input_cooldown s = 0 \<and> mouse_just_pressed s \<and> \<not> blocked"

text \<open>A page that waits for an answer grows by a dot, and by a line break after 40 characters.\<close>

definition wait_dots :: "string \<Rightarrow> string" where
  "wait_dots b = (let n = length (c_str b) in
     if n < 2000 then (let b = put_str (c_str b @ ''.'') b in if n mod 40 = 0 then put_str (c_str b @ ''\<newline>'') b else b)
     else b)"

definition web_view :: "int \<Rightarrow> int \<Rightarrow> int \<Rightarrow> int \<Rightarrow> bool \<Rightarrow> (('d, 'z) arcade_scheme, unit) state" where
  "web_view wx py ww wh blocked = do {
     url \<leftarrow> gets (\<lambda>s. c_str (browser_url s));
     i \<leftarrow> gets browser_url_idx;
     input_row wx py (ww - 130) blocked url i;
     key \<leftarrow> gets (\<lambda>s. key_new s \<and> in_front 8 s);
     when_m key (modify url_edit);
     go_hov \<leftarrow> hover_button (wx + ww - 60) py 50 (wx + ww - 45) ''GO'' 0x00AAFF 0x0055AA;
     cfg_hov \<leftarrow> hover_button (wx + ww - 115) py 50 (wx + ww - 100) ''CFG'' 0x888888 0x555555;
     click \<leftarrow> gets (click_ready blocked);
     when_m click (do {
       when_m go_hov (do {
         set_content ''CONNECTING TO HOST...\<newline>SENDING HTTP GET REQUEST...'';
         set_status ''HTTP GET SENT (PORT 80)'';
         modify (\<lambda>s. s\<lparr>browser_state := 1\<rparr>);
         set_cooldown 20
       });
       when_m cfg_hov (do { modify (\<lambda>s. s\<lparr>browser_view := 1\<rparr>); set_cooldown 20 })
     });
     poke (DrawRoundedRect (wx + 10) (py + 35) (ww - 20) (wh - 85) 3 0xFFFFFF);
     waits \<leftarrow> gets (\<lambda>s. browser_state s = 1 \<and> frame s mod 30 = 0);
     when_m waits (modify (\<lambda>s. s\<lparr>browser_content := wait_dots (browser_content s)\<rparr>));
     page \<leftarrow> gets (\<lambda>s. c_str (browser_content s));
     poke (os2_Text (wx + 15) (py + 40) page 0 False)
   }"

definition config_view :: "'d hw \<Rightarrow> net_layout \<Rightarrow> int \<Rightarrow> int \<Rightarrow> int \<Rightarrow> int \<Rightarrow> bool \<Rightarrow> (('d, 'z) arcade_scheme, unit) state" where
  "config_view hw N wx py ww wh blocked = do {
     ip \<leftarrow> gets (\<lambda>s. c_str (netcfg_ip s));
     i \<leftarrow> gets netcfg_ip_idx;
     input_row wx py (ww - 130) blocked ip i;
     key \<leftarrow> gets (\<lambda>s. key_new s \<and> in_front 8 s);
     when_m key (modify ip_edit);
     app_hov \<leftarrow> hover_button (wx + ww - 60) py 50 (wx + ww - 50) ''APP'' 0x00AAFF 0x0055AA;
     back_hov \<leftarrow> hover_button (wx + ww - 115) py 50 (wx + ww - 105) ''BCK'' 0x888888 0x555555;
     click \<leftarrow> gets (click_ready blocked);
     when_m click (do {
       when_m app_hov (do {
         set_netcfg ''CONFIGURING NETWORK...\<newline>SENDING GRATUITOUS ARP PING...'';
         ip \<leftarrow> gets (\<lambda>s. c_str (netcfg_ip s));
         apply_static_ip hw N ip;
         set_cooldown 20
       });
       when_m back_hov (do { modify (\<lambda>s. s\<lparr>browser_view := 0\<rparr>); set_cooldown 20 })
     });
     poke (DrawRoundedRect (wx + 10) (py + 35) (ww - 20) (wh - 85) 3 0xFFFFFF);
     page \<leftarrow> gets (\<lambda>s. c_str (netcfg_content s));
     poke (os2_Text (wx + 15) (py + 40) page 0 False)
   }"

definition run_browser_engine ::
  "'d hw \<Rightarrow> net_layout \<Rightarrow> int \<Rightarrow> int \<Rightarrow> int \<Rightarrow> int \<Rightarrow> bool \<Rightarrow> (('d, 'z) arcade_scheme, unit) state" where
  "run_browser_engine hw N wx wy ww wh blocked = do {
     view \<leftarrow> gets browser_view;
     (if view = 0 then web_view wx (wy + 40) ww wh blocked else config_view hw N wx (wy + 40) ww wh blocked)
   }"

definition run_network_configurator ::
  "'d hw \<Rightarrow> net_layout \<Rightarrow> int \<Rightarrow> int \<Rightarrow> int \<Rightarrow> int \<Rightarrow> bool \<Rightarrow> (('d, 'z) arcade_scheme, unit) state" where
  "run_network_configurator hw N wx wy ww wh blocked = do {
     let py = wy + 40;
     ip \<leftarrow> gets (\<lambda>s. c_str (netcfg_ip s));
     i \<leftarrow> gets netcfg_ip_idx;
     input_row wx py (ww - 90) blocked ip i;
     key \<leftarrow> gets (\<lambda>s. key_new s \<and> in_front 9 s);
     when_m key (modify ip_edit);
     go_hov \<leftarrow> hover_button (wx + ww - 70) py 60 (wx + ww - 58) ''APPLY'' 0x00AAFF 0x0055AA;
     click \<leftarrow> gets (click_ready blocked);
     when_m (click \<and> go_hov) (do {
       ip \<leftarrow> gets (\<lambda>s. c_str (netcfg_ip s));
       set_netcfg (''CONFIGURING NETWORK INTERFACE...\<newline>IP: '' @ ip @
         ''\<newline>SUBNET: 255.255.255.0\<newline>GATEWAY: 192.168.14.14\<newline>\<newline>SENDING GRATUITOUS ARP PING...'');
       apply_static_ip hw N ip;
       modify (\<lambda>s. s\<lparr>netcfg_state := 1\<rparr>);
       set_cooldown 20
     });
     poke (DrawRoundedRect (wx + 10) (py + 35) (ww - 20) (wh - 85) 3 0xFFFFFF);
     page \<leftarrow> gets (\<lambda>s. c_str (netcfg_content s));
     poke (os2_Text (wx + 15) (py + 40) page 0 False)
   }"

subsection \<open>The menu of a game\<close>

text \<open>A button that selects the value \<open>v\<close> of a setting.\<close>

definition choice :: "int \<Rightarrow> int \<Rightarrow> int \<Rightarrow> int \<Rightarrow> string \<Rightarrow> (('d, 'z) arcade_scheme \<Rightarrow> int)
    \<Rightarrow> (int \<Rightarrow> ('d, 'z) arcade_scheme \<Rightarrow> ('d, 'z) arcade_scheme) \<Rightarrow> int \<Rightarrow> (('d, 'z) arcade_scheme, unit) state" where
  "choice x y w tx label setting upd v = do {
     cur \<leftarrow> gets setting;
     poke (DrawRoundedRect x y w 25 3 (if cur = v then 0x00AA00 else 0x555555));
     centred tx (y + 7) label 0xFFFFFF;
     hit \<leftarrow> gets (pressed_on x y w 25);
     when_m hit (modify (upd v))
   }"

definition game_menu :: "string \<Rightarrow> string \<Rightarrow> string \<Rightarrow> int \<Rightarrow> int \<Rightarrow> int
    \<Rightarrow> (('d, 'z) arcade_scheme \<Rightarrow> int) \<Rightarrow> (int \<Rightarrow> ('d, 'z) arcade_scheme \<Rightarrow> ('d, 'z) arcade_scheme)
    \<Rightarrow> (('d, 'z) arcade_scheme \<Rightarrow> int) \<Rightarrow> (int \<Rightarrow> ('d, 'z) arcade_scheme \<Rightarrow> ('d, 'z) arcade_scheme)
    \<Rightarrow> (('d, 'z) arcade_scheme \<Rightarrow> ('d, 'z) arcade_scheme) \<Rightarrow> (('d, 'z) arcade_scheme, unit) state" where
  "game_menu title hint label mid py start_y mode set_mode diff set_diff start = do {
     centred mid (py + 20) title 0x00FF00;
     centred mid (py + 60) ''SELECT MODE'' 0xFFFFFF;
     choice (mid - 110) (py + 80) 100 (mid - 60) ''1 PLAYER'' mode set_mode 0;
     choice (mid + 10) (py + 80) 100 (mid + 60) ''2 PLAYERS'' mode set_mode 1;
     m \<leftarrow> gets mode;
     (if m = 0 then do {
        centred mid (py + 130) ''CPU DIFFICULTY'' 0xFFFFFF;
        choice (mid - 120) (py + 150) 70 (mid - 85) ''EASY'' diff set_diff 0;
        choice (mid - 35) (py + 150) 70 mid ''NORMAL'' diff set_diff 1;
        choice (mid + 50) (py + 150) 70 (mid + 85) ''HARD'' diff set_diff 2
      } else centred mid (py + 150) hint 0xAAAAAA);
     poke (DrawRoundedRect (mid - 60) (py + start_y) 120 30 5 0xAA0000);
     centred mid (py + start_y + 7) label 0xFFFFFF;
     go \<leftarrow> gets (\<lambda>s. input_cooldown s = 0 \<and> pressed_on (mid - 60) (py + start_y) 120 30 s);
     when_m go (do { modify start; set_cooldown 10 })
   }"

subsection \<open>Pong\<close>

definition upd_pong :: "(pong \<Rightarrow> pong) \<Rightarrow> ('d, 'z) arcade_scheme \<Rightarrow> ('d, 'z) arcade_scheme" where
  "upd_pong f s = s\<lparr>pong_game := f (pong_game s)\<rparr>"

definition dashes :: "int \<Rightarrow> int list" where
  "dashes n = [i \<leftarrow> map (\<lambda>k. 20 * int k) [0..<nat n]. i < n]"

definition draw_scores :: "int \<Rightarrow> int \<Rightarrow> u32 \<Rightarrow> int \<Rightarrow> int \<Rightarrow> ('d, 'z, unit) op" where
  "draw_scores mid py c s1 s2 = do {
     poke (os2_Text (mid - 40) (py + 20) (int_str s1) c True);
     poke (os2_Text (mid + 30) (py + 20) (int_str s2) c True)
   }"

definition pong_turn :: "'d hw \<Rightarrow> int \<Rightarrow> int \<Rightarrow> int \<Rightarrow> u8 option \<Rightarrow> (('d, 'z) arcade_scheme, unit) state" where
  "pong_turn hw py ww H key = do {
     front \<leftarrow> gets (in_front 11);
     when_m front (do {
       mouse \<leftarrow> gets mouse_y;
       p \<leftarrow> gets pong_game;
       let (sounds, p) = pong_frame ww H (mouse - py) key p;
       make_sounds hw sounds;
       modify (upd_pong (\<lambda>_. p))
     })
   }"

definition pong_play :: "'d hw \<Rightarrow> int \<Rightarrow> int \<Rightarrow> int \<Rightarrow> int \<Rightarrow> (('d, 'z) arcade_scheme, unit) state" where
  "pong_play hw wx py ww H = do {
     poke (DrawRoundedRect (wx + 10) py (ww - 20) (H - 10) 0 0);
     for_m (dashes (H - 10)) (\<lambda>i. poke (DrawRoundedRect (wx + c_div ww 2 - 2) (py + i) 4 10 0 0x555555));
     p \<leftarrow> gets pong_game;
     draw_scores (wx + c_div ww 2) py 0x00FF00 (pong_score1 p) (pong_score2 p);
     poke (os2_Text (wx + 20) (py + 15) ''[ ESC ] TO ABORT'' 0x444444 False);
     key \<leftarrow> gets new_key;
     when_m (key = Some 1) (modify (upd_pong (\<lambda>p. p\<lparr>pong_state := 0\<rparr>)));
     pong_turn hw py ww H key;
     p \<leftarrow> gets pong_game;
     poke (DrawRoundedRect (wx + 20) (py + pong_p1_y p) 10 40 2 0x00FF00);
     poke (DrawRoundedRect (wx + ww - 30) (py + pong_p2_y p) 10 40 2 0xFF0000);
     poke (DrawRoundWindow (wx + pong_ball_x p) (py + pong_ball_y p) 6 0xFFFFFF)
   }"

definition winner :: "int \<Rightarrow> string" where
  "winner s1 = (if s1 \<ge> 10 then ''PLAYER 1 WINS!'' else ''PLAYER 2 WINS!'')"

definition run_pong_engine :: "'d hw \<Rightarrow> int \<Rightarrow> int \<Rightarrow> int \<Rightarrow> int \<Rightarrow> bool \<Rightarrow> (('d, 'z) arcade_scheme, unit) state" where
  "run_pong_engine hw wx wy ww wh blocked = do {
     let H = wh - 40; let py = wy + 40;
     st \<leftarrow> gets (\<lambda>s. pong_state (pong_game s));
     (if st = 0 then
        game_menu ''PONG OMNIVERSE'' ''P1: MOUSE  |  P2: ARROWS (UP/DOWN)'' ''START GAME'' (wx + c_div ww 2) py 190
          (\<lambda>s. pong_mode (pong_game s)) (\<lambda>v. upd_pong (\<lambda>p. p\<lparr>pong_mode := v\<rparr>))
          (\<lambda>s. pong_diff (pong_game s)) (\<lambda>v. upd_pong (\<lambda>p. p\<lparr>pong_diff := v\<rparr>)) (upd_pong (pong_start ww H))
      else if st = 2 then do {
        s1 \<leftarrow> gets (\<lambda>s. pong_score1 (pong_game s));
        centred (wx + c_div ww 2) (py + 80) (winner s1) 0x00FF00;
        centred (wx + c_div ww 2) (py + 140) ''CLICK TO RETURN TO MENU'' 0xFFFFFF;
        leave \<leftarrow> gets (\<lambda>s. \<not> blocked \<and> pressed_on wx py ww H s);
        when_m leave (do { modify (upd_pong (\<lambda>p. p\<lparr>pong_state := 0\<rparr>)); set_cooldown 10 })
      }
      else pong_play hw wx py ww H)
   }"

subsection \<open>Blobby Volley\<close>

definition upd_blobby :: "(blobby \<Rightarrow> blobby) \<Rightarrow> ('d, 'z) arcade_scheme \<Rightarrow> ('d, 'z) arcade_scheme" where
  "upd_blobby f s = s\<lparr>blobby_game := f (blobby_game s)\<rparr>"

definition draw_blob :: "int \<Rightarrow> int \<Rightarrow> u32 \<Rightarrow> ('d, 'z, unit) op" where
  "draw_blob x y c = poke (DrawRoundedRect x y 40 30 15 c)"

definition draw_eye :: "int \<Rightarrow> int \<Rightarrow> int \<Rightarrow> ('d, 'z, unit) op" where
  "draw_eye x dx y = do {
     poke (DrawRoundWindow x (y + 10) 4 0xFFFFFF);
     poke (DrawRoundWindow (x + dx) (y + 10) 2 0)
   }"

definition blobby_turn :: "'d hw \<Rightarrow> int \<Rightarrow> int \<Rightarrow> int \<Rightarrow> u8 option \<Rightarrow> (('d, 'z) arcade_scheme, unit) state" where
  "blobby_turn hw wx ww F key = do {
     front \<leftarrow> gets (in_front 12);
     when_m front (do {
       mouse \<leftarrow> gets mouse_x;
       click \<leftarrow> gets mouse_just_pressed;
       fr \<leftarrow> gets frame;
       b \<leftarrow> gets blobby_game;
       let (sounds, b) = bv_frame ww F (mouse - wx) click key fr b;
       make_sounds hw sounds;
       modify (upd_blobby (\<lambda>_. b))
     })
   }"

definition blobby_play :: "'d hw \<Rightarrow> int \<Rightarrow> int \<Rightarrow> int \<Rightarrow> int \<Rightarrow> (('d, 'z) arcade_scheme, unit) state" where
  "blobby_play hw wx py ww H = do {
     let F = H - 20;
     poke (DrawRoundedRect (wx + 10) py (ww - 20) (H - 10) 0 0x4488FF);
     poke (DrawRoundedRect (wx + 10) (py + F) (ww - 20) 10 0 0x00AA00);
     poke (DrawRoundedRect (wx + c_div ww 2 - 3) (py + F - 70) 6 70 0 0xEEEEEE);
     b \<leftarrow> gets blobby_game;
     draw_scores (wx + c_div ww 2) py 0xFFFFFF (bv_score1 b) (bv_score2 b);
     key \<leftarrow> gets new_key;
     when_m (key = Some 1) (modify (upd_blobby (\<lambda>b. b\<lparr>bv_state := 0\<rparr>)));
     blobby_turn hw wx ww F key;
     b \<leftarrow> gets blobby_game;
     draw_blob (wx + bv_p1_x b) (py + bv_p1_y b) 0x00FF00;
     draw_blob (wx + bv_p2_x b) (py + bv_p2_y b) 0xFF0000;
     draw_eye (wx + bv_p1_x b + 25) 2 (py + bv_p1_y b);
     draw_eye (wx + bv_p2_x b + 15) (- 2) (py + bv_p2_y b);
     poke (DrawRoundWindow (wx + bv_ball_x b) (py + bv_ball_y b) 10 0xFFFFFF)
   }"

definition run_blobby_engine :: "'d hw \<Rightarrow> int \<Rightarrow> int \<Rightarrow> int \<Rightarrow> int \<Rightarrow> bool \<Rightarrow> (('d, 'z) arcade_scheme, unit) state" where
  "run_blobby_engine hw wx wy ww wh blocked = do {
     let H = wh - 40; let py = wy + 40; let mid = wx + c_div ww 2;
     st \<leftarrow> gets (\<lambda>s. bv_state (blobby_game s));
     (if st = 0 then
        game_menu ''BLOBBY VOLLEY BARE METAL'' ''P1: MOUSE+CLICK | P2: ARROWS'' ''START MATCH'' mid py 200
          (\<lambda>s. bv_mode (blobby_game s)) (\<lambda>v. upd_blobby (\<lambda>b. b\<lparr>bv_mode := v\<rparr>))
          (\<lambda>s. bv_diff (blobby_game s)) (\<lambda>v. upd_blobby (\<lambda>b. b\<lparr>bv_diff := v\<rparr>)) (upd_blobby (bv_start ww))
      else if st = 2 then do {
        s1 \<leftarrow> gets (\<lambda>s. bv_score1 (blobby_game s));
        centred mid (py + 80) (winner s1) 0x00FF00;
        poke (DrawRoundedRect (mid - 50) (py + 140) 100 30 3 0x555555);
        centred mid (py + 148) ''MENU'' 0xFFFFFF;
        leave \<leftarrow> gets (\<lambda>s. \<not> blocked \<and> pressed_on (mid - 50) (py + 140) 100 30 s);
        when_m leave (do { modify (upd_blobby (\<lambda>b. b\<lparr>bv_state := 0\<rparr>)); set_cooldown 10 })
      }
      else blobby_play hw wx py ww H)
   }"

subsection \<open>The application launcher\<close>

definition launch_button :: "int \<Rightarrow> int \<Rightarrow> int \<Rightarrow> u32 \<Rightarrow> int \<Rightarrow> string \<Rightarrow> u32 \<Rightarrow> bool \<Rightarrow> (('d, 'z) arcade_scheme, unit) state
    \<Rightarrow> (('d, 'z) arcade_scheme, unit) state" where
  "launch_button x y w c tx label tc blocked launch = do {
     poke (DrawRoundedRect x y w 50 5 c);
     centred tx (y + 17) label tc;
     hit \<leftarrow> gets (\<lambda>s. click_ready blocked s \<and> over x y w 50 s);
     when_m hit (do { launch; set_cooldown 25 })
   }"

definition open_app :: "nat \<Rightarrow> (('d, 'z) desk_scheme, unit) state" where
  "open_app i = modify (\<lambda>s. (upd_window i (\<lambda>w. w\<lparr>win_open := True, win_minimized := False\<rparr>) s)\<lparr>win_z := focus_window i (win_z s)\<rparr>)"

definition app_launcher :: "int \<Rightarrow> int \<Rightarrow> int \<Rightarrow> bool \<Rightarrow> (('d, 'z) arcade_scheme, unit) state" where
  "app_launcher wx wy ww blocked = do {
     centred (wx + c_div ww 2) (wy + 40) ''INSTALLED APPS'' 0x222222;
     launch_button (wx + 20) (wy + 80) 140 0x00FF00 (wx + 90) ''PLAY PONG'' 0 blocked
       (do { open_app 11; modify (upd_pong (\<lambda>p. p\<lparr>pong_state := 0\<rparr>)) });
     launch_button (wx + 190) (wy + 80) 140 0x00AAFF (wx + 260) ''PLAY BLOBBY'' 0xFFFFFF blocked
       (do { open_app 12; modify (upd_blobby (\<lambda>b. b\<lparr>bv_state := 0\<rparr>)) });
     launch_button (wx + 20) (wy + 150) 310 0xCC5500 (wx + 175) ''WEB EXPLORER'' 0xFFFFFF blocked
       (do { open_app 8; modify (upd_window 8 (\<lambda>w. w\<lparr>win_title := ''WEB BROWSER''\<rparr>)) })
   }"

subsection \<open>The contract of the input lines\<close>

definition url_reads :: "char \<Rightarrow> char option" where
  "url_reads c = (if (32 :: nat) \<le> of_char c \<and> of_char c \<le> (126 :: nat) then Some c else None)"

definition ip_reads :: "char \<Rightarrow> char option" where
  "ip_reads c = (if between (CHR ''0'') c (CHR ''9'') \<or> c = CHR ''.'' then Some c else None)"

interpretation url_line: line_editor url_press "\<lambda>c. c = CHR 0x08" url_reads 64 60
proof
  fix l k assume "line_ok 64 60 l"
  moreover have "url_reads k \<noteq> Some (CHR 0x00)" by (auto simp: url_reads_def)
  ultimately have "line_ok 64 60 (url_press k l) \<and> line_text (url_press k l) = typed 60 (k = CHR 0x08) (url_reads k) (line_text l)"
    by (intro line_press) (auto simp: url_press_def url_reads_def)
  then show "line_ok 64 60 (url_press k l)" and "line_text (url_press k l) = typed 60 (k = CHR 0x08) (url_reads k) (line_text l)"
    by simp_all
qed

interpretation ip_line: line_editor ip_press "\<lambda>c. c = CHR 0x08" ip_reads 64 15
proof
  fix l k assume "line_ok 64 15 l"
  moreover have "ip_reads k \<noteq> Some (CHR 0x00)" by (auto simp: ip_reads_def between_def)
  ultimately have "line_ok 64 15 (ip_press k l) \<and> line_text (ip_press k l) = typed 15 (k = CHR 0x08) (ip_reads k) (line_text l)"
    by (intro line_press) (auto simp: ip_press_def ip_reads_def)
  then show "line_ok 64 15 (ip_press k l)" and "line_text (ip_press k l) = typed 15 (k = CHR 0x08) (ip_reads k) (line_text l)"
    by simp_all
qed

subsection \<open>What a frame of the applications keeps\<close>

definition page_ok :: "string \<Rightarrow> bool" where
  "page_ok b \<longleftrightarrow> length b = 2048 \<and> length (c_str b) \<le> 2001"

definition browser_ok :: "('d, 'z) arcade_scheme \<Rightarrow> bool" where
  "browser_ok s \<longleftrightarrow> line_ok 64 60 (browser_url s, browser_url_idx s) \<and> line_ok 64 15 (netcfg_ip s, netcfg_ip_idx s)
     \<and> page_ok (browser_content s) \<and> page_ok (netcfg_content s)"

definition arcade_ok :: "('d, 'z) arcade_scheme \<Rightarrow> bool" where
  "arcade_ok s \<longleftrightarrow> keys_ok s \<and> browser_ok s \<and> pong_ok (pong_game s) \<and> bv_ok (blobby_game s)"

lemma page_put: "page_ok b \<Longrightarrow> CHR 0x00 \<notin> set t \<Longrightarrow> length t \<le> 2001 \<Longrightarrow> page_ok (put_str t b)"
  by (simp add: page_ok_def put_str_length c_str_put_str)

lemma page_dots: "page_ok b \<Longrightarrow> page_ok (wait_dots b)"
proof -
  assume ok: "page_ok b"
  have "CHR 0x00 \<notin> set (c_str b @ ''.'')" "CHR 0x00 \<notin> set ((c_str b @ ''.'') @ ''\<newline>'')"
    using c_str_no_nul [of b] by auto
  then have "page_ok (put_str (c_str b @ ''.'') b)" "c_str (put_str (c_str b @ ''.'') b) = c_str b @ ''.''"
    "page_ok (put_str ((c_str b @ ''.'') @ ''\<newline>'') (put_str (c_str b @ ''.'') b))" if "length (c_str b) < 2000"
    using that ok by (simp_all add: page_put c_str_put_str)
  then show ?thesis using ok by (simp add: wait_dots_def Let_def)
qed

lemma keys_fields [simp]:
  "keys_ok (s\<lparr>browser_view := i\<rparr>) = keys_ok s" "keys_ok (s\<lparr>browser_state := i\<rparr>) = keys_ok s"
  "keys_ok (s\<lparr>browser_url := t, browser_url_idx := n\<rparr>) = keys_ok s" "keys_ok (s\<lparr>netcfg_ip := t, netcfg_ip_idx := n\<rparr>) = keys_ok s"
  "keys_ok (s\<lparr>browser_content := t\<rparr>) = keys_ok s" "keys_ok (s\<lparr>netcfg_content := t\<rparr>) = keys_ok s"
  "keys_ok (s\<lparr>netcfg_state := i\<rparr>) = keys_ok s" "keys_ok (upd_pong f s) = keys_ok s" "keys_ok (upd_blobby g s) = keys_ok s"
  by (simp_all add: keys_ok_def desk_ok_def mouse_ok_def wins_ok_def bufs_ok_def lines_ok_def mirror_ok_def upd_pong_def upd_blobby_def)

lemma net_frame_arcade: "net_frame arcade_ok"
  using net_frame_keys by (auto simp: net_frame_def arcade_ok_def browser_ok_def set_info_def)

lemma arcade_ram: "arcade_ok s \<Longrightarrow> arcade_ok (s\<lparr>ram := m, dev := d\<rparr>)"
  by (rule preservesD [OF net_frame_hw [OF net_frame_arcade], of "modify (\<lambda>s. s\<lparr>ram := m, dev := d\<rparr>)", simplified])
    (auto simp: touches_hw_def)

lemma arcade_hw: "touches_hw c \<Longrightarrow> preserves arcade_ok c"
  by (rule net_frame_hw [OF net_frame_arcade])

lemma arcade_steps:
  "arcade_ok s \<Longrightarrow> arcade_ok (s\<lparr>cmd_status := t\<rparr>)" "arcade_ok s \<Longrightarrow> arcade_ok (s\<lparr>input_cooldown := n\<rparr>)"
  "arcade_ok s \<Longrightarrow> arcade_ok (s\<lparr>browser_view := i\<rparr>)" "arcade_ok s \<Longrightarrow> arcade_ok (s\<lparr>browser_state := i\<rparr>)"
  "arcade_ok s \<Longrightarrow> arcade_ok (s\<lparr>netcfg_state := i\<rparr>)"
  by (simp_all add: arcade_ok_def browser_ok_def)

lemma arcade_cooldown: "preserves arcade_ok (set_cooldown n)"
  unfolding set_cooldown_def by (intro preserves_modify arcade_steps)

lemma arcade_poke: "preserves arcade_ok (poke f)"
  by (intro arcade_hw touches_poke)

lemma arcade_button: "preserves arcade_ok (hover_button x y w tx t c d)"
  unfolding hover_button_def by (intro preserving arcade_poke)

lemma arcade_row: "preserves arcade_ok (input_row wx py rw b t i)"
  unfolding input_row_def by (intro preserving arcade_poke)

lemma arcade_url: "arcade_ok s \<Longrightarrow> arcade_ok (url_edit s)"
  using url_line.press_ok [of "(browser_url s, browser_url_idx s)" "last_app_key s"]
  by (auto simp: url_edit_def arcade_ok_def browser_ok_def split: prod.split)

lemma arcade_ip: "arcade_ok s \<Longrightarrow> arcade_ok (ip_edit s)"
  using ip_line.press_ok [of "(netcfg_ip s, netcfg_ip_idx s)" "last_app_key s"]
  by (auto simp: ip_edit_def arcade_ok_def browser_ok_def split: prod.split)

lemma arcade_content: "CHR 0x00 \<notin> set t \<Longrightarrow> length t \<le> 2001 \<Longrightarrow> preserves arcade_ok (set_content t)"
  "CHR 0x00 \<notin> set t \<Longrightarrow> length t \<le> 2001 \<Longrightarrow> preserves arcade_ok (set_netcfg t)"
  unfolding set_content_def set_netcfg_def
  by (intro preserves_modify; simp add: arcade_ok_def browser_ok_def page_put)+

lemma arcade_dots: "arcade_ok s \<Longrightarrow> arcade_ok (s\<lparr>browser_content := wait_dots (browser_content s)\<rparr>)"
  by (simp add: arcade_ok_def browser_ok_def page_dots)

lemma arcade_web: "preserves arcade_ok (web_view wx py ww wh b)"
  unfolding web_view_def set_status_def
  by (intro preserving arcade_row arcade_button arcade_poke arcade_cooldown arcade_content arcade_steps arcade_url arcade_dots)
    simp_all

lemma arcade_config: "preserves arcade_ok (config_view hw N wx py ww wh b)"
  unfolding config_view_def
  by (intro preserving arcade_row arcade_button arcade_poke arcade_cooldown arcade_content arcade_steps arcade_ip
      net_frame_send net_frame_arcade) simp_all

lemma run_browser_arcade: "preserves arcade_ok (run_browser_engine hw N wx wy ww wh b)"
  unfolding run_browser_engine_def by (intro preserving arcade_web arcade_config)

text \<open>In the configurator the text that is copied contains the address, of at most 15 characters.\<close>

lemma run_network_arcade: "preserves arcade_ok (run_network_configurator hw N wx wy ww wh b)"
proof -
  let ?t = "\<lambda>s. ''CONFIGURING NETWORK INTERFACE...\<newline>IP: '' @ c_str (netcfg_ip s) @
     ''\<newline>SUBNET: 255.255.255.0\<newline>GATEWAY: 192.168.14.14\<newline>\<newline>SENDING GRATUITOUS ARP PING...''"
  have ip: "length (c_str (netcfg_ip s)) \<le> 15" if "arcade_ok s" for s :: "('a, 'b) arcade_scheme"
    using that line_c_str [of 64 15 "(netcfg_ip s, netcfg_ip_idx s)"] line_length [of 64 15 "(netcfg_ip s, netcfg_ip_idx s)"]
    by (auto simp: arcade_ok_def browser_ok_def line_ok_def)
  have "preserves arcade_ok (do { ip \<leftarrow> gets (\<lambda>s. c_str (netcfg_ip s)); set_netcfg (''CONFIGURING NETWORK INTERFACE...\<newline>IP: '' @ ip @
         ''\<newline>SUBNET: 255.255.255.0\<newline>GATEWAY: 192.168.14.14\<newline>\<newline>SENDING GRATUITOUS ARP PING...''); f ip })"
    if f: "\<And>ip. preserves arcade_ok (f ip)" for f :: "string \<Rightarrow> (('a, 'b) arcade_scheme, unit) state"
    unfolding preserves_def
  proof (intro allI impI)
    fix s :: "('a, 'b) arcade_scheme"
    assume ok: "arcade_ok s"
    have "preserves arcade_ok (set_netcfg (?t s) :: (('a, 'b) arcade_scheme, unit) state)"
      using ip [OF ok] c_str_no_nul [of "netcfg_ip s"] by (intro arcade_content) simp_all
    then have "preserves arcade_ok (do { set_netcfg (?t s); f (c_str (netcfg_ip s)) })" by (intro preserving f)
    from preservesD [OF this ok]
    show "arcade_ok (snd (run_state (do { ip \<leftarrow> gets (\<lambda>s. c_str (netcfg_ip s)); set_netcfg (''CONFIGURING NETWORK INTERFACE...\<newline>IP: '' @ ip @
         ''\<newline>SUBNET: 255.255.255.0\<newline>GATEWAY: 192.168.14.14\<newline>\<newline>SENDING GRATUITOUS ARP PING...''); f ip }) s))"
      by simp
  qed
  note enter = this
  show ?thesis unfolding run_network_configurator_def
    by (intro preserves_let enter preserving arcade_row arcade_button arcade_poke arcade_cooldown arcade_steps arcade_ip
        net_frame_send net_frame_arcade)
qed

subsection \<open>The games keep their rules\<close>

lemma pong_settings:
  "pong_ok p \<Longrightarrow> v \<in> {0, 1} \<Longrightarrow> pong_ok (p\<lparr>pong_mode := v\<rparr>)"
  "pong_ok p \<Longrightarrow> v \<in> {0, 1, 2} \<Longrightarrow> pong_ok (p\<lparr>pong_diff := v\<rparr>)"
  "pong_ok p \<Longrightarrow> pong_ok (p\<lparr>pong_state := 0\<rparr>)" "pong_ok p \<Longrightarrow> pong_ok (pong_start W H p)"
  by (simp_all add: pong_ok_def pong_rules_def pong_speed_def pong_start_def)

lemma bv_settings:
  "bv_ok b \<Longrightarrow> v \<in> {0, 1} \<Longrightarrow> bv_ok (b\<lparr>bv_mode := v\<rparr>)"
  "bv_ok b \<Longrightarrow> v \<in> {0, 1, 2} \<Longrightarrow> bv_ok (b\<lparr>bv_diff := v\<rparr>)"
  "bv_ok b \<Longrightarrow> bv_ok (b\<lparr>bv_state := 0\<rparr>)" "bv_ok b \<Longrightarrow> bv_ok (bv_start W b)"
  by (simp_all add: bv_ok_def bv_rules_def bv_body_def bv_start_def bv_serve_def)

lemma upd_games [simp]:
  "pong_game (upd_pong f s) = f (pong_game s)" "blobby_game (upd_blobby g s) = g (blobby_game s)"
  "in_front i (upd_pong f s) = in_front i s" "in_front i (upd_blobby g s) = in_front i s"
  by (simp_all add: upd_pong_def upd_blobby_def in_front_def)

lemma arcade_pong: "arcade_ok s \<Longrightarrow> pong_ok (f (pong_game s)) \<Longrightarrow> arcade_ok (upd_pong f s)"
  by (simp add: arcade_ok_def) (simp add: browser_ok_def upd_pong_def)

lemma arcade_blobby: "arcade_ok s \<Longrightarrow> bv_ok (f (blobby_game s)) \<Longrightarrow> arcade_ok (upd_blobby f s)"
  by (simp add: arcade_ok_def) (simp add: browser_ok_def upd_blobby_def)

lemma arcade_games: "arcade_ok s \<Longrightarrow> pong_ok (pong_game s)" "arcade_ok s \<Longrightarrow> bv_ok (blobby_game s)"
  by (simp_all add: arcade_ok_def)

lemma arcade_centred: "preserves arcade_ok (centred x y t c)"
  unfolding centred_def by (rule arcade_poke)

lemma arcade_choice:
  assumes "\<And>s. arcade_ok s \<Longrightarrow> arcade_ok (upd v s)"
  shows "preserves arcade_ok (choice x y w tx label setting upd v)"
  unfolding choice_def by (intro preserving arcade_poke arcade_centred assms)

lemma arcade_menu:
  assumes "\<And>s v. arcade_ok s \<Longrightarrow> v \<in> {0, 1} \<Longrightarrow> arcade_ok (set_mode v s)"
    and "\<And>s v. arcade_ok s \<Longrightarrow> v \<in> {0, 1, 2} \<Longrightarrow> arcade_ok (set_diff v s)"
    and "\<And>s. arcade_ok s \<Longrightarrow> arcade_ok (start s)"
  shows "preserves arcade_ok (game_menu t h l mid py y mode set_mode diff set_diff start)"
  unfolding game_menu_def
  by (intro preserving arcade_poke arcade_centred arcade_choice arcade_cooldown assms; simp)

text \<open>From a state with one property to a state with another.\<close>

definition leads :: "('s \<Rightarrow> bool) \<Rightarrow> ('s \<Rightarrow> bool) \<Rightarrow> ('s, 'a) state \<Rightarrow> bool" where
  "leads P Q c \<longleftrightarrow> (\<forall>s. P s \<longrightarrow> Q (snd (run_state c s)))"

lemma leads_bind: "leads P R c \<Longrightarrow> (\<And>x. leads R Q (f x)) \<Longrightarrow> leads P Q (do { x \<leftarrow> c; f x })"
  by (auto simp: leads_def split: prod.split)

lemma leads_preserves: "preserves P c \<Longrightarrow> leads P P c"
  by (simp add: leads_def preserves_def)

lemma leadsD: "leads P Q c \<Longrightarrow> P s \<Longrightarrow> Q (snd (run_state c s))"
  by (simp add: leads_def)

lemma leads_after: "preserves P c \<Longrightarrow> (\<And>x. leads P Q (f x)) \<Longrightarrow> leads P Q (do { x \<leftarrow> c; f x })"
  by (rule leads_bind [OF leads_preserves])

lemma touches_sounds [hw_only]: "touches_hw (make_sounds hw ss)"
  unfolding make_sounds_def play_freq_def play_sound_def set_tone_def
  by (intro hw_only) (auto intro!: hw_only split: sound.split)

lemma pong_turn_run:
  "\<exists>m d. snd (run_state (pong_turn hw py ww H key) s) =
     (if in_front 11 s then upd_pong (\<lambda>_. snd (pong_frame ww H (mouse_y s - py) key (pong_game s))) (s\<lparr>ram := m, dev := d\<rparr>)
      else s\<lparr>ram := m, dev := d\<rparr>)"
proof -
  obtain ss p where f: "pong_frame ww H (mouse_y s - py) key (pong_game s) = (ss, p)" by fastforce
  obtain v m d where "run_state (make_sounds hw ss) s = (v, s\<lparr>ram := m, dev := d\<rparr>)"
    using touches_run [OF touches_sounds [of hw ss], of s] by blast
  then have "in_front 11 s \<Longrightarrow> snd (run_state (pong_turn hw py ww H key) s) = upd_pong (\<lambda>_. p) (s\<lparr>ram := m, dev := d\<rparr>)"
    using f by (simp add: pong_turn_def)
  moreover have "\<not> in_front 11 s \<Longrightarrow> snd (run_state (pong_turn hw py ww H key) s) = s\<lparr>ram := ram s, dev := dev s\<rparr>"
    by (simp add: pong_turn_def)
  ultimately show ?thesis using f
    by (cases "in_front 11 s") (intro exI [of _ m] exI [of _ d], simp, intro exI [of _ "ram s"] exI [of _ "dev s"], simp)
qed

lemma blobby_turn_run:
  "\<exists>m d. snd (run_state (blobby_turn hw wx ww F key) s) =
     (if in_front 12 s then upd_blobby (\<lambda>_. snd (bv_frame ww F (mouse_x s - wx) (mouse_just_pressed s) key (frame s) (blobby_game s)))
        (s\<lparr>ram := m, dev := d\<rparr>)
      else s\<lparr>ram := m, dev := d\<rparr>)"
proof -
  obtain ss p where f: "bv_frame ww F (mouse_x s - wx) (mouse_just_pressed s) key (frame s) (blobby_game s) = (ss, p)" by fastforce
  obtain v m d where "run_state (make_sounds hw ss) s = (v, s\<lparr>ram := m, dev := d\<rparr>)"
    using touches_run [OF touches_sounds [of hw ss], of s] by blast
  then have "in_front 12 s \<Longrightarrow> snd (run_state (blobby_turn hw wx ww F key) s) = upd_blobby (\<lambda>_. p) (s\<lparr>ram := m, dev := d\<rparr>)"
    using f by (simp add: blobby_turn_def)
  moreover have "\<not> in_front 12 s \<Longrightarrow> snd (run_state (blobby_turn hw wx ww F key) s) = s\<lparr>ram := ram s, dev := dev s\<rparr>"
    by (simp add: blobby_turn_def)
  ultimately show ?thesis using f
    by (cases "in_front 12 s") (intro exI [of _ m] exI [of _ d], simp, intro exI [of _ "ram s"] exI [of _ "dev s"], simp)
qed

text \<open>A game in play: the state from which a frame starts, whether or not its window is in front.\<close>

definition pong_live :: "bool \<Rightarrow> ('d, 'z) arcade_scheme \<Rightarrow> bool" where
  "pong_live front s \<longleftrightarrow> arcade_ok s \<and> pong_playable (pong_game s) \<and> (front \<longrightarrow> in_front 11 s)"

definition pong_done :: "bool \<Rightarrow> int \<Rightarrow> int \<Rightarrow> ('d, 'z) arcade_scheme \<Rightarrow> bool" where
  "pong_done front W H s \<longleftrightarrow> arcade_ok s \<and> (front \<longrightarrow> in_field W H (pong_game s))"

lemma live_poke: "preserves (pong_live front) (poke f)" "preserves (pong_done front W H) (poke f)"
proof -
  show "preserves (pong_live front) (poke f)" "preserves (pong_done front W H) (poke f)"
    by (intro preserves_hw touches_poke; simp add: pong_live_def pong_done_def in_front_def arcade_ram)+
qed

lemma pong_turn_leads:
  fixes hw :: "'d hw"
  assumes "0 \<le> W" "front \<Longrightarrow> 50 \<le> H"
  shows "leads (pong_live front :: ('d, 'z) arcade_scheme \<Rightarrow> bool) (pong_done front W H) (pong_turn hw py W H key)"
  unfolding leads_def
proof (intro allI impI)
  fix s :: "('d, 'z) arcade_scheme"
  assume live: "pong_live front s"
  obtain m d where run: "snd (run_state (pong_turn hw py W H key) s) =
     (if in_front 11 s then upd_pong (\<lambda>_. snd (pong_frame W H (mouse_y s - py) key (pong_game s))) (s\<lparr>ram := m, dev := d\<rparr>)
      else s\<lparr>ram := m, dev := d\<rparr>)" using pong_turn_run [of hw py W H key s] by blast
  have "arcade_ok (s\<lparr>ram := m, dev := d\<rparr>)" using live by (simp add: arcade_ram pong_live_def)
  moreover have "pong_ok (snd (pong_frame W H (mouse_y s - py) key (pong_game s)))"
    using live assms(1) by (intro pong_frame_ok) (simp_all add: pong_live_def)
  moreover have "front \<Longrightarrow> in_field W H (snd (pong_frame W H (mouse_y s - py) key (pong_game s)))"
    using assms by (intro pong_frame_field) simp_all
  ultimately show "pong_done front W H (snd (run_state (pong_turn hw py W H key) s))"
    using live run by (auto simp: pong_done_def pong_live_def arcade_pong)
qed

lemma pong_play_leads:
  fixes hw :: "'d hw"
  assumes "0 \<le> W" "front \<Longrightarrow> 50 \<le> H"
  shows "leads (pong_live front :: ('d, 'z) arcade_scheme \<Rightarrow> bool) (pong_done front W H) (pong_play hw wx py W H)"
proof -
  have esc: "pong_live front (upd_pong (\<lambda>p. p\<lparr>pong_state := 0\<rparr>) s)" if "pong_live front s" for s :: "('d, 'z) arcade_scheme"
    using that arcade_pong [of s "\<lambda>p. p\<lparr>pong_state := 0\<rparr>"] pong_settings(3) [of "pong_game s"]
    by (simp add: pong_live_def arcade_games pong_playable_def pong_rules_def pong_speed_def)
  show ?thesis unfolding pong_play_def draw_scores_def
    by (intro leads_after leads_bind [OF pong_turn_leads [OF assms]] leads_preserves preserving live_poke esc; assumption?)
qed

lemma run_pong_leads:
  fixes hw :: "'d hw"
  assumes "0 \<le> ww"
  shows "preserves (arcade_ok :: ('d, 'z) arcade_scheme \<Rightarrow> bool) (run_pong_engine hw wx wy ww wh blocked)"
    "\<And>s :: ('d, 'z) arcade_scheme. arcade_ok s \<Longrightarrow> pong_state (pong_game s) = 1 \<Longrightarrow> in_front 11 s \<Longrightarrow> 90 \<le> wh
      \<Longrightarrow> pong_done True ww (wh - 40) (snd (run_state (run_pong_engine hw wx wy ww wh blocked) s))"
proof -
  have menu: "preserves arcade_ok (game_menu t h l mid py y
      (\<lambda>s :: ('d, 'z) arcade_scheme. pong_mode (pong_game s)) (\<lambda>v. upd_pong (\<lambda>p. p\<lparr>pong_mode := v\<rparr>))
      (\<lambda>s. pong_diff (pong_game s)) (\<lambda>v. upd_pong (\<lambda>p. p\<lparr>pong_diff := v\<rparr>)) (upd_pong (pong_start W H)))" for t h l mid py y W H
    by (intro arcade_menu arcade_pong pong_settings arcade_games; assumption)
  have live: "pong_live front s" if "arcade_ok s" "pong_state (pong_game s) = 1" "front \<longrightarrow> in_front 11 s"
    for s :: "('d, 'z) arcade_scheme" and front
    using that arcade_games(1) [of s] by (simp add: pong_live_def pong_playable_def pong_ok_def)
  have play: "run_state (run_pong_engine hw wx wy ww wh blocked) s = run_state (pong_play hw wx (wy + 40) ww (wh - 40)) s"
    if "pong_state (pong_game s) = 1" for s :: "('d, 'z) arcade_scheme"
    using that by (simp add: run_pong_engine_def Let_def)
  show "pong_done True ww (wh - 40) (snd (run_state (run_pong_engine hw wx wy ww wh blocked) s))"
    if "arcade_ok s" "pong_state (pong_game s) = 1" "in_front 11 s" "90 \<le> wh" for s :: "('d, 'z) arcade_scheme"
    unfolding play [OF that(2)] by (rule leadsD [OF pong_play_leads]) (use assms that live [of s True] in simp_all)
  show "preserves (arcade_ok :: ('d, 'z) arcade_scheme \<Rightarrow> bool) (run_pong_engine hw wx wy ww wh blocked)"
    unfolding preserves_def
  proof (intro allI impI)
    fix s :: "('d, 'z) arcade_scheme"
    assume ok: "arcade_ok s"
    then have "pong_state (pong_game s) \<in> {0, 1, 2}" using arcade_games(1) [OF ok] by (simp add: pong_ok_def pong_rules_def)
    then consider "pong_state (pong_game s) = 0" | "pong_state (pong_game s) = 1" | "pong_state (pong_game s) = 2" by auto
    then show "arcade_ok (snd (run_state (run_pong_engine hw wx wy ww wh blocked) s))"
    proof cases
      case 1
      then show ?thesis using preservesD [OF menu ok] by (simp add: run_pong_engine_def Let_def)
    next
      case 2
      have "pong_done False ww (wh - 40) (snd (run_state (run_pong_engine hw wx wy ww wh blocked) s))"
        unfolding play [OF 2] by (rule leadsD [OF pong_play_leads]) (use assms live [of s False] ok 2 in simp_all)
      then show ?thesis by (simp add: pong_done_def)
    next
      case 3
      have "preserves arcade_ok (do {
        s1 \<leftarrow> gets (\<lambda>s :: ('d, 'z) arcade_scheme. pong_score1 (pong_game s));
        centred (wx + c_div ww 2) (wy + 40 + 80) (winner s1) 0x00FF00;
        centred (wx + c_div ww 2) (wy + 40 + 140) ''CLICK TO RETURN TO MENU'' 0xFFFFFF;
        leave \<leftarrow> gets (\<lambda>s. \<not> blocked \<and> pressed_on wx (wy + 40) ww (wh - 40) s);
        when_m leave (do { modify (upd_pong (\<lambda>p. p\<lparr>pong_state := 0\<rparr>)); set_cooldown 10 })
      })"
        by (intro preserving arcade_centred arcade_cooldown arcade_pong pong_settings arcade_games; assumption)
      from preservesD [OF this ok] show ?thesis using 3 by (simp add: run_pong_engine_def Let_def)
    qed
  qed
qed

definition bv_live :: "bool \<Rightarrow> int \<Rightarrow> ('d, 'z) arcade_scheme \<Rightarrow> bool" where
  "bv_live front F s \<longleftrightarrow> arcade_ok s \<and> bv_playable (blobby_game s) \<and> (front \<longrightarrow> in_front 12 s \<and> jumps_ok F (blobby_game s))"

definition bv_done :: "bool \<Rightarrow> int \<Rightarrow> int \<Rightarrow> ('d, 'z) arcade_scheme \<Rightarrow> bool" where
  "bv_done front W F s \<longleftrightarrow> arcade_ok s \<and> (front \<longrightarrow> on_court W F (blobby_game s) \<and> jumps_ok F (blobby_game s))"

lemma bv_live_poke: "preserves (bv_live front F) (poke f)" "preserves (bv_done front W F) (poke f)"
  by (intro preserves_hw touches_poke; simp add: bv_live_def bv_done_def in_front_def arcade_ram)+

lemma blobby_turn_leads:
  fixes hw :: "'d hw"
  assumes "front \<Longrightarrow> 110 \<le> W" "30 \<le> F"
  shows "leads (bv_live front F :: ('d, 'z) arcade_scheme \<Rightarrow> bool) (bv_done front W F) (blobby_turn hw wx W F key)"
  unfolding leads_def
proof (intro allI impI)
  fix s :: "('d, 'z) arcade_scheme"
  assume live: "bv_live front F s"
  let ?b = "snd (bv_frame W F (mouse_x s - wx) (mouse_just_pressed s) key (frame s) (blobby_game s))"
  obtain m d where run: "snd (run_state (blobby_turn hw wx W F key) s) =
     (if in_front 12 s then upd_blobby (\<lambda>_. ?b) (s\<lparr>ram := m, dev := d\<rparr>) else s\<lparr>ram := m, dev := d\<rparr>)"
    using blobby_turn_run [of hw wx W F key s] by blast
  have "arcade_ok (s\<lparr>ram := m, dev := d\<rparr>)" using live by (simp add: arcade_ram bv_live_def)
  moreover have "bv_ok ?b" using live assms by (intro bv_frame_ok) (simp_all add: bv_live_def)
  moreover have "front \<Longrightarrow> on_court W F ?b"
    using live assms by (intro bv_frame_court) (simp_all add: bv_live_def bv_playable_def bv_rules_def)
  moreover have "front \<Longrightarrow> jumps_ok F ?b" using live by (intro bv_frame_jumps) (simp add: bv_live_def)
  ultimately show "bv_done front W F (snd (run_state (blobby_turn hw wx W F key) s))"
    using live run by (auto simp: bv_done_def bv_live_def arcade_blobby)
qed

lemma blobby_play_leads:
  fixes hw :: "'d hw"
  assumes "front \<Longrightarrow> 110 \<le> W" "50 \<le> H"
  shows "leads (bv_live front (H - 20) :: ('d, 'z) arcade_scheme \<Rightarrow> bool) (bv_done front W (H - 20)) (blobby_play hw wx py W H)"
proof -
  have esc: "bv_live front F (upd_blobby (\<lambda>b. b\<lparr>bv_state := 0\<rparr>) s)" if "bv_live front F s" for s :: "('d, 'z) arcade_scheme" and F
    using that arcade_blobby [of s "\<lambda>b. b\<lparr>bv_state := 0\<rparr>"] bv_settings(3) [of "blobby_game s"]
    by (simp add: bv_live_def arcade_games bv_playable_def bv_rules_def bv_body_def jumps_ok_def)
  have "30 \<le> H - 20" using assms(2) by simp
  note turn = blobby_turn_leads [OF assms(1) this]
  show ?thesis unfolding blobby_play_def draw_scores_def draw_blob_def draw_eye_def Let_def
    by (intro leads_after leads_bind [OF turn] leads_preserves preserving bv_live_poke esc; assumption?)
qed

lemma run_blobby_leads:
  fixes hw :: "'d hw"
  assumes "90 \<le> wh"
  shows "preserves (arcade_ok :: ('d, 'z) arcade_scheme \<Rightarrow> bool) (run_blobby_engine hw wx wy ww wh blocked)"
    "\<And>s :: ('d, 'z) arcade_scheme. arcade_ok s \<Longrightarrow> bv_state (blobby_game s) = 1 \<Longrightarrow> in_front 12 s \<Longrightarrow> 110 \<le> ww
      \<Longrightarrow> jumps_ok (wh - 60) (blobby_game s) \<Longrightarrow> bv_done True ww (wh - 60) (snd (run_state (run_blobby_engine hw wx wy ww wh blocked) s))"
proof -
  have menu: "preserves arcade_ok (game_menu t h l mid py y
      (\<lambda>s :: ('d, 'z) arcade_scheme. bv_mode (blobby_game s)) (\<lambda>v. upd_blobby (\<lambda>b. b\<lparr>bv_mode := v\<rparr>))
      (\<lambda>s. bv_diff (blobby_game s)) (\<lambda>v. upd_blobby (\<lambda>b. b\<lparr>bv_diff := v\<rparr>)) (upd_blobby (bv_start W)))" for t h l mid py y W
    by (intro arcade_menu arcade_blobby bv_settings arcade_games; assumption)
  have live: "bv_live front F s" if "arcade_ok s" "bv_state (blobby_game s) = 1" "front \<longrightarrow> in_front 12 s \<and> jumps_ok F (blobby_game s)"
    for s :: "('d, 'z) arcade_scheme" and front F
    using that arcade_games(2) [of s] by (simp add: bv_live_def bv_playable_def bv_ok_def)
  have play: "run_state (run_blobby_engine hw wx wy ww wh blocked) s = run_state (blobby_play hw wx (wy + 40) ww (wh - 40)) s"
    if "bv_state (blobby_game s) = 1" for s :: "('d, 'z) arcade_scheme"
    using that by (simp add: run_blobby_engine_def Let_def)
  show "bv_done True ww (wh - 60) (snd (run_state (run_blobby_engine hw wx wy ww wh blocked) s))"
    if "arcade_ok s" "bv_state (blobby_game s) = 1" "in_front 12 s" "110 \<le> ww" "jumps_ok (wh - 60) (blobby_game s)" for s :: "('d, 'z) arcade_scheme"
    unfolding play [OF that(2)]
    using leadsD [OF blobby_play_leads [of True ww "wh - 40"] live [of s True "wh - 40 - 20"], of hw wx "wy + 40"] assms that by simp
  show "preserves (arcade_ok :: ('d, 'z) arcade_scheme \<Rightarrow> bool) (run_blobby_engine hw wx wy ww wh blocked)"
    unfolding preserves_def
  proof (intro allI impI)
    fix s :: "('d, 'z) arcade_scheme"
    assume ok: "arcade_ok s"
    then have "bv_state (blobby_game s) \<in> {0, 1, 2}" using arcade_games(2) [OF ok] by (simp add: bv_ok_def bv_rules_def bv_body_def)
    then consider "bv_state (blobby_game s) = 0" | "bv_state (blobby_game s) = 1" | "bv_state (blobby_game s) = 2" by auto
    then show "arcade_ok (snd (run_state (run_blobby_engine hw wx wy ww wh blocked) s))"
    proof cases
      case 1
      then show ?thesis using preservesD [OF menu ok] by (simp add: run_blobby_engine_def Let_def)
    next
      case 2
      have "bv_done False ww (wh - 40 - 20) (snd (run_state (run_blobby_engine hw wx wy ww wh blocked) s))"
        unfolding play [OF 2] by (rule leadsD [OF blobby_play_leads]) (use assms live [of s False] ok 2 in simp_all)
      then show ?thesis by (simp add: bv_done_def)
    next
      case 3
      let ?mid = "wx + c_div ww 2"
      have "preserves arcade_ok (do {
        s1 \<leftarrow> gets (\<lambda>s :: ('d, 'z) arcade_scheme. bv_score1 (blobby_game s));
        centred ?mid (wy + 40 + 80) (winner s1) 0x00FF00;
        poke (DrawRoundedRect (?mid - 50) (wy + 40 + 140) 100 30 3 0x555555);
        centred ?mid (wy + 40 + 148) ''MENU'' 0xFFFFFF;
        leave \<leftarrow> gets (\<lambda>s. \<not> blocked \<and> pressed_on (?mid - 50) (wy + 40 + 140) 100 30 s);
        when_m leave (do { modify (upd_blobby (\<lambda>b. b\<lparr>bv_state := 0\<rparr>)); set_cooldown 10 })
      })"
        by (intro preserving arcade_centred arcade_poke arcade_cooldown arcade_blobby bv_settings arcade_games; assumption)
      from preservesD [OF this ok] show ?thesis using 3 by (simp add: run_blobby_engine_def Let_def)
    qed
  qed
qed

subsection \<open>The input half of a frame does not touch the applications\<close>

lemma apps_more:
  fixes s t :: "('d, 'z) arcade_scheme"
  assumes "keys.more s = keys.more t"
  shows "browser_ok s = browser_ok t" "pong_game s = pong_game t" "blobby_game s = blobby_game t"
  using assms by (cases s; cases t; simp add: browser_ok_def)+

lemma input_part_arcade: "preserves arcade_ok (input_part hw N I)"
  unfolding preserves_def
proof (intro allI impI)
  fix s :: "('a, 'b) arcade_scheme"
  assume ok: "arcade_ok s"
  let ?t = "snd (run_state (input_part hw N I) s)"
  have "keys.more ?t = keys.more s" by (rule preservesD [OF input_part_more]) simp
  moreover have "keys_ok ?t" using ok by (intro preservesD [OF input_part_keys]) (simp add: arcade_ok_def)
  ultimately show "arcade_ok ?t" using ok by (simp add: arcade_ok_def apps_more [of ?t s])
qed

subsection \<open>The launcher\<close>

definition opened :: "nat \<Rightarrow> ('d, 'z) desk_scheme \<Rightarrow> ('d, 'z) desk_scheme" where
  "opened i s = (upd_window i (\<lambda>w. w\<lparr>win_open := True, win_minimized := False\<rparr>) s)\<lparr>win_z := focus_window i (win_z s)\<rparr>"

lemma arcade_opened:
  assumes "arcade_ok s"
  shows "arcade_ok (opened i s)"
proof -
  have k: "keys_ok s" using assms by (simp add: arcade_ok_def)
  then have "keys_ok (upd_window i (\<lambda>w. w\<lparr>win_open := True, win_minimized := False\<rparr>) s)"
    by (rule upd_window_ok) (simp add: win_ok_def)
  moreover have "z_ok (focus_window i (win_z s))"
    using k by (intro focus_window_keeps) (simp add: keys_ok_def desk_ok_def wins_ok_def)
  ultimately have "keys_ok (opened i s)"
    by (simp add: opened_def keys_ok_def desk_ok_def wins_ok_def mouse_ok_def bufs_ok_def)
  then show ?thesis using assms by (simp add: arcade_ok_def) (simp add: opened_def browser_ok_def upd_window_def)
qed

lemma in_front_opened:
  assumes "arcade_ok s" "i < 13"
  shows "in_front i (opened i s)"
proof -
  have z: "z_ok (win_z s)" using assms(1) by (simp add: arcade_ok_def keys_ok_def desk_ok_def wins_ok_def)
  have "focus_window i (win_z s) = filter (\<lambda>w. w \<noteq> i) (win_z s) @ [i]" using focus_window_lemma(1) [OF z] assms(2) by simp
  moreover have "length (focus_window i (win_z s)) = 13" using focus_window_keeps [OF z] by (simp add: z_ok_def)
  ultimately have "focus_window i (win_z s) ! 12 = i" by (simp add: nth_append)
  then show ?thesis by (simp add: in_front_def opened_def)
qed

lemma open_app_arcade: "preserves arcade_ok (open_app i)"
  unfolding open_app_def using arcade_opened [of _ i] by (intro preserves_modify) (simp add: opened_def)

lemma arcade_launch: "preserves arcade_ok launch \<Longrightarrow> preserves arcade_ok (launch_button x y w c tx label tc blocked launch)"
  unfolding launch_button_def by (intro preserving arcade_poke arcade_centred arcade_cooldown)

lemma arcade_title: "arcade_ok s \<Longrightarrow> arcade_ok (upd_window k (\<lambda>w. w\<lparr>win_title := t\<rparr>) s)"
  using upd_window_ok [of s "\<lambda>w. w\<lparr>win_title := t\<rparr>" k]
  by (simp add: arcade_ok_def win_ok_def) (simp add: browser_ok_def upd_window_def)

lemma launcher_arcade: "preserves arcade_ok (app_launcher wx wy ww blocked)"
  unfolding app_launcher_def
  by (intro preserving arcade_centred arcade_launch open_app_arcade arcade_pong arcade_blobby arcade_title pong_settings
      bv_settings arcade_games; assumption?)

subsection \<open>The games on a running kernel\<close>

text \<open>The applications as the kernel starts.\<close>

definition start_arcade :: "ref_disk arcade" where
  "start_arcade = terminal.extend start_terminal
     (arcade.fields 0 0 (put_str ''142.251.127.138'' (replicate 64 (CHR 0x00))) 15
       (put_str ''WELCOME TO COSMOS WEB EXPLORER...\<newline>\<newline>ENTER IP TO SEND HTTP GET REQUEST.'' (replicate 2048 (CHR 0x00)))
       0 (put_str ''192.168.14.100'' (replicate 64 (CHR 0x00))) 14
       (put_str ''LAN PARTY MODE: STATIC IP CONFIGURATION\<newline>\<newline>ENTER DESIRED IP AND PRESS APP TO SET YOUR MACHINE IP.''
         (replicate 2048 (CHR 0x00))) new_pong new_blobby)"

lemmas start_arcade_defs = start_arcade_def terminal.defs arcade.defs

lemma start_arcade_ok: "arcade_ok start_arcade"
proof -
  have "keys_ok start_arcade = keys_ok start_terminal" "keys_ok start_terminal = keys_ok start_keys"
    by (simp_all add: keys_ok_def desk_ok_def mouse_ok_def wins_ok_def bufs_ok_def lines_ok_def mirror_ok_def
        start_arcade_defs start_terminal_def keys.defs)
  moreover have "browser_ok start_arcade"
    by (simp add: browser_ok_def start_arcade_defs page_ok_def c_str_def line_ok_def line_text_def put_str_def)
  moreover have "pong_ok new_pong" "bv_ok new_blobby"
    by (simp_all add: new_pong_def pong_ok_def pong_rules_def pong_speed_def new_blobby_def bv_ok_def bv_rules_def bv_body_def)
  ultimately show ?thesis using start_keys_ok by (simp add: arcade_ok_def) (simp add: start_arcade_defs)
qed

text \<open>
  Property C17. Pong stays in its field: whatever happened before (the window may have been
  resized), after a frame of play the ball and both paddles are inside the window, the speed of
  the ball is between 5 and 14, no score exceeds 10 and the game is over exactly when one
  player has 10.
\<close>

theorem pong_stays_in_field:
  fixes s :: "('d, 'z) arcade_scheme"
  assumes "arcade_ok s" "pong_state (pong_game s) = 1" "in_front 11 s" "90 \<le> wh" "0 \<le> ww"
  shows "let p = pong_game (snd (run_state (run_pong_engine hw wx wy ww wh blocked) s)) in
    in_field ww (wh - 40) p \<and> pong_ok p"
  using run_pong_leads(2) [OF assms(5,1,2,3,4), of hw wx wy blocked] by (simp add: pong_done_def arcade_games Let_def)

theorem pong_stays_in_field_witness:
  "in_field 450 260 (pong_game (snd (run_state (run_pong_engine null_hw 200 150 450 300 False)
     (upd_pong (pong_start 450 260) (opened 11 start_arcade)))))"
proof -
  let ?s = "upd_pong (pong_start 450 260) (opened 11 start_arcade)"
  have o: "arcade_ok (opened 11 start_arcade)" by (rule arcade_opened [OF start_arcade_ok])
  have "arcade_ok ?s" by (intro arcade_pong o pong_settings arcade_games)
  moreover have "in_front 11 ?s" using in_front_opened [OF start_arcade_ok, of 11] by simp
  ultimately show ?thesis
    using pong_stays_in_field [of ?s 300 450 null_hw 200 150 False] by (simp add: pong_start_def Let_def)
qed



end
