(* ===== verification/Scene.thy ===== *)
theory Scene
  imports Arcade
begin

text \<open>
  The background of the desktop (\<open>kernel_main.cpp\<close>, lines 1621 to 1629, 1666 to 1672 and 1901 to
  2034): the flight through the stars, the galaxy that opens with a click on the sun, the clock,
  and the planets that open windows.
\<close>

subsection \<open>State\<close>

record star =
  st_x :: int
  st_y :: int
  st_z :: int
  st_type :: int
  st_speed :: int

record planet =
  pl_ang :: int
  pl_dist :: int
  pl_name :: string
  pl_cur_x :: int
  pl_cur_y :: int

record 'd scene = "'d arcade" +
  stars :: "star list"
  planets :: "planet list"
  galaxy_open :: bool
  galaxy_expansion :: int

definition v_cx :: int where "v_cx = 400"
definition v_cy :: int where "v_cy = 300"

subsection \<open>Stars\<close>

text \<open>A random number below \<open>n\<close>.\<close>

definition below :: "u32 \<Rightarrow> (('d, 'z) net_scheme, int) state" where
  "below n = do { r \<leftarrow> random; State_Monad.return (uint (r mod n)) }"

definition init_star :: "(('d, 'z) scene_scheme, star) state" where
  "init_star = do {
     x \<leftarrow> below 1599; y \<leftarrow> below 1199; z \<leftarrow> below 1000; t \<leftarrow> below 1000; v \<leftarrow> below 6;
     State_Monad.return \<lparr>st_x = x - 799, st_y = y - 599, st_z = z + 1, st_type = t, st_speed = v + 4\<rparr>
   }"

definition init_stars :: "(('d, 'z) scene_scheme, unit) state" where
  "init_stars = for_m [0..<200] (\<lambda>i. do { s \<leftarrow> init_star; modify (\<lambda>st. st\<lparr>stars := (stars st)[i := s]\<rparr>) })"

definition respawn :: "(('d, 'z) scene_scheme, star) state" where
  "respawn = do {
     x \<leftarrow> below 1599; y \<leftarrow> below 1199; t \<leftarrow> below 1000; v \<leftarrow> below 10;
     State_Monad.return \<lparr>st_x = x - 799, st_y = y - 599, st_z = 1000, st_type = t, st_speed = v + 8\<rparr>
   }"

definition star_fly :: "star \<Rightarrow> star" where
  "star_fly s = s\<lparr>st_z := st_z s -
     (if st_type s \<ge> 995 then 1 else if st_type s \<ge> 980 then st_speed s
      else if st_type s \<ge> 950 then st_speed s + 4 else st_speed s)\<rparr>"

text \<open>Where a star is seen, \<open>d\<close> steps behind its place.\<close>

definition star_at :: "int \<Rightarrow> star \<Rightarrow> int \<times> int" where
  "star_at d s = (v_cx + c_div (st_x s * 256) (st_z s + d), v_cy + c_div (st_y s * 256) (st_z s + d))"

definition put_at :: "int \<times> int \<Rightarrow> u32 \<Rightarrow> mem \<Rightarrow> mem" where
  "put_at p c = Put (fst p) (snd p) c"

text \<open>The rocks (types 980 to 994) and the spiral galaxies (from 995).\<close>

definition rock_grey :: "int \<Rightarrow> int \<Rightarrow> int \<Rightarrow> int \<Rightarrow> int \<Rightarrow> int" where
  "rock_grey r focus_x focus_y x y =
     (let noise = ((x + r) * 17 + (y + r) * 31) mod 40; lx = x + focus_x; ly = y + focus_y;
          l_dist = int_sqrt (lx * lx + ly * ly);
          diffuse = 30 + (if l_dist < r then 225 - c_div (l_dist * 225) r else 0);
          gray = c_div ((50 + noise) * diffuse) 256
      in if gray > 255 then 255 else gray)"

definition draw_rock :: "int \<Rightarrow> int \<Rightarrow> int \<Rightarrow> mem \<Rightarrow> mem" where
  "draw_rock r sx sy =
     (let focus_x = c_div ((sx - v_cx) * r) 400; focus_y = c_div ((sy - v_cy) * r) 300 in
      for_xy [- r..r] [- r..r] (\<lambda>x y m. if x * x + y * y \<le> r * r
        then (let g = rock_grey r focus_x focus_y x y in Put (sx + x) (sy + y) (rgb g (c_div (g * 9) 10) (c_div (g * 8) 10)) m)
        else m))"

definition spiral_arm :: "int \<Rightarrow> int \<Rightarrow> int \<Rightarrow> int \<Rightarrow> u32 \<Rightarrow> mem \<Rightarrow> mem" where
  "spiral_arm sx sy ang dist c = PutAlpha (sx + c_div (Cos ang * dist) 84) (sy + c_div (c_div (Sin ang * dist * 3) 4) 84) c"

definition draw_spiral :: "u32 \<Rightarrow> int \<Rightarrow> int \<Rightarrow> int \<Rightarrow> mem \<Rightarrow> mem" where
  "draw_spiral fr r sx sy m = Put sx sy 0xFFFFFF (fold (\<lambda>j m.
     let ang1 = uint ((of_nat (j * 15) + fr div 3) mod 256); dist = c_div (int j * r) 30; ang2 = (ang1 + 128) mod 256 in
     spiral_arm sx sy ang2 dist 0x2288AA (spiral_arm sx sy ang1 dist 0xAA22AA m)) [0..<30] m)"

text \<open>
  A star of type \<open>t\<close>; a type is drawn as it was before the star came back. The pulse of the blue
  stars is taken from the table at a place that depends on the number of the star.
\<close>

definition draw_star :: "nat \<Rightarrow> int \<Rightarrow> u32 \<Rightarrow> star \<Rightarrow> mem \<Rightarrow> mem" where
  "draw_star i t fr s m =
     (let (sx, sy) = star_at 0 s in
      if off_screen sx sy then m
      else if t < 900 then
        (let v = 255 - c_div (st_z s) 4; v = (if v < 0 then 0 else if v > 255 then 255 else v) in Put sx sy (rgb v v v) m)
      else if t < 950 then
        (let p = c_div (Sin (sint (fr * 5 + of_nat i)) + 256) 2; p = (if p > 255 then 255 else p) in Put sx sy (rgb p p 255) m)
      else if t < 980 then put_at (star_at 40 s) 0xAA0000 (put_at (star_at 20 s) 0xFF8800 (Put sx sy 0xFFFFFF m))
      else if t < 995 then (let r = c_div 3000 (st_z s) in if 0 < r \<and> r < 40 then draw_rock r sx sy m else m)
      else (let r = c_div 6000 (st_z s) in if 0 < r \<and> r < 60 then draw_spiral fr r sx sy m else m))"

definition star_step :: "nat \<Rightarrow> (('d, 'z) scene_scheme, unit) state" where
  "star_step i = do {
     old \<leftarrow> gets (\<lambda>st. stars st ! i);
     let s = star_fly old;
     s \<leftarrow> (if st_z s \<le> 0 then respawn else State_Monad.return s);
     modify (\<lambda>st. st\<lparr>stars := (stars st)[i := s]\<rparr>);
     fr \<leftarrow> gets frame;
     poke (draw_star i (st_type old) fr s)
   }"

subsection \<open>Galaxy, sun and clock\<close>

definition galaxy_click :: "('d, 'z) scene_scheme \<Rightarrow> ('d, 'z) scene_scheme" where
  "galaxy_click s =
     (if \<not> z_blocked s \<and> mouse_just_pressed s \<and> \<not> click_consumed s \<and> is_over False (mouse_x s) (mouse_y s) v_cx v_cy 50
      then s\<lparr>galaxy_open := \<not> galaxy_open s, click_consumed := True\<rparr> else s)"

definition galaxy_grow :: "('d, 'z) scene_scheme \<Rightarrow> ('d, 'z) scene_scheme" where
  "galaxy_grow s =
     (let e = galaxy_expansion s; e = (if galaxy_open s \<and> e < 320 then e + 24 else e);
          e = (if \<not> galaxy_open s \<and> e > 0 then e - 30 else e)
      in s\<lparr>galaxy_expansion := e\<rparr>)"

definition two_digits :: "nat \<Rightarrow> string" where
  "two_digits n = [char_of (48 + n div 10), char_of (48 + n mod 10)]"

definition clock_text :: "('d, 'z) desk_scheme \<Rightarrow> string" where
  "clock_text s = two_digits (rtc_h s) @ '':'' @ two_digits (rtc_m s)"

definition date_text :: "('d, 'z) desk_scheme \<Rightarrow> string" where
  "date_text s = two_digits (rtc_day s) @ ''.'' @ two_digits (rtc_mon s) @ ''.20'' @ two_digits (rtc_year s mod 100)"

definition draw_sun :: "(('d, 'z) scene_scheme, unit) state" where
  "draw_sun = do {
     fr \<leftarrow> gets frame;
     e \<leftarrow> gets galaxy_expansion;
     poke (os2_DrawDenseGalaxy fr v_cx v_cy e);
     poke (DrawGoldenSun v_cx v_cy 50);
     centred v_cx (v_cy - 15) ''COSMOS'' 0;
     centred v_cx (v_cy + 5) ''SYSTEM'' 0;
     ts \<leftarrow> gets clock_text;
     centred v_cx (v_cy + 20) ts 0;
     ds \<leftarrow> gets date_text;
     centred v_cx (v_cy + 35) ds 0
   }"

subsection \<open>Planets\<close>

definition map_ids :: "nat list" where "map_ids = [0, 1, 3, 4, 5]"

definition orbit :: "int \<Rightarrow> int \<Rightarrow> int \<times> int" where
  "orbit ang dist = (v_cx + c_div (Cos ang * dist) 84, v_cy + c_div (c_div (Sin ang * dist * 3) 4) 84)"

text \<open>A planet without a window flies out while the galaxy is open and back while it is not.\<close>

definition planet_fly :: "nat \<Rightarrow> int \<Rightarrow> u32 \<Rightarrow> planet \<Rightarrow> planet" where
  "planet_fly i e fr p =
     (if e \<ge> 100 then
        (let p = (if pl_dist p < 60 + int i * 50 then p\<lparr>pl_dist := pl_dist p + 6\<rparr> else p) in
         if pl_dist p > 50 \<and> fr mod 3 = 0 then p\<lparr>pl_ang := (pl_ang p + 1) mod 256\<rparr> else p)
      else if pl_dist p > 10 then p\<lparr>pl_dist := pl_dist p - 15\<rparr> else p)"

definition planet_target :: "nat \<Rightarrow> window \<Rightarrow> planet \<Rightarrow> int \<times> int" where
  "planet_target i w p = (if win_minimized w then (250 + int i * 70, 560)
     else if win_open w then orbit (pl_ang p) (60 + int i * 50) else orbit (pl_ang p) (pl_dist p))"

definition planet_move :: "nat \<Rightarrow> window \<Rightarrow> int \<Rightarrow> u32 \<Rightarrow> planet \<Rightarrow> planet" where
  "planet_move i w e fr p =
     (let p = (if win_minimized w \<or> win_open w then p else planet_fly i e fr p); (tx, ty) = planet_target i w p in
      p\<lparr>pl_cur_x := pl_cur_x p + c_div (tx - pl_cur_x p) 2, pl_cur_y := pl_cur_y p + c_div (ty - pl_cur_y p) 2\<rparr>)"

definition planet_base :: "nat \<Rightarrow> u32" where
  "planet_base i = (if i = 0 then 0xA05566 else if i = 1 then 0x44AA88 else if i = 2 then 0x6677CC
     else if i = 3 then 0xCC9955 else if i = 4 then 0x8899AA else 0x888888)"

definition brighter :: "u32 \<Rightarrow> u32" where
  "brighter c = rgb (cap255 (chan_r c + 40)) (cap255 (chan_g c + 40)) (cap255 (chan_b c + 40))"

definition draw_planet :: "nat \<Rightarrow> planet \<Rightarrow> bool \<Rightarrow> bool \<Rightarrow> mem \<Rightarrow> mem" where
  "draw_planet i p lit moons m =
     (let x = pl_cur_x p; y = pl_cur_y p;
          m = (if lit then DrawOrganicPlanet x y 22 (brighter (planet_base i)) m else DrawOrganicPlanet x y 20 (planet_base i) m);
          m = (if moons then DrawOrganicPlanet (x + 30) y 5 0x8899AA (DrawOrganicPlanet (x - 30) y 5 0x8899AA m) else m)
      in os2_TextC x (y - 4) (pl_name p) 0xFFFFFF True m)"

definition planet_click :: "nat \<Rightarrow> ('d, 'z) scene_scheme \<Rightarrow> ('d, 'z) scene_scheme" where
  "planet_click k s =
     (let s = (if win_minimized (windows s ! k) then upd_window k (\<lambda>w. w\<lparr>win_minimized := False\<rparr>) s
               else (upd_window k (\<lambda>w. w\<lparr>win_open := True\<rparr>) s)\<lparr>win_z := focus_window (win_id (windows s ! k)) (win_z s)\<rparr>)
      in s\<lparr>click_consumed := True\<rparr>)"

definition planet_step :: "nat \<Rightarrow> (('d, 'z) scene_scheme, unit) state" where
  "planet_step i = do {
     let k = map_ids ! i;
     w \<leftarrow> gets (\<lambda>s. windows s ! k);
     e \<leftarrow> gets galaxy_expansion;
     fr \<leftarrow> gets frame;
     modify (\<lambda>s. s\<lparr>planets := (planets s)[i := planet_move i w e fr (planets s ! i)]\<rparr>);
     when_m (e > 10 \<or> win_minimized w \<or> win_open w) (do {
       p \<leftarrow> gets (\<lambda>s. planets s ! i);
       hov \<leftarrow> gets (\<lambda>s. is_over False (mouse_x s) (mouse_y s) (pl_cur_x p) (pl_cur_y p) 20);
       blocked \<leftarrow> gets z_blocked;
       poke (draw_planet i p (hov \<and> \<not> blocked) (\<not> win_minimized w \<and> win_open w));
       modify (\<lambda>s. if \<not> z_blocked s \<and> mouse_just_pressed s \<and> \<not> click_consumed s \<and> hov then planet_click k s else s)
     })
   }"

subsection \<open>The background of a frame\<close>

definition draw_scene :: "(('d, 'z) scene_scheme, unit) state" where
  "draw_scene = do {
     poke Clear;
     for_m [0..<200] star_step;
     modify galaxy_click;
     modify galaxy_grow;
     draw_sun;
     for_m [0..<5] planet_step
   }"

definition init_planet :: "nat \<Rightarrow> planet" where
  "init_planet i = \<lparr>pl_ang = [213, 0, 42, 85, 128] ! i, pl_dist = 10, pl_name = [''TXT'', ''APP'', ''SYS'', ''DSK'', ''CMD''] ! i,
     pl_cur_x = 400, pl_cur_y = 300\<rparr>"

subsection \<open>The background stays in order\<close>

definition star_ok :: "star \<Rightarrow> bool" where
  "star_ok s \<longleftrightarrow> \<bar>st_x s\<bar> \<le> 799 \<and> \<bar>st_y s\<bar> \<le> 599 \<and> 1 \<le> st_z s \<and> st_z s \<le> 1000 \<and> 0 \<le> st_type s \<and> st_type s < 1000
     \<and> 4 \<le> st_speed s \<and> st_speed s \<le> 17"

definition planet_ok :: "nat \<Rightarrow> planet \<Rightarrow> bool" where
  "planet_ok i p \<longleftrightarrow> 0 \<le> pl_ang p \<and> pl_ang p < 256 \<and> - 15 < pl_dist p \<and> pl_dist p < 66 + int i * 50
     \<and> 0 \<le> pl_cur_x p \<and> pl_cur_x p < 800 \<and> 0 \<le> pl_cur_y p \<and> pl_cur_y p < 600"

definition scene_ok :: "('d, 'z) scene_scheme \<Rightarrow> bool" where
  "scene_ok s \<longleftrightarrow> length (stars s) = 200 \<and> (\<forall>x \<in> set (stars s). star_ok x)
     \<and> length (planets s) = 5 \<and> (\<forall>i < 5. planet_ok i (planets s ! i))
     \<and> - 30 < galaxy_expansion s \<and> galaxy_expansion s < 344"

text \<open>A star in flight comes back before its distance can be 0.\<close>

lemma below_run:
  fixes s :: "('d, 'z) net_scheme"
  assumes "0 < n"
  obtains v r where "run_state (below n) s = (v, s\<lparr>rng_seed := r\<rparr>)" "0 \<le> v" "v < uint n"
proof
  show "run_state (below n) s = (uint (random_step (rng_seed s) mod n), s\<lparr>rng_seed := random_step (rng_seed s)\<rparr>)"
    by (simp add: below_def random_def)
  have "0 < uint n" using assms by (simp add: word_less_def)
  then show "uint (random_step (rng_seed s) mod n) < uint n" by (simp add: uint_mod)
qed simp

lemma init_star_run:
  fixes s :: "('d, 'z) scene_scheme"
  shows "\<exists>x r. run_state init_star s = (x, s\<lparr>rng_seed := r\<rparr>) \<and> star_ok x"
proof -
  obtain a r1 where 1: "run_state (below 1599) s = (a, s\<lparr>rng_seed := r1\<rparr>)" "0 \<le> a" "a < 1599"
    using below_run [of 1599 s] by auto
  obtain b r2 where 2: "run_state (below 1199) (s\<lparr>rng_seed := r1\<rparr>) = (b, s\<lparr>rng_seed := r2\<rparr>)" "0 \<le> b" "b < 1199"
    using below_run [of 1199 "s\<lparr>rng_seed := r1\<rparr>"] by auto
  obtain c r3 where 3: "run_state (below 1000) (s\<lparr>rng_seed := r2\<rparr>) = (c, s\<lparr>rng_seed := r3\<rparr>)" "0 \<le> c" "c < 1000"
    using below_run [of 1000 "s\<lparr>rng_seed := r2\<rparr>"] by auto
  obtain d r4 where 4: "run_state (below 1000) (s\<lparr>rng_seed := r3\<rparr>) = (d, s\<lparr>rng_seed := r4\<rparr>)" "0 \<le> d" "d < 1000"
    using below_run [of 1000 "s\<lparr>rng_seed := r3\<rparr>"] by auto
  obtain e r5 where 5: "run_state (below 6) (s\<lparr>rng_seed := r4\<rparr>) = (e, s\<lparr>rng_seed := r5\<rparr>)" "0 \<le> e" "e < 6"
    using below_run [of 6 "s\<lparr>rng_seed := r4\<rparr>"] by auto
  show ?thesis using 1 2 3 4 5 by (intro exI [of _ r5] exI [of _ "\<lparr>st_x = a - 799, st_y = b - 599, st_z = c + 1, st_type = d, st_speed = e + 4\<rparr>"])
    (simp add: init_star_def star_ok_def abs_le_iff)
qed

lemma respawn_run:
  fixes s :: "('d, 'z) scene_scheme"
  shows "\<exists>x r. run_state respawn s = (x, s\<lparr>rng_seed := r\<rparr>) \<and> star_ok x"
proof -
  obtain a r1 where 1: "run_state (below 1599) s = (a, s\<lparr>rng_seed := r1\<rparr>)" "0 \<le> a" "a < 1599"
    using below_run [of 1599 s] by auto
  obtain b r2 where 2: "run_state (below 1199) (s\<lparr>rng_seed := r1\<rparr>) = (b, s\<lparr>rng_seed := r2\<rparr>)" "0 \<le> b" "b < 1199"
    using below_run [of 1199 "s\<lparr>rng_seed := r1\<rparr>"] by auto
  obtain d r4 where 4: "run_state (below 1000) (s\<lparr>rng_seed := r2\<rparr>) = (d, s\<lparr>rng_seed := r4\<rparr>)" "0 \<le> d" "d < 1000"
    using below_run [of 1000 "s\<lparr>rng_seed := r2\<rparr>"] by auto
  obtain e r5 where 5: "run_state (below 10) (s\<lparr>rng_seed := r4\<rparr>) = (e, s\<lparr>rng_seed := r5\<rparr>)" "0 \<le> e" "e < 10"
    using below_run [of 10 "s\<lparr>rng_seed := r4\<rparr>"] by auto
  show ?thesis using 1 2 4 5 by (intro exI [of _ r5] exI [of _ "\<lparr>st_x = a - 799, st_y = b - 599, st_z = 1000, st_type = d, st_speed = e + 8\<rparr>"])
    (simp add: respawn_def star_ok_def abs_le_iff)
qed

lemma star_fly_ok: "star_ok s \<Longrightarrow> 0 < st_z (star_fly s) \<Longrightarrow> star_ok (star_fly s)"
  by (auto simp: star_ok_def star_fly_def)

lemma star_step_run:
  assumes "scene_ok s" "i < 200"
  shows "\<exists>x r f. snd (run_state (star_step i) s) = s\<lparr>rng_seed := r, stars := (stars s)[i := x], ram := draw_star i f (frame s) x (ram s)\<rparr> \<and> star_ok x"
proof -
  have old: "star_ok (stars s ! i)" using assms by (simp add: scene_ok_def)
  obtain x r where x: "run_state respawn s = (x, s\<lparr>rng_seed := r\<rparr>)" "star_ok x" using respawn_run by blast
  let ?t = "st_type (stars s ! i)"
  show ?thesis
  proof (cases "st_z (star_fly (stars s ! i)) \<le> 0")
    case True
    then show ?thesis using x by (intro exI [of _ x] exI [of _ r] exI [of _ ?t]) (simp add: star_step_def Let_def)
  next
    case False
    then have "star_ok (star_fly (stars s ! i))" using star_fly_ok [OF old] by simp
    then show ?thesis using False
      by (intro exI [of _ "star_fly (stars s ! i)"] exI [of _ "rng_seed s"] exI [of _ ?t]) (simp add: star_step_def Let_def)
  qed
qed

text \<open>Everything a frame of the background may do: its own state, and pixels.\<close>

definition scene_frame :: "mem \<Rightarrow> 'd \<Rightarrow> ('d, 'z) scene_scheme \<Rightarrow> bool" where
  "scene_frame m0 d0 s \<longleftrightarrow> arcade_ok s \<and> scene_ok s \<and> drawn m0 (ram s) \<and> dev s = d0"

lemma arcade_own [simp]:
  "arcade_ok (s\<lparr>rng_seed := r\<rparr>) = arcade_ok s" "arcade_ok (s\<lparr>stars := ss\<rparr>) = arcade_ok s" "arcade_ok (s\<lparr>ram := m\<rparr>) = arcade_ok s"
  "arcade_ok (s\<lparr>rng_seed := r, stars := ss\<rparr>) = arcade_ok s"
  "arcade_ok (s\<lparr>planets := ps\<rparr>) = arcade_ok s" "arcade_ok (s\<lparr>galaxy_expansion := e\<rparr>) = arcade_ok s"
  "arcade_ok (s\<lparr>galaxy_open := b\<rparr>) = arcade_ok s" "arcade_ok (s\<lparr>click_consumed := c\<rparr>) = arcade_ok s"
  by (simp_all add: arcade_ok_def keys_ok_def desk_ok_def mouse_ok_def wins_ok_def bufs_ok_def lines_ok_def mirror_ok_def browser_ok_def)

lemma drawn_star [on_screen]: "drawn m m' \<Longrightarrow> drawn m (draw_star i t f s m')"
proof -
  assume d: "drawn m m'"
  have rock: "drawn m (draw_rock r x y m')" for r x y
    unfolding draw_rock_def Let_def by (intro on_screen d; assumption)
  have spiral: "drawn m (draw_spiral f r x y m')" for r x y
    unfolding draw_spiral_def spiral_arm_def Let_def by (intro on_screen d; assumption)
  show ?thesis unfolding draw_star_def Let_def put_at_def
    by (simp split: prod.split) (auto intro!: on_screen d rock spiral)
qed

lemma drawn_planet [on_screen]: "drawn m m' \<Longrightarrow> drawn m (draw_planet i p b c m')"
  unfolding draw_planet_def Let_def by (intro on_screen; assumption)

lemma drawn_clear [on_screen]: "drawn m m' \<Longrightarrow> drawn m (Clear m')"
  unfolding Clear_def by (intro on_screen drawn_word; simp add: screen_end_def)

lemma scene_poke: "(\<And>m m'. drawn m m' \<Longrightarrow> drawn m (f m')) \<Longrightarrow> preserves (scene_frame m0 d0) (poke f)"
  unfolding poke_def by (intro preserves_modify) (simp add: scene_frame_def scene_ok_def)

lemma scene_centred: "preserves (scene_frame m0 d0) (centred x y t c)"
  unfolding centred_def by (intro scene_poke on_screen)

lemma scene_star: "i < 200 \<Longrightarrow> preserves (scene_frame m0 d0) (star_step i)"
  unfolding preserves_def
proof (intro allI impI)
  fix s :: "('a, 'b) scene_scheme"
  assume i: "i < 200" and ok: "scene_frame m0 d0 s"
  then obtain x r f where run: "snd (run_state (star_step i) s)
      = s\<lparr>rng_seed := r, stars := (stars s)[i := x], ram := draw_star i f (frame s) x (ram s)\<rparr>" "star_ok x"
    using star_step_run [of s i] by (auto simp: scene_frame_def)
  have "\<forall>y \<in> set ((stars s)[i := x]). star_ok y"
    using ok run(2) set_update_subset_insert [of "stars s" i x] by (auto simp: scene_frame_def scene_ok_def)
  then show "scene_frame m0 d0 (snd (run_state (star_step i) s))"
    using ok run(1) by (simp add: scene_frame_def scene_ok_def drawn_star)
qed

text \<open>The planets stay on the screen.\<close>

lemma c_div_abs: "0 < b \<Longrightarrow> \<bar>c_div a b\<bar> = \<bar>a\<bar> div b"
  by (cases "a = 0") (simp_all add: c_div_def abs_mult pos_imp_zdiv_nonneg_iff)

lemma sin_range: "\<bar>Sin a\<bar> \<le> 84" "\<bar>Cos a\<bar> \<le> 84"
proof -
  have "\<forall>x \<in> set sin_lut. \<bar>x\<bar> \<le> 84" by (simp add: sin_lut_def)
  moreover have "length sin_lut = 256" by (rule sine_table_short)
  ultimately have "\<bar>sin_lut ! nat (a mod 256)\<bar> \<le> 84" for a by (simp add: nat_less_iff)
  then show "\<bar>Sin a\<bar> \<le> 84" "\<bar>Cos a\<bar> \<le> 84" by (simp_all add: Sin_def Cos_def)
qed

lemma orbit_range:
  assumes "- 15 < d" "d < 266"
  shows "0 \<le> fst (orbit a d) \<and> fst (orbit a d) < 800" "0 \<le> snd (orbit a d) \<and> snd (orbit a d) < 600"
proof -
  have d: "\<bar>d\<bar> \<le> 265" using assms by linarith
  have "\<bar>Cos a * d\<bar> \<le> 84 * 265" using mult_mono [OF sin_range(2) [of a] d] by (simp add: abs_mult mult.commute)
  then have x: "\<bar>c_div (Cos a * d) 84\<bar> \<le> 265" by (simp add: c_div_abs)
  have "\<bar>Sin a * d\<bar> \<le> 84 * 265" using mult_mono [OF sin_range(1) [of a] d] by (simp add: abs_mult mult.commute)
  moreover have "\<bar>Sin a * d * 3\<bar> = \<bar>Sin a * d\<bar> * 3" by (simp add: abs_mult)
  ultimately have "\<bar>Sin a * d * 3\<bar> \<le> 66780" by linarith
  then have "\<bar>c_div (Sin a * d * 3) 4\<bar> \<le> 16695" by (simp add: c_div_abs)
  then have y: "\<bar>c_div (c_div (Sin a * d * 3) 4) 84\<bar> \<le> 198" by (simp add: c_div_abs)
  show "0 \<le> fst (orbit a d) \<and> fst (orbit a d) < 800" "0 \<le> snd (orbit a d) \<and> snd (orbit a d) < 600"
    using x [unfolded abs_le_iff] y [unfolded abs_le_iff] by (simp_all add: orbit_def v_cx_def v_cy_def)
qed

lemma halfway: "0 \<le> x \<Longrightarrow> x < n \<Longrightarrow> 0 \<le> t \<Longrightarrow> t < n \<Longrightarrow> 0 \<le> x + c_div (t - x) 2 \<and> x + c_div (t - x) 2 < n"
proof -
  assume a: "0 \<le> x" "x < n" "0 \<le> t" "t < n"
  consider "t < x" | "t = x" | "x < t" by linarith
  then show ?thesis
  proof cases
    case 1
    then have "c_div (t - x) 2 = - ((x - t) div 2)" by (simp add: c_div_def)
    moreover have "0 \<le> (x - t) div 2" "(x - t) div 2 \<le> x - t" using 1 by simp_all
    ultimately show ?thesis using a by linarith
  next
    case 3
    then have "c_div (t - x) 2 = (t - x) div 2" by (simp add: c_div_def)
    moreover have "0 \<le> (t - x) div 2" "(t - x) div 2 \<le> t - x" using 3 by simp_all
    ultimately show ?thesis using a by linarith
  qed (use a in \<open>simp add: c_div_def\<close>)
qed

lemma planet_fly_ok:
  assumes "planet_ok i p"
  shows "planet_ok i (planet_fly i e fr p)"
  using assms by (simp add: planet_ok_def planet_fly_def Let_def)

lemma planet_target_range:
  assumes "planet_ok i p" "i < 5"
  shows "0 \<le> fst (planet_target i w p) \<and> fst (planet_target i w p) < 800
    \<and> 0 \<le> snd (planet_target i w p) \<and> snd (planet_target i w p) < 600"
proof -
  have "int i \<le> 4" using assms(2) by simp
  moreover have "- 15 < pl_dist p" "pl_dist p < 66 + int i * 50" using assms(1) by (simp_all add: planet_ok_def)
  ultimately show ?thesis using orbit_range [of "pl_dist p" "pl_ang p"] orbit_range [of "60 + int i * 50" "pl_ang p"]
    by (simp add: planet_target_def)
qed

lemma planet_move_ok:
  assumes "planet_ok i p" "i < 5"
  shows "planet_ok i (planet_move i w e fr p)"
proof -
  let ?p = "if win_minimized w \<or> win_open w then p else planet_fly i e fr p"
  have p: "planet_ok i ?p" using assms(1) planet_fly_ok by simp
  obtain tx ty where t: "planet_target i w ?p = (tx, ty)" by fastforce
  have "0 \<le> tx" "tx < 800" "0 \<le> ty" "ty < 600" using planet_target_range [OF p assms(2), of w] t by simp_all
  then have "0 \<le> pl_cur_x ?p + c_div (tx - pl_cur_x ?p) 2 \<and> pl_cur_x ?p + c_div (tx - pl_cur_x ?p) 2 < 800"
    "0 \<le> pl_cur_y ?p + c_div (ty - pl_cur_y ?p) 2 \<and> pl_cur_y ?p + c_div (ty - pl_cur_y ?p) 2 < 600"
    using p by (intro halfway; simp add: planet_ok_def)+
  then show ?thesis using p t unfolding planet_move_def Let_def by (simp add: planet_ok_def)
qed

lemma arcade_win:
  assumes "arcade_ok s" "\<And>w. win_ok w \<Longrightarrow> win_ok (f w) \<and> win_id (f w) = win_id w"
  shows "arcade_ok (upd_window k f s)"
proof -
  have "keys_ok (upd_window k f s)" using assms by (intro upd_window_ok) (simp_all add: arcade_ok_def)
  then show ?thesis using assms(1) by (simp add: arcade_ok_def) (simp add: browser_ok_def upd_window_def)
qed

lemma arcade_focus: "arcade_ok s \<Longrightarrow> arcade_ok (s\<lparr>win_z := focus_window k (win_z s)\<rparr>)"
  using focus_window_keeps [of "win_z s" k]
  by (simp add: arcade_ok_def keys_ok_def desk_ok_def mouse_ok_def wins_ok_def bufs_ok_def lines_ok_def mirror_ok_def browser_ok_def)

lemma planet_click_frame: "scene_frame m0 d0 s \<Longrightarrow> scene_frame m0 d0 (planet_click k s)"
proof -
  assume ok: "scene_frame m0 d0 s"
  have "arcade_ok (upd_window k f s)" if "f = (\<lambda>w. w\<lparr>win_minimized := False\<rparr>) \<or> f = (\<lambda>w. w\<lparr>win_open := True\<rparr>)" for f
    using ok that by (intro arcade_win) (auto simp: scene_frame_def win_ok_def)
  then have "arcade_ok (upd_window k (\<lambda>w. w\<lparr>win_minimized := False\<rparr>) s)"
    "arcade_ok ((upd_window k (\<lambda>w. w\<lparr>win_open := True\<rparr>) s)\<lparr>win_z := focus_window (win_id (windows s ! k)) (win_z s)\<rparr>)"
    using arcade_focus [of "upd_window k (\<lambda>w. w\<lparr>win_open := True\<rparr>) s" "win_id (windows s ! k)"]
    by (simp_all add: upd_window_def)
  then show ?thesis using ok by (simp add: planet_click_def scene_frame_def) (simp add: scene_ok_def upd_window_def)
qed

lemma scene_planet: "i < 5 \<Longrightarrow> preserves (scene_frame m0 d0) (planet_step i)"
proof -
  assume i: "i < 5"
  have "scene_frame m0 d0 (s\<lparr>planets := (planets s)[i := planet_move i w e fr (planets s ! i)]\<rparr>)"
    if ok: "scene_frame m0 d0 s" for s :: "('a, 'b) scene_scheme" and w e fr
  proof -
    have "planet_ok i (planets s ! i)" using ok i by (simp add: scene_frame_def scene_ok_def)
    then have "planet_ok i (planet_move i w e fr (planets s ! i))" using i by (rule planet_move_ok)
    then have "\<forall>j < 5. planet_ok j ((planets s)[i := planet_move i w e fr (planets s ! i)] ! j)"
      using ok i by (auto simp: scene_frame_def scene_ok_def nth_list_update)
    then show ?thesis using ok by (simp add: scene_frame_def scene_ok_def)
  qed
  then show ?thesis unfolding planet_step_def when_m_def Let_def
    by (intro preserving preserves_modify scene_poke on_screen) (simp_all add: planet_click_frame)
qed

lemma scene_sun: "preserves (scene_frame m0 d0) draw_sun"
  unfolding draw_sun_def by (intro preserving scene_poke scene_centred on_screen; assumption)

lemma scene_click: "scene_frame m0 d0 s \<Longrightarrow> scene_frame m0 d0 (galaxy_click s)"
  by (simp add: galaxy_click_def scene_frame_def) (simp add: scene_ok_def)

lemma scene_grow: "scene_frame m0 d0 s \<Longrightarrow> scene_frame m0 d0 (galaxy_grow s)"
  by (simp add: galaxy_grow_def Let_def scene_frame_def) (auto simp: scene_ok_def)

lemma draw_scene_frame: "preserves (scene_frame m0 d0) draw_scene"
  unfolding draw_scene_def
  by (intro preserving preserves_modify scene_poke scene_sun on_screen; (assumption | simp add: scene_star scene_planet scene_click scene_grow)?)

text \<open>The stars and the planets as the kernel places them.\<close>

definition init_scene :: "(('d, 'z) scene_scheme, unit) state" where
  "init_scene = do { init_stars; modify (\<lambda>s. s\<lparr>planets := map init_planet [0..<5]\<rparr>) }"

lemma init_planet_ok: "i < 5 \<Longrightarrow> planet_ok i (init_planet i)"
proof -
  assume "i < 5"
  then have "[213, 0, 42, 85, 128 :: int] ! i \<in> set [213, 0, 42, 85, 128]" by (intro nth_mem) simp
  then show ?thesis by (auto simp: planet_ok_def init_planet_def)
qed

lemma run_for_append: "run_state (for_m (us @ js) f) s = run_state (for_m js f) (snd (run_state (for_m us f) s))"
  by (induction "us" arbitrary: s) (simp_all add: split_beta)

lemma init_stars_ok:
  fixes s :: "('d, 'z) scene_scheme"
  assumes "length (stars s) = 200"
  shows "\<exists>r ss. snd (run_state init_stars s) = s\<lparr>rng_seed := r, stars := ss\<rparr> \<and> length ss = 200 \<and> (\<forall>x \<in> set ss. star_ok x)"
proof -
  let ?step = "\<lambda>i. do { x \<leftarrow> init_star; modify (\<lambda>st :: ('d, 'z) scene_scheme. st\<lparr>stars := (stars st)[i := x]\<rparr>) }"
  have "\<exists>r ss. snd (run_state (for_m [0..<n] ?step) s) = s\<lparr>rng_seed := r, stars := ss\<rparr> \<and> length ss = 200 \<and> (\<forall>j < n. star_ok (ss ! j))"
    if "n \<le> 200" for n
    using that
  proof (induction n)
    case 0
    then show ?case using assms by (intro exI [of _ "rng_seed s"] exI [of _ "stars s"]) simp
  next
    case (Suc n)
    then obtain r ss where IH: "snd (run_state (for_m [0..<n] ?step) s) = s\<lparr>rng_seed := r, stars := ss\<rparr>" "length ss = 200"
      "\<forall>j < n. star_ok (ss ! j)" by auto
    obtain x r' where x: "run_state init_star (s\<lparr>rng_seed := r, stars := ss\<rparr>) = (x, s\<lparr>rng_seed := r, stars := ss\<rparr>\<lparr>rng_seed := r'\<rparr>)" "star_ok x"
      using init_star_run [of "s\<lparr>rng_seed := r, stars := ss\<rparr>"] by blast
    have "\<forall>j < Suc n. star_ok (ss[n := x] ! j)" using IH x(2) Suc.prems by (auto simp: less_Suc_eq)
    moreover have "snd (run_state (for_m [0..<Suc n] ?step) s) = s\<lparr>rng_seed := r', stars := ss[n := x]\<rparr>"
      by (simp add: run_for_append IH(1) x(1))
    ultimately show ?case using IH(2) by (intro exI [of _ r'] exI [of _ "ss[n := x]"]) simp
  qed
  then obtain r ss where "snd (run_state (for_m [0..<200] ?step) s) = s\<lparr>rng_seed := r, stars := ss\<rparr>" "length ss = 200"
    "\<forall>j < 200. star_ok (ss ! j)" by blast
  moreover from this have "\<forall>x \<in> set ss. star_ok x" by (simp add: all_set_conv_all_nth)
  ultimately show ?thesis unfolding init_stars_def by blast
qed

lemma init_scene_ok:
  assumes "arcade_ok s" "length (stars s) = 200" "galaxy_expansion s = 0"
  shows "arcade_ok (snd (run_state init_scene s)) \<and> scene_ok (snd (run_state init_scene s))"
proof -
  obtain r ss where "snd (run_state init_stars s) = s\<lparr>rng_seed := r, stars := ss\<rparr>" "length ss = 200" "\<forall>x \<in> set ss. star_ok x"
    using init_stars_ok [OF assms(2)] by blast
  moreover have "\<forall>i < 5. planet_ok i (map init_planet [0..<5] ! i)" by (simp add: init_planet_ok del: upt_rec_numeral)
  moreover have "snd (run_state init_scene s) = (snd (run_state init_stars s))\<lparr>planets := map init_planet [0..<5]\<rparr>"
    by (simp add: init_scene_def split_beta del: upt_rec_numeral)
  ultimately show ?thesis using assms by (simp add: scene_ok_def del: upt_rec_numeral)
qed

subsection \<open>The planets arrive\<close>

text \<open>A step towards a place halves the distance to it, rounded up.\<close>

lemma half_up: "n - n div 2 = (n + 1) div 2" for n :: int
  by presburger

lemma halfway_closer: "\<bar>t - (x + c_div (t - x) 2)\<bar> = (\<bar>t - x\<bar> + 1) div 2"
proof -
  consider "t < x" | "t = x" | "x < t" by linarith
  then show ?thesis
  proof cases
    case 1
    then have "c_div (t - x) 2 = - ((x - t) div 2)" by (simp add: c_div_def)
    moreover have "(x - t) div 2 \<le> x - t" using 1 by simp
    ultimately have "\<bar>t - (x + c_div (t - x) 2)\<bar> = (x - t) - (x - t) div 2" by linarith
    then show ?thesis using 1 by (simp add: half_up)
  next
    case 3
    then have "c_div (t - x) 2 = (t - x) div 2" by (simp add: c_div_def)
    moreover have "(t - x) div 2 \<le> t - x" using 3 by simp
    ultimately have "\<bar>t - (x + c_div (t - x) 2)\<bar> = (t - x) - (t - x) div 2" by linarith
    then show ?thesis using 3 by (simp add: half_up)
  qed (simp add: c_div_def)
qed

lemma planet_closer:
  assumes "win_minimized w \<or> win_open w" "planet_target i w p = (tx, ty)"
  shows "planet_target i w (planet_move i w e fr p) = (tx, ty)"
    and "\<bar>tx - pl_cur_x (planet_move i w e fr p)\<bar> = (\<bar>tx - pl_cur_x p\<bar> + 1) div 2"
    and "\<bar>ty - pl_cur_y (planet_move i w e fr p)\<bar> = (\<bar>ty - pl_cur_y p\<bar> + 1) div 2"
proof -
  have m: "planet_move i w e fr p = p\<lparr>pl_cur_x := pl_cur_x p + c_div (tx - pl_cur_x p) 2, pl_cur_y := pl_cur_y p + c_div (ty - pl_cur_y p) 2\<rparr>"
    using assms by (auto simp: planet_move_def Let_def)
  show "planet_target i w (planet_move i w e fr p) = (tx, ty)" using assms by (auto simp: m planet_target_def)
  show "\<bar>tx - pl_cur_x (planet_move i w e fr p)\<bar> = (\<bar>tx - pl_cur_x p\<bar> + 1) div 2"
    "\<bar>ty - pl_cur_y (planet_move i w e fr p)\<bar> = (\<bar>ty - pl_cur_y p\<bar> + 1) div 2"
    by (simp_all add: m halfway_closer)
qed

lemma planet_target_stays:
  "win_minimized w \<or> win_open w \<Longrightarrow> planet_target i w (fold (\<lambda>(e, fr). planet_move i w e fr) fs p) = planet_target i w p"
  by (induction fs arbitrary: p) (auto simp: planet_closer(1) [OF _ surjective_pairing] split: prod.split)

lemma planets_close_in:
  assumes "win_minimized w \<or> win_open w" "planet_target i w p = (tx, ty)"
    and "\<bar>tx - pl_cur_x p\<bar> \<le> 2 ^ n" "\<bar>ty - pl_cur_y p\<bar> \<le> 2 ^ n" "n \<le> length fs"
  shows "\<bar>tx - pl_cur_x (fold (\<lambda>(e, fr). planet_move i w e fr) fs p)\<bar> \<le> 1
    \<and> \<bar>ty - pl_cur_y (fold (\<lambda>(e, fr). planet_move i w e fr) fs p)\<bar> \<le> 1"
  using assms(2-)
proof (induction fs arbitrary: p n)
  case (Cons f fs)
  obtain e fr where f: "f = (e, fr)" by fastforce
  note c = planet_closer [OF assms(1) Cons.prems(1), of e fr]
  have "(\<bar>d\<bar> + 1) div 2 \<le> 2 ^ (n - 1)" if "\<bar>d\<bar> \<le> 2 ^ n" for d :: int
    using that by (cases n) auto
  then have "\<bar>tx - pl_cur_x (planet_move i w e fr p)\<bar> \<le> 2 ^ (n - 1)" "\<bar>ty - pl_cur_y (planet_move i w e fr p)\<bar> \<le> 2 ^ (n - 1)"
    using Cons.prems by (simp_all add: c)
  then show ?case using Cons.IH [OF c(1)] Cons.prems(4) by (simp add: f)
qed simp

subsection \<open>The background on a running kernel\<close>

definition zero_scene :: "ref_disk scene" where
  "zero_scene = arcade.extend start_arcade
     (scene.fields (replicate 200 \<lparr>st_x = 0, st_y = 0, st_z = 0, st_type = 0, st_speed = 0\<rparr>)
       (replicate 5 \<lparr>pl_ang = 0, pl_dist = 0, pl_name = [], pl_cur_x = 0, pl_cur_y = 0\<rparr>) False 0)"

definition start_scene :: "ref_disk scene" where
  "start_scene = snd (run_state init_scene zero_scene)"

lemma start_scene_ok: "arcade_ok start_scene \<and> scene_ok start_scene"
proof -
  have "arcade_ok zero_scene = arcade_ok start_arcade"
    by (simp add: arcade_ok_def keys_ok_def desk_ok_def mouse_ok_def wins_ok_def bufs_ok_def lines_ok_def mirror_ok_def
        browser_ok_def zero_scene_def arcade.defs scene.defs)
  moreover have "length (stars zero_scene) = 200" "galaxy_expansion zero_scene = 0"
    by (simp_all add: zero_scene_def arcade.defs scene.defs)
  ultimately show ?thesis unfolding start_scene_def using start_arcade_ok by (intro init_scene_ok) simp_all
qed

text \<open>
  Property C19. Any number of frames of the background keep the kernel in order: every star stays
  in front of the viewer, at a distance between 1 and 1000 - the divisor of its place on the screen
  and of its size -, every planet stays on the screen, and of the memory nothing but the picture is
  written. The devices are not touched.
\<close>

theorem background_in_order:
  assumes "arcade_ok s" "scene_ok s"
  shows "let t = snd (run_state (for_m [0..<n] (\<lambda>_. draw_scene)) s) in
    arcade_ok t \<and> scene_ok t \<and> (\<forall>x \<in> set (stars t). 1 \<le> st_z x \<and> st_z x \<le> 1000)
    \<and> (\<forall>p \<in> set (planets t). 0 \<le> pl_cur_x p \<and> pl_cur_x p < 800 \<and> 0 \<le> pl_cur_y p \<and> pl_cur_y p < 600)
    \<and> drawn (ram s) (ram t) \<and> dev t = dev s"
proof -
  have "scene_frame (ram s) (dev s) s" using assms by (simp add: scene_frame_def drawn_refl)
  then have "scene_frame (ram s) (dev s) (snd (run_state (for_m [0..<n] (\<lambda>_. draw_scene)) s))"
    by (rule preservesD [OF preserves_for [OF draw_scene_frame]])
  then show ?thesis
    by (simp add: Let_def scene_frame_def) (auto simp: scene_ok_def star_ok_def planet_ok_def in_set_conv_nth)
qed

theorem background_in_order_witness:
  "let t = snd (run_state (for_m [0..<3] (\<lambda>_. draw_scene)) start_scene) in
    arcade_ok t \<and> scene_ok t \<and> (\<forall>x \<in> set (stars t). 1 \<le> st_z x \<and> st_z x \<le> 1000)
    \<and> (\<forall>p \<in> set (planets t). 0 \<le> pl_cur_x p \<and> pl_cur_x p < 800 \<and> 0 \<le> pl_cur_y p \<and> pl_cur_y p < 600)
    \<and> drawn (ram start_scene) (ram t) \<and> dev t = dev start_scene"
  using start_scene_ok by (intro background_in_order) blast+

text \<open>
  A planet whose window is open or minimized is at its place within ten frames, to
  one pixel, whatever the galaxy does meanwhile; and its place stays where it is.
\<close>

theorem planets_arrive:
  assumes "planet_ok i p" "i < 5" "win_minimized w \<or> win_open w" "10 \<le> length fs"
  shows "let q = fold (\<lambda>(e, fr). planet_move i w e fr) fs p; (tx, ty) = planet_target i w p in
    planet_target i w q = (tx, ty) \<and> \<bar>tx - pl_cur_x q\<bar> \<le> 1 \<and> \<bar>ty - pl_cur_y q\<bar> \<le> 1"
proof -
  obtain tx ty where t: "planet_target i w p = (tx, ty)" by fastforce
  have "0 \<le> tx" "tx < 800" "0 \<le> ty" "ty < 600" using planet_target_range [OF assms(1,2), of w] t by simp_all
  then have "\<bar>tx - pl_cur_x p\<bar> \<le> 2 ^ 10" "\<bar>ty - pl_cur_y p\<bar> \<le> 2 ^ 10" using assms(1) by (auto simp: planet_ok_def)
  then show ?thesis using planets_close_in [OF assms(3) t _ _ assms(4)] planet_target_stays [OF assms(3), of i fs p] by (simp add: t)
qed

theorem planets_arrive_witness:
  "let w = \<lparr>win_id = 0, win_title = ''TXT'', win_x = 0, win_y = 0, win_w = 0, win_h = 0, win_open = True, win_minimized = False, win_fullscreen = False,
       win_color = 0, win_content = [], win_cursor = 0\<rparr>;
     fs = replicate 12 (320, 7); q = fold (\<lambda>(e, fr). planet_move 0 w e fr) fs (init_planet 0); (tx, ty) = planet_target 0 w (init_planet 0) in
    planet_target 0 w q = (tx, ty) \<and> \<bar>tx - pl_cur_x q\<bar> \<le> 1 \<and> \<bar>ty - pl_cur_y q\<bar> \<le> 1"
  unfolding Let_def by (rule planets_arrive [unfolded Let_def]) (simp_all add: init_planet_ok)

end
