(* ===== verification/Desktop.thy ===== *)
theory Desktop
  imports Scene
begin

text \<open>
  The windows of the second kernel and its whole main loop (\<open>kernel_main.cpp\<close>, lines 2035 to 3046):
  the frame of a window, the SYSTEM window, the drive manager, the notepad, the SAVE AS window and
  the command window with their drawing and their buttons, the applications in their windows, the
  hardware list and the picture of a running program; and a complete frame of the loop, from the
  input to the copy on the screen.
\<close>

subsection \<open>State\<close>

text \<open>
  \<open>stopped\<close>: the loop does not reach its next statement, since the machine was switched off or a
  wait without a bound has not ended.
\<close>

record 'd desktop = "'d scene" +
  sys_lang :: u8
  sys_theme :: u8
  user_name :: string
  stopped :: bool

text \<open>
  What the main loop uses of the boot code and the linked program: the places of packets, the
  segments and entries, the frame buffer, the buffer of \<open>app_window_buffer\<close>, the first content of
  the local line of the script interpreter; and the fuel of the wait without a bound.
\<close>

record os2_setup =
  su_net :: net_layout
  su_image :: os2_image
  su_fb :: nat
  su_app :: nat
  su_line :: string
  su_fuel :: nat

definition while_running :: "(('d, 'z) desktop_scheme, unit) state \<Rightarrow> (('d, 'z) desktop_scheme, unit) state" where
  "while_running c = do { b \<leftarrow> gets stopped; when_m (\<not> b) c }"

definition stop_when :: "bool \<Rightarrow> (('d, 'z) desktop_scheme, unit) state" where
  "stop_when b = when_m b (modify (\<lambda>s. s\<lparr>stopped := True\<rparr>))"

subsection \<open>Drawing and buttons\<close>

definition show_box :: "int \<Rightarrow> int \<Rightarrow> int \<Rightarrow> int \<Rightarrow> int \<Rightarrow> u32 \<Rightarrow> ('d, 'z, unit) op" where
  "show_box x y w h r c = poke (DrawRoundedRect x y w h r c)"

definition show_text :: "int \<Rightarrow> int \<Rightarrow> string \<Rightarrow> u32 \<Rightarrow> bool \<Rightarrow> ('d, 'z, unit) op" where
  "show_text x y t c bold = poke (os2_Text x y t c bold)"

text \<open>A part of a window that reacts to a click: only in the active window and after the pause.\<close>

definition act :: "bool \<Rightarrow> int \<Rightarrow> int \<Rightarrow> int \<Rightarrow> int \<Rightarrow> (('d, 'z) desk_scheme, unit) state \<Rightarrow> (('d, 'z) desk_scheme, unit) state" where
  "act active x y w h c = do {
     hit \<leftarrow> gets (\<lambda>s. input_cooldown s = 0 \<and> pressed_on x y w h s \<and> active);
     when_m hit c
   }"

definition blinking :: "('d, 'z) keys_scheme \<Rightarrow> bool" where
  "blinking s \<longleftrightarrow> (frame s div 20) mod 2 = 0"

text \<open>The frame of a window with title and buttons.\<close>

definition text_colour :: "window \<Rightarrow> u32" where
  "text_colour w = (if win_color w > 0x888888 then 0 else 0xFFFFFF)"

definition draw_frame :: "window \<Rightarrow> int \<Rightarrow> int \<Rightarrow> int \<Rightarrow> int \<Rightarrow> ('d, 'z, unit) op" where
  "draw_frame w wx wy ww wh = do {
     poke (DrawGlassRect wx wy ww wh 12 (win_color w));
     show_box (wx + 12) wy (ww - 24) 1 0 0x999999;
     show_box wx (wy + 12) 1 (wh - 24) 0 0x999999;
     show_text (wx + 15) (wy + 15) (win_title w) (text_colour w) True;
     let bx = wx + c_div ww 2;
     show_text (bx - 60) (wy + 15) ''MIN'' 0x555555 True;
     show_text (bx - 10) (wy + 15) ''FULL'' 0x555555 True;
     show_text (bx + 50) (wy + 15) ''X'' 0 True
   }"

subsection \<open>The SYSTEM window\<close>

definition system_shutdown :: "'d hw \<Rightarrow> (('d, 'z) desktop_scheme, unit) state" where
  "system_shutdown hw = do { outw hw 0xB004 0x2000; outw hw 0x4004 0x3400; stop_when True }"

definition lang_label :: "u8 \<Rightarrow> string" where
  "lang_label l = (if l = 0 then ''[ LANG: EN ]'' else ''[ SPR: DE ]'')"

definition theme_label :: "u8 \<Rightarrow> u8 \<Rightarrow> string" where
  "theme_label l t = (if l = 0 then if t = 0 then ''[ THEME: COMPUTER ]'' else ''[ THEME: GENESIS ]''
     else if t = 0 then ''[ THEMA: COMPUTER ]'' else ''[ THEMA: GENESIS ]'')"

definition system_toggles :: "bool \<Rightarrow> int \<Rightarrow> int \<Rightarrow> (('d, 'z) desktop_scheme, unit) state" where
  "system_toggles active wx btn_y = do {
     lang \<leftarrow> gets sys_lang;
     theme \<leftarrow> gets sys_theme;
     act active (wx + 5) btn_y 140 20 (modify (\<lambda>s. s\<lparr>input_cooldown := 25, sys_lang := if sys_lang s = 0 then 1 else 0\<rparr>));
     show_text (wx + 10) (btn_y + 4) (lang_label lang) 0 True;
     act active (wx + 5) (btn_y + 30) 200 20 (modify (\<lambda>s. s\<lparr>input_cooldown := 25, sys_theme := if sys_theme s = 0 then 1 else 0\<rparr>));
     show_text (wx + 10) (btn_y + 34) (theme_label lang theme) 0 True
   }"

definition system_info :: "int \<Rightarrow> int \<Rightarrow> int \<Rightarrow> int \<Rightarrow> (('d, 'z) desktop_scheme, unit) state" where
  "system_info mid wx wy ww = do {
     show_box (wx + 20) (wy + 120) (ww - 40) 2 0 0xAAAAAA;
     user \<leftarrow> gets user_name;
     centred mid (wy + 140) user 0x222222;
     brand \<leftarrow> gets cpu_brand;
     centred mid (wy + 160) brand 0x0000FF;
     let right_x = wx + ww - 160;
     ip \<leftarrow> gets ip_address;
     show_text right_x (wy + 140) ip 0x222222 True;
     mask \<leftarrow> gets net_mask;
     show_text right_x (wy + 155) mask 0x555555 False;
     gw \<leftarrow> gets gateway_ip;
     show_text right_x (wy + 170) gw 0x555555 False;
     centred mid (wy + 200) ''HARDWARE STATUS'' 0;
     show_text (wx + 30) (wy + 230) ''CORE:'' 0x555555 True;
     show_text (wx + 130) (wy + 230) ''64-BIT PROTECTED MODE'' 0x00AA00 True;
     show_text (wx + 30) (wy + 250) ''MEM:'' 0x555555 True;
     show_text (wx + 130) (wy + 250) ''4 GB ADDRESS SPACE'' 0x00AA00 True
   }"

definition item_colour :: "int \<Rightarrow> int \<Rightarrow> u32 \<Rightarrow> u32" where
  "item_colour sel item c = (if sel = item then 0xFF0000 else c)"

text \<open>
  The button of the hardware list is meant to press ENTER on the first item: it stores the
  scancode, but does not mark it as new.
\<close>

definition oracle_button :: "bool \<Rightarrow> int \<Rightarrow> int \<Rightarrow> (('d, 'z) desk_scheme, unit) state" where
  "oracle_button active x y = do {
     sel \<leftarrow> gets sys_selected_item;
     show_box x y 250 30 4 (if sel = 0 then 0xAA0000 else 0x444444);
     show_text (x + 10) (y + 8) ''OPEN 64-BIT ORACLE'' 0xFFFFFF True;
     act active x y 250 30 (modify (\<lambda>s. s\<lparr>sys_selected_item := 0, key_scancode := 0x1C, input_cooldown := 25\<rparr>))
   }"

definition dhcp_button :: "'d hw \<Rightarrow> net_layout \<Rightarrow> bool \<Rightarrow> int \<Rightarrow> int \<Rightarrow> (('d, 'z) desk_scheme, unit) state" where
  "dhcp_button hw N active x y = do {
     hov \<leftarrow> gets (over x y 100 20);
     show_box x y 100 20 3 (if hov then 0xFF8800 else 0xAA5500);
     centred (x + 50) (y + 7) ''DHCP REQ'' 0xFFFFFF;
     t \<leftarrow> gets cmd_status;
     centred (x + 50) (y + 30) t 0xFF0000;
     act active x y 100 20 (do {
       set_status ''BROADCASTING DHCP DISCOVER...'';
       net_check_link hw;
       send_dhcp_discover hw N;
       set_cooldown 25
     })
   }"

definition hardware_rows :: "'d hw \<Rightarrow> net_layout \<Rightarrow> bool \<Rightarrow> int \<Rightarrow> int \<Rightarrow> int \<Rightarrow> int \<Rightarrow> (('d, 'z) desktop_scheme, unit) state" where
  "hardware_rows hw N active wx wy ww sel = do {
     lang \<leftarrow> gets sys_lang;
     let l_net = (if lang \<noteq> 0 then ''NETZWERK:'' else ''NETWORK:'');
     let lbl = (\<lambda>i. item_colour sel i 0x555555);
     let val = (\<lambda>i. item_colour sel i 0x0044CC);
     act active (wx + 30) (wy + 270) 300 20 (do { t \<leftarrow> scan_pci_class hw 0x01 ''CTRL''; modify (\<lambda>s. s\<lparr>os2_hw_storage := t\<rparr>); set_cooldown 25 });
     show_text (wx + 30) (wy + 275) (if lang \<noteq> 0 then ''FESTPLATTE:'' else ''STORAGE:'') (lbl 1) True;
     t \<leftarrow> gets os2_hw_storage;
     show_text (wx + 130) (wy + 275) t (val 1) True;
     hov \<leftarrow> gets (over (wx + 30) (wy + 295) 180 20);
     act active (wx + 30) (wy + 295) 180 20 (do { t \<leftarrow> scan_pci_class hw 0x02 ''NIC''; modify (\<lambda>s. s\<lparr>os2_hw_net := t\<rparr>); set_cooldown 25 });
     show_text (wx + 30) (wy + 300) l_net (lbl 2) True;
     t \<leftarrow> gets os2_hw_net;
     show_text (wx + 130) (wy + 300) t (if hov then 0xFFFFFF else val 2) True;
     dhcp_button hw N active (wx + ww - 130) (wy + 295);
     show_text (wx + 30) (wy + 300) l_net (lbl 2) True;
     t \<leftarrow> gets os2_hw_net;
     show_text (wx + 130) (wy + 300) t (val 2) True;
     act active (wx + 30) (wy + 320) 300 20 (do { t \<leftarrow> scan_pci_class hw 0x03 ''GPU''; modify (\<lambda>s. s\<lparr>os2_hw_gpu := t\<rparr>); set_cooldown 25 });
     show_text (wx + 30) (wy + 325) (if lang \<noteq> 0 then ''GRAFIK:'' else ''GRAPHIC:'') (lbl 3) True;
     t \<leftarrow> gets os2_hw_gpu;
     show_text (wx + 130) (wy + 325) t (val 3) True;
     act active (wx + 30) (wy + 345) 300 20 (do { system_init_usb hw; set_cooldown 25 });
     show_text (wx + 30) (wy + 350) ''USB HOST:'' (lbl 4) True;
     t \<leftarrow> gets hw_usb;
     show_text (wx + 130) (wy + 350) t (val 4) True
   }"

definition task_row :: "int \<Rightarrow> int \<Rightarrow> nat \<Rightarrow> bool \<Rightarrow> ('d, 'z, unit) op" where
  "task_row wx y t running = do {
     show_box (wx + 30) y 290 20 3 (if running then 0x00AA00 else 0x555555);
     show_text (wx + 40) (y + 4) ''TASK'' 0xFFFFFF True;
     show_text (wx + 80) (y + 4) (int_str (int t)) 0xFFFFFF True;
     show_text (wx + 110) (y + 4) (if t = 0 then ''COSMOS KERNEL'' else ''BACKGROUND TASK'') 0xFFFFFF True
   }"

fun task_rows :: "int \<Rightarrow> nat list \<Rightarrow> int \<Rightarrow> (('d, 'z) os2_scheme, unit) state" where
  "task_rows wx [] y = skip"
| "task_rows wx (t # ts) y = do {
     alive \<leftarrow> gets (\<lambda>s. task_active (tasks s ! t));
     running \<leftarrow> gets (\<lambda>s. current_task s = t);
     when_m alive (task_row wx y t running);
     task_rows wx ts (if alive then y + 25 else y)
   }"

definition power_buttons :: "'d hw \<Rightarrow> bool \<Rightarrow> int \<Rightarrow> int \<Rightarrow> int \<Rightarrow> int \<Rightarrow> (('d, 'z) desktop_scheme, unit) state" where
  "power_buttons hw active wx wy ww wh = do {
     show_box (wx + 30) (wy + wh - 50) 120 30 4 0xAA0000;
     centred (wx + 90) (wy + wh - 40) ''REBOOT'' 0xFFFFFF;
     act active (wx + 30) (wy + wh - 50) 120 30 (system_reboot hw);
     show_box (wx + ww - 150) (wy + wh - 50) 120 30 4 0;
     centred (wx + ww - 90) (wy + wh - 40) ''SHUT DOWN'' 0xFFFFFF;
     act active (wx + ww - 150) (wy + wh - 50) 120 30 (system_shutdown hw)
   }"

definition system_window :: "'d hw \<Rightarrow> net_layout \<Rightarrow> int \<Rightarrow> int \<Rightarrow> int \<Rightarrow> int \<Rightarrow> (('d, 'z) desktop_scheme, unit) state" where
  "system_window hw N wx wy ww wh = do {
     active \<leftarrow> gets (in_front 3);
     let mid = wx + c_div ww 2;
     system_toggles active wx (wy + 45);
     system_info mid wx wy ww;
     sel \<leftarrow> gets sys_selected_item;
     oracle_button active (wx + 20) (wy + 150);
     hardware_rows hw N active wx wy ww sel;
     centred mid (wy + 380) ''LIVE TASK SCHEDULER'' 0;
     task_rows wx [0..<4] (wy + 400);
     power_buttons hw active wx wy ww wh
   }"

subsection \<open>The drive manager\<close>

definition drive_info :: "int \<Rightarrow> int \<Rightarrow> window \<Rightarrow> (('d, 'z) files_scheme, unit) state" where
  "drive_info wx wy w = do {
     show_box (wx + 15) (wy + 45) 180 55 4 0x222222;
     show_text (wx + 25) (wy + 50) ''DRIVE CAPACITY:'' 0xAAAAAA True;
     gb \<leftarrow> gets drive_total_gb;
     kb \<leftarrow> gets drive_used_kb;
     sel \<leftarrow> gets selected_drive_idx;
     show_text (wx + 25) (wy + 65) (int_str (uint gb)) 0x00FF00 True;
     show_text (wx + 55) (wy + 65) (if sel = 99 then ''MB TOTAL'' else ''GB TOTAL'') 0x00FF00 True;
     show_text (wx + 25) (wy + 80) (int_str (uint kb)) 0xFF8800 True;
     show_text (wx + 55) (wy + 80) ''KB USED'' 0xFF8800 True;
     show_text (wx + 250) (wy + 115) ''SYSTEM LOG:'' 0xAAAAAA True;
     show_text (wx + 250) (wy + 130) (c_str (win_content w)) (text_colour w) False
   }"

definition edit_buttons :: "'d hw \<Rightarrow> bool \<Rightarrow> int \<Rightarrow> int \<Rightarrow> (('d, 'z) files_scheme, unit) state" where
  "edit_buttons hw active wx wy = do {
     show_box (wx + 280) (wy + 45) 80 25 4 0xAA5500;
     centred (wx + 320) (wy + 53) ''+ FILE'' 0xFFFFFF;
     act active (wx + 280) (wy + 45) 80 25 (new_app_file hw);
     full \<leftarrow> gets clipboard_active;
     when_m full (do {
       show_box (wx + 370) (wy + 45) 80 25 4 0x00AA55;
       centred (wx + 410) (wy + 53) ''PASTE'' 0xFFFFFF;
       act active (wx + 370) (wy + 45) 80 25 (paste_clipboard hw 4)
     })
   }"

definition nav_button :: "bool \<Rightarrow> int \<Rightarrow> int \<Rightarrow> int \<Rightarrow> u32 \<Rightarrow> int \<Rightarrow> string \<Rightarrow> (('d, 'z) files_scheme, unit) state \<Rightarrow> (('d, 'z) files_scheme, unit) state" where
  "nav_button active x y w c tx label go = do {
     show_box x y w 20 2 c;
     show_text tx (y + 5) label 0xFFFFFF True;
     act active x y w 20 go
   }"

definition folder_nav :: "bool \<Rightarrow> int \<Rightarrow> int \<Rightarrow> (('d, 'z) files_scheme, unit) state" where
  "folder_nav active wx wy = do {
     cur \<leftarrow> gets current_folder_id;
     (if cur \<noteq> 255 then do {
        show_text (wx + 15) (wy + 120) ''TARGET:'' 0xAAAAAA True;
        name \<leftarrow> gets (\<lambda>s. c_str (of_name (cfs_files s ! unat cur)));
        show_text (wx + 80) (wy + 120) name 0x00FF00 True;
        nav_button active (wx + 15) (wy + 140) 60 0x444444 (wx + 20) ''[ BACK ]'' folder_back;
        nav_button active (wx + 85) (wy + 140) 45 0x444444 (wx + 92) ''PREV'' page_prev;
        nav_button active (wx + 135) (wy + 140) 45 0x444444 (wx + 142) ''NEXT'' page_next;
        nav_button active (wx + 185) (wy + 140) 45 0x0055AA (wx + 194) ''REF'' page_refresh
      }
      else do {
        show_text (wx + 15) (wy + 120) ''--- ROOT DIRECTORY ---'' 0xFFFFFF True;
        show_box (wx + 210) (wy + 45) 60 25 4 0x444444;
        centred (wx + 240) (wy + 53) ''BACK'' 0xFFFFFF;
        act active (wx + 210) (wy + 45) 60 25 close_drive
      })
   }"

text \<open>The list of an NTFS folder is read from the cache when something has changed; it may never end.\<close>

definition refresh_list :: "(('d, 'z) desktop_scheme, unit) state" where
  "refresh_list = modify (\<lambda>s. case browse_ntfs s of None \<Rightarrow> s\<lparr>stopped := True\<rparr> | Some s' \<Rightarrow> s')"

definition file_row :: "'d hw \<Rightarrow> os2_image \<Rightarrow> bool \<Rightarrow> int \<Rightarrow> nat \<Rightarrow> os2_file \<Rightarrow> int \<Rightarrow> (('d, 'z) files_scheme, unit) state" where
  "file_row hw I active wx i f y = do {
     hov \<leftarrow> gets (over (wx + 15) y 265 20);
     show_box (wx + 15) y 16 16 2 (if of_is_folder f \<noteq> 0 then 0xFFAA00 else if hov then 0x00AAFF else 0x0088FF);
     show_text (wx + 40) (y + 4) (c_str (of_name f)) (if hov then 0x00FF00 else 0xFFFFFF) False;
     show_box (wx + 190) y 40 16 2 0x0055AA;
     show_text (wx + 198) (y + 4) ''OPEN'' 0xFFFFFF False;
     show_box (wx + 235) y 40 16 2 0xAA5500;
     show_text (wx + 241) (y + 4) ''COPY'' 0xFFFFFF False;
     act active (wx + 190) y 40 16 (open_entry hw I 4 i);
     act active (wx + 235) y 40 16 (copy_entry hw 4 i)
   }"

fun file_rows :: "'d hw \<Rightarrow> os2_image \<Rightarrow> bool \<Rightarrow> int \<Rightarrow> nat list \<Rightarrow> int \<Rightarrow> (('d, 'z) files_scheme, unit) state" where
  "file_rows hw I active wx [] y = skip"
| "file_rows hw I active wx (i # is) y = do {
     f \<leftarrow> gets (\<lambda>s. cfs_files s ! i);
     shown \<leftarrow> gets (\<lambda>s. of_exists f \<noteq> 0 \<and> of_parent_idx f = current_folder_id s);
     when_m shown (file_row hw I active wx i f y);
     file_rows hw I active wx is (if shown then y + 25 else y)
   }"

definition drive_row :: "'d hw \<Rightarrow> bool \<Rightarrow> int \<Rightarrow> int \<Rightarrow> nat \<Rightarrow> (('d, 'z) files_scheme, unit) state" where
  "drive_row hw active wx y i = do {
     p \<leftarrow> gets (\<lambda>s. detected_ports s ! i);
     sel \<leftarrow> gets selected_drive_idx;
     show_box (wx + 15) y 120 25 4 (if sel = int i then 0x0088FF else 0x333333);
     show_text (wx + 25) (y + 5) (''PORT '' @ [char_of (48 + p)]) 0xFFFFFF True;
     act active (wx + 15) y 120 25 (select_drive hw i)
   }"

definition drive_list :: "'d hw \<Rightarrow> nat \<Rightarrow> bool \<Rightarrow> int \<Rightarrow> int \<Rightarrow> (('d, 'z) desktop_scheme, unit) state" where
  "drive_list hw fuel active wx wy = do {
     show_text (wx + 15) (wy + 45) ''AVAILABLE DRIVES:'' 0xAAAAAA True;
     n \<leftarrow> gets detected_port_count;
     for_m [0..<n] (\<lambda>i. drive_row hw active wx (wy + 60 + 30 * int i) i);
     sel \<leftarrow> gets selected_drive_idx;
     show_box (wx + 150) (wy + 60) 80 25 4 (if sel = - 1 then 0x444444 else 0x00AA00);
     centred (wx + 190) (wy + 68) ''OPEN'' 0xFFFFFF;
     show_box (wx + 240) (wy + 60) 80 25 4 (if sel = - 1 then 0x444444 else 0xAA0000);
     centred (wx + 280) (wy + 68) ''FORMAT'' 0xFFFFFF;
     act (active \<and> sel \<noteq> - 1) (wx + 240) (wy + 60) 80 25 (format_cfs hw 4);
     act (active \<and> sel \<noteq> - 1) (wx + 150) (wy + 60) 80 25 (do { ok \<leftarrow> mount_drive fuel hw 4; stop_when (\<not> ok) })
   }"

definition disk_window :: "'d hw \<Rightarrow> os2_image \<Rightarrow> nat \<Rightarrow> window \<Rightarrow> int \<Rightarrow> int \<Rightarrow> (('d, 'z) desktop_scheme, unit) state" where
  "disk_window hw I fuel w wx wy = do {
     active \<leftarrow> gets (in_front 4);
     opened_drive \<leftarrow> gets dsk_mgr_opened;
     (if opened_drive then do {
        drive_info wx wy w;
        edit_buttons hw active wx wy;
        folder_nav active wx wy;
        refresh_list;
        while_running (file_rows hw I active wx [0..<28] (wy + 170))
      }
      else drive_list hw fuel active wx wy)
   }"

subsection \<open>The notepad and the SAVE AS window\<close>

definition cursor_place :: "window \<Rightarrow> int \<times> int" where
  "cursor_place w = fold (\<lambda>c (x, y). if c = CHR 0x0A then (0, y + 15) else (x + 6, y)) (take (win_cursor w) (win_content w)) (0, 0)"

definition notepad_window :: "'d hw \<Rightarrow> window \<Rightarrow> int \<Rightarrow> int \<Rightarrow> int \<Rightarrow> (('d, 'z) keys_scheme, unit) state" where
  "notepad_window hw w wx wy ww = do {
     active \<leftarrow> gets (in_front 0);
     show_text (wx + 15) (wy + 45) (c_str (win_content w)) 0xFFFFFF False;
     on \<leftarrow> gets blinking;
     when_m (active \<and> on) (show_box (wx + 15 + fst (cursor_place w)) (wy + 45 + snd (cursor_place w)) 6 10 0 0xFFFFFF);
     show_box (wx + ww - 80) (wy + 15) 60 20 3 0x005500;
     centred (wx + ww - 50) (wy + 21) ''SAVE'' 0xFFFFFF;
     act active (wx + ww - 80) (wy + 15) 60 20 (notepad_save hw);
     show_box (wx + ww - 160) (wy + 15) 75 20 3 0x444444;
     centred (wx + ww - 122) (wy + 21) ''SAVE AS'' 0xFFFFFF;
     act active (wx + ww - 160) (wy + 15) 75 20 open_save_as
   }"

definition name_row :: "int \<Rightarrow> int \<Rightarrow> int \<Rightarrow> string \<Rightarrow> string \<Rightarrow> nat \<Rightarrow> (('d, 'z) keys_scheme, unit) state" where
  "name_row wx wy ww prompt t i = do {
     show_text (wx + 20) (wy + 40) prompt 0 True;
     show_box (wx + 20) (wy + 60) (ww - 40) 25 2 0xCCCCCC;
     show_text (wx + 25) (wy + 65) (c_str t) 0 True;
     on \<leftarrow> gets blinking;
     when_m on (poke (os2_DrawChar (wx + 25 + int i * 7) (wy + 65) (CHR ''_'') 0 True))
   }"

definition choose_view :: "bool \<Rightarrow> int \<Rightarrow> int \<Rightarrow> int \<Rightarrow> int \<Rightarrow> (('d, 'z) keys_scheme, unit) state" where
  "choose_view active wx wy ww wh = do {
     show_text (wx + 20) (wy + 40) ''DESTINATION: ACTIVE MOUNTED DRIVE'' 0 True;
     m \<leftarrow> gets is_mounted;
     (if \<not> m then do {
        show_text (wx + 20) (wy + 70) ''NO CFS DRIVE MOUNTED!'' 0xFF0000 True;
        show_text (wx + 20) (wy + 90) ''PLEASE OPEN DISK MGR AND MOUNT FIRST.'' 0x555555 True
      }
      else do {
        show_text (wx + 20) (wy + 70) ''DRIVE IS READY. SELECT ACTION:'' 0x00AA00 True;
        show_box (wx + 20) (wy + wh - 40) 110 25 5 0xCCCCCC;
        centred (wx + 75) (wy + wh - 32) ''NEW FOLDER'' 0;
        act active (wx + 20) (wy + wh - 40) 110 25 (choose_step 2);
        show_box (wx + ww - 110) (wy + wh - 40) 90 25 5 0x555555;
        centred (wx + ww - 65) (wy + wh - 32) ''NEXT (FILE)'' 0xFFFFFF;
        act active (wx + ww - 110) (wy + wh - 40) 90 25 (choose_step 1)
      })
   }"

definition save_window :: "'d hw \<Rightarrow> int \<Rightarrow> int \<Rightarrow> int \<Rightarrow> int \<Rightarrow> (('d, 'z) keys_scheme, unit) state" where
  "save_window hw wx wy ww wh = do {
     active \<leftarrow> gets (in_front 2);
     step \<leftarrow> gets save_step;
     let x = wx + ww - 100;
     let y = wy + wh - 40;
     (if step = 0 then choose_view active wx wy ww wh
      else if step = 1 then do {
        t \<leftarrow> gets save_filename;
        i \<leftarrow> gets save_name_idx;
        name_row wx wy ww ''ENTER FILENAME (MAX 11 CHARS):'' t i;
        show_box x y 80 25 5 0x00AA00;
        centred (wx + ww - 60) (wy + wh - 32) ''SAVE'' 0xFFFFFF;
        act active x y 80 25 (save_as_file hw)
      }
      else when_m (step = 2) (do {
        t \<leftarrow> gets new_folder_name;
        i \<leftarrow> gets folder_name_idx;
        name_row wx wy ww ''FOLDER NAME (MAX 11 CHARS):'' t i;
        show_box x y 80 25 5 0x0055AA;
        centred (wx + ww - 60) (wy + wh - 32) ''CREATE'' 0xFFFFFF;
        act active x y 80 25 (create_folder hw)
      }))
   }"

subsection \<open>The command window\<close>

text \<open>A line that is handed to the script interpreter ends with a line break.\<close>

definition console_line :: "('d, 'z) desk_scheme \<Rightarrow> string" where
  "console_line s = take (cmd_input_idx s + 1) (c_str (cmd_input_buf s) @ [CHR 0x0A])"

definition console_press :: "char \<Rightarrow> string \<times> nat \<Rightarrow> string \<times> nat" where
  "console_press c l = (if c = CHR 0x08 then del_char l
     else if printable c then add_char 60 c l else l)"

definition console_key :: "'d hw \<Rightarrow> string \<Rightarrow> (('d, 'z) terminal_scheme, unit) state" where
  "console_key hw line = do {
     c \<leftarrow> gets last_app_key;
     i \<leftarrow> gets cmd_input_idx;
     (if c = CHR 0x0A \<or> c = CHR 0x0D then when_m (i > 0) (do {
        t \<leftarrow> gets console_line;
        run_cosmos_script hw line t;
        modify (\<lambda>s. s\<lparr>cmd_input_idx := 0, cmd_input_buf := (cmd_input_buf s)[0 := CHR 0x00]\<rparr>)
      })
      else modify (cmd_edit (console_press c)))
   }"

definition console_step :: "'d hw \<Rightarrow> string \<Rightarrow> (('d, 'z) terminal_scheme, unit) state" where
  "console_step hw line = do {
     key \<leftarrow> gets (\<lambda>s. in_front 5 s \<and> key_new s);
     when_m key (console_key hw line)
   }"

definition cmd_window :: "'d hw \<Rightarrow> string \<Rightarrow> window \<Rightarrow> int \<Rightarrow> int \<Rightarrow> (('d, 'z) terminal_scheme, unit) state" where
  "cmd_window hw line w wx wy = do {
     show_text (wx + 15) (wy + 45) (c_str (win_content w)) 0x00FF00 False;
     let prompt_y = wy + 45 + int (length (filter (\<lambda>c. c = CHR 0x0A) (take (win_cursor w) (win_content w)))) * 15;
     show_text (wx + 15) prompt_y (''C:'' @ [CHR 0x5C] @ ''> '') 0x00FF00 True;
     t \<leftarrow> gets (\<lambda>s. c_str (cmd_input_buf s));
     show_text (wx + 55) prompt_y t 0x00FF00 True;
     console_step hw line
   }"

subsection \<open>All windows\<close>

definition window_body :: "'d hw \<Rightarrow> os2_setup \<Rightarrow> window \<Rightarrow> int \<Rightarrow> int \<Rightarrow> int \<Rightarrow> int \<Rightarrow> bool \<Rightarrow> (('d, 'z) desktop_scheme, unit) state" where
  "window_body hw U w wx wy ww wh blocked =
     (if win_id w = 8 then run_browser_engine hw (su_net U) wx wy ww wh blocked
      else if win_id w = 11 then run_pong_engine hw wx wy ww wh blocked
      else if win_id w = 12 then run_blobby_engine hw wx wy ww wh blocked
      else if win_id w = 3 then system_window hw (su_net U) wx wy ww wh
      else if win_id w = 1 then app_launcher wx wy ww blocked
      else if win_id w = 4 then disk_window hw (su_image U) (su_fuel U) w wx wy
      else if win_id w = 0 then notepad_window hw w wx wy ww
      else if win_id w = 2 then save_window hw wx wy ww wh
      else when_m (win_id w = 5) (cmd_window hw (su_line U) w wx wy))"

text \<open>The windows are drawn from the back to the front; the place in the order is read as the loop comes to it.\<close>

definition show_window :: "'d hw \<Rightarrow> os2_setup \<Rightarrow> bool \<Rightarrow> nat \<Rightarrow> (('d, 'z) desktop_scheme, unit) state" where
  "show_window hw U modal i = do {
     k \<leftarrow> gets (\<lambda>s. win_z s ! i);
     w \<leftarrow> gets (\<lambda>s. windows s ! k);
     when_m (win_open w \<and> \<not> win_minimized w) (case win_rect w of (wx, wy, ww, wh) \<Rightarrow> do {
       draw_frame w wx wy ww wh;
       window_body hw U w wx wy ww wh (modal \<and> k \<noteq> 2)
     })
   }"

definition show_windows :: "'d hw \<Rightarrow> os2_setup \<Rightarrow> (('d, 'z) desktop_scheme, unit) state" where
  "show_windows hw U = do {
     modal \<leftarrow> gets (\<lambda>s. win_open (windows s ! 2) \<and> \<not> win_minimized (windows s ! 2));
     for_m [0..<13] (\<lambda>i. while_running (show_window hw U modal i))
   }"

subsection \<open>The hardware list and the window of a program\<close>

definition oracle_row :: "int \<Rightarrow> mirror_entry \<Rightarrow> ('d, 'z, unit) op" where
  "oracle_row ry e = do {
     show_text 50 ry (int_str (int (me_bus e))) 0x888888 False;
     show_text 130 ry (hex_to_str32 (me_vendor e)) 0x00FF00 False;
     show_text 190 ry (hex_to_str32 (me_device e)) 0x00FF00 False;
     show_text 280 ry (hex_to_str32 (ucast (drop_bit 32 (me_bar0 e))) @ '' '' @ hex_to_str32 (ucast (me_bar0 e)))
       (if me_bar0 e = 0 then 0xFF0000 else 0xFFFFFF) False;
     show_text 550 ry (me_name e) 0xCCCCCC False
   }"

definition draw_oracle :: "(('d, 'z) keys_scheme, unit) state" where
  "draw_oracle = do {
     show_box 30 30 740 540 5 0x111111;
     show_box 30 30 740 30 5 0x333333;
     show_text 200 38 ''64-BIT HARDWARE ORACLE (SAFE READ ONLY)'' 0x00FF00 True;
     show_text 50 70 ''B:D:F'' 0xAAAAAA True;
     show_text 130 70 ''VENDOR DEVICE'' 0xAAAAAA True;
     show_text 280 70 ''64-BIT BASE ADDR (BAR0)'' 0xAAAAAA True;
     show_text 550 70 ''DEVICE CLASS'' 0xAAAAAA True;
     n \<leftarrow> gets mirror_count;
     for_m [0..<n] (\<lambda>i. do { e \<leftarrow> gets (\<lambda>s. mirror_list s ! i); oracle_row (95 + 14 * int i) e });
     esc \<leftarrow> gets (\<lambda>s. key_scancode s = 1);
     when_m esc (modify (\<lambda>s. s\<lparr>key_scancode := 0, show_oracle := False\<rparr>))
   }"

text \<open>The 50 times 50 pixels of the running program; black is transparent.\<close>

definition app_pixels :: "nat \<Rightarrow> mem \<Rightarrow> mem" where
  "app_pixels buf m = fold (\<lambda>y. fold (\<lambda>x m. let c = rd32 m (buf + 4 * (y * 50 + x)) in
     if c \<noteq> 0 then Put (100 + int x) (100 + int y) c m else m) [0..<50]) [0..<50] m"

subsection \<open>A frame of the main loop\<close>

definition finish_frame :: "os2_setup \<Rightarrow> (('d, 'z) desktop_scheme, unit) state" where
  "finish_frame U = do {
     oracle \<leftarrow> gets show_oracle;
     when_m oracle draw_oracle;
     app \<leftarrow> gets app_window_active;
     when_m app (poke (app_pixels (su_app U)));
     x \<leftarrow> gets mouse_x;
     y \<leftarrow> gets mouse_y;
     poke (DrawAeroCursor x y);
     poke (os2_Swap (su_fb U));
     modify (\<lambda>s. s\<lparr>frame := frame s + 1\<rparr>)
   }"

definition desktop_frame :: "'d hw \<Rightarrow> os2_setup \<Rightarrow> (('d, 'z) desktop_scheme, unit) state" where
  "desktop_frame hw U = do {
     input_part hw (su_net U) (su_image U);
     draw_scene;
     show_windows hw U;
     while_running (finish_frame U)
   }"

definition run_desktop :: "'d hw \<Rightarrow> os2_setup \<Rightarrow> nat \<Rightarrow> (('d, 'z) desktop_scheme, unit) state" where
  "run_desktop hw U n = for_m [0..<n] (\<lambda>_. while_running (desktop_frame hw U))"

subsection \<open>Without a click the windows only draw\<close>

text \<open>
  An operation that, from every state with \<open>P\<close>, changes nothing but pixels of the back buffer, with
  a collection of rules that go through its structure.
\<close>

definition only_draws :: "(('d, 'z) machine_scheme \<Rightarrow> bool) \<Rightarrow> (('d, 'z) machine_scheme, 'a) state \<Rightarrow> bool" where
  "only_draws P c \<longleftrightarrow> (\<forall>s. P s \<longrightarrow>
     snd (run_state c s) = s\<lparr>ram := ram (snd (run_state c s))\<rparr> \<and> drawn (ram s) (ram (snd (run_state c s))))"

definition ram_free :: "(('d, 'z) machine_scheme \<Rightarrow> bool) \<Rightarrow> bool" where
  "ram_free P \<longleftrightarrow> (\<forall>s m. P s \<longrightarrow> P (s\<lparr>ram := m\<rparr>))"

named_theorems draws \<open>operations that only draw\<close>

lemma draws_poke [draws]: "(\<And>m m'. drawn m m' \<Longrightarrow> drawn m (f m')) \<Longrightarrow> only_draws P (poke f)"
  by (simp add: only_draws_def)

lemma draws_pure [draws]: "only_draws P skip" "only_draws P (gets f)"
  by (simp_all add: only_draws_def)

lemma draws_bind [draws]:
  assumes "ram_free P" "only_draws P c" "\<And>x. only_draws P (g x)"
  shows "only_draws P (c \<bind> g)"
  unfolding only_draws_def
proof (intro allI impI)
  fix s assume P: "P s"
  obtain x t where c: "run_state c s = (x, t)" by fastforce
  then have m: "t = s\<lparr>ram := ram t\<rparr>" "drawn (ram s) (ram t)" using assms(2) P by (auto simp: only_draws_def)
  then have "P t" using assms(1) P unfolding ram_free_def by metis
  then have n: "snd (run_state (g x) t) = t\<lparr>ram := ram (snd (run_state (g x) t))\<rparr>" "drawn (ram t) (ram (snd (run_state (g x) t)))"
    using assms(3) [of x] by (simp_all add: only_draws_def)
  have "snd (run_state (g x) t) = s\<lparr>ram := ram (snd (run_state (g x) t))\<rparr>"
    by (subst n(1), subst m(1)) simp
  then show "snd (run_state (c \<bind> g) s) = s\<lparr>ram := ram (snd (run_state (c \<bind> g) s))\<rparr>
      \<and> drawn (ram s) (ram (snd (run_state (c \<bind> g) s)))"
    using c drawn_trans [OF m(2) n(2)] by simp
qed

lemma draws_when [draws]: "(b \<Longrightarrow> only_draws P c) \<Longrightarrow> only_draws P (when_m b c)"
  by (cases b) (simp_all add: when_m_def draws_pure)

lemma draws_if [draws]: "(b \<Longrightarrow> only_draws P c) \<Longrightarrow> (\<not> b \<Longrightarrow> only_draws P d) \<Longrightarrow> only_draws P (if b then c else d)"
  by simp

lemma draws_for [draws]: "ram_free P \<Longrightarrow> (\<And>i. only_draws P (f i)) \<Longrightarrow> only_draws P (for_m us f)"
  by (induction us) (simp_all add: draws)

lemma draws_front: "(\<And>b. only_draws (P b) (g b)) \<Longrightarrow> only_draws (\<lambda>s. P (f s) s) (gets f \<bind> g)"
  by (simp add: only_draws_def)

lemma draws_weaken: "only_draws P c \<Longrightarrow> (\<And>s. Q s \<Longrightarrow> P s) \<Longrightarrow> only_draws Q c"
  by (simp add: only_draws_def)

text \<open>No click, a click that is too early, or a window that is not in front.\<close>

definition calm :: "bool \<Rightarrow> ('d, 'z) desk_scheme \<Rightarrow> bool" where
  "calm active s \<longleftrightarrow> \<not> (mouse_just_pressed s \<and> active \<and> input_cooldown s = 0)"

lemma calm_free [draws]: "ram_free (calm active)"
  by (simp add: ram_free_def calm_def)

lemma draws_act [draws]: "(a \<Longrightarrow> active) \<Longrightarrow> only_draws (calm active) (act a x y w h c)"
  by (auto simp: only_draws_def act_def calm_def pressed_on_def)

lemma draws_parts [draws]:
  "only_draws P (show_box x y w h r c)" "only_draws P (show_text x y t c b)" "only_draws P (centred x y t c)"
  unfolding show_box_def show_text_def centred_def by (intro draws on_screen; assumption)+

lemma draws_task_rows [draws]: "ram_free P \<Longrightarrow> only_draws P (task_rows wx ts y)"
  by (induction ts arbitrary: y) (simp_all add: draws task_row_def)

lemma system_draws: "only_draws (\<lambda>s. calm (in_front 3 s) s) (system_window hw N wx wy ww wh)"
  unfolding system_window_def system_toggles_def system_info_def oracle_button_def hardware_rows_def dhcp_button_def power_buttons_def Let_def
  by (rule draws_front, intro draws, assumption+)

lemma draws_file_rows [draws]: "only_draws (calm active) (file_rows hw I active wx us y)"
  by (induction us arbitrary: y) (simp_all add: draws file_row_def)

lemma notepad_draws: "only_draws (\<lambda>s. calm (in_front 0 s) s) (notepad_window hw w wx wy ww)"
  unfolding notepad_window_def by (rule draws_front, intro draws, assumption+)

lemma save_draws: "only_draws (\<lambda>s. calm (in_front 2 s) s) (save_window hw wx wy ww wh)"
  unfolding save_window_def choose_view_def name_row_def Let_def
  by (rule draws_front, intro draws on_screen, assumption+)

lemma drive_list_draws: "only_draws (calm active) (drive_list hw fuel active wx wy)"
  unfolding drive_list_def drive_row_def by (intro draws) simp_all

text \<open>A refresh of the list is due when an NTFS folder is shown and something has changed.\<close>

definition refresh_due :: "('d, 'z) files_scheme \<Rightarrow> bool" where
  "refresh_due s \<longleftrightarrow> dsk_mgr_opened s \<and> is_ntfs_drive s \<and> need_ui_refresh s"

lemma drive_view_draws:
  "only_draws (\<lambda>s. calm active s \<and> \<not> (is_ntfs_drive s \<and> need_ui_refresh s)) (do {
     drive_info wx wy w;
     edit_buttons hw active wx wy;
     folder_nav active wx wy;
     refresh_list;
     while_running (file_rows hw I active wx us y)
   })"
proof -
  let ?P = "\<lambda>s :: ('a, 'b) desktop_scheme. calm active s \<and> \<not> (is_ntfs_drive s \<and> need_ui_refresh s)"
  have free: "ram_free ?P" by (simp add: ram_free_def calm_def)
  have c: "only_draws (calm active) c \<Longrightarrow> only_draws ?P c" for c :: "(('a, 'b) desktop_scheme, 'c) state"
    by (erule draws_weaken) simp
  have a: "only_draws (calm active) (drive_info wx wy w)" "only_draws (calm active) (edit_buttons hw active wx wy)"
    "only_draws (calm active) (folder_nav active wx wy)" "only_draws (calm active) (while_running (file_rows hw I active wx us y))"
    unfolding drive_info_def edit_buttons_def folder_nav_def nav_button_def while_running_def by (intro draws; assumption)+
  have ref: "only_draws ?P refresh_list" by (simp add: only_draws_def refresh_list_def browse_ntfs_def)
  show ?thesis
    by (intro draws_bind free) (rule c [OF a(1)], rule c [OF a(2)], rule c [OF a(3)], rule ref, rule c [OF a(4)])
qed

lemma disk_draws:
  "only_draws (\<lambda>s. calm (in_front 4 s) s \<and> \<not> refresh_due s) (disk_window hw I fuel w wx wy)"
proof -
  have "only_draws (\<lambda>s. calm a s \<and> \<not> refresh_due s) (gets dsk_mgr_opened \<bind> (\<lambda>b. if b then do {
        drive_info wx wy w; edit_buttons hw a wx wy; folder_nav a wx wy; refresh_list; while_running (file_rows hw I a wx [0..<28] (wy + 170)) }
      else drive_list hw fuel a wx wy))" for a
  proof (rule draws_weaken)
    show "only_draws (\<lambda>s. (\<lambda>b s. calm a s \<and> (b \<longrightarrow> \<not> (is_ntfs_drive s \<and> need_ui_refresh s))) (dsk_mgr_opened s) s)
      (gets dsk_mgr_opened \<bind> (\<lambda>b. if b then do {
        drive_info wx wy w; edit_buttons hw a wx wy; folder_nav a wx wy; refresh_list; while_running (file_rows hw I a wx [0..<28] (wy + 170)) }
      else drive_list hw fuel a wx wy))"
      by (rule draws_front, rule draws_if)
        (rule draws_weaken [OF drive_view_draws], simp, rule draws_weaken [OF drive_list_draws], simp)
  qed (simp add: refresh_due_def)
  then show ?thesis unfolding disk_window_def by (rule draws_front)
qed

lemma cmd_draws: "only_draws (\<lambda>s. \<not> (in_front 5 s \<and> key_new s)) (cmd_window hw line w wx wy)"
proof -
  let ?P = "\<lambda>s :: ('a, 'b) terminal_scheme. \<not> (in_front 5 s \<and> key_new s)"
  have free: "ram_free ?P" by (simp add: ram_free_def in_front_def)
  have "only_draws ?P (console_step hw line)" by (simp add: only_draws_def console_step_def)
  then show ?thesis unfolding cmd_window_def Let_def by (intro draws free)
qed


subsection \<open>Every frame keeps the kernel in order\<close>

definition desktop_ok :: "('d, 'z) scene_scheme \<Rightarrow> bool" where
  "desktop_ok s \<longleftrightarrow> arcade_ok s \<and> scene_ok s"

lemmas desktop_unfold = desktop_ok_def arcade_ok_def keys_ok_def desk_ok_def mouse_ok_def wins_ok_def bufs_ok_def lines_ok_def
  mirror_ok_def browser_ok_def scene_ok_def

lemma desktop_upd [simp]:
  "desktop_ok (s\<lparr>ram := m\<rparr>) = desktop_ok s" "desktop_ok (s\<lparr>dev := d\<rparr>) = desktop_ok s"
  "desktop_ok (s\<lparr>cmd_status := t\<rparr>) = desktop_ok s" "desktop_ok (s\<lparr>hw_usb := t\<rparr>) = desktop_ok s"
  "desktop_ok (s\<lparr>tasks := ts\<rparr>) = desktop_ok s" "desktop_ok (s\<lparr>num_tasks := n\<rparr>) = desktop_ok s"
  "desktop_ok (s\<lparr>current_task := n\<rparr>) = desktop_ok s" "desktop_ok (s\<lparr>os2_irqs := b\<rparr>) = desktop_ok s"
  "desktop_ok (s\<lparr>os2_part_starts := a\<rparr>) = desktop_ok s" "desktop_ok (s\<lparr>os2_part_count := n\<rparr>) = desktop_ok s"
  "desktop_ok (s\<lparr>input_cooldown := i\<rparr>) = desktop_ok s" "desktop_ok (s\<lparr>key_scancode := k\<rparr>) = desktop_ok s"
  "desktop_ok (s\<lparr>show_oracle := b\<rparr>) = desktop_ok s" "desktop_ok (s\<lparr>frame := f\<rparr>) = desktop_ok s"
  "desktop_ok (s\<lparr>os2_hw_storage := t\<rparr>) = desktop_ok s" "desktop_ok (s\<lparr>os2_hw_net := t\<rparr>) = desktop_ok s"
  "desktop_ok (s\<lparr>os2_hw_gpu := t\<rparr>) = desktop_ok s" "desktop_ok (s\<lparr>save_step := i\<rparr>) = desktop_ok s"
  "desktop_ok (s\<lparr>usb_out_idx := n\<rparr>) = desktop_ok s" "desktop_ok (s\<lparr>usb_in_idx := n\<rparr>) = desktop_ok s"
  "desktop_ok (s\<lparr>active_sata_port := n\<rparr>) = desktop_ok s" "desktop_ok (s\<lparr>selected_drive_idx := i\<rparr>) = desktop_ok s"
  by (simp_all add: desktop_unfold)

lemma desktop_files [simp]:
  "desktop_ok (s\<lparr>cfs_files := fs\<rparr>) = desktop_ok s" "desktop_ok (s\<lparr>active_file_lba := l\<rparr>) = desktop_ok s"
  "desktop_ok (s\<lparr>active_file_idx := n\<rparr>) = desktop_ok s" "desktop_ok (s\<lparr>current_folder_id := c\<rparr>) = desktop_ok s"
  "desktop_ok (s\<lparr>dsk_mgr_opened := b\<rparr>) = desktop_ok s" "desktop_ok (s\<lparr>drive_total_gb := l\<rparr>) = desktop_ok s"
  "desktop_ok (s\<lparr>drive_used_kb := l\<rparr>) = desktop_ok s" "desktop_ok (s\<lparr>is_mounted := b\<rparr>) = desktop_ok s"
  "desktop_ok (s\<lparr>is_ntfs_drive := b\<rparr>) = desktop_ok s" "desktop_ok (s\<lparr>need_ui_refresh := b\<rparr>) = desktop_ok s"
  "desktop_ok (s\<lparr>current_page_offset := n\<rparr>) = desktop_ok s" "desktop_ok (s\<lparr>active_ntfs_folder_lba := l\<rparr>) = desktop_ok s"
  "desktop_ok (s\<lparr>clipboard_active := b\<rparr>) = desktop_ok s" "desktop_ok (s\<lparr>clipboard_name := t\<rparr>) = desktop_ok s"
  "desktop_ok (s\<lparr>clipboard_is_folder := b\<rparr>) = desktop_ok s" "desktop_ok (upd_file i g s) = desktop_ok s"
  "desktop_ok (r\<lparr>stopped := b\<rparr>) = desktop_ok r" "desktop_ok (r\<lparr>sys_lang := v\<rparr>) = desktop_ok r" "desktop_ok (r\<lparr>sys_theme := v\<rparr>) = desktop_ok r"
  by (simp_all add: desktop_unfold upd_file_def)

lemma desktop_window:
  assumes "desktop_ok s" "\<And>w. win_ok w \<Longrightarrow> win_ok (f w) \<and> win_id (f w) = win_id w"
  shows "desktop_ok (upd_window k f s)"
proof -
  have "arcade_ok (upd_window k f s)" using assms by (intro arcade_win) (simp_all add: desktop_ok_def)
  then show ?thesis using assms(1) by (simp add: desktop_ok_def) (simp add: scene_ok_def upd_window_def)
qed

lemma desktop_front: "desktop_ok s \<Longrightarrow> desktop_ok (s\<lparr>win_z := focus_window k (win_z s)\<rparr>)"
  using arcade_focus [of s k] by (simp add: desktop_ok_def) (simp add: scene_ok_def)

lemma desktop_shell_frame: "shell_frame desktop_ok"
  unfolding shell_frame_def
  by (auto intro!: desktop_window print_win_keeps) (simp_all add: win_ok_def)

lemma desktop_net_frame: "net_frame desktop_ok"
  using net_frame_arcade by (auto simp: net_frame_def desktop_ok_def scene_ok_def set_info_def)

text \<open>The operations the windows call, one by one; the collection names what has been shown.\<close>

named_theorems kept \<open>operations that keep the kernel in order\<close>

lemma kept_hw: "touches_hw c \<Longrightarrow> preserves desktop_ok c"
  by (rule frame_hw [OF desktop_shell_frame])

lemma kept_poke [kept]: "preserves desktop_ok (poke f)"
  by (rule kept_hw) (intro hw_only)

lemma kept_peek [kept]: "preserves desktop_ok (peek f)"
  by (rule kept_hw) (intro hw_only)

lemma kept_window: "(\<And>w. win_ok w \<Longrightarrow> win_ok (f w) \<and> win_id (f w) = win_id w) \<Longrightarrow> preserves desktop_ok (modify (upd_window k f))"
  by (intro preserves_modify desktop_window)

lemma kept_parts [kept]:
  "preserves desktop_ok (say k t)" "preserves desktop_ok (set_title k t)" "preserves desktop_ok (cooldown n)"
  "preserves desktop_ok (set_cooldown n)" "preserves desktop_ok (show_box x y w h r c)" "preserves desktop_ok (show_text x y t c b)"
  "preserves desktop_ok (centred x y t c)" "preserves desktop_ok (set_status t)"
  unfolding set_title_def cooldown_def set_cooldown_def show_box_def show_text_def centred_def set_status_def
  by (rule frame_say [OF desktop_shell_frame]) (intro kept kept_window preserves_modify; simp add: win_ok_def)+

lemma kept_raise [kept]: "preserves desktop_ok (raise_window i)"
  unfolding raise_window_def
proof (rule preserves_modify)
  fix s :: "('a, 'b) scene_scheme" assume "desktop_ok s"
  then have "desktop_ok (upd_window i (\<lambda>v. v\<lparr>win_open := True, win_minimized := False\<rparr>) s)"
    by (rule desktop_window) (simp add: win_ok_def)
  from desktop_front [OF this, of i]
  show "desktop_ok ((upd_window i (\<lambda>v. v\<lparr>win_open := True, win_minimized := False\<rparr>) s)\<lparr>win_z := focus_window i (win_z s)\<rparr>)"
    by (simp add: upd_window_def)
qed

lemma desktop_window_steps [simp]:
  "desktop_ok s \<Longrightarrow> desktop_ok (upd_window i (\<lambda>v. v\<lparr>win_open := False\<rparr>) s)"
  "desktop_ok s \<Longrightarrow> desktop_ok (upd_window i (\<lambda>v. v\<lparr>win_cursor := 0\<rparr>) s)"
  by (erule desktop_window, simp add: win_ok_def)+

lemma kept_sectors [kept]:
  "preserves desktop_ok (os2_read_sectors hw lba buf)" "preserves desktop_ok (os2_write_sectors hw lba buf)"
  by (intro kept_hw hw_only)+

lemma kept_bot [kept]: "preserves desktop_ok (bot_out hw i b n)" "preserves desktop_ok (bot_in hw i b n)"
  unfolding bot_out_def bot_in_def by (intro preserving kept kept_hw hw_only; simp add: ring_doorbell_def)+

lemma kept_disk [kept]: "preserves desktop_ok (disk_read_auto hw lba buf)" "preserves desktop_ok (disk_write_auto hw lba buf)"
  unfolding disk_read_auto_def disk_write_auto_def xhci_bot_read_sectors_def xhci_bot_write_sectors_def
  by (intro preserving kept kept_hw hw_only)+

lemma shown_text_length: "length (shown_text n m) \<le> n"
  unfolding shown_text_def by (rule order.trans [OF length_filter_le length_cstr])

lemma text_limit_bound: "text_limit sz \<le> 2000"
  by (simp add: text_limit_def Let_def)

lemma kept_text [kept]:
  "preserves desktop_ok (do { t \<leftarrow> peek (shown_text (text_limit sz));
     modify (upd_window 0 (\<lambda>v. v\<lparr>win_content := put_str t (win_content v), win_cursor := length t\<rparr>)) })"
  unfolding preserves_def
proof (intro allI impI)
  fix s :: "('a, 'b) scene_scheme"
  assume ok: "desktop_ok s"
  let ?t = "shown_text (text_limit sz) (ram s)"
  have "length ?t \<le> 2000" using shown_text_length text_limit_bound order.trans by blast
  then have "desktop_ok (upd_window 0 (\<lambda>v. v\<lparr>win_content := put_str ?t (win_content v), win_cursor := length ?t\<rparr>) s)"
    using ok by (intro desktop_window) (simp_all add: win_ok_def put_str_length)
  then show "desktop_ok (snd (run_state (do { t \<leftarrow> peek (shown_text (text_limit sz));
     modify (upd_window 0 (\<lambda>v. v\<lparr>win_content := put_str t (win_content v), win_cursor := length t\<rparr>)) }) s))"
    by simp
qed

lemma kept_save [kept]: "preserves desktop_ok (save_as_file hw)" "preserves desktop_ok (create_folder hw)"
  "preserves desktop_ok (notepad_save hw)" "preserves desktop_ok open_save_as" "preserves desktop_ok (choose_step n)"
  unfolding save_as_file_def create_folder_def notepad_save_def open_save_as_def choose_step_def Let_def
  by (intro preserving kept; simp)+

lemma kept_clipboard [kept]: "preserves desktop_ok (new_app_file hw)" "preserves desktop_ok (copy_entry hw w i)"
  "preserves desktop_ok (paste_clipboard hw w)"
  unfolding new_app_file_def copy_entry_def paste_clipboard_def Let_def
  by (intro preserving kept; simp)+

lemma kept_open [kept]: "preserves desktop_ok (open_text hw w i)" "preserves desktop_ok (open_entry hw I w i)"
proof -
  show t: "preserves desktop_ok (open_text hw w i)" for w i
    unfolding open_text_def by (intro preserving kept; simp)
  have "preserves desktop_ok (load_and_run_bin cs ss l n)" for cs ss l n
    unfolding load_and_run_bin_def by (intro preserving kept frame_create_task desktop_shell_frame)
  then show "preserves desktop_ok (open_entry hw I w i)"
    unfolding open_entry_def by (intro preserving kept t; simp)
qed

lemma kept_nav [kept]: "preserves desktop_ok folder_back" "preserves desktop_ok page_prev" "preserves desktop_ok page_next"
  "preserves desktop_ok page_refresh" "preserves desktop_ok close_drive"
  unfolding folder_back_def page_prev_def page_next_def page_refresh_def close_drive_def
  by (intro preserves_modify; simp)+

lemma touches_identify_wait: "touches_hw (identify_wait hw port n)"
  by (induction n) (auto intro!: hw_only)

lemma kept_mount [kept]: "preserves desktop_ok (select_drive hw i)" "preserves desktop_ok (format_cfs hw w)"
  "preserves desktop_ok (mount_drive fuel hw w)"
proof -
  have init: "preserves desktop_ok (ahci_init_port hw p n)" for p n
    unfolding ahci_init_port_def by (intro preserving kept kept_hw hw_only)
  show "preserves desktop_ok (select_drive hw i)" "preserves desktop_ok (format_cfs hw w)"
    unfolding select_drive_def format_cfs_def by (intro preserving kept init; simp)+
  have "preserves desktop_ok (ahci_identify fuel hw b)" for b
    unfolding ahci_identify_def Let_def by (intro preserving kept kept_hw hw_only touches_identify_wait)
  moreover have "preserves desktop_ok (load_cfs hw w)"
    unfolding load_cfs_def by (intro preserving kept; simp split: prod.split)
  moreover have "preserves desktop_ok (load_ntfs hw w)"
    unfolding load_ntfs_def ntfs_target_def gpt_ntfs_def cache_record_def Let_def by (intro preserving kept; simp)
  ultimately show "preserves desktop_ok (mount_drive fuel hw w)"
    unfolding mount_drive_def Let_def by (intro preserving kept; simp)
qed

subsection \<open>The windows keep the kernel in order\<close>

lemma kept_act [kept]: "preserves desktop_ok c \<Longrightarrow> preserves desktop_ok (act a x y w h c)"
  unfolding act_def by (intro preserving)

lemma kept_running [kept]: "preserves desktop_ok c \<Longrightarrow> preserves desktop_ok (while_running c)"
  unfolding while_running_def by (intro preserving)

lemma kept_stop [kept]: "preserves desktop_ok (stop_when b)"
  unfolding stop_when_def by (intro preserving) simp

lemma kept_toggles [kept]: "preserves desktop_ok (system_toggles active wx y)" "preserves desktop_ok (system_info mid wx wy ww)"
  unfolding system_toggles_def system_info_def Let_def by (intro preserving kept; simp)+

lemma kept_oracle_button [kept]: "preserves desktop_ok (oracle_button active x y)"
proof -
  have "desktop_ok (s\<lparr>sys_selected_item := 0\<rparr>) = desktop_ok s" if "desktop_ok s" for s :: "('a, 'b) scene_scheme"
    using that by (simp add: desktop_unfold)
  then show ?thesis unfolding oracle_button_def by (intro preserving kept; simp)
qed

lemma kept_dhcp_button [kept]: "preserves desktop_ok (dhcp_button hw N active x y)"
proof -
  have "preserves desktop_ok (net_check_link hw)" unfolding net_check_link_def
    by (intro preserving kept kept_hw hw_only)
  then show ?thesis unfolding dhcp_button_def
    by (intro preserving kept net_frame_send(1) desktop_net_frame)
qed

lemma kept_scans [kept]: "preserves desktop_ok (scan_pci_class hw c p)" "preserves desktop_ok (system_init_usb hw)"
proof -
  show "preserves desktop_ok (scan_pci_class hw c p)" by (rule kept_hw) (rule touches_pci_scans)
  show "preserves desktop_ok (system_init_usb hw)" unfolding system_init_usb_def set_hw_usb_def
    by (intro preserving kept_hw touches_find) (auto simp: is_xhci_def intro!: hw_only touches_pci)
qed

lemma kept_rows [kept]: "preserves desktop_ok (hardware_rows hw N active wx wy ww sel)"
  unfolding hardware_rows_def Let_def by (intro preserving kept; simp)

lemma kept_tasks [kept]: "preserves desktop_ok (task_rows wx ts y)"
  unfolding task_row_def
proof (induction ts arbitrary: y)
  case (Cons t ts)
  show ?case unfolding task_rows.simps task_row_def by (intro preserving kept Cons.IH)
qed (simp add: preserving)

lemma kept_power [kept]: "preserves desktop_ok (power_buttons hw active wx wy ww wh)"
  unfolding power_buttons_def system_reboot_def system_shutdown_def by (intro preserving kept kept_hw hw_only)

lemma system_kept [kept]: "preserves desktop_ok (system_window hw N wx wy ww wh)"
  unfolding system_window_def Let_def by (intro preserving kept)

lemma kept_refresh [kept]: "preserves desktop_ok refresh_list"
proof -
  have "desktop_ok t" if "desktop_ok s" "browse_ntfs s = Some t" for s t :: "('a, 'b) desktop_scheme"
    using that by (auto simp: browse_ntfs_def Let_def split: if_splits simp del: upt_rec_numeral)
  then show ?thesis unfolding refresh_list_def by (intro preserves_modify) (simp split: option.split)
qed

lemma kept_file_rows [kept]: "preserves desktop_ok (file_rows hw I active wx us y)"
proof (induction us arbitrary: y)
  case (Cons i us)
  show ?case unfolding file_rows.simps file_row_def by (intro preserving kept Cons.IH)
qed (simp add: preserving)

lemma kept_drive_info [kept]: "preserves desktop_ok (drive_info wx wy w)"
  unfolding drive_info_def by (intro preserving kept)

lemma kept_edit_buttons [kept]: "preserves desktop_ok (edit_buttons hw active wx wy)"
  unfolding edit_buttons_def by (intro preserving kept)

lemma kept_nav_button [kept]: "preserves desktop_ok go \<Longrightarrow> preserves desktop_ok (nav_button active x y w c tx label go)"
  unfolding nav_button_def by (intro preserving kept)

lemma kept_folder_nav [kept]: "preserves desktop_ok (folder_nav active wx wy)"
  unfolding folder_nav_def by (intro preserving kept)

lemma kept_drive_list [kept]: "preserves desktop_ok (drive_list hw fuel active wx wy)"
  unfolding drive_list_def drive_row_def by (intro preserving kept)

lemma disk_kept [kept]: "preserves desktop_ok (disk_window hw I fuel w wx wy)"
  unfolding disk_window_def by (intro preserving kept)

lemma notepad_kept [kept]: "preserves desktop_ok (notepad_window hw w wx wy ww)"
  unfolding notepad_window_def by (intro preserving kept)

lemma save_kept [kept]: "preserves desktop_ok (save_window hw wx wy ww wh)"
  unfolding save_window_def choose_view_def name_row_def Let_def by (intro preserving kept)

subsection \<open>The command window and the applications\<close>

definition console_reads :: "char \<Rightarrow> char option" where
  "console_reads c = (if printable c then Some c else None)"

interpretation console_input: line_editor console_press "\<lambda>c. c = CHR 0x08" console_reads 64 60
proof
  fix l k assume "line_ok 64 60 l"
  moreover have "console_reads k \<noteq> Some (CHR 0x00)" by (auto simp: console_reads_def printable_def)
  ultimately have "line_ok 64 60 (console_press k l) \<and> line_text (console_press k l) = typed 60 (k = CHR 0x08) (console_reads k) (line_text l)"
    by (intro line_press) (auto simp: console_press_def console_reads_def)
  then show "line_ok 64 60 (console_press k l)" and "line_text (console_press k l) = typed 60 (k = CHR 0x08) (console_reads k) (line_text l)"
    by simp_all
qed

lemma desktop_line:
  assumes "desktop_ok s" "line_ok 64 60 (t, i)"
  shows "desktop_ok (s\<lparr>cmd_input_buf := t, cmd_input_idx := i\<rparr>)" "desktop_ok (s\<lparr>cmd_input_idx := i, cmd_input_buf := t\<rparr>)"
  using assms line_ok_pair [OF assms(2)] by (simp_all add: desktop_unfold)

lemma desktop_console: "desktop_ok s \<Longrightarrow> desktop_ok (cmd_edit (console_press c) s)"
proof -
  assume ok: "desktop_ok s"
  obtain t i where p: "console_press c (cmd_input_buf s, cmd_input_idx s) = (t, i)" by fastforce
  have "line_ok 64 60 (cmd_input_buf s, cmd_input_idx s)" using ok by (simp add: desktop_unfold)
  then have "line_ok 64 60 (t, i)" using console_input.press_ok [of "(cmd_input_buf s, cmd_input_idx s)" c] p by simp
  then show ?thesis using desktop_line [OF ok] p by (simp add: cmd_edit_def)
qed

lemma desktop_cleared: "desktop_ok s \<Longrightarrow> desktop_ok (s\<lparr>cmd_input_idx := 0, cmd_input_buf := (cmd_input_buf s)[0 := CHR 0x00]\<rparr>)"
  by (rule desktop_line(2)) (auto simp: desktop_unfold line_ok_def line_text_def)

lemma kept_print [kept]: "preserves desktop_ok (print_m t)"
  unfolding print_m_def by (intro preserves_modify) (simp add: sys_print_def Let_def desktop_unfold)

lemma kept_exec [kept]: "preserves desktop_ok (exec_line hw line)"
proof -
  have "desktop_ok (clear_screen s) = desktop_ok s" for s :: "('a, 'b) scene_scheme"
    by (simp add: clear_screen_def desktop_unfold)
  then show ?thesis unfolding exec_line_def script_mkdir_def script_list_def
    by (intro preserving kept kept_hw hw_only; simp)
qed

lemma kept_script [kept]: "preserves desktop_ok (run_cosmos_script hw line t)"
proof -
  have "preserves desktop_ok (script_loop hw t us lp)" for us lp
  proof (induction us arbitrary: lp)
    case (Cons u us)
    show ?case unfolding script_loop.simps script_char_def Let_def split_beta
      by (intro preserving kept Cons.IH)
  qed (simp add: preserving)
  then show ?thesis unfolding run_cosmos_script_def by (intro preserving kept)
qed

lemma cmd_kept [kept]: "preserves desktop_ok (cmd_window hw line w wx wy)"
  unfolding cmd_window_def console_step_def console_key_def Let_def
  by (intro preserving kept; simp add: desktop_console desktop_cleared)

text \<open>The engines leave alone what the background adds to their state.\<close>

lemma apps_free:
  "arcade.more (upd_pong f s) = arcade.more s" "arcade.more (upd_blobby g s) = arcade.more s"
  "arcade.more (url_edit s) = arcade.more s" "arcade.more (ip_edit s) = arcade.more s"
  by (simp_all add: upd_pong_def upd_blobby_def url_edit_def ip_edit_def split: prod.split)

lemma apps_free_hw: "touches_hw c \<Longrightarrow> preserves (\<lambda>s. arcade.more s = x) c"
  by (rule preserves_hw) simp_all

lemma apps_free_parts:
  "preserves (\<lambda>s. arcade.more s = x) (poke f)" "preserves (\<lambda>s. arcade.more s = x) (centred u v t c)"
  "preserves (\<lambda>s. arcade.more s = x) (set_cooldown n)" "preserves (\<lambda>s. arcade.more s = x) (set_status t)"
  "preserves (\<lambda>s. arcade.more s = x) (hover_button u v w tx l c d)" "preserves (\<lambda>s. arcade.more s = x) (input_row u v w b t i)"
  unfolding centred_def set_cooldown_def set_status_def hover_button_def input_row_def
  by (intro preserving apps_free_hw hw_only; simp)+

lemma browser_free: "preserves (\<lambda>s. arcade.more s = x) (run_browser_engine hw N wx wy ww wh blocked)"
proof -
  have "net_frame (\<lambda>s. arcade.more s = x)" by (simp add: net_frame_def set_info_def)
  then show ?thesis unfolding run_browser_engine_def web_view_def config_view_def set_content_def set_netcfg_def
    by (intro preserving apps_free_parts net_frame_send(2); simp add: apps_free)
qed

lemma menu_free:
  assumes "\<And>v s. arcade.more (set_mode v s) = arcade.more s" "\<And>v s. arcade.more (set_diff v s) = arcade.more s"
    and "\<And>s. arcade.more (start s) = arcade.more s"
  shows "preserves (\<lambda>s. arcade.more s = x) (game_menu t h l mid py y mode set_mode diff set_diff start)"
  unfolding game_menu_def choice_def by (intro preserving apps_free_parts; simp add: assms)

lemma pong_free: "preserves (\<lambda>s. arcade.more s = x) (run_pong_engine hw wx wy ww wh blocked)"
  unfolding run_pong_engine_def pong_play_def pong_turn_def draw_scores_def Let_def
  by (intro preserving menu_free apps_free_parts apps_free_hw [OF touches_sounds]) (simp_all add: apps_free split: prod.split)

lemma blobby_free: "preserves (\<lambda>s. arcade.more s = x) (run_blobby_engine hw wx wy ww wh blocked)"
  unfolding run_blobby_engine_def blobby_play_def blobby_turn_def draw_scores_def draw_blob_def draw_eye_def Let_def
  by (intro preserving menu_free apps_free_parts apps_free_hw [OF touches_sounds]) (simp_all add: apps_free split: prod.split)

lemma launcher_free: "preserves (\<lambda>s. arcade.more s = x) (app_launcher wx wy ww blocked)"
  unfolding app_launcher_def launch_button_def open_app_def
  by (intro preserving apps_free_parts) (simp_all add: apps_free upd_window_def)

lemma desktop_free:
  fixes c :: "(('a, 'b) scene_scheme, 'c) state"
  assumes "\<And>x. preserves (\<lambda>s. arcade.more s = x) c" "preserves arcade_ok c"
  shows "preserves desktop_ok c"
  unfolding preserves_def
proof (intro allI impI)
  fix s :: "('a, 'b) scene_scheme"
  assume ok: "desktop_ok s"
  let ?t = "snd (run_state c s)"
  have "arcade.more ?t = arcade.more s" by (rule preservesD [OF assms(1)]) simp
  then have "scene_ok ?t = scene_ok s" by (cases ?t; cases s; simp add: scene_ok_def)
  moreover have "arcade_ok ?t" by (rule preservesD [OF assms(2)]) (use ok in \<open>simp add: desktop_ok_def\<close>)
  ultimately show "desktop_ok ?t" using ok by (simp add: desktop_ok_def)
qed

lemma engines_kept [kept]:
  "preserves desktop_ok (run_browser_engine hw N wx wy ww wh blocked)"
  "0 \<le> ww \<Longrightarrow> preserves desktop_ok (run_pong_engine hw wx wy ww wh blocked)"
  "90 \<le> wh \<Longrightarrow> preserves desktop_ok (run_blobby_engine hw wx wy ww wh blocked)"
  "preserves desktop_ok (app_launcher wx wy ww blocked)"
  by (rule desktop_free [OF browser_free run_browser_arcade] desktop_free [OF pong_free run_pong_leads(1)]
      desktop_free [OF blobby_free run_blobby_leads(1)] desktop_free [OF launcher_free launcher_arcade]; assumption?)+

subsection \<open>The whole loop\<close>

lemma shown_window_ok:
  assumes "desktop_ok s" "i < 13"
  shows "win_z s ! i < 13 \<and> win_ok (windows s ! (win_z s ! i))"
proof -
  have z: "set (win_z s) = {0..<13}" "length (win_z s) = 13" using assms(1) by (simp_all add: desktop_unfold z_ok_def)
  then have "win_z s ! i < 13" using nth_mem [of i "win_z s"] assms(2) by auto
  then show ?thesis using assms(1) by (simp add: desktop_unfold)
qed

lemma window_size: "win_ok w \<Longrightarrow> win_rect w = (wx, wy, ww, wh) \<Longrightarrow> 0 \<le> ww \<and> 90 \<le> wh"
  by (auto simp: win_ok_def win_rect_def split: if_splits)

lemma window_kept: "i < 13 \<Longrightarrow> preserves desktop_ok (show_window hw U m i)"
  unfolding preserves_def
proof (intro allI impI)
  fix s :: "('a, 'b) desktop_scheme"
  assume i: "i < 13" and ok: "desktop_ok s"
  let ?k = "win_z s ! i" and ?w = "windows s ! (win_z s ! i)"
  obtain wx wy ww wh where r: "win_rect ?w = (wx, wy, ww, wh)" by (cases "win_rect ?w") auto
  have size: "0 \<le> ww" "90 \<le> wh" using window_size [OF _ r] shown_window_ok [OF ok i] by simp_all
  have "preserves desktop_ok (do { draw_frame ?w wx wy ww wh; window_body hw U ?w wx wy ww wh (m \<and> ?k \<noteq> 2) } :: (('a, 'b) desktop_scheme, unit) state)"
    unfolding draw_frame_def window_body_def Let_def by (intro preserving kept size)
  from preservesD [OF this ok] show "desktop_ok (snd (run_state (show_window hw U m i) s))"
    using ok by (simp add: show_window_def r)
qed

lemma windows_kept [kept]: "preserves desktop_ok (show_windows hw U)"
  unfolding show_windows_def by (intro preserving kept window_kept) simp

lemma finish_kept [kept]: "preserves desktop_ok (finish_frame U)"
  unfolding finish_frame_def draw_oracle_def oracle_row_def by (intro preserving kept; simp)

lemma input_kept [kept]: "preserves desktop_ok (input_part hw N I)"
  unfolding preserves_def
proof (intro allI impI)
  fix s :: "('a, 'b) scene_scheme"
  assume ok: "desktop_ok s"
  let ?t = "snd (run_state (input_part hw N I) s)"
  have "keys.more ?t = keys.more s" by (rule preservesD [OF input_part_more]) simp
  then have "scene_ok ?t = scene_ok s" by (cases ?t; cases s; simp add: scene_ok_def)
  moreover have "arcade_ok ?t" by (rule preservesD [OF input_part_arcade]) (use ok in \<open>simp add: desktop_ok_def\<close>)
  ultimately show "desktop_ok ?t" using ok by (simp add: desktop_ok_def)
qed

lemma scene_kept [kept]: "preserves desktop_ok draw_scene"
  unfolding preserves_def
proof (intro allI impI)
  fix s :: "('a, 'b) scene_scheme"
  assume "desktop_ok s"
  then have "scene_frame (ram s) (dev s) s" by (simp add: desktop_ok_def scene_frame_def)
  then have "scene_frame (ram s) (dev s) (snd (run_state draw_scene s))" by (rule preservesD [OF draw_scene_frame])
  then show "desktop_ok (snd (run_state draw_scene s))" by (simp add: desktop_ok_def scene_frame_def)
qed

lemma frames_kept: "preserves desktop_ok (run_desktop hw U n)"
  unfolding run_desktop_def desktop_frame_def by (intro preserving kept)

subsection \<open>The desktop on a running kernel\<close>

definition start_desktop :: "ref_disk desktop" where
  "start_desktop = scene.extend start_scene (desktop.fields 0 0 ''COSMOS'' False)"

lemma start_desktop_ok: "desktop_ok start_desktop"
proof -
  have "desktop_ok start_desktop = desktop_ok start_scene"
    by (simp add: desktop_unfold start_desktop_def scene.defs desktop.defs)
  then show ?thesis using start_scene_ok by (simp add: desktop_ok_def)
qed




text \<open>
  The button OPEN 64-BIT ORACLE of the SYSTEM window stores the scancode of ENTER without marking it
  as new: the next step of the keyboard does nothing, and the hardware list does not open.
\<close>

theorem oracle_button_opens_nothing:
  assumes "\<not> key_ready s" "input_cooldown s = 0" "pressed_on x y 250 30 s"
  shows "let t = snd (run_state (oracle_button True x y) s) in
    key_scancode t = 0x1C \<and> snd (run_state (key_step hw I) t) = t \<and> show_oracle t = show_oracle s"
  using assms by (simp add: oracle_button_def show_box_def show_text_def act_def key_step_def pressed_on_def over_def Let_def)

end
